(* ===== verification/Prelude.thy ===== *)
theory Prelude
  imports Main
begin

text \<open>
  Shared vocabulary of the development: the exceptions the server throws as a datatype, the
  effect type of an operation (a state transformer whose result is an exception or a value, the
  state surviving an exception exactly as database writes survive a later \<open>throw\<close>), the
  combinators the components are written with, and the generic facts their proofs share.
\<close>

section \<open>Exceptions\<close>

text \<open>
  The Nest exceptions carry their message; \<open>PrismaE\<close> carries the code of a known request error
  (P2002 unique violation, P2003 foreign key, P2025 missing record), \<open>JsError\<close> is any other
  thrown value, which Nest answers with a 500.
\<close>

datatype err =
    BadRequestE string
  | UnauthorizedE string
  | ForbiddenE string
  | NotFoundE string
  | ConflictE string
  | UnprocessableE string
  | TooManyE string
  | InternalE string
  | PrismaE string
  | JsError string

fun http_status :: "err \<Rightarrow> nat option" where
  "http_status (BadRequestE _) = Some 400"
| "http_status (UnauthorizedE _) = Some 401"
| "http_status (ForbiddenE _) = Some 403"
| "http_status (NotFoundE _) = Some 404"
| "http_status (ConflictE _) = Some 409"
| "http_status (UnprocessableE _) = Some 422"
| "http_status (TooManyE _) = Some 429"
| "http_status (InternalE _) = Some 500"
| "http_status (PrismaE _) = None"
| "http_status (JsError _) = None"

fun err_message :: "err \<Rightarrow> string" where
  "err_message (BadRequestE m) = m"
| "err_message (UnauthorizedE m) = m"
| "err_message (ForbiddenE m) = m"
| "err_message (NotFoundE m) = m"
| "err_message (ConflictE m) = m"
| "err_message (UnprocessableE m) = m"
| "err_message (TooManyE m) = m"
| "err_message (InternalE m) = m"
| "err_message (PrismaE m) = m"
| "err_message (JsError m) = m"

text \<open>\<open>new ForbiddenException()\<close> and \<open>new UnauthorizedException()\<close> carry Nest's default text.\<close>

abbreviation forbidden :: err where
  "forbidden \<equiv> ForbiddenE ''Forbidden''"

abbreviation unauthorized :: err where
  "unauthorized \<equiv> UnauthorizedE ''Unauthorized''"

section \<open>Effects\<close>

type_synonym ('s, 'a) eff = "'s \<Rightarrow> (err + 'a) \<times> 's"

definition ret :: "'a \<Rightarrow> ('s, 'a) eff" where
  "ret a = (\<lambda>s. (Inr a, s))"

definition raise :: "err \<Rightarrow> ('s, 'a) eff" where
  "raise e = (\<lambda>s. (Inl e, s))"

definition bindE :: "('s, 'a) eff \<Rightarrow> ('a \<Rightarrow> ('s, 'b) eff) \<Rightarrow> ('s, 'b) eff" where
  "bindE m k = (\<lambda>s. case m s of (Inl e, s') \<Rightarrow> (Inl e, s') | (Inr a, s') \<Rightarrow> k a s')"

definition thenE :: "('s, 'a) eff \<Rightarrow> ('s, 'b) eff \<Rightarrow> ('s, 'b) eff" where
  "thenE m n = bindE m (\<lambda>_. n)"

definition readE :: "('s \<Rightarrow> 'a) \<Rightarrow> ('s, 'a) eff" where
  "readE f = (\<lambda>s. (Inr (f s), s))"

definition liftR :: "('s \<Rightarrow> err + 'a) \<Rightarrow> ('s, 'a) eff" where
  "liftR f = (\<lambda>s. (f s, s))"

definition modifyE :: "('s \<Rightarrow> 's) \<Rightarrow> ('s, unit) eff" where
  "modifyE f = (\<lambda>s. (Inr (), f s))"

text \<open>A lookup that throws when nothing is found.\<close>

definition findE :: "('s \<Rightarrow> 'a option) \<Rightarrow> err \<Rightarrow> ('s, 'a) eff" where
  "findE f e = (\<lambda>s. case f s of None \<Rightarrow> (Inl e, s) | Some a \<Rightarrow> (Inr a, s))"

text \<open>\<open>try ... catch\<close>: the handler runs in the state the failing body left behind.\<close>

definition catchE :: "('s, 'a) eff \<Rightarrow> (err \<Rightarrow> ('s, 'a) eff) \<Rightarrow> ('s, 'a) eff" where
  "catchE m h = (\<lambda>s. case m s of (Inl e, s') \<Rightarrow> h e s' | (Inr a, s') \<Rightarrow> (Inr a, s'))"

text \<open>\<open>prisma.$transaction\<close>: an exception inside rolls every write back.\<close>

definition transaction :: "('s, 'a) eff \<Rightarrow> ('s, 'a) eff" where
  "transaction m = (\<lambda>s. case m s of (Inl e, s') \<Rightarrow> (Inl e, s) | (Inr a, s') \<Rightarrow> (Inr a, s'))"

fun for_each :: "'a list \<Rightarrow> ('a \<Rightarrow> ('s, 'b) eff) \<Rightarrow> ('s, unit) eff" where
  "for_each [] f = ret ()"
| "for_each (x # xs) f = thenE (f x) (for_each xs f)"

section \<open>Rules for effects\<close>

named_theorems eff_simps \<open>what an effect returns, one combinator at a time\<close>
named_theorems keeps_intros \<open>an invariant survives every outcome of an effect\<close>

lemma ret_apply [simp]: "ret a s = (Inr a, s)"
  by (simp add: ret_def)

lemma raise_apply [simp]: "raise e s = (Inl e, s)"
  by (simp add: raise_def)

lemma readE_apply [simp]: "readE f s = (Inr (f s), s)"
  by (simp add: readE_def)

lemma liftR_apply [simp]: "liftR f s = (f s, s)"
  by (simp add: liftR_def)

lemma modifyE_apply [simp]: "modifyE f s = (Inr (), f s)"
  by (simp add: modifyE_def)

lemma bindE_Inr [simp]: "m s = (Inr a, s') \<Longrightarrow> bindE m k s = k a s'"
  by (simp add: bindE_def)

lemma bindE_Inl [simp]: "m s = (Inl e, s') \<Longrightarrow> bindE m k s = (Inl e, s')"
  by (simp add: bindE_def)

lemma bindE_ok [eff_simps]:
  "bindE m k s = (Inr b, t) \<longleftrightarrow> (\<exists>a s'. m s = (Inr a, s') \<and> k a s' = (Inr b, t))"
  by (auto simp: bindE_def split: prod.splits sum.splits)

lemma bindE_err [eff_simps]:
  "bindE m k s = (Inl e, t) \<longleftrightarrow>
     m s = (Inl e, t) \<or> (\<exists>a s'. m s = (Inr a, s') \<and> k a s' = (Inl e, t))"
  by (auto simp: bindE_def split: prod.splits sum.splits)

lemma thenE_ok [eff_simps]:
  "thenE m n s = (Inr b, t) \<longleftrightarrow> (\<exists>a s'. m s = (Inr a, s') \<and> n s' = (Inr b, t))"
  by (simp add: thenE_def eff_simps)

lemma thenE_err [eff_simps]:
  "thenE m n s = (Inl e, t) \<longleftrightarrow>
     m s = (Inl e, t) \<or> (\<exists>a s'. m s = (Inr a, s') \<and> n s' = (Inl e, t))"
  by (simp add: thenE_def eff_simps)

lemma findE_ok [eff_simps]: "findE f e s = (Inr a, t) \<longleftrightarrow> f s = Some a \<and> t = s"
  by (auto simp: findE_def split: option.splits)

lemma findE_err [eff_simps]: "findE f e s = (Inl e', t) \<longleftrightarrow> f s = None \<and> e' = e \<and> t = s"
  by (auto simp: findE_def split: option.splits)

lemma catchE_ok [eff_simps]:
  "catchE m h s = (Inr a, t) \<longleftrightarrow>
     m s = (Inr a, t) \<or> (\<exists>e s'. m s = (Inl e, s') \<and> h e s' = (Inr a, t))"
  by (auto simp: catchE_def split: prod.splits sum.splits)

lemma catchE_err [eff_simps]:
  "catchE m h s = (Inl e, t) \<longleftrightarrow> (\<exists>e' s'. m s = (Inl e', s') \<and> h e' s' = (Inl e, t))"
  by (auto simp: catchE_def split: prod.splits sum.splits)

lemma transaction_ok [eff_simps]: "transaction m s = (Inr a, t) \<longleftrightarrow> m s = (Inr a, t)"
  by (auto simp: transaction_def split: prod.splits sum.splits)

lemma transaction_err [eff_simps]:
  "transaction m s = (Inl e, t) \<longleftrightarrow> t = s \<and> (\<exists>s'. m s = (Inl e, s'))"
  by (auto simp: transaction_def split: prod.splits sum.splits)

text \<open>An effect keeps an invariant when it does so however it ends.\<close>

definition keeps :: "('s \<Rightarrow> bool) \<Rightarrow> ('s, 'a) eff \<Rightarrow> bool" where
  "keeps I m \<longleftrightarrow> (\<forall>s. I s \<longrightarrow> I (snd (m s)))"

lemma keepsI: "(\<And>s r t. I s \<Longrightarrow> m s = (r, t) \<Longrightarrow> I t) \<Longrightarrow> keeps I m"
  unfolding keeps_def by (metis surjective_pairing)

lemma keepsD: "keeps I m \<Longrightarrow> I s \<Longrightarrow> m s = (r, t) \<Longrightarrow> I t"
  by (force simp: keeps_def)

lemma keeps_ret [keeps_intros]: "keeps I (ret a)"
  and keeps_raise [keeps_intros]: "keeps I (raise e)"
  and keeps_readE [keeps_intros]: "keeps I (readE f)"
  and keeps_liftR [keeps_intros]: "keeps I (liftR g)"
  and keeps_findE [keeps_intros]: "keeps I (findE h e)"
  by (auto simp: keeps_def findE_def split: option.splits)

lemma keeps_modifyE: "(\<And>s. I s \<Longrightarrow> I (f s)) \<Longrightarrow> keeps I (modifyE f)"
  by (simp add: keeps_def)

lemma keeps_bindE [keeps_intros]:
  "keeps I m \<Longrightarrow> (\<And>a. keeps I (k a)) \<Longrightarrow> keeps I (bindE m k)"
  unfolding keeps_def bindE_def by (fastforce split: prod.splits sum.splits)

lemma keeps_thenE [keeps_intros]: "keeps I m \<Longrightarrow> keeps I n \<Longrightarrow> keeps I (thenE m n)"
  by (simp add: thenE_def keeps_bindE)

lemma keeps_catchE [keeps_intros]:
  "keeps I m \<Longrightarrow> (\<And>e. keeps I (h e)) \<Longrightarrow> keeps I (catchE m h)"
  unfolding keeps_def catchE_def by (fastforce split: prod.splits sum.splits)

lemma keeps_transaction [keeps_intros]: "keeps I m \<Longrightarrow> keeps I (transaction m)"
  unfolding keeps_def transaction_def by (fastforce split: prod.splits sum.splits)

lemma keeps_if [keeps_intros]:
  "(b \<Longrightarrow> keeps I m) \<Longrightarrow> (\<not> b \<Longrightarrow> keeps I n) \<Longrightarrow> keeps I (if b then m else n)"
  by simp

lemma keeps_case_option [keeps_intros]:
  "keeps I m \<Longrightarrow> (\<And>a. keeps I (k a)) \<Longrightarrow> keeps I (case x of None \<Rightarrow> m | Some a \<Rightarrow> k a)"
  by (cases x) simp_all

lemma keeps_for_each [keeps_intros]: "(\<And>x. keeps I (f x)) \<Longrightarrow> keeps I (for_each xs f)"
  by (induction xs) (auto intro: keeps_intros)

text \<open>Effects that never write.\<close>

definition read_only :: "('s, 'a) eff \<Rightarrow> bool" where
  "read_only m \<longleftrightarrow> (\<forall>s. snd (m s) = s)"

lemma read_only_state: "read_only m \<Longrightarrow> m s = (r, t) \<Longrightarrow> t = s"
  by (metis read_only_def snd_conv)

section \<open>Lists and options\<close>

lemma find_Some_iff: "find P xs = Some x \<Longrightarrow> x \<in> set xs \<and> P x"
  by (induction xs) (auto split: if_splits)

lemma find_None_all: "find P xs = None \<longleftrightarrow> (\<forall>x \<in> set xs. \<not> P x)"
  by (induction xs) auto

lemma find_snoc:
  "find P (xs @ [r]) = (case find P xs of Some x \<Rightarrow> Some x | None \<Rightarrow> if P r then Some r else None)"
  by (induction xs) auto

lemma find_map_same_key:
  "(\<And>r. key (f r) = key r) \<Longrightarrow>
     find (\<lambda>r. key r = k) (map f rs) = map_option f (find (\<lambda>r. key r = k) rs)"
  by (induction rs) auto

lemma find_unique:
  "distinct (map f xs) \<Longrightarrow> x \<in> set xs \<Longrightarrow> find (\<lambda>y. f y = f x) xs = Some x"
  by (induction xs) (auto simp: image_iff)

lemma distinct_map_eq:
  "distinct (map f xs) \<Longrightarrow> x \<in> set xs \<Longrightarrow> y \<in> set xs \<Longrightarrow> f x = f y \<Longrightarrow> x = y"
  by (induction xs) (auto simp: image_iff)

lemma distinct_all_same:
  assumes "distinct (map f xs)" "\<And>x y. x \<in> set xs \<Longrightarrow> y \<in> set xs \<Longrightarrow> f x = f y"
  shows "length xs \<le> 1"
proof (cases xs)
  case (Cons x ys)
  show ?thesis
  proof (cases ys)
    case (Cons y zs)
    with \<open>xs = x # ys\<close> have "f x = f y" "f x \<noteq> f y" using assms by auto
    then show ?thesis by simp
  qed (simp add: \<open>xs = x # ys\<close>)
qed simp

lemma distinct_map_filter_keys: "distinct (map f xs) \<Longrightarrow> distinct (map f (filter P xs))"
  by (induction xs) auto

lemma map_key_same:
  "(\<And>x. f (g x) = f x) \<Longrightarrow> map f (map (\<lambda>x. if P x then g x else x) xs) = map f xs"
  by (induction xs) auto

end
