(* ===== verification/Js_Text.thy ===== *)
theory Js_Text
  imports Prelude "HOL-Library.Char_ord" "HOL-Library.List_Lexorder"
begin

text \<open>
  The string operations of the JavaScript standard library that the sources use, on strings of
  Latin-1 code units (a HOL \<open>char\<close> is one code unit below 256; code units above that are outside
  the model). \<open>Array.prototype.sort\<close> on strings compares code units, which is the lexicographic
  order the library theories give to \<open>char list\<close>.
\<close>

definition char_code :: "char \<Rightarrow> nat" where
  "char_code c = of_char c"

text \<open>\<open>\s\<close> in a regular expression, and what \<open>trim\<close> removes.\<close>

definition is_ws :: "char \<Rightarrow> bool" where
  "is_ws c \<longleftrightarrow> char_code c \<in> {9, 10, 11, 12, 13, 32, 160}"

definition is_digit :: "char \<Rightarrow> bool" where
  "is_digit c \<longleftrightarrow> 48 \<le> char_code c \<and> char_code c \<le> 57"

definition is_upper_az :: "char \<Rightarrow> bool" where
  "is_upper_az c \<longleftrightarrow> 65 \<le> char_code c \<and> char_code c \<le> 90"

definition is_lower_az :: "char \<Rightarrow> bool" where
  "is_lower_az c \<longleftrightarrow> 97 \<le> char_code c \<and> char_code c \<le> 122"

text \<open>\<open>s.split(/\s+/)\<close>: a run of whitespace is one separator; empty ends are kept.\<close>

fun drop_ws :: "string \<Rightarrow> string" where
  "drop_ws [] = []"
| "drop_ws (c # cs) = (if is_ws c then drop_ws cs else c # cs)"

lemma length_drop_ws [simp]: "length (drop_ws s) \<le> length s"
  by (induction s) auto

function split_ws :: "string \<Rightarrow> string list" where
  "split_ws [] = [[]]"
| "split_ws (c # cs) =
     (if is_ws c then [] # split_ws (drop_ws cs)
      else (case split_ws cs of [] \<Rightarrow> [[c]] | w # ws \<Rightarrow> (c # w) # ws))"
  by pat_completeness auto
termination
  by (relation "measure length") (auto simp: less_Suc_eq_le)

text \<open>\<open>s.split(/\s+/).filter(Boolean)\<close>\<close>

definition js_words :: "string \<Rightarrow> string list" where
  "js_words s = filter (\<lambda>w. w \<noteq> []) (split_ws s)"

text \<open>\<open>s.split(d)\<close> for a one-character separator.\<close>

fun split_on :: "char \<Rightarrow> string \<Rightarrow> string list" where
  "split_on d [] = [[]]"
| "split_on d (c # cs) =
     (if c = d then [] # split_on d cs
      else (case split_on d cs of [] \<Rightarrow> [[c]] | w # ws \<Rightarrow> (c # w) # ws))"

text \<open>\<open>ws.join(sep)\<close>\<close>

fun js_join :: "string \<Rightarrow> string list \<Rightarrow> string" where
  "js_join sep [] = []"
| "js_join sep [w] = w"
| "js_join sep (w # v # ws) = w @ sep @ js_join sep (v # ws)"

definition starts_with :: "string \<Rightarrow> string \<Rightarrow> bool" where
  "starts_with p s \<longleftrightarrow> take (length p) s = p"

definition ends_with :: "string \<Rightarrow> string \<Rightarrow> bool" where
  "ends_with p s \<longleftrightarrow> starts_with (rev p) (rev s)"

definition js_trim :: "string \<Rightarrow> string" where
  "js_trim s = rev (drop_ws (rev (drop_ws s)))"

definition lower_char :: "char \<Rightarrow> char" where
  "lower_char c =
     (if is_upper_az c \<or> (192 \<le> char_code c \<and> char_code c \<le> 222 \<and> char_code c \<noteq> 215)
      then char_of (char_code c + 32) else c)"

definition to_lower :: "string \<Rightarrow> string" where
  "to_lower s = map lower_char s"

text \<open>\<open>s.replace(/\/$/, '')\<close> and \<open>s.replace(/\/+$/, '')\<close>\<close>

definition strip_one_slash :: "string \<Rightarrow> string" where
  "strip_one_slash s = (if s \<noteq> [] \<and> last s = CHR ''/'' then butlast s else s)"

definition strip_slashes :: "string \<Rightarrow> string" where
  "strip_slashes s = rev (dropWhile (\<lambda>c. c = CHR ''/'') (rev s))"

text \<open>\<open>x || y\<close> on strings, and the falsy test \<open>!x\<close> on an optional string.\<close>

definition or_string :: "string \<Rightarrow> string \<Rightarrow> string" where
  "or_string x y = (if x = [] then y else x)"

fun truthy :: "string option \<Rightarrow> bool" where
  "truthy None = False"
| "truthy (Some s) = (s \<noteq> [])"

lemma truthy_iff: "truthy x \<longleftrightarrow> (\<exists>s. x = Some s \<and> s \<noteq> [])"
  by (cases x) auto

section \<open>Percent encoding\<close>

definition hex_digit :: "nat \<Rightarrow> char" where
  "hex_digit n = ''0123456789ABCDEF'' ! (n mod 16)"

definition pct :: "nat \<Rightarrow> string" where
  "pct b = [CHR ''%'', hex_digit (b div 16), hex_digit b]"

definition utf8_bytes :: "char \<Rightarrow> nat list" where
  "utf8_bytes c =
     (if char_code c < 128 then [char_code c] else [192 + char_code c div 64, 128 + char_code c mod 64])"

definition is_alnum :: "char \<Rightarrow> bool" where
  "is_alnum c \<longleftrightarrow> is_digit c \<or> is_upper_az c \<or> is_lower_az c"

definition uri_unreserved :: "char \<Rightarrow> bool" where
  "uri_unreserved c \<longleftrightarrow> is_alnum c \<or> c \<in> set ''-_.!~*'' \<or> char_code c \<in> {39, 40, 41}"

definition encode_uri_component :: "string \<Rightarrow> string" where
  "encode_uri_component s =
     concat (map (\<lambda>c. if uri_unreserved c then [c] else concat (map pct (utf8_bytes c))) s)"

text \<open>The \<open>application/x-www-form-urlencoded\<close> serializer behind \<open>URLSearchParams\<close>.\<close>

definition form_char :: "char \<Rightarrow> string" where
  "form_char c =
     (if is_alnum c \<or> c \<in> set ''*-._'' then [c]
      else if char_code c = 32 then ''+'' else concat (map pct (utf8_bytes c)))"

definition form_encode :: "string \<Rightarrow> string" where
  "form_encode s = concat (map form_char s)"

type_synonym params = "(string \<times> string) list"

definition params_to_string :: "params \<Rightarrow> string" where
  "params_to_string ps = js_join ''&'' (map (\<lambda>(k, v). form_encode k @ ''='' @ form_encode v) ps)"

text \<open>\<open>searchParams.set(k, v)\<close>: overwrite the first, drop the other occurrences, else append.\<close>

fun params_set :: "params \<Rightarrow> string \<Rightarrow> string \<Rightarrow> params" where
  "params_set [] k v = [(k, v)]"
| "params_set ((k', v') # ps) k v =
     (if k' = k then (k, v) # filter (\<lambda>p. fst p \<noteq> k) ps else (k', v') # params_set ps k v)"

section \<open>Facts about these operations\<close>

lemma params_set_lookup: "map_of (params_set ps k v) k = Some v"
  by (induction ps k v rule: params_set.induct) auto

lemma map_of_filter_other: "k' \<noteq> k \<Longrightarrow> map_of (filter (\<lambda>p. fst p \<noteq> k) ps) k' = map_of ps k'"
  by (induction ps) auto

lemma params_set_other: "k' \<noteq> k \<Longrightarrow> map_of (params_set ps k v) k' = map_of ps k'"
  by (induction ps k v rule: params_set.induct) (auto simp: map_of_filter_other)

lemma params_set_keys: "set (map fst (params_set ps k v)) = insert k (set (map fst ps))"
  by (induction ps k v rule: params_set.induct) force+

lemma split_on_join:
  assumes "ws \<noteq> []" and "\<And>w. w \<in> set ws \<Longrightarrow> d \<notin> set w"
  shows "split_on d (js_join [d] ws) = ws"
proof -
  have app: "d \<notin> set w \<Longrightarrow> split_on d (w @ d # s) = w # split_on d s" for w s
    by (induction w) auto
  have one: "d \<notin> set w \<Longrightarrow> split_on d w = [w]" for w
    by (induction w) auto
  show ?thesis
    using assms by (induction "[d]" ws rule: js_join.induct) (auto simp: app one)
qed

lemma drop_ws_no_ws: "\<not> is_ws c \<Longrightarrow> drop_ws (c # s) = c # s"
  by simp

lemma split_ws_app:
  "(\<forall>c \<in> set w. \<not> is_ws c) \<Longrightarrow> is_ws d \<Longrightarrow> split_ws (w @ d # s) = w # split_ws (drop_ws s)"
  by (induction w) auto

lemma split_ws_one: "(\<forall>c \<in> set w. \<not> is_ws c) \<Longrightarrow> split_ws w = [w]"
  by (induction w) auto

lemma is_ws_space [simp]: "is_ws CHR '' ''"
  by (simp add: is_ws_def char_code_def)

text \<open>Splitting at whitespace inverts joining with one blank, for words without whitespace.\<close>

lemma js_words_join:
  assumes "\<forall>w \<in> set ws. w \<noteq> [] \<and> (\<forall>c \<in> set w. \<not> is_ws c)"
  shows "js_words (js_join '' '' ws) = ws"
proof (cases "ws = []")
  case True
  then show ?thesis by (simp add: js_words_def)
next
  case False
  have "split_ws (js_join '' '' ws) = ws"
    using assms False
  proof (induction "'' ''" ws rule: js_join.induct)
    case (3 w v ws)
    have v: "v \<noteq> []" "\<forall>c \<in> set v. \<not> is_ws c" and w: "\<forall>c \<in> set w. \<not> is_ws c"
      using "3.prems"(1) by simp_all
    have "drop_ws (js_join '' '' (v # ws)) = js_join '' '' (v # ws)"
      using v by (cases v; cases ws) auto
    with 3 w show ?case by (simp add: split_ws_app)
  qed (auto simp: split_ws_one)
  then show ?thesis
    using assms by (simp add: js_words_def filter_id_conv)
qed

lemma to_lower_bearer [simp]: "to_lower ''Bearer'' = ''bearer''"
  by code_simp

lemma mem_js_words: "w \<in> set (js_words s) \<longleftrightarrow> w \<in> set (split_ws s) \<and> w \<noteq> []"
  by (auto simp: js_words_def)

text \<open>What \<open>Array.from(new Set(xs)).sort()\<close> returns.\<close>

definition sort_unique :: "string list \<Rightarrow> string list" where
  "sort_unique xs = sort (remdups xs)"

lemma sort_unique_props [simp]:
  "set (sort_unique xs) = set xs" "distinct (sort_unique xs)" "sorted (sort_unique xs)"
  by (simp_all add: sort_unique_def)

end
