(* ===== verification/Json.thy ===== *)
theory Json
  imports Js_Text
begin

text \<open>
  \<open>JSON.parse\<close> and, for lists of strings, \<open>JSON.stringify\<close>: the two standard-library calls behind
  the \<open>amr\<close> column (\<open>token/amr.ts\<close>). Parsing is a lexer followed by a pushdown automaton that
  consumes one token per step, so both are total. An escape \<open>\uXXXX\<close> above 255 names a code unit
  the model has no character for and becomes a question mark; numbers keep their spelling.
\<close>

datatype json =
    JNull | JBool bool | JNum string | JStr string
  | JArr "json list" | JObj "(string \<times> json) list"

datatype tok =
    TLBrack | TRBrack | TLBrace | TRBrace | TComma | TColon
  | TStr string | TNum string | TNull | TBool bool

section \<open>Lexing\<close>

definition is_json_ws :: "char \<Rightarrow> bool" where
  "is_json_ws c \<longleftrightarrow> char_code c \<in> {9, 10, 13, 32}"

definition hex_val :: "char \<Rightarrow> nat option" where
  "hex_val c =
     (if is_digit c then Some (char_code c - 48)
      else if 65 \<le> char_code c \<and> char_code c \<le> 70 then Some (char_code c - 55)
      else if 97 \<le> char_code c \<and> char_code c \<le> 102 then Some (char_code c - 87)
      else None)"

definition hex4 :: "char \<Rightarrow> char \<Rightarrow> char \<Rightarrow> char \<Rightarrow> char option" where
  "hex4 a b c d =
     (case (hex_val a, hex_val b, hex_val c, hex_val d) of
        (Some w, Some x, Some y, Some z) \<Rightarrow>
          (let n = 4096 * w + 256 * x + 16 * y + z in
           Some (if n < 256 then char_of n else CHR ''?''))
      | _ \<Rightarrow> None)"

definition simple_escape :: "char \<Rightarrow> char option" where
  "simple_escape c =
     (if char_code c = 34 \<or> char_code c = 92 \<or> char_code c = 47 then Some c
      else if c = CHR ''b'' then Some (char_of (8 :: nat))
      else if c = CHR ''f'' then Some (char_of (12 :: nat))
      else if c = CHR ''n'' then Some (char_of (10 :: nat))
      else if c = CHR ''r'' then Some (char_of (13 :: nat))
      else if c = CHR ''t'' then Some (char_of (9 :: nat))
      else None)"

text \<open>The rest of a string literal, after its opening quote.\<close>

fun cons_fst :: "char option \<Rightarrow> (string \<times> string) option \<Rightarrow> (string \<times> string) option" where
  "cons_fst (Some c) (Some (s, r)) = Some (c # s, r)"
| "cons_fst _ _ = None"

fun json_string :: "string \<Rightarrow> (string \<times> string) option" where
  "json_string [] = None"
| "json_string (c # cs) =
     (if char_code c = 34 then Some ([], cs)
      else if char_code c = 92 then
        (case cs of
           [] \<Rightarrow> None
         | e # es \<Rightarrow>
             (if e = CHR ''u'' then
                (case es of
                   h1 # h2 # h3 # h4 # r \<Rightarrow> cons_fst (hex4 h1 h2 h3 h4) (json_string r)
                 | _ \<Rightarrow> None)
              else cons_fst (simple_escape e) (json_string es)))
      else if char_code c < 32 then None
      else cons_fst (Some c) (json_string cs))"

text \<open>A number literal: the digits, an optional fraction, an optional exponent.\<close>

fun take_digits :: "string \<Rightarrow> string \<times> string" where
  "take_digits [] = ([], [])"
| "take_digits (c # cs) =
     (if is_digit c then (case take_digits cs of (a, r) \<Rightarrow> (c # a, r)) else ([], c # cs))"

definition json_int :: "string \<Rightarrow> (string \<times> string) option" where
  "json_int s =
     (case take_digits s of
        (a, r) \<Rightarrow> (if a = [] \<or> (hd a = CHR ''0'' \<and> length a \<noteq> 1) then None else Some (a, r)))"

definition json_frac :: "string \<Rightarrow> (string \<times> string) option" where
  "json_frac s =
     (case s of
        [] \<Rightarrow> Some ([], [])
      | c # cs \<Rightarrow>
          (if c = CHR ''.'' then
             (case take_digits cs of (a, r) \<Rightarrow> (if a = [] then None else Some (c # a, r)))
           else Some ([], c # cs)))"

definition json_exp :: "string \<Rightarrow> (string \<times> string) option" where
  "json_exp s =
     (case s of
        [] \<Rightarrow> Some ([], [])
      | c # cs \<Rightarrow>
          (if c = CHR ''e'' \<or> c = CHR ''E'' then
             (let sg = (case cs of [] \<Rightarrow> [] | x # _ \<Rightarrow> if x = CHR ''+'' \<or> x = CHR ''-'' then [x] else []) in
              (case take_digits (drop (length sg) cs) of
                 (a, r) \<Rightarrow> (if a = [] then None else Some (c # sg @ a, r))))
           else Some ([], c # cs)))"

definition json_number :: "string \<Rightarrow> (string \<times> string) option" where
  "json_number s =
     (let neg = (case s of [] \<Rightarrow> [] | c # _ \<Rightarrow> if c = CHR ''-'' then [c] else []) in
      case json_int (drop (length neg) s) of
        None \<Rightarrow> None
      | Some (a, r) \<Rightarrow>
          (case json_frac r of
             None \<Rightarrow> None
           | Some (b, r') \<Rightarrow>
               (case json_exp r' of
                  None \<Rightarrow> None
                | Some (e, r'') \<Rightarrow> Some (neg @ a @ b @ e, r''))))"

lemma json_string_shorter: "json_string s = Some (x, r) \<Longrightarrow> length r < length s"
proof (induction s arbitrary: x r rule: json_string.induct)
  case (2 c cs)
  have step: "cons_fst a b = Some (x, r) \<Longrightarrow> \<exists>y. b = Some (y, r)" for a b
    by (induction a b rule: cons_fst.induct) auto
  show ?case
    using "2.prems" "2.IH"
    by (auto split: if_splits list.splits dest!: step) (metis less_SucI)+
qed simp

lemma take_digits_length: "take_digits s = (a, r) \<Longrightarrow> length a + length r = length s"
  by (induction s arbitrary: a r) (auto split: if_splits prod.splits)

lemma json_int_shorter: "json_int s = Some (a, r) \<Longrightarrow> length r < length s"
  using take_digits_length[of s a r]
  by (cases a) (auto simp: json_int_def split: if_splits prod.splits)

lemma json_frac_le: "json_frac s = Some (a, r) \<Longrightarrow> length r \<le> length s"
  by (fastforce simp: json_frac_def split: list.splits if_splits prod.splits
      dest: take_digits_length)

lemma json_exp_le: "json_exp s = Some (a, r) \<Longrightarrow> length r \<le> length s"
  by (fastforce simp: json_exp_def Let_def split: list.splits if_splits prod.splits
      dest: take_digits_length)

lemma json_number_shorter:
  assumes "json_number s = Some (x, r)"
  shows "length r < length s"
proof -
  from assms obtain k a r1 b r2 e
    where "json_int (drop k s) = Some (a, r1)" "json_frac r1 = Some (b, r2)"
      "json_exp r2 = Some (e, r)"
    by (auto simp: json_number_def Let_def split: option.splits prod.splits)
  then show ?thesis
    by (metis json_int_shorter json_frac_le json_exp_le length_drop diff_le_self
        less_le_trans le_less_trans)
qed

definition cons_tok :: "tok \<Rightarrow> tok list option \<Rightarrow> tok list option" where
  "cons_tok t ts = map_option (\<lambda>xs. t # xs) ts"

function lex_json :: "string \<Rightarrow> tok list option" where
  "lex_json [] = Some []"
| "lex_json (c # cs) =
     (if is_json_ws c then lex_json cs
      else if c = CHR ''['' then cons_tok TLBrack (lex_json cs)
      else if c = CHR '']'' then cons_tok TRBrack (lex_json cs)
      else if c = CHR ''{'' then cons_tok TLBrace (lex_json cs)
      else if c = CHR ''}'' then cons_tok TRBrace (lex_json cs)
      else if c = CHR '','' then cons_tok TComma (lex_json cs)
      else if c = CHR '':'' then cons_tok TColon (lex_json cs)
      else if char_code c = 34 then
        (case json_string cs of None \<Rightarrow> None | Some (s, r) \<Rightarrow> cons_tok (TStr s) (lex_json r))
      else if starts_with ''true'' (c # cs) then cons_tok (TBool True) (lex_json (drop 3 cs))
      else if starts_with ''false'' (c # cs) then cons_tok (TBool False) (lex_json (drop 4 cs))
      else if starts_with ''null'' (c # cs) then cons_tok TNull (lex_json (drop 3 cs))
      else
        (case json_number (c # cs) of
           None \<Rightarrow> None
         | Some (n, r) \<Rightarrow> cons_tok (TNum n) (lex_json r)))"
  by pat_completeness auto
termination
  by (relation "measure length")
    (auto dest: json_string_shorter json_number_shorter)

section \<open>Parsing\<close>

datatype frame = FArr "json list" | FObj "(string \<times> json) list" | FMem string "(string \<times> json) list"

datatype mode = WantValue | ValueOrClose | KeyOrClose | WantKey | WantColon string | Got json

text \<open>Where a value may start; and a closed value meeting the innermost open bracket.\<close>

definition open_value :: "frame list \<Rightarrow> tok \<Rightarrow> (mode \<times> frame list) option" where
  "open_value fs t =
     (case t of
        TLBrack \<Rightarrow> Some (ValueOrClose, FArr [] # fs)
      | TLBrace \<Rightarrow> Some (KeyOrClose, FObj [] # fs)
      | TStr x \<Rightarrow> Some (Got (JStr x), fs)
      | TNum x \<Rightarrow> Some (Got (JNum x), fs)
      | TNull \<Rightarrow> Some (Got JNull, fs)
      | TBool b \<Rightarrow> Some (Got (JBool b), fs)
      | _ \<Rightarrow> None)"

definition close_value :: "json \<Rightarrow> frame list \<Rightarrow> tok \<Rightarrow> (mode \<times> frame list) option" where
  "close_value v fs t =
     (case fs of
        FArr xs # fs' \<Rightarrow>
          (if t = TComma then Some (WantValue, FArr (v # xs) # fs')
           else if t = TRBrack then Some (Got (JArr (rev (v # xs))), fs') else None)
      | FMem k ms # fs' \<Rightarrow>
          (if t = TComma then Some (WantKey, FObj ((k, v) # ms) # fs')
           else if t = TRBrace then Some (Got (JObj (rev ((k, v) # ms))), fs') else None)
      | _ \<Rightarrow> None)"

definition json_step :: "mode \<Rightarrow> frame list \<Rightarrow> tok \<Rightarrow> (mode \<times> frame list) option" where
  "json_step m fs t =
     (case m of
        Got v \<Rightarrow> close_value v fs t
      | WantValue \<Rightarrow> open_value fs t
      | ValueOrClose \<Rightarrow>
          (case fs of
             FArr xs # fs' \<Rightarrow> (if t = TRBrack then Some (Got (JArr (rev xs)), fs') else open_value fs t)
           | _ \<Rightarrow> None)
      | KeyOrClose \<Rightarrow>
          (case fs of
             FObj ms # fs' \<Rightarrow>
               (case t of
                  TRBrace \<Rightarrow> Some (Got (JObj (rev ms)), fs')
                | TStr k \<Rightarrow> Some (WantColon k, fs)
                | _ \<Rightarrow> None)
           | _ \<Rightarrow> None)
      | WantKey \<Rightarrow> (case t of TStr k \<Rightarrow> Some (WantColon k, fs) | _ \<Rightarrow> None)
      | WantColon k \<Rightarrow>
          (case fs of
             FObj ms # fs' \<Rightarrow> (if t = TColon then Some (WantValue, FMem k ms # fs') else None)
           | _ \<Rightarrow> None))"

fun run_json :: "mode \<Rightarrow> frame list \<Rightarrow> tok list \<Rightarrow> json option" where
  "run_json m fs [] = (case m of Got v \<Rightarrow> (if fs = [] then Some v else None) | _ \<Rightarrow> None)"
| "run_json m fs (t # ts) =
     (case json_step m fs t of None \<Rightarrow> None | Some (m', fs') \<Rightarrow> run_json m' fs' ts)"

definition json_parse :: "string \<Rightarrow> json option" where
  "json_parse s = Option.bind (lex_json s) (run_json WantValue [])"

section \<open>Printing a list of strings\<close>

definition hex_lower :: "nat \<Rightarrow> char" where
  "hex_lower n = ''0123456789abcdef'' ! (n mod 16)"

definition json_esc :: "char \<Rightarrow> string" where
  "json_esc c =
     (if char_code c = 34 \<or> char_code c = 92 then [CHR 0x5C, c]
      else if char_code c = 8 then [CHR 0x5C, CHR ''b'']
      else if char_code c = 9 then [CHR 0x5C, CHR ''t'']
      else if char_code c = 10 then [CHR 0x5C, CHR ''n'']
      else if char_code c = 12 then [CHR 0x5C, CHR ''f'']
      else if char_code c = 13 then [CHR 0x5C, CHR ''r'']
      else if char_code c < 32 then
        [CHR 0x5C, CHR ''u'', CHR ''0'', CHR ''0'', hex_lower (char_code c div 16), hex_lower (char_code c)]
      else [c])"

definition json_quote :: "string \<Rightarrow> string" where
  "json_quote s = [CHR 0x22] @ concat (map json_esc s) @ [CHR 0x22]"

definition json_stringify :: "string list \<Rightarrow> string" where
  "json_stringify xs = ''['' @ js_join '','' (map json_quote xs) @ '']''"

section \<open>Parsing what was printed\<close>

lemma code_char_of [simp]: "n < 256 \<Longrightarrow> char_code (char_of n) = n"
  by (simp add: char_code_def)

lemma char_of_code [simp]: "char_of (char_code c) = c"
  by (simp add: char_code_def)

lemma code_quote [simp]: "char_code CHR 0x22 = 34"
  and code_backslash [simp]: "char_code CHR 0x5C = 92"
  by (simp_all add: char_code_def)

lemma code_inj: "char_code c = char_code d \<longleftrightarrow> c = d"
  by (metis char_of_code)

lemma hex_val_lower: "hex_val (hex_lower n) = Some (n mod 16)"
proof -
  define m where "m = n mod 16"
  have "m < 16" by (simp add: m_def)
  then have "m \<in> {0, 1, 2, 3, 4, 5, 6, 7, 8, 9, 10, 11, 12, 13, 14, 15}" by simp presburger
  then have "hex_val (''0123456789abcdef'' ! m) = Some m"
    by (elim insertE emptyE) (simp_all add: hex_val_def is_digit_def char_code_def)
  then show ?thesis by (simp add: hex_lower_def m_def)
qed

lemma hex4_lower:
  assumes "n < 32"
  shows "hex4 CHR ''0'' CHR ''0'' (hex_lower (n div 16)) (hex_lower n) = Some (char_of n)"
proof -
  have zero: "hex_val CHR ''0'' = Some 0" by (simp add: hex_val_def is_digit_def char_code_def)
  have "16 * (n div 16 mod 16) + n mod 16 = n" using assms by simp
  then show ?thesis using assms by (simp add: hex4_def zero hex_val_lower)
qed

lemma control:
  assumes "char_code c \<in> {8, 9, 10, 12, 13}"
  shows "json_string (json_esc c @ r) = cons_fst (Some c) (json_string r)"
proof -
  have "c = char_of (char_code c)" by simp
  then have "c \<in> {char_of (8 :: nat), char_of (9 :: nat), char_of (10 :: nat), char_of (12 :: nat),
      char_of (13 :: nat)}"
    using assms by fastforce
  then show ?thesis
    by (elim insertE emptyE) (simp_all add: json_esc_def simple_escape_def char_code_def)
qed

lemma json_string_esc: "json_string (json_esc c @ r) = cons_fst (Some c) (json_string r)"
proof -
  consider "char_code c = 34 \<or> char_code c = 92" | "char_code c = 8" | "char_code c = 9" | "char_code c = 10"
    | "char_code c = 12" | "char_code c = 13"
    | "char_code c < 32" "char_code c \<notin> {8, 9, 10, 12, 13}" | "32 \<le> char_code c" "char_code c \<noteq> 34" "char_code c \<noteq> 92"
    by fastforce
  then show ?thesis
  proof cases
    case 1
    then have "c \<noteq> CHR ''u''" by (auto simp: char_code_def)
    with 1 show ?thesis by (auto simp: json_esc_def simple_escape_def)
  next
    case 7
    then show ?thesis by (simp add: json_esc_def hex4_lower)
  next
    case 8
    then show ?thesis by (simp add: json_esc_def)
  qed (simp_all add: control)
qed

lemma json_string_body: "json_string (concat (map json_esc s) @ CHR 0x22 # r) = Some (s, r)"
proof (induction s)
  case Nil
  show ?case by simp
next
  case (Cons c s)
  then show ?case by (simp add: json_string_esc)
qed

lemma lex_quote: "lex_json (json_quote s @ r) = cons_tok (TStr s) (lex_json r)"
proof -
  have "lex_json (CHR 0x22 # concat (map json_esc s) @ CHR 0x22 # r) =
      cons_tok (TStr s) (lex_json r)"
    by (subst lex_json.simps) (simp add: json_string_body is_json_ws_def)
  then show ?thesis by (simp add: json_quote_def)
qed

fun list_toks :: "string list \<Rightarrow> tok list" where
  "list_toks [] = [TRBrack]"
| "list_toks [x] = [TStr x, TRBrack]"
| "list_toks (x # y # xs) = TStr x # TComma # list_toks (y # xs)"

lemma lex_close: "lex_json (CHR '']'' # []) = Some [TRBrack]"
  and lex_comma: "lex_json (CHR '','' # r) = cons_tok TComma (lex_json r)"
  by (simp_all add: is_json_ws_def cons_tok_def char_code_def)

lemma lex_elements: "lex_json (js_join '','' (map json_quote xs) @ '']'') = Some (list_toks xs)"
  by (induction xs rule: list_toks.induct)
    (simp_all add: lex_quote lex_close lex_comma cons_tok_def del: lex_json.simps)

lemma run_elements:
  "xs \<noteq> [] \<Longrightarrow>
     run_json WantValue (FArr ys # fs) (list_toks xs) =
     run_json (Got (JArr (rev ys @ map JStr xs))) fs []"
  by (induction xs arbitrary: ys rule: list_toks.induct)
    (simp_all add: json_step_def open_value_def close_value_def)

lemma json_parse_stringify: "json_parse (json_stringify xs) = Some (JArr (map JStr xs))"
proof -
  have "lex_json (json_stringify xs) = Some (TLBrack # list_toks xs)"
    unfolding json_stringify_def
    by (simp add: is_json_ws_def char_code_def cons_tok_def lex_elements del: js_join.simps)
  moreover have "run_json ValueOrClose [FArr []] (list_toks xs) = Some (JArr (map JStr xs))"
  proof (cases xs)
    case (Cons x ys)
    then have "run_json ValueOrClose [FArr []] (list_toks xs) =
        run_json WantValue [FArr []] (list_toks xs)"
      by (cases ys) (simp_all add: json_step_def)
    with Cons show ?thesis by (simp add: run_elements)
  qed (simp add: json_step_def)
  ultimately show ?thesis by (simp add: json_parse_def json_step_def open_value_def)
qed

end
