(* ===== verification/Schema.thy ===== *)
theory Schema
  imports Js_Text
begin

text \<open>
  The database: one record per model of \<open>packages/db/schema.prisma\<close>, one list of rows per table
  (join tables are lists of key pairs), the sequences behind the autoincrement keys, the lookups
  the services issue, and the integrity the unique and foreign keys of the migrations guarantee.
  Times are milliseconds (\<open>int\<close>). Columns nothing in the model reads or writes
  (\<open>User.image\<close>, \<open>Account.accessToken\<close> and its siblings, the \<open>updatedAt\<close> stamps) are left out.
\<close>

section \<open>Rows\<close>

record user_row =
  usr_id :: string
  usr_name :: string
  usr_email :: string
  usr_emailVerified :: bool
  usr_twoFactorEnabled :: bool
  usr_createdAt :: int

record session_row =
  ses_id :: string
  ses_userId :: string
  ses_expiresAt :: int
  ses_createdAt :: int
  ses_signInMethod :: "string option"

record account_row =
  acc_id :: string
  acc_accountId :: string
  acc_providerId :: string
  acc_userId :: string
  acc_password :: "string option"

record two_factor_row =
  tf_userId :: string
  tf_secret :: string
  tf_verified :: bool

datatype user_status = Active | Pending | Inactive | Unverified

datatype email_method = LinkMethod | CodeMethod

record password_policy =
  minLength :: int
  requireUppercase :: bool
  requireLowercase :: bool
  requireNumber :: bool
  requireSpecial :: bool
  minNumbers :: int
  minSpecial :: int

record app_branding =
  logo :: "string option"
  favicon :: "string option"
  pageLightBackgroundColor :: "string option"
  pageDarkBackgroundColor :: "string option"
  cardLightBackgroundColor :: "string option"
  cardDarkBackgroundColor :: "string option"

record email_branding =
  fromName :: "string option"
  fromAddress :: "string option"
  subject :: "string option"
  message :: "string option"

record sa_app =
  app_id :: int
  app_publicId :: string
  app_name :: string
  app_url :: string
  app_branding :: app_branding
  app_twoFactorTrustDays :: "int option"
  app_twoFactorPromptEnabled :: "bool option"
  app_requireTwoFactor :: bool
  app_allowOfflineAccess :: bool
  app_isPlatform :: bool
  app_canManageOwnRoles :: bool
  app_passwordPolicyOverride :: "password_policy option"
  app_clientSecretHash :: "string option"
  app_clientSecretUpdatedAt :: "int option"
  app_activationWebhookUrl :: "string option"
  app_activationWebhookSecret :: "string option"
  app_activationEmailOverride :: "email_branding option"
  app_emailVerificationMethod :: email_method
  app_privacyPolicyUrl :: "string option"
  app_termsUrl :: "string option"
  app_gdprUrl :: "string option"
  app_defaultOrgId :: "int option"
  app_defaultRoleId :: "int option"

record redirect_uri_row =
  ru_appId :: int
  ru_uri :: string
  ru_kind :: string

record sa_org =
  org_id :: int
  org_publicId :: string
  org_name :: string
  org_appId :: int
  org_isPlatform :: bool

record sa_user =
  sau_id :: int
  sau_publicId :: string
  sau_betterAuthUserId :: string
  sau_orgId :: int
  sau_firstName :: string
  sau_lastName :: string
  sau_marketingOptIn :: bool
  sau_phoneNumber :: "string option"
  sau_username :: "string option"
  sau_status :: user_status
  sau_createdAt :: int
  sau_lastLoginAt :: "int option"
  sau_twoFactorPromptedAt :: "int option"

record sa_invitation =
  inv_id :: int
  inv_publicId :: string
  inv_token :: string
  inv_userId :: int
  inv_expiresAt :: int
  inv_usedAt :: "int option"
  inv_createdAt :: int

record sa_permission =
  perm_id :: int
  perm_publicId :: string
  perm_name :: string
  perm_appId :: int
  perm_isSystem :: bool

record sa_role =
  role_id :: int
  role_publicId :: string
  role_name :: string
  role_appId :: int

record sa_user_consent =
  con_saUserId :: int
  con_appId :: int
  con_documentType :: string
  con_url :: string
  con_acceptedAt :: int

record oauth_code =
  oc_code :: string
  oc_userId :: string
  oc_appPublicId :: string
  oc_redirectUri :: string
  oc_codeChallenge :: "string option"
  oc_codeChallengeMethod :: "string option"
  oc_nonce :: "string option"
  oc_scope :: string
  oc_authTime :: int
  oc_amr :: string
  oc_idp :: "string option"
  oc_expiresAt :: int

record refresh_token =
  rt_tokenHash :: string
  rt_familyId :: string
  rt_saUserId :: int
  rt_userPublicId :: string
  rt_orgPublicId :: string
  rt_appId :: int
  rt_appPublicId :: string
  rt_scope :: string
  rt_amr :: string
  rt_idp :: "string option"
  rt_authTime :: int
  rt_expiresAt :: int
  rt_absoluteExpiresAt :: int
  rt_revokedAt :: "int option"
  rt_replacedByTokenHash :: "string option"

section \<open>The database\<close>

datatype table = AppT | OrgT | SaUserT | InvitationT | PermissionT | RoleT

record db =
  users :: "user_row list"
  sessions :: "session_row list"
  accounts :: "account_row list"
  twoFactors :: "two_factor_row list"
  saApps :: "sa_app list"
  saRedirectUris :: "redirect_uri_row list"
  saOrgs :: "sa_org list"
  saUsers :: "sa_user list"
  saInvitations :: "sa_invitation list"
  saPermissions :: "sa_permission list"
  saRoles :: "sa_role list"
  saRolePermissions :: "(int \<times> int) list"
  saUserRoles :: "(int \<times> int) list"
  saUserPermissions :: "(int \<times> int) list"
  saUserConsents :: "sa_user_consent list"
  saOauthCodes :: "oauth_code list"
  saRefreshTokens :: "refresh_token list"
  nextId :: "table \<Rightarrow> int"

definition empty_db :: db where
  "empty_db = \<lparr>users = [], sessions = [], accounts = [], twoFactors = [], saApps = [],
     saRedirectUris = [], saOrgs = [], saUsers = [], saInvitations = [], saPermissions = [],
     saRoles = [], saRolePermissions = [], saUserRoles = [], saUserPermissions = [],
     saUserConsents = [], saOauthCodes = [], saRefreshTokens = [], nextId = (\<lambda>_. 1)\<rparr>"

section \<open>Lookups by a unique key\<close>

definition user_by_id :: "db \<Rightarrow> string \<Rightarrow> user_row option" where
  "user_by_id d i = find (\<lambda>u. usr_id u = i) (users d)"

definition user_by_email :: "db \<Rightarrow> string \<Rightarrow> user_row option" where
  "user_by_email d e = find (\<lambda>u. usr_email u = e) (users d)"

definition app_by_id :: "db \<Rightarrow> int \<Rightarrow> sa_app option" where
  "app_by_id d i = find (\<lambda>a. app_id a = i) (saApps d)"

definition app_by_publicId :: "db \<Rightarrow> string \<Rightarrow> sa_app option" where
  "app_by_publicId d p = find (\<lambda>a. app_publicId a = p) (saApps d)"

definition org_by_id :: "db \<Rightarrow> int \<Rightarrow> sa_org option" where
  "org_by_id d i = find (\<lambda>r. org_id r = i) (saOrgs d)"

definition org_by_publicId :: "db \<Rightarrow> string \<Rightarrow> sa_org option" where
  "org_by_publicId d p = find (\<lambda>r. org_publicId r = p) (saOrgs d)"

definition sau_by_id :: "db \<Rightarrow> int \<Rightarrow> sa_user option" where
  "sau_by_id d i = find (\<lambda>u. sau_id u = i) (saUsers d)"

definition sau_by_publicId :: "db \<Rightarrow> string \<Rightarrow> sa_user option" where
  "sau_by_publicId d p = find (\<lambda>u. sau_publicId u = p) (saUsers d)"

definition sau_by_betterAuthUserId :: "db \<Rightarrow> string \<Rightarrow> sa_user option" where
  "sau_by_betterAuthUserId d b = find (\<lambda>u. sau_betterAuthUserId u = b) (saUsers d)"

definition role_by_id :: "db \<Rightarrow> int \<Rightarrow> sa_role option" where
  "role_by_id d i = find (\<lambda>r. role_id r = i) (saRoles d)"

definition role_by_publicId :: "db \<Rightarrow> string \<Rightarrow> sa_role option" where
  "role_by_publicId d p = find (\<lambda>r. role_publicId r = p) (saRoles d)"

definition perm_by_id :: "db \<Rightarrow> int \<Rightarrow> sa_permission option" where
  "perm_by_id d i = find (\<lambda>p. perm_id p = i) (saPermissions d)"

definition perm_by_publicId :: "db \<Rightarrow> string \<Rightarrow> sa_permission option" where
  "perm_by_publicId d q = find (\<lambda>p. perm_publicId p = q) (saPermissions d)"

definition app_redirect_uris :: "db \<Rightarrow> int \<Rightarrow> redirect_uri_row list" where
  "app_redirect_uris d i = filter (\<lambda>r. ru_appId r = i) (saRedirectUris d)"

section \<open>Relations followed by include\<close>

definition roles_of :: "db \<Rightarrow> int \<Rightarrow> sa_role list" where
  "roles_of d uid = [r. (u, k) \<leftarrow> saUserRoles d, u = uid, r \<leftarrow> saRoles d, role_id r = k]"

definition permissions_of_role :: "db \<Rightarrow> int \<Rightarrow> sa_permission list" where
  "permissions_of_role d rid =
     [p. (r, k) \<leftarrow> saRolePermissions d, r = rid, p \<leftarrow> saPermissions d, perm_id p = k]"

definition direct_permissions_of :: "db \<Rightarrow> int \<Rightarrow> sa_permission list" where
  "direct_permissions_of d uid =
     [p. (u, k) \<leftarrow> saUserPermissions d, u = uid, p \<leftarrow> saPermissions d, perm_id p = k]"

text \<open>Every permission row a user holds: through the roles first, then directly.\<close>

definition held_permissions :: "db \<Rightarrow> int \<Rightarrow> sa_permission list" where
  "held_permissions d uid =
     concat (map (\<lambda>r. permissions_of_role d (role_id r)) (roles_of d uid)) @
     direct_permissions_of d uid"

lemma mem_roles_of:
  "r \<in> set (roles_of d uid) \<longleftrightarrow> (uid, role_id r) \<in> set (saUserRoles d) \<and> r \<in> set (saRoles d)"
  by (auto simp: roles_of_def)

lemma mem_permissions_of_role:
  "p \<in> set (permissions_of_role d rid) \<longleftrightarrow>
     (rid, perm_id p) \<in> set (saRolePermissions d) \<and> p \<in> set (saPermissions d)"
  by (auto simp: permissions_of_role_def)

lemma mem_direct_permissions_of:
  "p \<in> set (direct_permissions_of d uid) \<longleftrightarrow>
     (uid, perm_id p) \<in> set (saUserPermissions d) \<and> p \<in> set (saPermissions d)"
  by (auto simp: direct_permissions_of_def)

lemma mem_held_permissions:
  "p \<in> set (held_permissions d uid) \<longleftrightarrow>
     p \<in> set (saPermissions d) \<and>
     ((uid, perm_id p) \<in> set (saUserPermissions d) \<or>
      (\<exists>r \<in> set (saRoles d). (uid, role_id r) \<in> set (saUserRoles d) \<and>
         (role_id r, perm_id p) \<in> set (saRolePermissions d)))"
  by (auto simp: held_permissions_def mem_roles_of mem_permissions_of_role
        mem_direct_permissions_of)

section \<open>Integrity\<close>

text \<open>The unique indexes. A nullable unique column only constrains its non-null values.\<close>

definition some_values :: "'b option list \<Rightarrow> 'b list" where
  "some_values xs = map the (filter (\<lambda>v. v \<noteq> None) xs)"

definition keys_ok :: "db \<Rightarrow> bool" where
  "keys_ok d \<longleftrightarrow>
     distinct (map usr_id (users d)) \<and> distinct (map usr_email (users d)) \<and>
     distinct (map app_id (saApps d)) \<and> distinct (map app_publicId (saApps d)) \<and>
     distinct (map app_name (saApps d)) \<and>
     distinct (map org_id (saOrgs d)) \<and> distinct (map org_publicId (saOrgs d)) \<and>
     distinct (map (\<lambda>r. (org_appId r, org_name r)) (saOrgs d)) \<and>
     distinct (map sau_id (saUsers d)) \<and> distinct (map sau_publicId (saUsers d)) \<and>
     distinct (map sau_betterAuthUserId (saUsers d)) \<and>
     distinct (some_values (map sau_phoneNumber (saUsers d))) \<and>
     distinct (some_values (map sau_username (saUsers d))) \<and>
     distinct (map perm_id (saPermissions d)) \<and> distinct (map perm_publicId (saPermissions d)) \<and>
     distinct (map perm_name (saPermissions d)) \<and>
     distinct (map role_id (saRoles d)) \<and> distinct (map role_publicId (saRoles d)) \<and>
     distinct (map (\<lambda>r. (role_appId r, role_name r)) (saRoles d)) \<and>
     distinct (saRolePermissions d) \<and> distinct (saUserRoles d) \<and>
     distinct (saUserPermissions d) \<and>
     distinct (map inv_id (saInvitations d)) \<and> distinct (map inv_publicId (saInvitations d)) \<and>
     distinct (map inv_token (saInvitations d)) \<and>
     distinct (map (\<lambda>a. (acc_providerId a, acc_accountId a)) (accounts d)) \<and>
     distinct (map tf_userId (twoFactors d)) \<and>
     distinct (map (\<lambda>r. (ru_appId r, ru_uri r, ru_kind r)) (saRedirectUris d)) \<and>
     distinct (map (\<lambda>c. (con_saUserId c, con_appId c, con_documentType c)) (saUserConsents d)) \<and>
     distinct (map oc_code (saOauthCodes d)) \<and>
     distinct (map rt_tokenHash (saRefreshTokens d))"

text \<open>The foreign keys, and the autoincrement keys below their sequences.\<close>

definition fks_ok :: "db \<Rightarrow> bool" where
  "fks_ok d \<longleftrightarrow>
     sau_betterAuthUserId ` set (saUsers d) \<subseteq> usr_id ` set (users d) \<and>
     sau_orgId ` set (saUsers d) \<subseteq> org_id ` set (saOrgs d) \<and>
     org_appId ` set (saOrgs d) \<subseteq> app_id ` set (saApps d) \<and>
     perm_appId ` set (saPermissions d) \<subseteq> app_id ` set (saApps d) \<and>
     role_appId ` set (saRoles d) \<subseteq> app_id ` set (saApps d) \<and>
     fst ` set (saRolePermissions d) \<subseteq> role_id ` set (saRoles d) \<and>
     snd ` set (saRolePermissions d) \<subseteq> perm_id ` set (saPermissions d) \<and>
     fst ` set (saUserRoles d) \<subseteq> sau_id ` set (saUsers d) \<and>
     snd ` set (saUserRoles d) \<subseteq> role_id ` set (saRoles d) \<and>
     fst ` set (saUserPermissions d) \<subseteq> sau_id ` set (saUsers d) \<and>
     snd ` set (saUserPermissions d) \<subseteq> perm_id ` set (saPermissions d) \<and>
     inv_userId ` set (saInvitations d) \<subseteq> sau_id ` set (saUsers d) \<and>
     acc_userId ` set (accounts d) \<subseteq> usr_id ` set (users d) \<and>
     ses_userId ` set (sessions d) \<subseteq> usr_id ` set (users d) \<and>
     tf_userId ` set (twoFactors d) \<subseteq> usr_id ` set (users d) \<and>
     ru_appId ` set (saRedirectUris d) \<subseteq> app_id ` set (saApps d) \<and>
     con_saUserId ` set (saUserConsents d) \<subseteq> sau_id ` set (saUsers d) \<and>
     con_appId ` set (saUserConsents d) \<subseteq> app_id ` set (saApps d) \<and>
     set (some_values (map app_defaultOrgId (saApps d))) \<subseteq> org_id ` set (saOrgs d) \<and>
     set (some_values (map app_defaultRoleId (saApps d))) \<subseteq> role_id ` set (saRoles d)"

definition seqs_ok :: "db \<Rightarrow> bool" where
  "seqs_ok d \<longleftrightarrow>
     (\<forall>a \<in> set (saApps d). app_id a < nextId d AppT) \<and>
     (\<forall>r \<in> set (saOrgs d). org_id r < nextId d OrgT) \<and>
     (\<forall>u \<in> set (saUsers d). sau_id u < nextId d SaUserT) \<and>
     (\<forall>p \<in> set (saPermissions d). perm_id p < nextId d PermissionT) \<and>
     (\<forall>r \<in> set (saRoles d). role_id r < nextId d RoleT) \<and>
     (\<forall>i \<in> set (saInvitations d). inv_id i < nextId d InvitationT)"

definition db_ok :: "db \<Rightarrow> bool" where
  "db_ok d \<longleftrightarrow> keys_ok d \<and> fks_ok d \<and> seqs_ok d"

lemma db_ok_empty: "db_ok empty_db"
  by (simp add: db_ok_def keys_ok_def fks_ok_def seqs_ok_def some_values_def empty_db_def)

lemmas lookup_defs = user_by_id_def user_by_email_def app_by_id_def app_by_publicId_def
  org_by_id_def org_by_publicId_def sau_by_id_def sau_by_publicId_def
  sau_by_betterAuthUserId_def role_by_id_def role_by_publicId_def perm_by_id_def
  perm_by_publicId_def

text \<open>A lookup returns a row of the table that carries the key asked for.\<close>

lemma lookup_sound:
  "user_by_id d i = Some u \<Longrightarrow> u \<in> set (users d) \<and> usr_id u = i"
  "user_by_email d e = Some u \<Longrightarrow> u \<in> set (users d) \<and> usr_email u = e"
  "app_by_id d n = Some a \<Longrightarrow> a \<in> set (saApps d) \<and> app_id a = n"
  "app_by_publicId d q = Some a \<Longrightarrow> a \<in> set (saApps d) \<and> app_publicId a = q"
  "org_by_id d n = Some r \<Longrightarrow> r \<in> set (saOrgs d) \<and> org_id r = n"
  "org_by_publicId d q = Some r \<Longrightarrow> r \<in> set (saOrgs d) \<and> org_publicId r = q"
  "sau_by_id d n = Some s \<Longrightarrow> s \<in> set (saUsers d) \<and> sau_id s = n"
  "sau_by_publicId d q = Some s \<Longrightarrow> s \<in> set (saUsers d) \<and> sau_publicId s = q"
  "sau_by_betterAuthUserId d q = Some s \<Longrightarrow> s \<in> set (saUsers d) \<and> sau_betterAuthUserId s = q"
  "role_by_id d n = Some l \<Longrightarrow> l \<in> set (saRoles d) \<and> role_id l = n"
  "role_by_publicId d q = Some l \<Longrightarrow> l \<in> set (saRoles d) \<and> role_publicId l = q"
  "perm_by_id d n = Some p \<Longrightarrow> p \<in> set (saPermissions d) \<and> perm_id p = n"
  "perm_by_publicId d q = Some p \<Longrightarrow> p \<in> set (saPermissions d) \<and> perm_publicId p = q"
  by (simp_all only: lookup_defs) (blast dest: find_Some_iff)+

text \<open>Under unique keys a row is what its own key finds.\<close>

lemma lookup_complete:
  assumes "keys_ok d"
  shows "u \<in> set (users d) \<Longrightarrow> user_by_id d (usr_id u) = Some u"
    "a \<in> set (saApps d) \<Longrightarrow> app_by_id d (app_id a) = Some a"
    "a \<in> set (saApps d) \<Longrightarrow> app_by_publicId d (app_publicId a) = Some a"
    "r \<in> set (saOrgs d) \<Longrightarrow> org_by_id d (org_id r) = Some r"
    "s \<in> set (saUsers d) \<Longrightarrow> sau_by_id d (sau_id s) = Some s"
    "s \<in> set (saUsers d) \<Longrightarrow> sau_by_publicId d (sau_publicId s) = Some s"
    "s \<in> set (saUsers d) \<Longrightarrow>
       sau_by_betterAuthUserId d (sau_betterAuthUserId s) = Some s"
    "l \<in> set (saRoles d) \<Longrightarrow> role_by_id d (role_id l) = Some l"
    "p \<in> set (saPermissions d) \<Longrightarrow> perm_by_id d (perm_id p) = Some p"
  using assms by (simp_all add: lookup_defs keys_ok_def find_unique)

text \<open>Foreign keys resolve.\<close>

lemma find_exists: "x \<in> set xs \<Longrightarrow> P x \<Longrightarrow> \<exists>y. find P xs = Some y"
  by (metis find_None_all option.exhaust)

lemma user_relations:
  assumes "fks_ok d" "u \<in> set (saUsers d)"
  shows "\<exists>b. user_by_id d (sau_betterAuthUserId u) = Some b"
    and "\<exists>r. org_by_id d (sau_orgId u) = Some r"
proof -
  have "sau_betterAuthUserId u \<in> usr_id ` set (users d)" "sau_orgId u \<in> org_id ` set (saOrgs d)"
    using assms by (simp_all add: fks_ok_def image_subset_iff)
  then show "\<exists>b. user_by_id d (sau_betterAuthUserId u) = Some b"
    and "\<exists>r. org_by_id d (sau_orgId u) = Some r"
    by (auto simp: user_by_id_def org_by_id_def intro: find_exists)
qed

end
