(* ===== verification/Host.thy ===== *)
theory Host
  imports Json Schema
begin

text \<open>
  What the server calls and does not define: the record \<open>host\<close> bundles the libraries (sqids,
  jsonwebtoken, better-auth's scrypt and TOTP), the hash primitives, the WHATWG URL parser and
  the environment, and is an argument of every definition that uses them. The documented
  behaviour a theorem relies on is a named predicate on \<open>host\<close>. Also here: \<open>Number(string)\<close>, and
  what the char_code does with a parsed URL.
\<close>

section \<open>URLs\<close>

text \<open>
  The components of a \<open>URL\<close> object the sources read. \<open>u_before_query\<close> is the serialisation up to
  the query; setting a search parameter re-serialises the query from the parsed parameters.
\<close>

record url =
  u_protocol :: string
  u_host :: string
  u_hostname :: string
  u_origin :: string
  u_pathname :: string
  u_search :: string
  u_username :: string
  u_password :: string
  u_hash :: string
  u_before_query :: string
  u_params :: params

definition url_to_string :: "url \<Rightarrow> string" where
  "url_to_string u = u_before_query u @ u_search u @ u_hash u"

definition url_set_param :: "url \<Rightarrow> string \<Rightarrow> string \<Rightarrow> url" where
  "url_set_param u k v =
     (let ps = params_set (u_params u) k v in
      u\<lparr>u_params := ps, u_search := ''?'' @ params_to_string ps\<rparr>)"

lemma url_set_param_target [simp]:
  "u_protocol (url_set_param u k v) = u_protocol u"
  "u_host (url_set_param u k v) = u_host u"
  "u_origin (url_set_param u k v) = u_origin u"
  "u_pathname (url_set_param u k v) = u_pathname u"
  "u_before_query (url_set_param u k v) = u_before_query u"
  "u_hash (url_set_param u k v) = u_hash u"
  "u_params (url_set_param u k v) = params_set (u_params u) k v"
  by (simp_all add: url_set_param_def Let_def)

section \<open>Tokens\<close>

text \<open>A claim that is absent from the payload is \<open>None\<close>. Times are seconds.\<close>

record scoped_claims =
  sc_name :: "string option"
  sc_given_name :: "string option"
  sc_family_name :: "string option"
  sc_email :: "string option"
  sc_email_verified :: "bool option"

record jwt_claims =
  c_sub :: "string option"
  c_aud :: "string option"
  c_org :: "string option"
  c_azp :: "string option"
  c_iss :: string
  c_iat :: int
  c_exp :: int
  c_scope :: "string option"
  c_permissions :: "string list option"
  c_roles :: "string list option"
  c_amr :: "string list option"
  c_idp :: "string option"
  c_auth_time :: "int option"
  c_at_hash :: "string option"
  c_nonce :: "string option"
  c_token_use :: "string option"
  c_scoped :: scoped_claims

definition no_scoped_claims :: scoped_claims where
  "no_scoped_claims = \<lparr>sc_name = None, sc_given_name = None, sc_family_name = None,
     sc_email = None, sc_email_verified = None\<rparr>"

section \<open>The host\<close>

record host =
  h_env :: "string \<Rightarrow> string option"
  h_parse_url :: "string \<Rightarrow> url option"
  h_sqid_encode :: "int \<Rightarrow> string"
  h_sqid_decode :: "string \<Rightarrow> int option"
  h_sha256_hex :: "string \<Rightarrow> string"
  h_sha256_base64 :: "string \<Rightarrow> string"
  h_sha256_half_base64url :: "string \<Rightarrow> string"
  h_base64_utf8 :: "string \<Rightarrow> string"
  h_decode_uri_component :: "string \<Rightarrow> string option"
  h_verify_password :: "string \<Rightarrow> string \<Rightarrow> bool option"
  h_dummy_hash :: string
  h_jwt_sign :: "jwt_claims \<Rightarrow> string"
  h_jwt_verify :: "int \<Rightarrow> string option \<Rightarrow> string \<Rightarrow> string \<Rightarrow> jwt_claims option"
  h_totp_verify :: "int \<Rightarrow> string \<Rightarrow> string \<Rightarrow> bool option"

text \<open>
  \<open>h_jwt_verify now aud iss t\<close> is \<open>jwt.verify\<close> with the options \<open>algorithms: ['RS256']\<close>, the
  issuer and, when given, the audience. A token this server signed verifies to the payload that
  was signed, and then the issuer and the audience asked for are those of the payload.
\<close>

definition jwt_faithful :: "host \<Rightarrow> jwt_claims \<Rightarrow> bool" where
  "jwt_faithful h c \<longleftrightarrow>
     (\<forall>now aud iss c'. h_jwt_verify h now aud iss (h_jwt_sign h c) = Some c' \<longrightarrow>
        c' = c \<and> c_iss c = iss \<and> (aud \<noteq> None \<longrightarrow> c_aud c = aud))"

lemma jwt_faithfulD:
  "jwt_faithful h c \<Longrightarrow> h_jwt_verify h now aud iss (h_jwt_sign h c) = Some c' \<Longrightarrow> c' = c"
  by (simp add: jwt_faithful_def)

section \<open>Number(string)\<close>

text \<open>\<open>Dec m e\<close> is \<open>m * 10 ^ e\<close>; the rounding to a double is not modelled.\<close>

datatype js_number = NotANumber | Infinite bool | Dec int int

definition dec_value :: "string \<Rightarrow> int" where
  "dec_value ds = foldl (\<lambda>n c. n * 10 + int (char_code c - 48)) 0 ds"

definition hex_value :: "string \<Rightarrow> int option" where
  "hex_value ds =
     (if ds = [] then None
      else foldl (\<lambda>n c. case (n, hex_val c) of (Some k, Some d) \<Rightarrow> Some (k * 16 + int d) | _ \<Rightarrow> None)
             (Some 0) ds)"

definition split_sign :: "string \<Rightarrow> bool \<times> string" where
  "split_sign s =
     (case s of
        [] \<Rightarrow> (False, [])
      | c # cs \<Rightarrow> if c = CHR ''-'' then (True, cs) else if c = CHR ''+'' then (False, cs) else (False, s))"

definition decimal_exponent :: "string \<Rightarrow> int option" where
  "decimal_exponent s =
     (case s of
        [] \<Rightarrow> Some 0
      | c # cs \<Rightarrow>
          (if c = CHR ''e'' \<or> c = CHR ''E'' then
             (case split_sign cs of
                (neg, ds) \<Rightarrow>
                  (if ds \<noteq> [] \<and> list_all is_digit ds
                   then Some (if neg then - dec_value ds else dec_value ds) else None))
           else None))"

definition decimal_number :: "string \<Rightarrow> js_number" where
  "decimal_number s =
     (case split_sign s of
        (neg, u) \<Rightarrow>
          (if u = ''Infinity'' then Infinite neg
           else
             (case take_digits u of
                (a, r) \<Rightarrow>
                  (case (case r of [] \<Rightarrow> ([], [])
                         | c # cs \<Rightarrow> if c = CHR ''.'' then take_digits cs else ([], r)) of
                     (b, r') \<Rightarrow>
                       (if a = [] \<and> b = [] then NotANumber
                        else
                          (case decimal_exponent r' of
                             None \<Rightarrow> NotANumber
                           | Some e \<Rightarrow>
                               Dec (if neg then - dec_value (a @ b) else dec_value (a @ b))
                                 (e - int (length b))))))))"

definition to_number :: "string \<Rightarrow> js_number" where
  "to_number s =
     (let t = js_trim s in
      if t = [] then Dec 0 0
      else if starts_with ''0x'' t \<or> starts_with ''0X'' t then
        (case hex_value (drop 2 t) of None \<Rightarrow> NotANumber | Some n \<Rightarrow> Dec n 0)
      else decimal_number t)"

text \<open>\<open>x > n\<close> for an integral \<open>x\<close> given in thousandths, as a session age in milliseconds is.\<close>

fun thousandths_greater :: "int \<Rightarrow> js_number \<Rightarrow> bool" where
  "thousandths_greater ms (Dec m e) =
     (if 0 \<le> e then ms > m * 10 ^ nat e * 1000 else ms * 10 ^ nat (- e) > m * 1000)"
| "thousandths_greater ms (Infinite neg) = neg"
| "thousandths_greater ms NotANumber = False"

fun is_finite_number :: "js_number \<Rightarrow> bool" where
  "is_finite_number (Dec m e) = True"
| "is_finite_number _ = False"

text \<open>\<open>Number.isInteger\<close>, with the integer.\<close>

fun integer_value :: "js_number \<Rightarrow> int option" where
  "integer_value (Dec m e) =
     (if 0 \<le> e then Some (m * 10 ^ nat e)
      else if m mod 10 ^ nat (- e) = 0 then Some (m div 10 ^ nat (- e)) else None)"
| "integer_value _ = None"

end
