(* ===== verification/Scopes.thy ===== *)
theory Scopes
  imports Json
begin

text \<open>
  The pure helpers of the token endpoints: \<open>token/scopes.ts\<close>, \<open>token/service-scopes.ts\<close>,
  \<open>token/derive-auth-methods.ts\<close> and \<open>token/amr.ts\<close>.
\<close>

definition SUPPORTED_SCOPES :: "string list" where
  "SUPPORTED_SCOPES = [''openid'', ''profile'', ''email'', ''offline_access'']"

definition parseScopes :: "string option \<Rightarrow> string list" where
  "parseScopes requested =
     (if \<not> truthy requested then []
      else (let asked = js_words (the requested) in
            filter (\<lambda>s. s \<in> set asked) SUPPORTED_SCOPES))"

definition SUPPORTED_SERVICE_SCOPES :: "string list" where
  "SUPPORTED_SERVICE_SCOPES = [''roles:write'']"

definition parseServiceScopes :: "string option \<Rightarrow> string list" where
  "parseServiceScopes requested =
     (if \<not> truthy requested then []
      else (let asked = js_words (the requested) in
            filter (\<lambda>s. s \<in> set asked) SUPPORTED_SERVICE_SCOPES))"

definition deriveAuthMethods :: "string option \<Rightarrow> bool \<Rightarrow> string list \<times> string option" where
  "deriveAuthMethods signInMethod twoFactorEnabled =
     (let second = (if twoFactorEnabled then [''otp'', ''mfa''] else []) in
      case signInMethod of
        Some m \<Rightarrow>
          (if starts_with ''ext:'' m then (''ext'' # second, Some (drop 4 m))
           else (''pwd'' # second, None))
      | None \<Rightarrow> (''pwd'' # second, None))"

definition safeParseAmr :: "string \<Rightarrow> string list" where
  "safeParseAmr raw =
     (case json_parse raw of
        Some (JArr vs) \<Rightarrow> [s. JStr s \<leftarrow> vs]
      | _ \<Rightarrow> [''pwd''])"

section \<open>What they return\<close>

lemma split_ws_Nil_mem: "w \<in> set (split_ws s) \<Longrightarrow> w \<noteq> [] \<Longrightarrow> s \<noteq> []"
  by (cases s) auto

lemma set_parseScopes:
  "set (parseScopes req) =
     {s. s \<in> set SUPPORTED_SCOPES \<and> req \<noteq> None \<and> s \<in> set (js_words (the req))}"
  by (cases req) (auto simp: parseScopes_def mem_js_words)

lemma set_parseServiceScopes:
  "set (parseServiceScopes req) =
     {s. s \<in> set SUPPORTED_SERVICE_SCOPES \<and> req \<noteq> None \<and> s \<in> set (js_words (the req))}"
  by (cases req) (auto simp: parseServiceScopes_def mem_js_words)

lemma safeParseAmr_stringify [simp]: "safeParseAmr (json_stringify xs) = xs"
proof -
  have "concat (map (\<lambda>v. case v of JStr s \<Rightarrow> [s] | _ \<Rightarrow> []) (map JStr xs)) = xs"
    by (induction xs) simp_all
  then show ?thesis by (simp add: safeParseAmr_def json_parse_stringify)
qed

text \<open>The printed scope splits back into the granted scopes, at \<open>/token\<close> as at \<open>/userinfo\<close>.\<close>

lemma supported_scope_words:
  "\<forall>w \<in> set SUPPORTED_SCOPES. w \<noteq> [] \<and> (\<forall>c \<in> set w. \<not> is_ws c)"
  by (simp add: SUPPORTED_SCOPES_def is_ws_def char_code_def)

lemma supported_service_scope_words:
  "\<forall>w \<in> set SUPPORTED_SERVICE_SCOPES. w \<noteq> [] \<and> (\<forall>c \<in> set w. \<not> is_ws c)"
  by (simp add: SUPPORTED_SERVICE_SCOPES_def is_ws_def char_code_def)

lemma js_words_join_supported:
  "set ws \<subseteq> set SUPPORTED_SCOPES \<Longrightarrow> js_words (js_join '' '' ws) = ws"
  using supported_scope_words by (intro js_words_join) blast

lemma js_words_join_service:
  "set ws \<subseteq> set SUPPORTED_SERVICE_SCOPES \<Longrightarrow> js_words (js_join '' '' ws) = ws"
  using supported_service_scope_words by (intro js_words_join) blast

lemma mem_split_ws_join_supported:
  assumes "set ws \<subseteq> set SUPPORTED_SCOPES" and "w \<noteq> []"
  shows "w \<in> set (split_ws (js_join '' '' ws)) \<longleftrightarrow> w \<in> set ws"
  using assms js_words_join_supported[of ws] mem_js_words[of w "js_join '' '' ws"] by simp

lemma deriveAuthMethods_amr:
  "set (fst (deriveAuthMethods m tf)) \<subseteq> {''pwd'', ''ext'', ''otp'', ''mfa''}"
  "''otp'' \<in> set (fst (deriveAuthMethods m tf)) \<longleftrightarrow> tf"
  "''signup'' \<notin> set (fst (deriveAuthMethods m tf))"
  by (auto simp: deriveAuthMethods_def Let_def split: option.splits)

section \<open>Properties\<close>

text \<open>The \<open>amr\<close> column is lossless: parsing what \<open>JSON.stringify\<close> stored returns the list, for
  every list of strings; a text that is not JSON, or is JSON but no array, falls back to
  \<open>['pwd']\<close>; and the result never contains a value that is not a string of the stored array.\<close>

theorem amr_column_roundtrip:
  "safeParseAmr (json_stringify xs) = xs \<and>
   set (safeParseAmr raw) =
     (case json_parse raw of Some (JArr vs) \<Rightarrow> {s. JStr s \<in> set vs} | _ \<Rightarrow> {''pwd''})"
proof -
  have "set (concat (map (\<lambda>v. case v of JStr s \<Rightarrow> [s] | _ \<Rightarrow> []) vs)) = {s. JStr s \<in> set vs}" for vs
    by (induction vs) (auto split: json.splits)
  then have "set (safeParseAmr raw) =
     (case json_parse raw of Some (JArr vs) \<Rightarrow> {s. JStr s \<in> set vs} | _ \<Rightarrow> {''pwd''})"
    unfolding safeParseAmr_def by (simp split: option.split json.split)
  then show ?thesis by simp
qed

end
