(* ===== verification/Client_Auth.thy ===== *)
theory Client_Auth
  imports Host Scopes
begin

text \<open>
  Client authentication (\<open>token/client-auth.ts\<close>), redirect URI validation
  (\<open>token/redirect-uri.ts\<close>), the error redirects (\<open>token/oauth-error-redirect.ts\<close>), the issuer
  (\<open>token/oauth-metadata.ts\<close>), and the per-app two-factor settings
  (\<open>auth/two-factor-required.ts\<close>, \<open>auth/resolve-trust-days.ts\<close>).
\<close>

section \<open>Error codes\<close>

definition USER_ORG_MISMATCH :: string where "USER_ORG_MISMATCH = ''USER_ORG_MISMATCH''"
definition APP_NOT_FOUND :: string where "APP_NOT_FOUND = ''APP_NOT_FOUND''"
definition USER_NOT_FOUND :: string where "USER_NOT_FOUND = ''USER_NOT_FOUND''"
definition INVALID_CREDENTIALS :: string where "INVALID_CREDENTIALS = ''INVALID_CREDENTIALS''"
definition INVALID_REQUEST :: string where "INVALID_REQUEST = ''invalid_request''"
definition INVALID_REDIRECT_URI :: string where "INVALID_REDIRECT_URI = ''invalid_redirect_uri''"
definition INVALID_GRANT :: string where "INVALID_GRANT = ''invalid_grant''"
definition INVALID_CLIENT :: string where "INVALID_CLIENT = ''invalid_client''"
definition UNAUTHORIZED_CLIENT :: string where "UNAUTHORIZED_CLIENT = ''unauthorized_client''"
definition TWO_FACTOR_REQUIRED :: string where "TWO_FACTOR_REQUIRED = ''TWO_FACTOR_REQUIRED''"

lemmas token_error_codes = USER_ORG_MISMATCH_def APP_NOT_FOUND_def USER_NOT_FOUND_def
  INVALID_CREDENTIALS_def INVALID_REQUEST_def INVALID_REDIRECT_URI_def INVALID_GRANT_def
  INVALID_CLIENT_def UNAUTHORIZED_CLIENT_def TWO_FACTOR_REQUIRED_def

definition KNOWN_CODES :: "string list" where
  "KNOWN_CODES = [USER_ORG_MISMATCH, APP_NOT_FOUND, USER_NOT_FOUND, INVALID_CREDENTIALS,
     INVALID_REQUEST, INVALID_REDIRECT_URI, INVALID_GRANT, INVALID_CLIENT, UNAUTHORIZED_CLIENT,
     TWO_FACTOR_REQUIRED]"

section \<open>Client authentication\<close>

text \<open>
  The scheme and the credentials of an \<open>Authorization\<close> header: the first two pieces between
  blanks. A missing header is the empty string.
\<close>

definition split_authorization :: "string option \<Rightarrow> string \<times> string" where
  "split_authorization header =
     (case split_on CHR '' '' (case header of None \<Rightarrow> [] | Some s \<Rightarrow> s) of
        scheme # encoded # _ \<Rightarrow> (scheme, encoded)
      | [scheme] \<Rightarrow> (scheme, [])
      | [] \<Rightarrow> ([], []))"

definition extractClientSecret ::
    "host \<Rightarrow> string option \<Rightarrow> string option \<Rightarrow> err + string option" where
  "extractClientSecret h authorization client_secret =
     (case split_authorization authorization of
        (scheme, encoded) \<Rightarrow>
          (if to_lower scheme = ''basic'' \<and> encoded \<noteq> [] then
             (let decoded = h_base64_utf8 h encoded in
              if CHR '':'' \<in> set decoded then
                (case h_decode_uri_component h (tl (dropWhile (\<lambda>c. c \<noteq> CHR '':'') decoded)) of
                   None \<Rightarrow> Inl (JsError ''URI malformed'')
                 | Some secret \<Rightarrow> Inr (Some secret))
              else Inr client_secret)
           else Inr client_secret))"

definition verifyClientSecret :: "host \<Rightarrow> string option \<Rightarrow> string option \<Rightarrow> bool" where
  "verifyClientSecret h presented hash =
     (if \<not> truthy presented \<or> \<not> truthy hash then False
      else (case h_verify_password h (the hash) (the presented) of
              Some valid \<Rightarrow> valid
            | None \<Rightarrow> False))"

section \<open>Redirect URIs\<close>

definition isExactMatch :: "host \<Rightarrow> string \<Rightarrow> string \<Rightarrow> bool" where
  "isExactMatch h redirectUri callbackUrl =
     (case (h_parse_url h redirectUri, h_parse_url h callbackUrl) of
        (Some a, Some b) \<Rightarrow>
          u_protocol a = u_protocol b \<and> u_host a = u_host b \<and>
          u_pathname a = u_pathname b \<and> u_search a = u_search b
      | _ \<Rightarrow> False)"

definition registered :: "redirect_uri_row list \<Rightarrow> string \<Rightarrow> string list" where
  "registered rs kind = map ru_uri (filter (\<lambda>r. ru_kind r = kind) rs)"

definition assertRedirectUriAllowed ::
    "host \<Rightarrow> string \<Rightarrow> string \<Rightarrow> redirect_uri_row list \<Rightarrow> err + unit" where
  "assertRedirectUriAllowed h redirectUri appUrl rs =
     (let allowed = registered rs ''login'' in
      if allowed \<noteq> [] then
        (if list_ex (isExactMatch h redirectUri) allowed then Inr ()
         else Inl (BadRequestE INVALID_REDIRECT_URI))
      else
        (case (h_parse_url h redirectUri, h_parse_url h appUrl) of
           (Some a, Some b) \<Rightarrow>
             (if u_origin a \<noteq> u_origin b then Inl (BadRequestE INVALID_REDIRECT_URI) else Inr ())
         | _ \<Rightarrow> Inl (BadRequestE INVALID_REDIRECT_URI)))"

definition assertPostLogoutRedirectUriAllowed ::
    "host \<Rightarrow> string \<Rightarrow> redirect_uri_row list \<Rightarrow> err + unit" where
  "assertPostLogoutRedirectUriAllowed h uri rs =
     (if list_ex (isExactMatch h uri) (registered rs ''post_logout'') then Inr ()
      else Inl (BadRequestE INVALID_REDIRECT_URI))"

section \<open>Error redirects\<close>

definition extractTokenErrorCode :: "err \<Rightarrow> string option" where
  "extractTokenErrorCode e =
     (if http_status e = None then None
      else (case e of
              UnauthorizedE _ \<Rightarrow> None
            | _ \<Rightarrow> if err_message e \<in> set KNOWN_CODES then Some (err_message e) else None))"

definition buildOauthErrorRedirectUrl :: "string \<Rightarrow> string \<Rightarrow> string \<Rightarrow> string" where
  "buildOauthErrorRedirectUrl adminUrl code clientId =
     strip_slashes adminUrl @ ''/oauth-error?'' @
     params_to_string
       (if clientId \<noteq> [] then params_set [(''code'', code)] ''app'' clientId else [(''code'', code)])"

definition client_error_url :: "url \<Rightarrow> string \<Rightarrow> string \<Rightarrow> string \<Rightarrow> url" where
  "client_error_url u error description state =
     (let u2 = url_set_param (url_set_param u ''error'' error) ''error_description'' description in
      if state \<noteq> [] then url_set_param u2 ''state'' state else u2)"

definition buildClientErrorRedirectUrl ::
    "host \<Rightarrow> string \<Rightarrow> string \<Rightarrow> string \<Rightarrow> string \<Rightarrow> err + url" where
  "buildClientErrorRedirectUrl h redirectUri error description state =
     (case h_parse_url h redirectUri of
        None \<Rightarrow> Inl (JsError ''Invalid URL'')
      | Some u \<Rightarrow> Inr (client_error_url u error description state))"

section \<open>The issuer and the metadata\<close>

definition OAUTH_AUTHORIZE_PATH :: string where
  "OAUTH_AUTHORIZE_PATH = ''/api/token/oauth/authorize''"

definition ISSUER_PLACEHOLDER :: string where
  "ISSUER_PLACEHOLDER = ''https://auth.example.com''"

definition resolveIssuer :: "host \<Rightarrow> string" where
  "resolveIssuer h =
     strip_one_slash (case h_env h ''BETTER_AUTH_URL'' of None \<Rightarrow> ISSUER_PLACEHOLDER | Some u \<Rightarrow> u)"

record oauth_metadata =
  md_issuer :: string
  md_authorization_endpoint :: string
  md_token_endpoint :: string
  md_jwks_uri :: string
  md_response_types_supported :: "string list"
  md_grant_types_supported :: "string list"
  md_code_challenge_methods_supported :: "string list"
  md_token_endpoint_auth_methods_supported :: "string list"

definition buildOAuthAuthorizationServerMetadata :: "string \<Rightarrow> oauth_metadata" where
  "buildOAuthAuthorizationServerMetadata issuer =
     (let base = strip_one_slash issuer; tokenRoot = base @ ''/api/token'' in
      \<lparr>md_issuer = base,
       md_authorization_endpoint = tokenRoot @ ''/oauth/authorize'',
       md_token_endpoint = tokenRoot @ ''/oauth/token'',
       md_jwks_uri = tokenRoot @ ''/jwks'',
       md_response_types_supported = [''code''],
       md_grant_types_supported = [''authorization_code'', ''refresh_token''],
       md_code_challenge_methods_supported = [''S256''],
       md_token_endpoint_auth_methods_supported =
         [''none'', ''client_secret_basic'', ''client_secret_post'']\<rparr>)"

record openid_configuration = oauth_metadata +
  md_userinfo_endpoint :: string
  md_end_session_endpoint :: string
  md_scopes_supported :: "string list"
  md_subject_types_supported :: "string list"
  md_id_token_signing_alg_values_supported :: "string list"
  md_claims_supported :: "string list"

definition buildOpenIdConfiguration :: "string \<Rightarrow> openid_configuration" where
  "buildOpenIdConfiguration issuer =
     (let tokenRoot = strip_one_slash issuer @ ''/api/token'' in
      oauth_metadata.extend (buildOAuthAuthorizationServerMetadata issuer)
        (openid_configuration.fields (tokenRoot @ ''/oauth/userinfo'') (tokenRoot @ ''/oauth/logout'')
           [''openid'', ''profile'', ''email'', ''offline_access''] [''public''] [''RS256'']
           [''sub'', ''iss'', ''aud'', ''exp'', ''iat'', ''auth_time'', ''nonce'', ''amr'', ''at_hash'',
            ''org'', ''name'', ''given_name'', ''family_name'', ''email'', ''email_verified'']))"

section \<open>Two-factor settings\<close>

definition isPlatformTwoFactorRequired :: "host \<Rightarrow> bool" where
  "isPlatformTwoFactorRequired h =
     (to_lower (case h_env h ''PLATFORM_REQUIRE_2FA'' of None \<Rightarrow> [] | Some s \<Rightarrow> s) = ''true'')"

definition isTwoFactorRequired :: "host \<Rightarrow> sa_app \<Rightarrow> bool" where
  "isTwoFactorRequired h app =
     (if app_requireTwoFactor app then True
      else app_isPlatform app \<and> isPlatformTwoFactorRequired h)"

definition FALLBACK_DAYS :: int where
  "FALLBACK_DAYS = 14"

definition getSystemTrustDays :: "host \<Rightarrow> int" where
  "getSystemTrustDays h =
     (let raw = h_env h ''TWO_FACTOR_TRUST_DAYS'' in
      if \<not> truthy raw then FALLBACK_DAYS
      else (case integer_value (to_number (the raw)) of
              None \<Rightarrow> FALLBACK_DAYS
            | Some n \<Rightarrow> if n \<le> 0 then FALLBACK_DAYS else n))"

definition resolveTrustDays :: "sa_app \<Rightarrow> int \<Rightarrow> int" where
  "resolveTrustDays app systemDefault =
     (case app_twoFactorTrustDays app of
        Some n \<Rightarrow> if n > 0 then n else systemDefault
      | None \<Rightarrow> systemDefault)"

definition getSystemPromptEnabled :: "host \<Rightarrow> bool" where
  "getSystemPromptEnabled h =
     (case h_env h ''TWO_FACTOR_PROMPT_ENABLED'' of
        None \<Rightarrow> True
      | Some raw \<Rightarrow>
          (if raw = [] then True else to_lower raw \<noteq> ''false'' \<and> raw \<noteq> ''0''))"

definition resolvePromptEnabled :: "sa_app \<Rightarrow> bool \<Rightarrow> bool" where
  "resolvePromptEnabled app systemDefault =
     (case app_twoFactorPromptEnabled app of Some b \<Rightarrow> b | None \<Rightarrow> systemDefault)"

definition appTrustDays :: "host \<Rightarrow> db \<Rightarrow> string \<Rightarrow> int \<times> bool" where
  "appTrustDays h d clientId =
     (let systemTrustDays = getSystemTrustDays h; systemPromptEnabled = getSystemPromptEnabled h in
      if clientId = [] then (systemTrustDays, systemPromptEnabled)
      else (case app_by_publicId d clientId of
              None \<Rightarrow> (systemTrustDays, systemPromptEnabled)
            | Some app \<Rightarrow>
                (resolveTrustDays app systemTrustDays, resolvePromptEnabled app systemPromptEnabled)))"

end
