(* ===== verification/Single_Use.thy ===== *)
theory Single_Use
  imports Prelude
begin

text \<open>
  The contract of a store of single-use credentials (authorization codes, refresh tokens,
  invitations): once a redemption has succeeded the credential is spent, a spent credential stays
  spent whatever the server does next, and a spent credential cannot be redeemed.
\<close>

text \<open>A history: the events in order, each admissible in the state it meets.\<close>

fun run_events :: "('e \<Rightarrow> 's \<Rightarrow> 's) \<Rightarrow> 'e list \<Rightarrow> 's \<Rightarrow> 's" where
  "run_events step [] s = s"
| "run_events step (e # es) s = run_events step es (step e s)"

fun admissible_events :: "('e \<Rightarrow> 's \<Rightarrow> 's) \<Rightarrow> ('e \<Rightarrow> 's \<Rightarrow> bool) \<Rightarrow> 'e list \<Rightarrow> 's \<Rightarrow> bool" where
  "admissible_events step adm [] s = True"
| "admissible_events step adm (e # es) s = (adm e s \<and> admissible_events step adm es (step e s))"

locale single_use =
  fixes redeem :: "'x \<Rightarrow> 'k \<Rightarrow> ('s, 'a) eff"
    and step :: "'e \<Rightarrow> 's \<Rightarrow> 's"
    and admissible :: "'e \<Rightarrow> 's \<Rightarrow> bool"
    and healthy :: "'s \<Rightarrow> bool"
    and spent :: "'s \<Rightarrow> 'k \<Rightarrow> bool"
  assumes success_spends: "healthy s \<Longrightarrow> redeem x k s = (Inr a, t) \<Longrightarrow> spent t k"
    and spent_refused: "spent s k \<Longrightarrow> fst (redeem x k s) \<noteq> Inr a"
    and spent_stays: "spent s k \<Longrightarrow> admissible e s \<Longrightarrow> spent (step e s) k"
begin

lemma spent_run: "spent s k \<Longrightarrow> admissible_events step admissible es s \<Longrightarrow> spent (run_events step es s) k"
  by (induction es arbitrary: s) (auto dest: spent_stays)

lemma redeemed_once:
  assumes "healthy s" "redeem x k s = (Inr a, t)" and "admissible_events step admissible es t"
  shows "fst (redeem y k (run_events step es t)) \<noteq> Inr b"
  using spent_run[OF success_spends[OF assms(1,2)] assms(3)] spent_refused by blast

end

end
