(* ===== verification/Example_Data.thy ===== *)
theory Example_Data
  imports Host
begin

text \<open>
  One small concrete world, at which the theorems that have hypotheses are instantiated: a host
  whose functions compute, and a database with a platform app and a customer app, an organisation
  in each, a platform administrator, an organisation administrator and a plain user.
\<close>

definition example_url :: "string \<Rightarrow> url" where
  "example_url s = \<lparr>u_protocol = ''https:'', u_host = s, u_hostname = s, u_origin = s,
     u_pathname = ''/'', u_search = [], u_username = [], u_password = [], u_hash = [],
     u_before_query = s, u_params = []\<rparr>"

definition example_host :: host where
  "example_host = \<lparr>
     h_env = (\<lambda>k. if k = ''ADMIN_URL'' then Some ''https://admin''
                  else if k = ''BETTER_AUTH_URL'' then Some ''https://auth'' else None),
     h_parse_url = (\<lambda>s. if s = [] then None else Some (example_url s)),
     h_sqid_encode = (\<lambda>i. replicate (nat i) CHR ''x''),
     h_sqid_decode = (\<lambda>s. if s = [] then None else Some (int (length s))),
     h_sha256_hex = (\<lambda>s. CHR ''#'' # s),
     h_sha256_base64 = (\<lambda>s. s),
     h_sha256_half_base64url = (\<lambda>s. s),
     h_base64_utf8 = (\<lambda>s. s),
     h_decode_uri_component = Some,
     h_verify_password = (\<lambda>hash p. Some (hash = CHR ''h'' # p)),
     h_dummy_hash = ''dummy'',
     h_jwt_sign = (\<lambda>c. ''jwt''),
     h_jwt_verify = (\<lambda>now aud iss t. None),
     h_totp_verify = (\<lambda>now secret c. Some (secret = c))\<rparr>"

definition example_branding :: app_branding where
  "example_branding = \<lparr>logo = None, favicon = None, pageLightBackgroundColor = None,
     pageDarkBackgroundColor = None, cardLightBackgroundColor = None,
     cardDarkBackgroundColor = None\<rparr>"

definition platform_app :: sa_app where
  "platform_app = \<lparr>app_id = 1, app_publicId = ''x'', app_name = ''Platform'', app_url = ''https://p'',
     app_branding = example_branding, app_twoFactorTrustDays = None,
     app_twoFactorPromptEnabled = None, app_requireTwoFactor = False,
     app_allowOfflineAccess = False, app_isPlatform = True, app_canManageOwnRoles = False,
     app_passwordPolicyOverride = None, app_clientSecretHash = None,
     app_clientSecretUpdatedAt = None, app_activationWebhookUrl = None,
     app_activationWebhookSecret = None, app_activationEmailOverride = None, app_emailVerificationMethod = LinkMethod,
     app_privacyPolicyUrl = None, app_termsUrl = None, app_gdprUrl = None,
     app_defaultOrgId = None, app_defaultRoleId = None\<rparr>"

definition customer_app :: sa_app where
  "customer_app = platform_app\<lparr>app_id := 2, app_publicId := ''xx'', app_name := ''Customer'',
     app_url := ''https://c'', app_isPlatform := False, app_allowOfflineAccess := True\<rparr>"

definition example_user_row :: "string \<Rightarrow> string \<Rightarrow> user_row" where
  "example_user_row i e = \<lparr>usr_id = i, usr_name = ''N'', usr_email = e, usr_emailVerified = True,
     usr_twoFactorEnabled = False, usr_createdAt = 0\<rparr>"

definition example_sa_user :: "int \<Rightarrow> string \<Rightarrow> int \<Rightarrow> sa_user" where
  "example_sa_user i b og = \<lparr>sau_id = i, sau_publicId = replicate (nat i) CHR ''x'',
     sau_betterAuthUserId = b, sau_orgId = og, sau_firstName = ''F'', sau_lastName = ''L'',
     sau_marketingOptIn = False, sau_phoneNumber = None, sau_username = None,
     sau_status = Active, sau_createdAt = 0, sau_lastLoginAt = None,
     sau_twoFactorPromptedAt = None\<rparr>"

definition example_perm :: "int \<Rightarrow> string \<Rightarrow> int \<Rightarrow> bool \<Rightarrow> sa_permission" where
  "example_perm i n a sys = \<lparr>perm_id = i, perm_publicId = replicate (nat i) CHR ''x'',
     perm_name = n, perm_appId = a, perm_isSystem = sys\<rparr>"

definition example_role :: "int \<Rightarrow> string \<Rightarrow> int \<Rightarrow> sa_role" where
  "example_role i n a = \<lparr>role_id = i, role_publicId = replicate (nat i) CHR ''x'', role_name = n,
     role_appId = a\<rparr>"

definition example_db :: db where
  "example_db = empty_db\<lparr>
     users := [example_user_row ''b1'' ''root@p'', example_user_row ''b2'' ''admin@c'',
               example_user_row ''b3'' ''user@c''],
     accounts := [\<lparr>acc_id = ''a3'', acc_accountId = ''b3'', acc_providerId = ''credential'',
                    acc_userId = ''b3'', acc_password = Some ''hpw''\<rparr>],
     saApps := [platform_app, customer_app],
     saOrgs := [\<lparr>org_id = 1, org_publicId = ''x'', org_name = ''P'', org_appId = 1, org_isPlatform = True\<rparr>,
                \<lparr>org_id = 2, org_publicId = ''xx'', org_name = ''C'', org_appId = 2, org_isPlatform = False\<rparr>],
     saUsers := [example_sa_user 1 ''b1'' 1, example_sa_user 2 ''b2'' 2, example_sa_user 3 ''b3'' 2],
     saPermissions := [example_perm 1 ''platform.users.manage'' 1 False,
                       example_perm 2 ''org.users.manage'' 1 True,
                       example_perm 3 ''doc.read'' 2 False],
     saRoles := [example_role 1 ''Platform Super Admin'' 1, example_role 2 ''Org Admin'' 2,
                 example_role 3 ''Reader'' 2],
     saRolePermissions := [(1, 1), (2, 2), (3, 3)],
     saUserRoles := [(1, 1), (2, 2), (3, 3)],
     nextId := (\<lambda>_. 10)\<rparr>"

lemmas example_defs = example_url_def example_host_def example_branding_def platform_app_def
  customer_app_def example_user_row_def example_sa_user_def example_perm_def example_role_def
  example_db_def empty_db_def

lemma example_ids [simp]: "replicate 2 c = [c, c]" "replicate 3 c = [c, c, c]"
  by (simp_all add: numeral_2_eq_2 numeral_3_eq_3)

text \<open>The same world where the platform administrator may manage everything.\<close>

definition admin_db :: db where
  "admin_db = example_db\<lparr>
     saPermissions := saPermissions example_db @
       [example_perm 4 ''platform.roles.manage'' 1 False, example_perm 5 ''platform.permissions.manage'' 1 False,
        example_perm 6 ''platform.orgs.manage'' 1 False, example_perm 7 ''platform.apps.manage'' 1 False],
     saRolePermissions := saRolePermissions example_db @ [(1, 4), (1, 5), (1, 6), (1, 7)]\<rparr>"

lemma example_db_ok: "db_ok example_db"
  by (simp add: db_ok_def keys_ok_def fks_ok_def seqs_ok_def some_values_def example_defs
      numeral_2_eq_2 numeral_3_eq_3)

lemma replicate_numeral_Suc: "replicate (numeral k) c = c # replicate (pred_numeral k) c"
  by (simp add: numeral_eq_Suc)

lemma admin_db_ok: "db_ok admin_db"
  by (simp add: admin_db_def db_ok_def keys_ok_def fks_ok_def seqs_ok_def some_values_def example_defs
      replicate_numeral_Suc)

end
