(* ===== verification/Oauth_Codes.thy ===== *)
theory Oauth_Codes
  imports Client_Auth Single_Use Example_Data
begin

text \<open>
  Authorization codes: \<open>token/oauth.service.ts\<close> (issue, exchange) and the sweep of
  \<open>token/oauth-code-cleanup.service.ts\<close>. The random code and the time are arguments.
\<close>

definition CODE_TTL_MS :: int where
  "CODE_TTL_MS = 5 * 60 * 1000"

definition base64UrlEncode :: "string \<Rightarrow> string" where
  "base64UrlEncode b64 =
     rev (dropWhile (\<lambda>c. c = CHR ''='')
       (rev (map (\<lambda>c. if c = CHR ''+'' then CHR ''-'' else if c = CHR ''/'' then CHR ''_'' else c) b64)))"

definition s256 :: "host \<Rightarrow> string \<Rightarrow> string" where
  "s256 h verifier = base64UrlEncode (h_sha256_base64 h verifier)"

definition code_row :: "db \<Rightarrow> string \<Rightarrow> oauth_code option" where
  "code_row d code = find (\<lambda>r. oc_code r = code) (saOauthCodes d)"

definition create_code :: "oauth_code \<Rightarrow> (db, unit) eff" where
  "create_code row = (\<lambda>d.
     if code_row d (oc_code row) \<noteq> None then (Inl (PrismaE ''P2002''), d)
     else (Inr (), d\<lparr>saOauthCodes := saOauthCodes d @ [row]\<rparr>))"

definition generateCode ::
    "string \<Rightarrow> int \<Rightarrow> string \<Rightarrow> string \<Rightarrow> string \<Rightarrow> string option \<Rightarrow> string option \<Rightarrow>
     string list \<Rightarrow> string option \<Rightarrow> string \<Rightarrow> int \<Rightarrow> string option \<Rightarrow> (db, string) eff" where
  "generateCode code now userId appPublicId redirectUri codeChallenge codeChallengeMethod
       amr nonce scope authTime idp =
     thenE (create_code
       \<lparr>oc_code = code, oc_userId = userId, oc_appPublicId = appPublicId,
        oc_redirectUri = redirectUri, oc_codeChallenge = codeChallenge,
        oc_codeChallengeMethod = codeChallengeMethod, oc_nonce = nonce, oc_scope = scope,
        oc_authTime = authTime, oc_amr = json_stringify amr, oc_idp = idp,
        oc_expiresAt = now + CODE_TTL_MS\<rparr>)
     (ret code)"

record exchanged_code =
  ex_userId :: string
  ex_appPublicId :: string
  ex_amr :: "string list"
  ex_nonce :: "string option"
  ex_scope :: string
  ex_authTime :: int
  ex_hadChallenge :: bool
  ex_idp :: "string option"

text \<open>\<open>prisma.saOauthCode.delete\<close>: returns the deleted row, P2025 when there is none.\<close>

definition delete_code :: "string \<Rightarrow> (db, oauth_code) eff" where
  "delete_code code = (\<lambda>d.
     case code_row d code of
       None \<Rightarrow> (Inl (PrismaE ''P2025''), d)
     | Some row \<Rightarrow>
         (Inr row, d\<lparr>saOauthCodes := filter (\<lambda>r. oc_code r \<noteq> code) (saOauthCodes d)\<rparr>))"

definition exchangeCode ::
    "host \<Rightarrow> int \<Rightarrow> string \<Rightarrow> string \<Rightarrow> string \<Rightarrow> string option \<Rightarrow> (db, exchanged_code) eff" where
  "exchangeCode h now code appPublicId redirectUri codeVerifier =
     bindE (catchE (delete_code code)
              (\<lambda>e. if e = PrismaE ''P2025'' then raise (UnauthorizedE INVALID_GRANT) else raise e))
     (\<lambda>entry.
        if oc_appPublicId entry \<noteq> appPublicId then raise (UnauthorizedE UNAUTHORIZED_CLIENT)
        else if oc_expiresAt entry < now then raise (UnauthorizedE INVALID_GRANT)
        else if oc_redirectUri entry \<noteq> redirectUri then raise (UnauthorizedE INVALID_GRANT)
        else if truthy (oc_codeChallenge entry) \<and> \<not> truthy codeVerifier then
          raise (UnauthorizedE INVALID_GRANT)
        else if truthy (oc_codeChallenge entry) \<and>
                oc_codeChallenge entry \<noteq> Some (s256 h (the codeVerifier)) then
          raise (UnauthorizedE INVALID_GRANT)
        else ret
          \<lparr>ex_userId = oc_userId entry, ex_appPublicId = oc_appPublicId entry,
           ex_amr = safeParseAmr (oc_amr entry), ex_nonce = oc_nonce entry,
           ex_scope = oc_scope entry, ex_authTime = oc_authTime entry,
           ex_hadChallenge = (oc_codeChallenge entry \<noteq> None), ex_idp = oc_idp entry\<rparr>)"

text \<open>The sweep deletes what has expired and reports how many rows went.\<close>

definition sweep_codes :: "int \<Rightarrow> (db, nat) eff" where
  "sweep_codes now = (\<lambda>d.
     let live = filter (\<lambda>r. \<not> oc_expiresAt r < now) (saOauthCodes d) in
     (Inr (length (saOauthCodes d) - length live), d\<lparr>saOauthCodes := live\<rparr>))"

section \<open>What each operation does\<close>

lemma code_row_sound: "code_row d k = Some r \<Longrightarrow> r \<in> set (saOauthCodes d) \<and> oc_code r = k"
  unfolding code_row_def by (rule find_Some_iff)

lemma code_row_None: "code_row d k = None \<longleftrightarrow> (\<forall>r \<in> set (saOauthCodes d). oc_code r \<noteq> k)"
  by (simp add: code_row_def find_None_all)

definition without_code :: "db \<Rightarrow> string \<Rightarrow> db" where
  "without_code d code = d\<lparr>saOauthCodes := filter (\<lambda>r. oc_code r \<noteq> code) (saOauthCodes d)\<rparr>"

lemma code_row_without [simp]:
  "code_row (without_code d k) k = None"
  "k' \<noteq> k \<Longrightarrow> code_row (without_code d k) k' = code_row d k'"
proof -
  show "code_row (without_code d k) k = None"
    by (auto simp: without_code_def code_row_None)
  have "find (\<lambda>r. oc_code r = k') (filter (\<lambda>r. oc_code r \<noteq> k) rs) = find (\<lambda>r. oc_code r = k') rs"
    if "k' \<noteq> k" for rs
    using that by (induction rs) auto
  then show "k' \<noteq> k \<Longrightarrow> code_row (without_code d k) k' = code_row d k'"
    by (simp add: without_code_def code_row_def)
qed

text \<open>Whatever the verdict, an exchange leaves the database without the code.\<close>

lemma exchangeCode_state: "snd (exchangeCode h now k a u v d) = without_code d k"
proof (cases "code_row d k")
  case None
  then have "without_code d k = d"
    by (auto simp: without_code_def code_row_None filter_id_conv)
  with None show ?thesis
    by (simp add: exchangeCode_def bindE_def catchE_def delete_code_def)
next
  case (Some r)
  then show ?thesis
    by (simp add: exchangeCode_def bindE_def catchE_def delete_code_def without_code_def)
qed

text \<open>The redemption condition, as one predicate on the stored row.\<close>

definition redeemable :: "host \<Rightarrow> int \<Rightarrow> oauth_code \<Rightarrow> string \<Rightarrow> string \<Rightarrow> string option \<Rightarrow> bool" where
  "redeemable h now r appPublicId redirectUri v \<longleftrightarrow>
     oc_appPublicId r = appPublicId \<and> now \<le> oc_expiresAt r \<and> oc_redirectUri r = redirectUri \<and>
     (\<forall>ch. oc_codeChallenge r = Some ch \<and> ch \<noteq> [] \<longrightarrow>
        (\<exists>w. v = Some w \<and> w \<noteq> [] \<and> ch = s256 h w))"

lemma exchangeCode_ok:
  "exchangeCode h now k a u v d = (Inr x, t) \<longleftrightarrow>
     t = without_code d k \<and>
     (\<exists>r. code_row d k = Some r \<and> redeemable h now r a u v \<and>
        x = \<lparr>ex_userId = oc_userId r, ex_appPublicId = oc_appPublicId r,
             ex_amr = safeParseAmr (oc_amr r), ex_nonce = oc_nonce r, ex_scope = oc_scope r,
             ex_authTime = oc_authTime r, ex_hadChallenge = (oc_codeChallenge r \<noteq> None),
             ex_idp = oc_idp r\<rparr>)"
  (is "?l \<longleftrightarrow> ?r")
proof -
  have verdict: "fst (exchangeCode h now k a u v d) = Inr x \<longleftrightarrow>
      (\<exists>r. code_row d k = Some r \<and> redeemable h now r a u v \<and>
        x = \<lparr>ex_userId = oc_userId r, ex_appPublicId = oc_appPublicId r,
             ex_amr = safeParseAmr (oc_amr r), ex_nonce = oc_nonce r, ex_scope = oc_scope r,
             ex_authTime = oc_authTime r, ex_hadChallenge = (oc_codeChallenge r \<noteq> None),
             ex_idp = oc_idp r\<rparr>)"
    by (cases "code_row d k")
      (auto simp: exchangeCode_def bindE_def catchE_def delete_code_def redeemable_def truthy_iff)
  show ?thesis
    using verdict exchangeCode_state[of h now k a u v d]
    by (cases "exchangeCode h now k a u v d") auto
qed

lemma exchangeCode_err:
  assumes "exchangeCode h now k a u v d = (Inl e, t)"
  shows "e = UnauthorizedE INVALID_GRANT \<or> e = UnauthorizedE UNAUTHORIZED_CLIENT"
    and "t = without_code d k"
proof -
  show "t = without_code d k" using exchangeCode_state[of h now k a u v d] assms by simp
  show "e = UnauthorizedE INVALID_GRANT \<or> e = UnauthorizedE UNAUTHORIZED_CLIENT"
    using assms
    by (cases "code_row d k")
      (auto simp: exchangeCode_def bindE_def catchE_def delete_code_def split: if_splits)
qed

lemma generateCode_ok:
  "generateCode code now uid aid u ch m amr nonce sc at idp d = (Inr k, t) \<longleftrightarrow>
     k = code \<and> code_row d code = None \<and>
     t = d\<lparr>saOauthCodes := saOauthCodes d @
       [\<lparr>oc_code = code, oc_userId = uid, oc_appPublicId = aid, oc_redirectUri = u,
         oc_codeChallenge = ch, oc_codeChallengeMethod = m, oc_nonce = nonce, oc_scope = sc,
         oc_authTime = at, oc_amr = json_stringify amr, oc_idp = idp,
         oc_expiresAt = now + CODE_TTL_MS\<rparr>]\<rparr>"
  by (auto simp: generateCode_def create_code_def thenE_def bindE_def)

lemma code_row_append:
  "code_row (d\<lparr>saOauthCodes := saOauthCodes d @ [r]\<rparr>) k =
     (case code_row d k of Some x \<Rightarrow> Some x | None \<Rightarrow> if oc_code r = k then Some r else None)"
  by (simp add: code_row_def find_snoc)

section \<open>Single use\<close>

text \<open>
  What the server may do with the code table, and a ghost record of every code value issued or
  presented so far: 256 random bits are assumed never to hit a value already seen.
\<close>

datatype code_event =
    IssueCode oauth_code
  | ExchangeCode host int string string string "string option"
  | SweepCodes int

fun code_step :: "code_event \<Rightarrow> db \<times> string list \<Rightarrow> db \<times> string list" where
  "code_step (IssueCode row) (d, seen) = (snd (create_code row d), oc_code row # seen)"
| "code_step (ExchangeCode h now k a u v) (d, seen) = (snd (exchangeCode h now k a u v d), k # seen)"
| "code_step (SweepCodes now) (d, seen) = (snd (sweep_codes now d), seen)"

fun code_event_ok :: "code_event \<Rightarrow> db \<times> string list \<Rightarrow> bool" where
  "code_event_ok (IssueCode row) (d, seen) = (oc_code row \<notin> set seen)"
| "code_event_ok _ _ = True"

definition code_spent :: "db \<times> string list \<Rightarrow> string \<Rightarrow> bool" where
  "code_spent s k \<longleftrightarrow> k \<in> set (snd s) \<and> code_row (fst s) k = None"

definition redeem_code ::
    "host \<times> int \<times> string \<times> string \<times> string option \<Rightarrow> string \<Rightarrow>
     (db \<times> string list, exchanged_code) eff" where
  "redeem_code x k s =
     (case x of (h, now, a, u, v) \<Rightarrow>
        (case exchangeCode h now k a u v (fst s) of (r, d') \<Rightarrow> (r, (d', k # snd s))))"

lemma code_row_create:
  "k \<noteq> oc_code row \<Longrightarrow> code_row (snd (create_code row d)) k = code_row d k"
  by (auto simp: create_code_def code_row_append split: option.splits)

lemma code_row_sweep: "code_row d k = None \<Longrightarrow> code_row (snd (sweep_codes now d)) k = None"
  by (auto simp: sweep_codes_def Let_def code_row_None)

lemma code_row_exchange:
  "code_row d k = None \<Longrightarrow> code_row (snd (exchangeCode h now k' a u v d)) k = None"
  by (cases "k = k'") (simp_all add: exchangeCode_state)

lemma code_spent_step:
  assumes "code_spent s k" and "code_event_ok e s"
  shows "code_spent (code_step e s) k"
proof (cases s)
  case (Pair d seen)
  show ?thesis
  proof (cases e)
    case (IssueCode row)
    then have "k \<noteq> oc_code row" using assms Pair by (auto simp: code_spent_def)
    with IssueCode assms Pair show ?thesis by (simp add: code_spent_def code_row_create)
  qed (use assms Pair in \<open>simp_all add: code_spent_def code_row_exchange code_row_sweep\<close>)
qed

interpretation code_store: single_use redeem_code code_step code_event_ok "\<lambda>_. True" code_spent
proof (unfold_locales, goal_cases)
  case (1 x k s a t)
  then show ?case
    by (cases x) (auto simp: redeem_code_def code_spent_def exchangeCode_ok split: prod.splits)
next
  case (2 s k x a)
  then show ?case
    by (cases x) (auto simp: redeem_code_def code_spent_def exchangeCode_ok split: prod.splits)
next
  case (3 s k e)
  then show ?case by (rule code_spent_step)
qed

section \<open>Properties\<close>

text \<open>C1 An authorization code is redeemed at most once: after a successful exchange no sequence of
  code issues, exchanges and sweeps lets any request redeem the same code again, whatever client,
  redirect URI and verifier it presents, provided newly drawn codes do not repeat values already
  seen.\<close>

theorem code_redeemed_at_most_once:
  assumes "exchangeCode h now k a u v d = (Inr x, d')"
    and "admissible_events code_step code_event_ok es (d', k # seen)"
  shows "fst (exchangeCode h2 now2 k a2 u2 v2 (fst (run_events code_step es (d', k # seen)))) \<noteq> Inr y"
proof -
  have "redeem_code (h, now, a, u, v) k (d, seen) = (Inr x, (d', k # seen))"
    using assms(1) by (simp add: redeem_code_def)
  from code_store.redeemed_once[OF TrueI this assms(2), of "(h2, now2, a2, u2, v2)" y]
  show ?thesis by (auto simp: redeem_code_def split: prod.splits)
qed

definition example_code :: oauth_code where
  "example_code = \<lparr>oc_code = ''k'', oc_userId = ''xxx'', oc_appPublicId = ''xx'', oc_redirectUri = ''https://c'',
     oc_codeChallenge = Some ''ver'', oc_codeChallengeMethod = Some ''S256'', oc_nonce = None,
     oc_scope = ''openid'', oc_authTime = 0, oc_amr = json_stringify [''pwd''], oc_idp = None,
     oc_expiresAt = 100\<rparr>"

lemma code_redeemed_at_most_once_witness:
  "fst (exchangeCode example_host 60 ''k'' ''xx'' ''https://c'' (Some ''ver'')
     (fst (run_events code_step [SweepCodes 55, IssueCode (example_code\<lparr>oc_code := ''j''\<rparr>)]
       (without_code (example_db\<lparr>saOauthCodes := [example_code]\<rparr>) ''k'', [''k''])))) \<noteq>
   Inr \<lparr>ex_userId = ''xxx'', ex_appPublicId = ''xx'', ex_amr = [''pwd''], ex_nonce = None, ex_scope = ''openid'',
        ex_authTime = 0, ex_hadChallenge = True, ex_idp = None\<rparr>"
proof (rule code_redeemed_at_most_once)
  show "exchangeCode example_host 50 ''k'' ''xx'' ''https://c'' (Some ''ver'') (example_db\<lparr>saOauthCodes := [example_code]\<rparr>) =
    (Inr \<lparr>ex_userId = ''xxx'', ex_appPublicId = ''xx'', ex_amr = [''pwd''], ex_nonce = None, ex_scope = ''openid'',
          ex_authTime = 0, ex_hadChallenge = True, ex_idp = None\<rparr>,
     without_code (example_db\<lparr>saOauthCodes := [example_code]\<rparr>) ''k'')"
    by (simp add: exchangeCode_ok code_row_def redeemable_def example_code_def example_host_def
        s256_def base64UrlEncode_def)
  show "admissible_events code_step code_event_ok
      [SweepCodes 55, IssueCode (example_code\<lparr>oc_code := ''j''\<rparr>)]
      (without_code (example_db\<lparr>saOauthCodes := [example_code]\<rparr>) ''k'', [''k''])"
    by simp
qed

text \<open>C14 A code carries exactly what was bound to it: exchanging a freshly generated code succeeds
  precisely for the app and the byte-exact redirect URI it was issued for, within five minutes,
  with the verifier of its challenge if it has one; the result is the user, scope, nonce,
  authentication time, methods and provider given at issue; and the code is gone.\<close>

theorem generate_exchange_roundtrip:
  assumes "generateCode code t0 uid aid uri ch m amr nonce sc at idp d = (Inr k, d1)"
  shows "exchangeCode h t k aid' uri' v d1 = (Inr x, d2) \<longleftrightarrow>
     d2 = d \<and> aid' = aid \<and> uri' = uri \<and> t \<le> t0 + 300000 \<and>
     (\<forall>c. ch = Some c \<and> c \<noteq> [] \<longrightarrow> (\<exists>w. v = Some w \<and> w \<noteq> [] \<and> s256 h w = c)) \<and>
     x = \<lparr>ex_userId = uid, ex_appPublicId = aid, ex_amr = amr, ex_nonce = nonce, ex_scope = sc,
          ex_authTime = at, ex_hadChallenge = (ch \<noteq> None), ex_idp = idp\<rparr>"
proof -
  define row where "row = \<lparr>oc_code = code, oc_userId = uid, oc_appPublicId = aid, oc_redirectUri = uri,
         oc_codeChallenge = ch, oc_codeChallengeMethod = m, oc_nonce = nonce, oc_scope = sc,
         oc_authTime = at, oc_amr = json_stringify amr, oc_idp = idp,
         oc_expiresAt = t0 + CODE_TTL_MS\<rparr>"
  from assms have k: "k = code" "code_row d code = None" and d1: "d1 = d\<lparr>saOauthCodes := saOauthCodes d @ [row]\<rparr>"
    by (simp_all add: generateCode_ok row_def)
  have code: "oc_code row = code" by (simp add: row_def)
  have "code_row d1 k = Some row"
    using k code by (simp add: d1 code_row_append)
  moreover have "without_code d1 k = d"
    using k code by (auto simp: d1 without_code_def code_row_None filter_id_conv)
  ultimately show ?thesis
    by (auto simp: exchangeCode_ok redeemable_def row_def CODE_TTL_MS_def)
qed

lemma generate_exchange_roundtrip_witness:
  "exchangeCode example_host 300007 ''k'' ''xx'' ''https://c'' (Some ''ver'')
     (snd (generateCode ''k'' 7 ''xxx'' ''xx'' ''https://c'' (Some ''ver'') (Some ''S256'') [''pwd'', ''otp''] None
             ''openid'' 5 None example_db)) =
   (Inr \<lparr>ex_userId = ''xxx'', ex_appPublicId = ''xx'', ex_amr = [''pwd'', ''otp''], ex_nonce = None,
         ex_scope = ''openid'', ex_authTime = 5, ex_hadChallenge = True, ex_idp = None\<rparr>, example_db)"
proof -
  have "generateCode ''k'' 7 ''xxx'' ''xx'' ''https://c'' (Some ''ver'') (Some ''S256'') [''pwd'', ''otp''] None
          ''openid'' 5 None example_db =
      (Inr ''k'', snd (generateCode ''k'' 7 ''xxx'' ''xx'' ''https://c'' (Some ''ver'') (Some ''S256'') [''pwd'', ''otp'']
          None ''openid'' 5 None example_db))"
    by (simp add: generateCode_def create_code_def thenE_def bindE_def code_row_def example_db_def empty_db_def)
  from generate_exchange_roundtrip[OF this, THEN iffD2] show ?thesis
    by (simp add: example_host_def s256_def base64UrlEncode_def)
qed

end
