(* ===== verification/Refresh_Tokens.thy ===== *)
theory Refresh_Tokens
  imports Client_Auth Single_Use Example_Data
begin

text \<open>
  Refresh tokens: \<open>token/refresh-token.service.ts\<close>. Only the hash of a token is stored. Random
  values and the time are arguments. \<open>rotate\<close> is a read followed by a transaction, so the model
  keeps the two database steps apart: \<open>rotate_check\<close> and \<open>rotate_commit\<close>.
\<close>

definition SLIDING_TTL_MS :: int where
  "SLIDING_TTL_MS = 30 * 24 * 60 * 60 * 1000"

definition ABSOLUTE_TTL_MS :: int where
  "ABSOLUTE_TTL_MS = 90 * 24 * 60 * 60 * 1000"

record issue_params =
  ip_saUserId :: int
  ip_userPublicId :: string
  ip_orgPublicId :: string
  ip_appId :: int
  ip_appPublicId :: string
  ip_scope :: string
  ip_amr :: "string list"
  ip_idp :: "string option"
  ip_authTime :: int

record rotated_token =
  rot_token :: string
  rot_saUserId :: int
  rot_userPublicId :: string
  rot_orgPublicId :: string
  rot_appId :: int
  rot_appPublicId :: string
  rot_scope :: string
  rot_amr :: "string list"
  rot_idp :: "string option"
  rot_authTime :: int

definition hashToken :: "host \<Rightarrow> string \<Rightarrow> string" where
  "hashToken h token = h_sha256_hex h token"

definition token_row :: "db \<Rightarrow> string \<Rightarrow> refresh_token option" where
  "token_row d hash = find (\<lambda>r. rt_tokenHash r = hash) (saRefreshTokens d)"

definition create_token :: "refresh_token \<Rightarrow> (db, unit) eff" where
  "create_token row = (\<lambda>d.
     if token_row d (rt_tokenHash row) \<noteq> None then (Inl (PrismaE ''P2002''), d)
     else (Inr (), d\<lparr>saRefreshTokens := saRefreshTokens d @ [row]\<rparr>))"

text \<open>\<open>updateMany\<close> on the rows that satisfy the condition and are not revoked.\<close>

definition revoke_row :: "(refresh_token \<Rightarrow> bool) \<Rightarrow> int \<Rightarrow> refresh_token \<Rightarrow> refresh_token" where
  "revoke_row P now r =
     (if P r \<and> rt_revokedAt r = None then r\<lparr>rt_revokedAt := Some now\<rparr> else r)"

definition revoke_where :: "(refresh_token \<Rightarrow> bool) \<Rightarrow> int \<Rightarrow> db \<Rightarrow> db" where
  "revoke_where P now d =
     d\<lparr>saRefreshTokens := map (revoke_row P now) (saRefreshTokens d)\<rparr>"

definition issue_row :: "host \<Rightarrow> string \<Rightarrow> string \<Rightarrow> int \<Rightarrow> issue_params \<Rightarrow> refresh_token" where
  "issue_row h token familyId now p =
     \<lparr>rt_tokenHash = hashToken h token, rt_familyId = familyId, rt_saUserId = ip_saUserId p,
      rt_userPublicId = ip_userPublicId p, rt_orgPublicId = ip_orgPublicId p,
      rt_appId = ip_appId p, rt_appPublicId = ip_appPublicId p, rt_scope = ip_scope p,
      rt_amr = json_stringify (ip_amr p), rt_idp = ip_idp p, rt_authTime = ip_authTime p,
      rt_expiresAt = now + SLIDING_TTL_MS, rt_absoluteExpiresAt = now + ABSOLUTE_TTL_MS,
      rt_revokedAt = None, rt_replacedByTokenHash = None\<rparr>"

definition issue_token ::
    "host \<Rightarrow> string \<Rightarrow> string \<Rightarrow> int \<Rightarrow> issue_params \<Rightarrow> (db, string) eff" where
  "issue_token h token familyId now p =
     thenE (create_token (issue_row h token familyId now p)) (ret token)"

definition rotate_check ::
    "host \<Rightarrow> int \<Rightarrow> string \<Rightarrow> string \<Rightarrow> (db, refresh_token) eff" where
  "rotate_check h now presented appPublicId =
     bindE (readE (\<lambda>d. token_row d (hashToken h presented)))
     (\<lambda>found. case found of
        None \<Rightarrow> raise (UnauthorizedE INVALID_GRANT)
      | Some row \<Rightarrow>
          (if rt_appPublicId row \<noteq> appPublicId then raise (UnauthorizedE INVALID_GRANT)
           else if rt_revokedAt row \<noteq> None then
             thenE (modifyE (revoke_where (\<lambda>r. rt_familyId r = rt_familyId row) now))
               (raise (UnauthorizedE INVALID_GRANT))
           else if rt_expiresAt row < now \<or> rt_absoluteExpiresAt row < now then
             raise (UnauthorizedE INVALID_GRANT)
           else ret row))"

definition rotated_row :: "refresh_token \<Rightarrow> string \<Rightarrow> int \<Rightarrow> refresh_token" where
  "rotated_row row newTokenHash now =
     row\<lparr>rt_tokenHash := newTokenHash, rt_expiresAt := now + SLIDING_TTL_MS,
         rt_revokedAt := None, rt_replacedByTokenHash := None\<rparr>"

definition consume_row :: "string \<Rightarrow> string \<Rightarrow> int \<Rightarrow> refresh_token \<Rightarrow> refresh_token" where
  "consume_row tokenHash newTokenHash now r =
     (if rt_tokenHash r = tokenHash \<and> rt_revokedAt r = None
      then r\<lparr>rt_revokedAt := Some now, rt_replacedByTokenHash := Some newTokenHash\<rparr> else r)"

definition rotate_commit :: "refresh_token \<Rightarrow> string \<Rightarrow> int \<Rightarrow> (db, unit) eff" where
  "rotate_commit row newTokenHash now =
     transaction
       (bindE (readE (\<lambda>d. length (filter (\<lambda>r. rt_tokenHash r = rt_tokenHash row \<and>
                                             rt_revokedAt r = None) (saRefreshTokens d))))
        (\<lambda>count.
           thenE (modifyE (\<lambda>d. d\<lparr>saRefreshTokens :=
                    map (consume_row (rt_tokenHash row) newTokenHash now) (saRefreshTokens d)\<rparr>))
           (if count \<noteq> 1 then raise (UnauthorizedE INVALID_GRANT)
            else create_token (rotated_row row newTokenHash now))))"

definition rotate ::
    "host \<Rightarrow> int \<Rightarrow> string \<Rightarrow> string \<Rightarrow> string \<Rightarrow> (db, rotated_token) eff" where
  "rotate h now newToken presented appPublicId =
     bindE (rotate_check h now presented appPublicId)
     (\<lambda>row.
        thenE (rotate_commit row (hashToken h newToken) now)
        (ret
          \<lparr>rot_token = newToken, rot_saUserId = rt_saUserId row,
           rot_userPublicId = rt_userPublicId row, rot_orgPublicId = rt_orgPublicId row,
           rot_appId = rt_appId row, rot_appPublicId = rt_appPublicId row,
           rot_scope = rt_scope row, rot_amr = safeParseAmr (rt_amr row),
           rot_idp = rt_idp row, rot_authTime = rt_authTime row\<rparr>))"

definition revokeForUserApp :: "int \<Rightarrow> string \<Rightarrow> string \<Rightarrow> (db, unit) eff" where
  "revokeForUserApp now userPublicId appPublicId =
     modifyE (revoke_where
       (\<lambda>r. rt_userPublicId r = userPublicId \<and> rt_appPublicId r = appPublicId) now)"

definition revokeForUser :: "int \<Rightarrow> int \<Rightarrow> (db, unit) eff" where
  "revokeForUser now saUserId = modifyE (revoke_where (\<lambda>r. rt_saUserId r = saUserId) now)"

section \<open>Rows and their revocation\<close>

lemma token_row_sound:
  "token_row d k = Some r \<Longrightarrow> r \<in> set (saRefreshTokens d) \<and> rt_tokenHash r = k"
  unfolding token_row_def by (rule find_Some_iff)

lemma token_row_None: "token_row d k = None \<longleftrightarrow> (\<forall>r \<in> set (saRefreshTokens d). rt_tokenHash r \<noteq> k)"
  by (simp add: token_row_def find_None_all)

text \<open>What revoking and consuming leave alone.\<close>

lemma revoke_row_same [simp]:
  "rt_tokenHash (revoke_row P now r) = rt_tokenHash r"
  "rt_familyId (revoke_row P now r) = rt_familyId r"
  "rt_saUserId (revoke_row P now r) = rt_saUserId r"
  "rt_userPublicId (revoke_row P now r) = rt_userPublicId r"
  "rt_orgPublicId (revoke_row P now r) = rt_orgPublicId r"
  "rt_appId (revoke_row P now r) = rt_appId r"
  "rt_appPublicId (revoke_row P now r) = rt_appPublicId r"
  "rt_scope (revoke_row P now r) = rt_scope r"
  "rt_amr (revoke_row P now r) = rt_amr r"
  "rt_idp (revoke_row P now r) = rt_idp r"
  "rt_authTime (revoke_row P now r) = rt_authTime r"
  "rt_expiresAt (revoke_row P now r) = rt_expiresAt r"
  "rt_absoluteExpiresAt (revoke_row P now r) = rt_absoluteExpiresAt r"
  by (simp_all add: revoke_row_def)

lemma consume_row_same [simp]:
  "rt_tokenHash (consume_row k n now r) = rt_tokenHash r"
  "rt_familyId (consume_row k n now r) = rt_familyId r"
  "rt_saUserId (consume_row k n now r) = rt_saUserId r"
  "rt_userPublicId (consume_row k n now r) = rt_userPublicId r"
  "rt_orgPublicId (consume_row k n now r) = rt_orgPublicId r"
  "rt_appId (consume_row k n now r) = rt_appId r"
  "rt_appPublicId (consume_row k n now r) = rt_appPublicId r"
  "rt_scope (consume_row k n now r) = rt_scope r"
  "rt_amr (consume_row k n now r) = rt_amr r"
  "rt_idp (consume_row k n now r) = rt_idp r"
  "rt_authTime (consume_row k n now r) = rt_authTime r"
  "rt_expiresAt (consume_row k n now r) = rt_expiresAt r"
  "rt_absoluteExpiresAt (consume_row k n now r) = rt_absoluteExpiresAt r"
  by (simp_all add: consume_row_def)

lemma revoke_row_revoked: "rt_revokedAt r \<noteq> None \<Longrightarrow> revoke_row P now r = r"
  by (simp add: revoke_row_def)

lemma revoke_row_dead:
  "rt_revokedAt (revoke_row P now r) = None \<longleftrightarrow> rt_revokedAt r = None \<and> \<not> P r"
  by (auto simp: revoke_row_def)

lemma consume_row_dead:
  "rt_revokedAt (consume_row k n now r) = None \<longleftrightarrow> rt_revokedAt r = None \<and> rt_tokenHash r \<noteq> k"
  by (auto simp: consume_row_def)

lemma token_row_revoke: "token_row (revoke_where P now d) k = map_option (revoke_row P now) (token_row d k)"
  by (simp add: token_row_def revoke_where_def find_map_same_key)

section \<open>What rotation does\<close>

definition rotated_db :: "db \<Rightarrow> refresh_token \<Rightarrow> string \<Rightarrow> int \<Rightarrow> db" where
  "rotated_db d row nh now =
     d\<lparr>saRefreshTokens :=
         map (consume_row (rt_tokenHash row) nh now) (saRefreshTokens d) @ [rotated_row row nh now]\<rparr>"

definition burnt_db :: "db \<Rightarrow> string \<Rightarrow> int \<Rightarrow> db" where
  "burnt_db d familyId now = revoke_where (\<lambda>r. rt_familyId r = familyId) now d"

text \<open>A row that may be rotated now by the client asking.\<close>

definition rotatable :: "int \<Rightarrow> string \<Rightarrow> refresh_token \<Rightarrow> bool" where
  "rotatable now appPublicId row \<longleftrightarrow>
     rt_appPublicId row = appPublicId \<and> rt_revokedAt row = None \<and>
     now \<le> rt_expiresAt row \<and> now \<le> rt_absoluteExpiresAt row"

lemma rotate_check_ok:
  "rotate_check h now p a d = (Inr row, t) \<longleftrightarrow>
     t = d \<and> token_row d (hashToken h p) = Some row \<and> rotatable now a row"
  by (auto simp: rotate_check_def eff_simps rotatable_def thenE_def bindE_def split: option.splits)

lemma rotate_check_err:
  "rotate_check h now p a d = (Inl e, t) \<longleftrightarrow>
     e = UnauthorizedE INVALID_GRANT \<and>
     (case token_row d (hashToken h p) of
        None \<Rightarrow> t = d
      | Some row \<Rightarrow>
          (if rt_appPublicId row = a \<and> rt_revokedAt row \<noteq> None
           then t = burnt_db d (rt_familyId row) now
           else t = d \<and> \<not> rotatable now a row))"
  by (auto simp: rotate_check_def eff_simps rotatable_def thenE_def bindE_def burnt_db_def
      split: option.splits)

definition live_count :: "db \<Rightarrow> string \<Rightarrow> nat" where
  "live_count d k =
     length (filter (\<lambda>r. rt_tokenHash r = k \<and> rt_revokedAt r = None) (saRefreshTokens d))"

lemma rotate_commit_eq:
  "rotate_commit row nh now d =
     (if live_count d (rt_tokenHash row) \<noteq> 1 then (Inl (UnauthorizedE INVALID_GRANT), d)
      else if token_row d nh \<noteq> None then (Inl (PrismaE ''P2002''), d)
      else (Inr (), rotated_db d row nh now))"
proof -
  have none: "token_row (d\<lparr>saRefreshTokens := map (consume_row k nh now) (saRefreshTokens d)\<rparr>) nh = None
      \<longleftrightarrow> token_row d nh = None" for k
    by (auto simp: token_row_None)
  have create: "create_token (rotated_row row nh now)
      (d\<lparr>saRefreshTokens := map (consume_row k nh now) (saRefreshTokens d)\<rparr>) =
    (if token_row d nh \<noteq> None
     then (Inl (PrismaE ''P2002''), d\<lparr>saRefreshTokens := map (consume_row k nh now) (saRefreshTokens d)\<rparr>)
     else (Inr (), d\<lparr>saRefreshTokens := map (consume_row k nh now) (saRefreshTokens d) @ [rotated_row row nh now]\<rparr>))"
    for k
    using none[of k] by (auto simp: create_token_def rotated_row_def)
  show ?thesis
    unfolding rotate_commit_def transaction_def thenE_def bindE_def
    by (auto simp: live_count_def[symmetric] create rotated_db_def simp del: One_nat_def)
qed

lemma live_count_pos:
  assumes "live_count d k = 1"
  shows "\<exists>x \<in> set (saRefreshTokens d). rt_tokenHash x = k \<and> rt_revokedAt x = None"
proof (rule ccontr)
  assume "\<not> ?thesis"
  then have "live_count d k = 0" by (simp add: live_count_def filter_empty_conv)
  with assms show False by simp
qed

lemma rotate_commit_cases:
  assumes "rotate_commit row nh now d = (r, t)"
  shows "(r = Inr () \<and> t = rotated_db d row nh now \<and> token_row d nh = None \<and>
           (\<exists>x \<in> set (saRefreshTokens d). rt_tokenHash x = rt_tokenHash row \<and> rt_revokedAt x = None)) \<or>
         (t = d \<and> (r = Inl (UnauthorizedE INVALID_GRANT) \<or> r = Inl (PrismaE ''P2002'')))"
  using assms live_count_pos[of d "rt_tokenHash row"]
  unfolding rotate_commit_eq by (auto simp del: One_nat_def split: if_splits)

lemma rotate_cases:
  assumes "rotate h now n p a d = (r, t)"
  obtains (rotated) row x where "token_row d (hashToken h p) = Some row" "rotatable now a row"
      "token_row d (hashToken h n) = None" "t = rotated_db d row (hashToken h n) now" "r = Inr x"
      "x = \<lparr>rot_token = n, rot_saUserId = rt_saUserId row, rot_userPublicId = rt_userPublicId row,
            rot_orgPublicId = rt_orgPublicId row, rot_appId = rt_appId row,
            rot_appPublicId = rt_appPublicId row, rot_scope = rt_scope row,
            rot_amr = safeParseAmr (rt_amr row), rot_idp = rt_idp row,
            rot_authTime = rt_authTime row\<rparr>"
    | (burnt) row where "token_row d (hashToken h p) = Some row" "rt_appPublicId row = a"
      "rt_revokedAt row \<noteq> None" "t = burnt_db d (rt_familyId row) now"
      "r = Inl (UnauthorizedE INVALID_GRANT)"
    | (refused) e where "t = d" "r = Inl e" "e = UnauthorizedE INVALID_GRANT \<or> e = PrismaE ''P2002''"
proof (cases "rotate_check h now p a d")
  case (Pair rc tc)
  show thesis
  proof (cases rc)
    case (Inl e)
    with Pair assms have "r = Inl e" "t = tc" by (simp_all add: rotate_def)
    with Inl Pair show thesis
      using rotate_check_err[of h now p a d e tc] burnt refused
      by (auto split: option.splits if_splits)
  next
    case (Inr row)
    with Pair have row: "token_row d (hashToken h p) = Some row" "rotatable now a row" "tc = d"
      using rotate_check_ok[of h now p a d row tc] by auto
    obtain rc2 t2 where commit: "rotate_commit row (hashToken h n) now d = (rc2, t2)"
      by (cases "rotate_commit row (hashToken h n) now d")
    with assms Inr Pair row(3) have "t = t2" "case rc2 of Inl e \<Rightarrow> r = Inl e | Inr _ \<Rightarrow> \<exists>x. r = Inr x"
      by (auto simp: rotate_def thenE_def bindE_def split: sum.splits)
    with rotate_commit_cases[OF commit] row show thesis
      using rotated refused assms commit Inr Pair
      by (auto simp: rotate_def thenE_def bindE_def)
  qed
qed

lemma filter_one_row:
  assumes "distinct (map rt_tokenHash rs)" "row \<in> set rs" "rt_revokedAt row = None"
  shows "length (filter (\<lambda>r. rt_tokenHash r = rt_tokenHash row \<and> rt_revokedAt r = None) rs) = 1"
  using assms by (induction rs) (auto simp: filter_empty_conv image_iff)

text \<open>With unique hashes a rotatable token does rotate, unless the new hash collides.\<close>

lemma rotate_ok:
  assumes "distinct (map rt_tokenHash (saRefreshTokens d))"
    and "token_row d (hashToken h p) = Some row" "rotatable now a row"
    and "token_row d (hashToken h n) = None"
  shows "rotate h now n p a d =
     (Inr \<lparr>rot_token = n, rot_saUserId = rt_saUserId row, rot_userPublicId = rt_userPublicId row,
           rot_orgPublicId = rt_orgPublicId row, rot_appId = rt_appId row,
           rot_appPublicId = rt_appPublicId row, rot_scope = rt_scope row,
           rot_amr = safeParseAmr (rt_amr row), rot_idp = rt_idp row,
           rot_authTime = rt_authTime row\<rparr>, rotated_db d row (hashToken h n) now)"
proof -
  have check: "rotate_check h now p a d = (Inr row, d)"
    using assms by (simp add: rotate_check_ok)
  have "length (filter (\<lambda>r. rt_tokenHash r = rt_tokenHash row \<and> rt_revokedAt r = None)
      (saRefreshTokens d)) = 1"
    using assms token_row_sound[OF assms(2)] by (intro filter_one_row) (auto simp: rotatable_def)
  then have commit: "rotate_commit row (hashToken h n) now d =
      (Inr (), rotated_db d row (hashToken h n) now)"
    using assms(4) by (simp add: rotate_commit_eq live_count_def)
  show ?thesis
    by (simp add: rotate_def thenE_def check commit)
qed

section \<open>Histories of the token table\<close>

datatype token_event =
    IssueToken string string int issue_params
  | RotateToken int string string string
  | LogoutUserApp int string string
  | RevokeUser int int

fun token_step :: "host \<Rightarrow> token_event \<Rightarrow> db \<Rightarrow> db" where
  "token_step h (IssueToken token fam now p) d = snd (issue_token h token fam now p d)"
| "token_step h (RotateToken now n p a) d = snd (rotate h now n p a d)"
| "token_step h (LogoutUserApp now u a) d = snd (revokeForUserApp now u a d)"
| "token_step h (RevokeUser now u) d = snd (revokeForUser now u d)"

text \<open>A new family id is 128 random bits: it is assumed not to be in use.\<close>

fun token_event_ok :: "token_event \<Rightarrow> db \<Rightarrow> bool" where
  "token_event_ok (IssueToken token fam now p) d = list_all (\<lambda>r. rt_familyId r \<noteq> fam) (saRefreshTokens d)"
| "token_event_ok _ d = True"

text \<open>Every step rewrites rows in place, revoking only, and appends at most one fresh row.\<close>

lemma token_step_cases:
  obtains (appended) f row where
      "saRefreshTokens (token_step h e d) = map f (saRefreshTokens d) @ [row]"
      "f = id \<or> (\<exists>k nh now. f = consume_row k nh now)" "token_row d (rt_tokenHash row) = None"
    | (revoked) P now where "saRefreshTokens (token_step h e d) = map (revoke_row P now) (saRefreshTokens d)"
    | (unchanged) "saRefreshTokens (token_step h e d) = saRefreshTokens d"
proof (cases e)
  case (IssueToken token fam now p)
  then show thesis
    using appended[of id "issue_row h token fam now p"] unchanged
    by (cases "token_row d (hashToken h token)")
      (auto simp: issue_token_def thenE_def bindE_def create_token_def issue_row_def)
next
  case (RotateToken now n p a)
  obtain r t where rt: "rotate h now n p a d = (r, t)" by (cases "rotate h now n p a d")
  then have step: "token_step h e d = t" using RotateToken by simp
  from rt show thesis
  proof (cases rule: rotate_cases)
    case (rotated row x)
    show thesis
      using rotated
      by (intro appended[of "consume_row (rt_tokenHash row) (hashToken h n) now"
            "rotated_row row (hashToken h n) now"])
        (auto simp: step rotated_db_def rotated_row_def)
  next
    case (burnt row)
    then show thesis
      using revoked[of "\<lambda>r. rt_familyId r = rt_familyId row" now]
      by (simp add: step burnt_db_def revoke_where_def)
  next
    case refused
    then show thesis using unchanged by (simp add: step)
  qed
next
  case (LogoutUserApp now u a)
  then show thesis
    using revoked[of "\<lambda>r. rt_userPublicId r = u \<and> rt_appPublicId r = a" now]
    by (simp add: revokeForUserApp_def revoke_where_def)
next
  case (RevokeUser now u)
  then show thesis
    using revoked[of "\<lambda>r. rt_saUserId r = u" now]
    by (simp add: revokeForUser_def revoke_where_def)
qed

section \<open>Families\<close>

text \<open>
  What every token of a family has in common: whom it was issued to, what it grants, when that
  user authenticated, and the date beyond which nothing of the family is honoured.
\<close>

definition lineage :: "refresh_token \<Rightarrow>
    (int \<times> string \<times> string \<times> int \<times> string) \<times> (string \<times> string \<times> string option) \<times> int \<times> int" where
  "lineage r = ((rt_saUserId r, rt_userPublicId r, rt_orgPublicId r, rt_appId r, rt_appPublicId r),
     (rt_scope r, rt_amr r, rt_idp r), rt_authTime r, rt_absoluteExpiresAt r)"

definition compatible :: "refresh_token \<Rightarrow> refresh_token \<Rightarrow> bool" where
  "compatible r q \<longleftrightarrow>
     (rt_familyId r = rt_familyId q \<longrightarrow>
        lineage r = lineage q \<and>
        (rt_revokedAt r = None \<and> rt_revokedAt q = None \<longrightarrow> rt_tokenHash r = rt_tokenHash q))"

definition families_ok :: "refresh_token list \<Rightarrow> bool" where
  "families_ok rs \<longleftrightarrow>
     distinct (map rt_tokenHash rs) \<and> (\<forall>r \<in> set rs. \<forall>q \<in> set rs. compatible r q)"

lemma lineage_same [simp]:
  "lineage (revoke_row P now r) = lineage r"
  "lineage (consume_row k nh now r) = lineage r"
  "lineage (rotated_row r nh now) = lineage r"
  by (simp_all add: lineage_def rotated_row_def)

lemma compatible_refl: "compatible r r"
  by (simp add: compatible_def)

lemma compatible_sym: "compatible r q \<Longrightarrow> compatible q r"
  by (simp add: compatible_def)

lemma compatible_revoke: "compatible r q \<Longrightarrow> compatible (revoke_row P now r) (revoke_row P now q)"
  by (simp add: compatible_def revoke_row_dead)

lemma compatible_consume: "compatible r q \<Longrightarrow> compatible (consume_row k nh now r) (consume_row k nh now q)"
  by (simp add: compatible_def consume_row_dead)

lemma families_ok_map:
  assumes "families_ok rs" "\<And>r. rt_tokenHash (f r) = rt_tokenHash r"
    and "\<And>r q. compatible r q \<Longrightarrow> compatible (f r) (f q)"
  shows "families_ok (map f rs)"
  using assms by (simp add: families_ok_def comp_def)

lemma families_ok_append:
  assumes "families_ok rs" "\<And>r. r \<in> set rs \<Longrightarrow> rt_tokenHash r \<noteq> rt_tokenHash row"
    and "\<And>r. r \<in> set rs \<Longrightarrow> compatible r row"
  shows "families_ok (rs @ [row])"
  using assms compatible_sym compatible_refl[of row]
  unfolding families_ok_def by (simp add: image_iff) metis

lemma families_ok_revoke:
  "families_ok (saRefreshTokens d) \<Longrightarrow> families_ok (saRefreshTokens (revoke_where P now d))"
  by (simp add: revoke_where_def families_ok_map compatible_revoke)

lemma families_ok_issue:
  assumes "families_ok (saRefreshTokens d)"
    and "list_all (\<lambda>r. rt_familyId r \<noteq> fam) (saRefreshTokens d)"
  shows "families_ok (saRefreshTokens (snd (issue_token h token fam now p d)))"
proof (cases "token_row d (hashToken h token)")
  case None
  have "families_ok (saRefreshTokens d @ [issue_row h token fam now p])"
    using None assms
    by (intro families_ok_append)
      (auto simp: issue_row_def token_row_None list_all_iff compatible_def)
  with None show ?thesis
    by (simp add: issue_token_def thenE_def bindE_def create_token_def issue_row_def)
next
  case (Some r)
  then show ?thesis
    using assms(1) by (simp add: issue_token_def thenE_def bindE_def create_token_def issue_row_def)
qed

lemma families_ok_rotated:
  assumes ok: "families_ok (saRefreshTokens d)"
    and row: "row \<in> set (saRefreshTokens d)" "rt_revokedAt row = None"
    and fresh: "token_row d nh = None"
  shows "families_ok (saRefreshTokens (rotated_db d row nh now))"
proof -
  let ?c = "consume_row (rt_tokenHash row) nh now"
  have "compatible (?c r) (rotated_row row nh now)" if "r \<in> set (saRefreshTokens d)" for r
  proof -
    have "compatible r row" using ok row that by (simp add: families_ok_def)
    with row(2) show ?thesis
      by (auto simp: compatible_def consume_row_dead rotated_row_def)
        (simp_all add: lineage_def)
  qed
  then have "families_ok (map ?c (saRefreshTokens d) @ [rotated_row row nh now])"
    using fresh
    by (intro families_ok_append families_ok_map ok)
      (auto simp: compatible_consume token_row_None rotated_row_def)
  then show ?thesis by (simp add: rotated_db_def)
qed

lemma families_ok_step:
  assumes "families_ok (saRefreshTokens d)" and "token_event_ok e d"
  shows "families_ok (saRefreshTokens (token_step h e d))"
proof (cases e)
  case (RotateToken now n p a)
  obtain r t where rt: "rotate h now n p a d = (r, t)" by (cases "rotate h now n p a d")
  from rt have "families_ok (saRefreshTokens t)"
  proof (cases rule: rotate_cases)
    case (rotated row x)
    then show ?thesis
      using families_ok_rotated[OF assms(1), of row] token_row_sound by (auto simp: rotatable_def)
  qed (use assms in \<open>simp_all add: families_ok_revoke burnt_db_def\<close>)
  with RotateToken rt show ?thesis by simp
qed (use assms families_ok_issue families_ok_revoke in
    \<open>simp_all add: revokeForUserApp_def revokeForUser_def\<close>)

inductive refresh_reachable :: "host \<Rightarrow> db \<Rightarrow> bool" for h where
  start: "saRefreshTokens d = [] \<Longrightarrow> refresh_reachable h d"
| step: "refresh_reachable h d \<Longrightarrow> token_event_ok e d \<Longrightarrow> refresh_reachable h (token_step h e d)"

lemma refresh_reachable_families: "refresh_reachable h d \<Longrightarrow> families_ok (saRefreshTokens d)"
proof (induction rule: refresh_reachable.induct)
  case (start d)
  then show ?case by (simp add: families_ok_def)
next
  case (step d e)
  then show ?case by (simp add: families_ok_step)
qed

section \<open>Single use\<close>

definition token_spent :: "host \<Rightarrow> db \<Rightarrow> string \<Rightarrow> bool" where
  "token_spent h d p \<longleftrightarrow> (\<exists>r. token_row d (hashToken h p) = Some r \<and> rt_revokedAt r \<noteq> None)"

lemma token_row_snoc:
  "saRefreshTokens d' = map f (saRefreshTokens d) @ [row] \<Longrightarrow> (\<And>r. rt_tokenHash (f r) = rt_tokenHash r) \<Longrightarrow>
     token_row d k = Some r \<Longrightarrow> token_row d' k = Some (f r)"
  by (simp add: token_row_def find_snoc find_map_same_key)

lemma spent_after_step:
  assumes "token_spent h d p"
  shows "token_spent h (token_step h e d) p"
proof -
  from assms obtain r where r: "token_row d (hashToken h p) = Some r" "rt_revokedAt r \<noteq> None"
    by (auto simp: token_spent_def)
  from token_step_cases[of h e d] show ?thesis
  proof cases
    case (appended f row)
    then have f: "rt_tokenHash (f q) = rt_tokenHash q" "f r = r" for q
      using r(2) by (auto simp: consume_row_def)
    show ?thesis
      using token_row_snoc[OF appended(1) f(1) r(1)] f(2) r(2) by (auto simp: token_spent_def)
  next
    case (revoked P now)
    then have "token_row (token_step h e d) (hashToken h p) = Some (revoke_row P now r)"
      using r(1) by (simp add: token_row_def find_map_same_key)
    then show ?thesis using r(2) by (auto simp: token_spent_def revoke_row_revoked)
  next
    case unchanged
    then show ?thesis using r by (auto simp: token_spent_def token_row_def)
  qed
qed

definition redeem_token ::
    "host \<Rightarrow> int \<times> string \<times> string \<Rightarrow> string \<Rightarrow> (db, rotated_token) eff" where
  "redeem_token h x p = (case x of (now, n, a) \<Rightarrow> rotate h now n p a)"

lemma rotate_spends:
  assumes "rotate h now n p a d = (Inr x, t)"
  shows "token_spent h t p"
  using assms
proof (cases rule: rotate_cases)
  case (rotated row x)
  have "rt_tokenHash row = hashToken h p" "rt_revokedAt row = None"
    using rotated(1,2) token_row_sound by (auto simp: rotatable_def)
  then show ?thesis
    using token_row_snoc[of t "consume_row (rt_tokenHash row) (hashToken h n) now" d _ _ row] rotated(1,4)
    by (auto simp: token_spent_def rotated_db_def consume_row_def)
qed simp_all

lemma spent_not_rotated: "token_spent h d p \<Longrightarrow> fst (rotate h now n p a d) \<noteq> Inr x"
proof
  assume spent: "token_spent h d p" and "fst (rotate h now n p a d) = Inr x"
  then obtain t where "rotate h now n p a d = (Inr x, t)" by (metis prod.collapse)
  then show False
    using spent by (cases rule: rotate_cases) (auto simp: token_spent_def rotatable_def)
qed

interpretation token_store: single_use "redeem_token h" "token_step h" token_event_ok "\<lambda>_. True" "token_spent h" for h
  by unfold_locales
    (auto simp: redeem_token_def spent_after_step dest: rotate_spends spent_not_rotated
      split: prod.splits)

section \<open>The absolute bound\<close>

definition family_until :: "string \<Rightarrow> int \<Rightarrow> db \<Rightarrow> bool" where
  "family_until fam until d \<longleftrightarrow>
     (\<forall>r \<in> set (saRefreshTokens d). rt_familyId r = fam \<longrightarrow> rt_absoluteExpiresAt r = until) \<and>
     (\<exists>r \<in> set (saRefreshTokens d). rt_familyId r = fam)"

lemma family_until_step:
  assumes "family_until fam until d" and "token_event_ok e d"
  shows "family_until fam until (token_step h e d)"
proof -
  have revoke: "family_until fam until (revoke_where P now d)" for P now
    using assms(1) by (simp add: family_until_def revoke_where_def)
  show ?thesis
  proof (cases e)
    case (IssueToken token fam' now p)
    have other: "fam' \<noteq> fam" using assms IssueToken by (auto simp: family_until_def list_all_iff)
    show ?thesis
      using assms(1) IssueToken other
      by (cases "token_row d (hashToken h token)")
        (auto simp: family_until_def issue_token_def thenE_def bindE_def create_token_def issue_row_def)
  next
    case (RotateToken now n p a)
    obtain r t where rt: "rotate h now n p a d = (r, t)" by (cases "rotate h now n p a d")
    from rt have "family_until fam until t"
    proof (cases rule: rotate_cases)
      case (rotated row x)
      then show ?thesis
        using assms(1) token_row_sound[of d "hashToken h p" row]
        by (auto simp: family_until_def rotated_db_def rotated_row_def)
    qed (use assms(1) in \<open>simp_all add: burnt_db_def revoke\<close>)
    with RotateToken rt show ?thesis by simp
  qed (simp_all add: revoke revokeForUserApp_def revokeForUser_def)
qed

lemma family_until_run:
  "family_until fam until d \<Longrightarrow> admissible_events (token_step h) token_event_ok es d \<Longrightarrow>
     family_until fam until (run_events (token_step h) es d)"
  by (induction es arbitrary: d) (auto intro: family_until_step)

section \<open>A burnt family stays burnt, a consumed token stays consumed\<close>

text \<open>
  Rows chosen by a part of the row that no operation rewrites (the hash, the family) stay revoked
  once they all are, if no fresh row is appended under that part.
\<close>

definition all_revoked :: "(refresh_token \<Rightarrow> bool) \<Rightarrow> db \<Rightarrow> bool" where
  "all_revoked P d \<longleftrightarrow>
     (\<exists>r \<in> set (saRefreshTokens d). P r) \<and>
     (\<forall>r \<in> set (saRefreshTokens d). P r \<longrightarrow> rt_revokedAt r \<noteq> None)"

lemma all_revoked_map:
  assumes "all_revoked P d" "saRefreshTokens d' = map f (saRefreshTokens d) @ rs"
    and "\<And>r. P (f r) = P r" "\<And>r. rt_revokedAt r \<noteq> None \<Longrightarrow> rt_revokedAt (f r) \<noteq> None"
    and "\<And>r. r \<in> set rs \<Longrightarrow> \<not> P r"
  shows "all_revoked P d'"
  using assms unfolding all_revoked_def by auto

lemma all_revoked_hash_step:
  assumes "all_revoked (\<lambda>r. rt_tokenHash r = k) d"
  shows "all_revoked (\<lambda>r. rt_tokenHash r = k) (token_step h e d)"
  using token_step_cases[of h e d]
proof cases
  case (appended f row)
  have "rt_tokenHash row \<noteq> k"
    using appended(3) assms by (auto simp: all_revoked_def token_row_None)
  with appended(1,2) show ?thesis
    by (intro all_revoked_map[OF assms appended(1)]) (auto simp: consume_row_def)
next
  case (revoked P now)
  then show ?thesis
    by (intro all_revoked_map[OF assms, of _ "revoke_row P now" "[]"]) (auto simp: revoke_row_def)
next
  case unchanged
  then show ?thesis using assms by (simp add: all_revoked_def)
qed

lemma all_revoked_family_step:
  assumes "all_revoked (\<lambda>r. rt_familyId r = fam) d" and ok: "token_event_ok e d"
  shows "all_revoked (\<lambda>r. rt_familyId r = fam) (token_step h e d)"
proof -
  have revoke: "all_revoked (\<lambda>r. rt_familyId r = fam) (revoke_where P now d)" for P now
    using assms(1) by (auto simp: all_revoked_def revoke_where_def revoke_row_def)
  show ?thesis
  proof (cases e)
    case (IssueToken token fam' now p)
    have "fam' \<noteq> fam" using assms IssueToken by (auto simp: all_revoked_def list_all_iff)
    then show ?thesis
      using assms(1) IssueToken
      by (cases "token_row d (hashToken h token)")
        (auto simp: all_revoked_def issue_token_def thenE_def bindE_def create_token_def issue_row_def)
  next
    case (RotateToken now n p a)
    obtain r t where rt: "rotate h now n p a d = (r, t)" by (cases "rotate h now n p a d")
    from rt have "all_revoked (\<lambda>r. rt_familyId r = fam) t"
    proof (cases rule: rotate_cases)
      case (rotated row x)
      then have "rt_familyId row \<noteq> fam"
        using assms(1) token_row_sound[of d "hashToken h p" row] by (auto simp: all_revoked_def rotatable_def)
      then show ?thesis
        using rotated(4)
        by (intro all_revoked_map[OF assms(1), of _ "consume_row (rt_tokenHash row) (hashToken h n) now"
              "[rotated_row row (hashToken h n) now]"])
          (auto simp: rotated_db_def rotated_row_def consume_row_def)
    qed (use assms(1) in \<open>simp_all add: burnt_db_def revoke\<close>)
    with RotateToken rt show ?thesis by simp
  qed (simp_all add: revoke revokeForUserApp_def revokeForUser_def)
qed

lemma all_revoked_hash_run:
  "all_revoked (\<lambda>r. rt_tokenHash r = k) d \<Longrightarrow>
     all_revoked (\<lambda>r. rt_tokenHash r = k) (run_events (token_step h) es d)"
  by (induction es arbitrary: d) (auto intro: all_revoked_hash_step)

lemma all_revoked_family_run:
  "all_revoked (\<lambda>r. rt_familyId r = fam) d \<Longrightarrow> admissible_events (token_step h) token_event_ok es d \<Longrightarrow>
     all_revoked (\<lambda>r. rt_familyId r = fam) (run_events (token_step h) es d)"
  by (induction es arbitrary: d) (auto intro: all_revoked_family_step)

lemma all_revoked_refused:
  assumes "all_revoked P d" "token_row d (hashToken h p) = Some r" "P r"
  shows "fst (rotate h now n p a d) \<noteq> Inr x"
  using assms token_row_sound[OF assms(2)]
  by (intro spent_not_rotated) (auto simp: all_revoked_def token_spent_def)

section \<open>Properties\<close>

text \<open>C2 A refresh token is redeemed at most once: after a successful rotation no later history of
  issues, rotations, logouts and deactivations makes the same token redeemable again.\<close>

theorem refresh_token_redeemed_at_most_once:
  assumes "rotate h now n p a d = (Inr x, d')"
    and "admissible_events (token_step h) token_event_ok es d'"
  shows "fst (rotate h now2 n2 p a2 (run_events (token_step h) es d')) \<noteq> Inr y"
  using token_store.redeemed_once[OF TrueI, of h "(now, n, a)" p d x d' es "(now2, n2, a2)" y] assms
  by (simp add: redeem_token_def)

definition example_params :: issue_params where
  "example_params = \<lparr>ip_saUserId = 3, ip_userPublicId = ''xxx'', ip_orgPublicId = ''xx'', ip_appId = 2,
     ip_appPublicId = ''xx'', ip_scope = ''openid offline_access'', ip_amr = [''pwd''], ip_idp = None,
     ip_authTime = 0\<rparr>"

definition example_token_db :: db where
  "example_token_db = example_db\<lparr>saRefreshTokens := [issue_row example_host ''t0'' ''f'' 0 example_params]\<rparr>"

lemma example_token_row:
  "token_row example_token_db (hashToken example_host ''t0'') =
     Some (issue_row example_host ''t0'' ''f'' 0 example_params)"
  by (simp add: token_row_def example_token_db_def issue_row_def)

lemma example_rotation:
  "rotate example_host 5 ''t1'' ''t0'' ''xx'' example_token_db =
     (Inr \<lparr>rot_token = ''t1'', rot_saUserId = 3, rot_userPublicId = ''xxx'', rot_orgPublicId = ''xx'',
           rot_appId = 2, rot_appPublicId = ''xx'', rot_scope = ''openid offline_access'',
           rot_amr = [''pwd''], rot_idp = None, rot_authTime = 0\<rparr>,
      rotated_db example_token_db (issue_row example_host ''t0'' ''f'' 0 example_params)
        (hashToken example_host ''t1'') 5)"
proof -
  have "rotatable 5 ''xx'' (issue_row example_host ''t0'' ''f'' 0 example_params)"
    by (simp add: rotatable_def issue_row_def example_params_def SLIDING_TTL_MS_def ABSOLUTE_TTL_MS_def)
  moreover have "token_row example_token_db (hashToken example_host ''t1'') = None"
    by (simp add: token_row_def example_token_db_def issue_row_def hashToken_def example_host_def)
  ultimately show ?thesis
    using rotate_ok[OF _ example_token_row, of 5 "''xx''" "''t1''"]
    by (simp add: example_token_db_def issue_row_def example_params_def)
qed

lemma refresh_token_redeemed_at_most_once_witness:
  "fst (rotate example_host 9 ''t2'' ''t0'' ''xx''
     (run_events (token_step example_host) [RevokeUser 6 1, RotateToken 7 ''t3'' ''t1'' ''xx'']
       (snd (rotate example_host 5 ''t1'' ''t0'' ''xx'' example_token_db)))) \<noteq>
   Inr \<lparr>rot_token = ''t2'', rot_saUserId = 3, rot_userPublicId = ''xxx'', rot_orgPublicId = ''xx'',
        rot_appId = 2, rot_appPublicId = ''xx'', rot_scope = [], rot_amr = [], rot_idp = None,
        rot_authTime = 0\<rparr>"
proof (rule refresh_token_redeemed_at_most_once)
  show "rotate example_host 5 ''t1'' ''t0'' ''xx'' example_token_db =
    (Inr \<lparr>rot_token = ''t1'', rot_saUserId = 3, rot_userPublicId = ''xxx'', rot_orgPublicId = ''xx'',
           rot_appId = 2, rot_appPublicId = ''xx'', rot_scope = ''openid offline_access'',
           rot_amr = [''pwd''], rot_idp = None, rot_authTime = 0\<rparr>,
     snd (rotate example_host 5 ''t1'' ''t0'' ''xx'' example_token_db))"
    by (simp only: example_rotation snd_conv)
qed (simp only: admissible_events.simps token_event_ok.simps simp_thms)

text \<open>C3 In every reachable state of the token table a rotation family has at most one live token,
  and all its tokens agree on the user, the app, the grant and the absolute expiry.\<close>

theorem one_live_token_per_family:
  assumes "refresh_reachable h d"
  shows "length (filter (\<lambda>r. rt_familyId r = fam \<and> rt_revokedAt r = None) (saRefreshTokens d)) \<le> 1 \<and>
     (\<forall>r \<in> set (saRefreshTokens d). \<forall>q \<in> set (saRefreshTokens d).
        rt_familyId r = rt_familyId q \<longrightarrow> lineage r = lineage q)"
proof -
  have ok: "families_ok (saRefreshTokens d)" using assms by (rule refresh_reachable_families)
  define live where "live = filter (\<lambda>r. rt_familyId r = fam \<and> rt_revokedAt r = None) (saRefreshTokens d)"
  have "distinct (map rt_tokenHash live)"
    using ok by (auto simp: families_ok_def live_def distinct_map_filter_keys)
  moreover have "rt_tokenHash r = rt_tokenHash q" if "r \<in> set live" "q \<in> set live" for r q
    using ok that by (auto simp: families_ok_def compatible_def live_def)
  ultimately have "length live \<le> 1" by (rule distinct_all_same)
  moreover have "\<forall>r \<in> set (saRefreshTokens d). \<forall>q \<in> set (saRefreshTokens d).
      rt_familyId r = rt_familyId q \<longrightarrow> lineage r = lineage q"
    using ok unfolding families_ok_def compatible_def by blast
  ultimately show ?thesis unfolding live_def by blast
qed

lemma one_live_token_per_family_witness:
  "length (filter (\<lambda>r. rt_familyId r = ''f'' \<and> rt_revokedAt r = None) (saRefreshTokens
     (token_step example_host (IssueToken ''t0'' ''f'' 0 example_params) example_db))) \<le> 1"
proof -
  have "refresh_reachable example_host (token_step example_host (IssueToken ''t0'' ''f'' 0 example_params) example_db)"
    by (intro refresh_reachable.intros) (simp_all add: example_db_def empty_db_def)
  from one_live_token_per_family[OF this] show ?thesis by blast
qed

text \<open>C4 Reuse detection: presenting a token that has already been rotated is refused as
  \<open>invalid_grant\<close> and burns its whole family, so that in any later history no token of that family,
  whoever presents it and for whatever app, is ever rotated again; rows of other families are
  untouched.\<close>

theorem reuse_burns_the_family:
  assumes "token_row d (hashToken h p) = Some row" "rt_appPublicId row = a" "rt_revokedAt row \<noteq> None"
    and "admissible_events (token_step h) token_event_ok es (burnt_db d (rt_familyId row) now)"
    and "token_row (run_events (token_step h) es (burnt_db d (rt_familyId row) now)) (hashToken h p2) = Some r2"
    and "rt_familyId r2 = rt_familyId row"
  shows "rotate h now n p a d = (Inl (UnauthorizedE INVALID_GRANT), burnt_db d (rt_familyId row) now) \<and>
     fst (rotate h now2 n2 p2 a2 (run_events (token_step h) es (burnt_db d (rt_familyId row) now))) \<noteq> Inr y \<and>
     filter (\<lambda>r. rt_familyId r \<noteq> rt_familyId row) (saRefreshTokens (burnt_db d (rt_familyId row) now)) =
       filter (\<lambda>r. rt_familyId r \<noteq> rt_familyId row) (saRefreshTokens d)"
proof (intro conjI)
  have "rotate_check h now p a d = (Inl (UnauthorizedE INVALID_GRANT), burnt_db d (rt_familyId row) now)"
    using assms(1-3) by (simp add: rotate_check_err)
  then show "rotate h now n p a d = (Inl (UnauthorizedE INVALID_GRANT), burnt_db d (rt_familyId row) now)"
    by (simp add: rotate_def)
  have "row \<in> set (saRefreshTokens d)" using token_row_sound[OF assms(1)] by simp
  then have "\<exists>r \<in> set (saRefreshTokens d). rt_familyId (revoke_row P now r) = rt_familyId row" for P
    by auto
  then have "all_revoked (\<lambda>r. rt_familyId r = rt_familyId row) (burnt_db d (rt_familyId row) now)"
    by (auto simp: all_revoked_def burnt_db_def revoke_where_def revoke_row_dead simp del: not_None_eq)
  from all_revoked_refused[OF all_revoked_family_run[OF this assms(4)] assms(5,6)]
  show "fst (rotate h now2 n2 p2 a2 (run_events (token_step h) es (burnt_db d (rt_familyId row) now))) \<noteq> Inr y" .
  have "filter (\<lambda>r. rt_familyId r \<noteq> f) (map (revoke_row (\<lambda>r. rt_familyId r = f) now) rs) =
      filter (\<lambda>r. rt_familyId r \<noteq> f) rs" for f rs
    by (induction rs) (auto simp: revoke_row_def)
  then show "filter (\<lambda>r. rt_familyId r \<noteq> rt_familyId row) (saRefreshTokens (burnt_db d (rt_familyId row) now)) =
       filter (\<lambda>r. rt_familyId r \<noteq> rt_familyId row) (saRefreshTokens d)"
    by (simp add: burnt_db_def revoke_where_def)
qed

definition example_rotated :: rotated_token where
  "example_rotated = \<lparr>rot_token = ''t3'', rot_saUserId = 3, rot_userPublicId = ''xxx'', rot_orgPublicId = ''xx'',
     rot_appId = 2, rot_appPublicId = ''xx'', rot_scope = ''openid offline_access'', rot_amr = [''pwd''],
     rot_idp = None, rot_authTime = 0\<rparr>"

definition reused_db :: db where
  "reused_db = example_db\<lparr>saRefreshTokens :=
     [(issue_row example_host ''t0'' ''f'' 0 example_params)\<lparr>rt_revokedAt := Some 5\<rparr>,
      rotated_row (issue_row example_host ''t0'' ''f'' 0 example_params) ''#t1'' 5]\<rparr>"

lemma reuse_burns_the_family_witness:
  "rotate example_host 9 ''t2'' ''t0'' ''xx'' reused_db =
     (Inl (UnauthorizedE INVALID_GRANT), burnt_db reused_db ''f'' 9) \<and>
   fst (rotate example_host 10 ''t3'' ''t1'' ''xx'' (run_events (token_step example_host) [] (burnt_db reused_db ''f'' 9)))
     \<noteq> Inr example_rotated"
proof -
  have row: "token_row reused_db (hashToken example_host ''t0'') =
      Some ((issue_row example_host ''t0'' ''f'' 0 example_params)\<lparr>rt_revokedAt := Some 5\<rparr>)"
    by (simp add: token_row_def reused_db_def issue_row_def)
  have fam: "rt_familyId ((issue_row example_host ''t0'' ''f'' 0 example_params)\<lparr>rt_revokedAt := Some 5\<rparr>) = ''f''"
    and app: "rt_appPublicId ((issue_row example_host ''t0'' ''f'' 0 example_params)\<lparr>rt_revokedAt := Some 5\<rparr>) = ''xx''"
    and revoked: "rt_revokedAt ((issue_row example_host ''t0'' ''f'' 0 example_params)\<lparr>rt_revokedAt := Some 5\<rparr>) \<noteq> None"
    by (simp_all add: issue_row_def example_params_def)
  obtain r2 where r2: "token_row (run_events (token_step example_host) [] (burnt_db reused_db ''f'' 9))
      (hashToken example_host ''t1'') = Some r2" "rt_familyId r2 = ''f''"
    by (simp add: token_row_def reused_db_def issue_row_def rotated_row_def burnt_db_def revoke_where_def
        revoke_row_def hashToken_def example_host_def)
  show ?thesis
    using reuse_burns_the_family[OF row app revoked, unfolded fam, of "[]" 9 "''t1''" r2 "''t2''" 10 "''t3''" "''xx''" example_rotated] r2
    by simp
qed

text \<open>The 90-day bound is absolute: whatever rotations happen in between, a token of a family is
  only ever rotated within 90 days of the issue that started the family.\<close>

theorem rotation_within_ninety_days:
  assumes "issue_token h token fam t0 p d = (Inr tk, d1)"
    and "list_all (\<lambda>r. rt_familyId r \<noteq> fam) (saRefreshTokens d)"
    and "admissible_events (token_step h) token_event_ok es d1"
    and "rotate h now n q a (run_events (token_step h) es d1) = (Inr x, d2)"
    and "token_row (run_events (token_step h) es d1) (hashToken h q) = Some r" "rt_familyId r = fam"
  shows "now \<le> t0 + 90 * 24 * 60 * 60 * 1000"
proof -
  have "d1 = d\<lparr>saRefreshTokens := saRefreshTokens d @ [issue_row h token fam t0 p]\<rparr>"
    using assms(1) by (auto simp: issue_token_def thenE_def bindE_def create_token_def split: if_splits)
  then have "family_until fam (t0 + ABSOLUTE_TTL_MS) d1"
    using assms(2) by (auto simp: family_until_def list_all_iff issue_row_def)
  from family_until_run[OF this assms(3)] have "rt_absoluteExpiresAt r = t0 + ABSOLUTE_TTL_MS"
    using token_row_sound[OF assms(5)] assms(6) by (simp add: family_until_def)
  moreover have "now \<le> rt_absoluteExpiresAt r"
    using assms(4,5) by (cases rule: rotate_cases) (auto simp: rotatable_def)
  ultimately show ?thesis by (simp add: ABSOLUTE_TTL_MS_def)
qed

lemma rotation_within_ninety_days_witness: "(5 :: int) \<le> 0 + 90 * 24 * 60 * 60 * 1000"
proof (rule rotation_within_ninety_days)
  show "issue_token example_host ''t0'' ''f'' 0 example_params example_db = (Inr ''t0'', example_token_db)"
    by (simp add: issue_token_def thenE_def bindE_def create_token_def token_row_def example_token_db_def
        example_db_def empty_db_def)
  show "list_all (\<lambda>r. rt_familyId r \<noteq> ''f'') (saRefreshTokens example_db)"
    by (simp add: example_db_def empty_db_def)
  show "admissible_events (token_step example_host) token_event_ok [] example_token_db" by simp
  show "token_row (run_events (token_step example_host) [] example_token_db) (hashToken example_host ''t0'') =
      Some (issue_row example_host ''t0'' ''f'' 0 example_params)"
    by (simp add: example_token_row)
  show "rt_familyId (issue_row example_host ''t0'' ''f'' 0 example_params) = ''f''"
    by (simp add: issue_row_def)
  show "rotate example_host 5 ''t1'' ''t0'' ''xx'' (run_events (token_step example_host) [] example_token_db) =
     (Inr \<lparr>rot_token = ''t1'', rot_saUserId = 3, rot_userPublicId = ''xxx'', rot_orgPublicId = ''xx'',
           rot_appId = 2, rot_appPublicId = ''xx'', rot_scope = ''openid offline_access'',
           rot_amr = [''pwd''], rot_idp = None, rot_authTime = 0\<rparr>,
      rotated_db example_token_db (issue_row example_host ''t0'' ''f'' 0 example_params)
        (hashToken example_host ''t1'') 5)"
    by (simp add: example_rotation)
qed

text \<open>A rotation hands the grant on unchanged: the new token is live, belongs to the same family
  and lineage (user, app, scope, methods, authentication time, absolute expiry) and lives 30 days;
  the presented token is revoked and points to its successor.\<close>

theorem rotation_hands_on_the_grant:
  assumes "refresh_reachable h d" and "rotate h now n p a d = (Inr x, t)"
  shows "\<exists>old new. token_row d (hashToken h p) = Some old \<and> rotatable now a old \<and>
     token_row t (hashToken h n) = Some new \<and> lineage new = lineage old \<and>
     rt_familyId new = rt_familyId old \<and> rt_revokedAt new = None \<and>
     rt_expiresAt new = now + 30 * 24 * 60 * 60 * 1000 \<and>
     token_row t (hashToken h p) =
       Some (old\<lparr>rt_revokedAt := Some now, rt_replacedByTokenHash := Some (hashToken h n)\<rparr>) \<and>
     rot_token x = n \<and> rot_scope x = rt_scope old \<and> rot_userPublicId x = rt_userPublicId old"
  using assms(2)
proof (cases rule: rotate_cases)
  case (rotated old x')
  have old: "rt_tokenHash old = hashToken h p" using token_row_sound[OF rotated(1)] by simp
  have "token_row t (hashToken h p) = Some (consume_row (rt_tokenHash old) (hashToken h n) now old)"
    by (rule token_row_snoc[of t _ d "rotated_row old (hashToken h n) now"])
      (simp_all add: rotated(1,4) rotated_db_def)
  moreover have "token_row t (hashToken h n) = Some (rotated_row old (hashToken h n) now)"
    using rotated(3) by (simp add: rotated(4) rotated_db_def token_row_def find_snoc find_map_same_key rotated_row_def)
  ultimately show ?thesis
    using rotated old
    by (auto simp: consume_row_def rotatable_def rotated_row_def SLIDING_TTL_MS_def lineage_def)
qed simp_all

lemma rotation_hands_on_the_grant_witness:
  "\<exists>new. token_row (snd (rotate example_host 5 ''t1'' ''t0'' ''xx'' example_token_db)) (hashToken example_host ''t1'') = Some new
     \<and> rt_familyId new = ''f'' \<and> rt_revokedAt new = None"
proof -
  have step: "token_step example_host (IssueToken ''t0'' ''f'' 0 example_params) example_db = example_token_db"
    by (simp add: issue_token_def thenE_def bindE_def create_token_def token_row_def example_token_db_def
        example_db_def empty_db_def)
  have "refresh_reachable example_host (token_step example_host (IssueToken ''t0'' ''f'' 0 example_params) example_db)"
    by (intro refresh_reachable.intros) (simp_all add: example_db_def empty_db_def)
  then have "refresh_reachable example_host example_token_db" by (simp only: step)
  from rotation_hands_on_the_grant[OF this example_rotation] show ?thesis
    by (auto simp only: example_rotation snd_conv example_token_row issue_row_def refresh_token.simps)
qed

text \<open>Two requests racing with the same still-valid token: once the transaction of one has
  committed, the transaction of the other fails as \<open>invalid_grant\<close> without writing anything, however
  many other operations on the token table ran in between.\<close>

theorem racing_rotation_loses_cleanly:
  assumes "rotate_commit row nh1 now1 d = (Inr (), d1)"
  shows "rotate_commit row nh2 now2 (run_events (token_step h) es d1) =
     (Inl (UnauthorizedE INVALID_GRANT), run_events (token_step h) es d1)"
proof -
  have d1: "d1 = rotated_db d row nh1 now1" "token_row d nh1 = None"
    and live: "\<exists>r \<in> set (saRefreshTokens d). rt_tokenHash r = rt_tokenHash row"
    using rotate_commit_cases[OF assms] by auto
  then have "nh1 \<noteq> rt_tokenHash row" by (auto simp: token_row_None)
  then have "all_revoked (\<lambda>r. rt_tokenHash r = rt_tokenHash row) d1"
    using live unfolding d1(1) rotated_db_def all_revoked_def
    by (auto simp: consume_row_dead rotated_row_def simp del: not_None_eq)
  then have "all_revoked (\<lambda>r. rt_tokenHash r = rt_tokenHash row) (run_events (token_step h) es d1)"
    by (rule all_revoked_hash_run)
  then have "live_count (run_events (token_step h) es d1) (rt_tokenHash row) = 0"
    by (auto simp: live_count_def all_revoked_def filter_empty_conv)
  then show ?thesis by (simp add: rotate_commit_eq)
qed

lemma racing_rotation_loses_cleanly_witness:
  "fst (rotate_commit (issue_row example_host ''t0'' ''f'' 0 example_params) ''#t2'' 6
     (run_events (token_step example_host) [RevokeUser 6 1]
       (snd (rotate_commit (issue_row example_host ''t0'' ''f'' 0 example_params) ''#t1'' 5 example_token_db)))) =
   Inl (UnauthorizedE INVALID_GRANT)"
proof -
  have "fst (rotate_commit (issue_row example_host ''t0'' ''f'' 0 example_params) ''#t1'' 5 example_token_db) = Inr ()"
    by (simp add: rotate_commit_eq live_count_def token_row_def example_token_db_def issue_row_def
        hashToken_def example_host_def)
  then have "rotate_commit (issue_row example_host ''t0'' ''f'' 0 example_params) ''#t1'' 5 example_token_db =
      (Inr (), snd (rotate_commit (issue_row example_host ''t0'' ''f'' 0 example_params) ''#t1'' 5 example_token_db))"
    by (metis prod.collapse)
  from racing_rotation_loses_cleanly[OF this] show ?thesis by (simp only: fst_conv)
qed

end
