(* ===== verification/Authz.thy ===== *)
theory Authz
  imports Schema
begin

text \<open>
  The authorisation helpers of \<open>apps/auth-server/src/common/permissions\<close>: who a caller is, the
  permission names the caller holds through roles and directly, the three gates
  (\<open>checkPermission\<close>, \<open>checkPermissionForApp\<close>, \<open>resolveListScope\<close>), the resolution of public ids
  within one app, and the guard on granting system permissions. The locale \<open>permission_gate\<close>
  states what every gate promises; each gate is an interpretation of it.
\<close>

section \<open>Callers and gates\<close>

definition caller_perms :: "db \<Rightarrow> sa_user \<Rightarrow> string list" where
  "caller_perms d u = map perm_name (held_permissions d (sau_id u))"

definition is_platform_perm :: "string \<Rightarrow> bool" where
  "is_platform_perm r \<longleftrightarrow> starts_with ''platform.'' r"

definition checkPermission ::
    "db \<Rightarrow> string \<Rightarrow> string list \<Rightarrow> int option \<Rightarrow> err + unit" where
  "checkPermission d caller required targetOrgId =
     (case sau_by_betterAuthUserId d caller of
        None \<Rightarrow> Inl forbidden
      | Some u \<Rightarrow>
          (let perms = caller_perms d u in
           if list_ex (\<lambda>r. is_platform_perm r \<and> r \<in> set perms) required then Inr ()
           else if list_ex (\<lambda>r. \<not> is_platform_perm r \<and> r \<in> set perms \<and>
                                  targetOrgId \<noteq> None \<and> Some (sau_orgId u) = targetOrgId) required
           then Inr ()
           else Inl forbidden))"

definition checkPermissionForApp ::
    "db \<Rightarrow> string \<Rightarrow> string list \<Rightarrow> int option \<Rightarrow> int option \<Rightarrow> err + unit" where
  "checkPermissionForApp d caller required targetAppId callerAppId =
     (case sau_by_betterAuthUserId d caller of
        None \<Rightarrow> Inl forbidden
      | Some u \<Rightarrow>
          (let perms = caller_perms d u in
           if list_ex (\<lambda>r. is_platform_perm r \<and> r \<in> set perms) required then Inr ()
           else if list_ex (\<lambda>r. \<not> is_platform_perm r \<and> r \<in> set perms \<and> targetAppId \<noteq> None \<and>
                                  callerAppId \<noteq> None \<and> callerAppId = targetAppId) required
           then Inr ()
           else Inl forbidden))"

datatype list_scope = PlatformScope | OrgScope int

definition resolveListScope :: "db \<Rightarrow> string \<Rightarrow> string list \<Rightarrow> err + list_scope" where
  "resolveListScope d caller required =
     (case sau_by_betterAuthUserId d caller of
        None \<Rightarrow> Inl forbidden
      | Some u \<Rightarrow>
          (let perms = caller_perms d u in
           if list_ex (\<lambda>r. is_platform_perm r \<and> r \<in> set perms) required then Inr PlatformScope
           else if list_ex (\<lambda>r. \<not> is_platform_perm r \<and> r \<in> set perms) required
           then Inr (OrgScope (sau_orgId u))
           else Inl forbidden))"

section \<open>Public ids within one app\<close>

definition resolvePermissionIdsForApp :: "db \<Rightarrow> int \<Rightarrow> string list \<Rightarrow> err + int list" where
  "resolvePermissionIdsForApp d appId pids =
     (if pids = [] then Inr []
      else
        (let perms = filter (\<lambda>p. perm_publicId p \<in> set pids) (saPermissions d) in
         if length perms \<noteq> length pids then
           Inl (NotFoundE (''Permission(s) not found: '' @
             js_join '', '' (filter (\<lambda>i. i \<notin> set (map perm_publicId perms)) pids)))
         else
           (let wrongApp = filter (\<lambda>p. \<not> perm_isSystem p \<and> perm_appId p \<noteq> appId) perms in
            if wrongApp \<noteq> [] then
              Inl (BadRequestE (''Permission(s) belong to a different app: '' @
                js_join '', '' (map perm_publicId wrongApp)))
            else Inr (map perm_id perms))))"

definition resolveRoleIdsForApp :: "db \<Rightarrow> int \<Rightarrow> string list \<Rightarrow> err + int list" where
  "resolveRoleIdsForApp d appId pids =
     (if pids = [] then Inr []
      else
        (let roles = filter (\<lambda>r. role_publicId r \<in> set pids) (saRoles d) in
         if length roles \<noteq> length pids then
           Inl (NotFoundE (''Role(s) not found: '' @
             js_join '', '' (filter (\<lambda>i. i \<notin> set (map role_publicId roles)) pids)))
         else
           (let wrongApp = filter (\<lambda>r. role_appId r \<noteq> appId) roles in
            if wrongApp \<noteq> [] then
              Inl (BadRequestE (''Role(s) belong to a different app: '' @
                js_join '', '' (map role_publicId wrongApp)))
            else Inr (map role_id roles))))"

section \<open>Granting system permissions\<close>

definition assertCallerCanGrantSystemPerms :: "db \<Rightarrow> string \<Rightarrow> string list \<Rightarrow> err + unit" where
  "assertCallerCanGrantSystemPerms d caller names =
     (if names = [] then Inr ()
      else (case sau_by_betterAuthUserId d caller of
              None \<Rightarrow> Inl forbidden
            | Some u \<Rightarrow>
                (let perms = caller_perms d u in
                 if ''platform.users.manage'' \<in> set perms then Inr ()
                 else
                   (let missing = filter (\<lambda>n. n \<notin> set perms) names in
                    if missing \<noteq> [] then
                      Inl (ForbiddenE (''Cannot grant system permission(s) you do not hold: '' @
                        js_join '', '' missing))
                    else Inr ()))))"

section \<open>What the gates decide\<close>

text \<open>
  The declarative reading: user \<open>u\<close> holds the permission called \<open>n\<close> when a permission row of that
  name is granted to the user directly or to a role the user has.
\<close>

definition holds :: "db \<Rightarrow> sa_user \<Rightarrow> string \<Rightarrow> bool" where
  "holds d u n \<longleftrightarrow>
     (\<exists>p \<in> set (saPermissions d). perm_name p = n \<and>
        ((sau_id u, perm_id p) \<in> set (saUserPermissions d) \<or>
         (\<exists>r \<in> set (saRoles d). (sau_id u, role_id r) \<in> set (saUserRoles d) \<and>
            (role_id r, perm_id p) \<in> set (saRolePermissions d))))"

lemma mem_caller_perms: "n \<in> set (caller_perms d u) \<longleftrightarrow> holds d u n"
  unfolding caller_perms_def holds_def set_map image_iff by (simp only: Bex_def mem_held_permissions) blast

lemma checkPermission_ok:
  "checkPermission d c req tgt = Inr x \<longleftrightarrow>
     (\<exists>u. sau_by_betterAuthUserId d c = Some u \<and>
        (\<exists>r \<in> set req. holds d u r \<and> (is_platform_perm r \<or> tgt = Some (sau_orgId u))))"
  by (auto simp: checkPermission_def Let_def list_ex_iff mem_caller_perms split: option.splits)

lemma checkPermission_err: "checkPermission d c req tgt = Inl e \<Longrightarrow> e = forbidden"
  by (auto simp: checkPermission_def Let_def split: option.splits if_splits)

lemma checkPermissionForApp_ok:
  "checkPermissionForApp d c req tgt own = Inr x \<longleftrightarrow>
     (\<exists>u. sau_by_betterAuthUserId d c = Some u \<and>
        (\<exists>r \<in> set req. holds d u r \<and> (is_platform_perm r \<or> tgt \<noteq> None \<and> own = tgt)))"
  by (auto simp: checkPermissionForApp_def Let_def list_ex_iff mem_caller_perms split: option.splits)

lemma checkPermissionForApp_err:
  "checkPermissionForApp d c req tgt own = Inl e \<Longrightarrow> e = forbidden"
  by (auto simp: checkPermissionForApp_def Let_def split: option.splits if_splits)

lemma resolveListScope_platform:
  "resolveListScope d c req = Inr PlatformScope \<longleftrightarrow>
     (\<exists>u. sau_by_betterAuthUserId d c = Some u \<and>
        (\<exists>r \<in> set req. holds d u r \<and> is_platform_perm r))"
  by (auto simp: resolveListScope_def Let_def list_ex_iff mem_caller_perms split: option.splits)

lemma resolveListScope_org:
  "resolveListScope d c req = Inr (OrgScope i) \<longleftrightarrow>
     (\<exists>u. sau_by_betterAuthUserId d c = Some u \<and> i = sau_orgId u \<and>
        (\<exists>r \<in> set req. holds d u r) \<and> \<not> (\<exists>r \<in> set req. holds d u r \<and> is_platform_perm r))"
  by (auto simp: resolveListScope_def Let_def list_ex_iff mem_caller_perms split: option.splits)

lemma resolveListScope_err: "resolveListScope d c req = Inl e \<Longrightarrow> e = forbidden"
  by (auto simp: resolveListScope_def Let_def split: option.splits if_splits)

text \<open>Resolved ids are rows of the database, and of the target app unless system permissions.\<close>

lemma resolvePermissionIdsForApp_ok:
  assumes "resolvePermissionIdsForApp d appId pids = Inr ids"
  shows "set ids = perm_id ` {p \<in> set (saPermissions d). perm_publicId p \<in> set pids}"
    and "p \<in> set (saPermissions d) \<Longrightarrow> perm_publicId p \<in> set pids \<Longrightarrow>
           perm_isSystem p \<or> perm_appId p = appId"
  using assms
  by (auto simp: resolvePermissionIdsForApp_def Let_def filter_empty_conv split: if_splits)

lemma resolveRoleIdsForApp_ok:
  assumes "resolveRoleIdsForApp d appId pids = Inr ids"
  shows "set ids = role_id ` {r \<in> set (saRoles d). role_publicId r \<in> set pids}"
    and "r \<in> set (saRoles d) \<Longrightarrow> role_publicId r \<in> set pids \<Longrightarrow> role_appId r = appId"
  using assms
  by (auto simp: resolveRoleIdsForApp_def Let_def filter_empty_conv split: if_splits)

lemma assertCallerCanGrant_ok:
  "assertCallerCanGrantSystemPerms d c names = Inr x \<longleftrightarrow>
     names = [] \<or>
     (\<exists>u. sau_by_betterAuthUserId d c = Some u \<and>
        (holds d u ''platform.users.manage'' \<or> (\<forall>n \<in> set names. holds d u n)))"
  by (auto simp: assertCallerCanGrantSystemPerms_def Let_def mem_caller_perms filter_empty_conv
      split: option.splits)

section \<open>What every gate promises\<close>

text \<open>
  A gate decides from the caller and the list of acceptable permissions. It admits only a known
  caller who holds one of them, and listing more acceptable permissions never shuts a caller out.
\<close>

locale permission_gate =
  fixes admits :: "db \<Rightarrow> string \<Rightarrow> string list \<Rightarrow> bool"
  assumes admits_holder:
      "admits d c req \<Longrightarrow>
         \<exists>u r. sau_by_betterAuthUserId d c = Some u \<and> r \<in> set req \<and> r \<in> set (caller_perms d u)"
    and admits_mono: "admits d c req \<Longrightarrow> set req \<subseteq> set req' \<Longrightarrow> admits d c req'"
begin

lemma unknown_denied: "sau_by_betterAuthUserId d c = None \<Longrightarrow> \<not> admits d c req"
  using admits_holder by fastforce

lemma nothing_required_denied: "\<not> admits d c []"
  using admits_holder by fastforce

lemma no_grants_denied:
  assumes "sau_by_betterAuthUserId d c = Some u"
    and "\<And>k. (sau_id u, k) \<notin> set (saUserRoles d)"
    and "\<And>k. (sau_id u, k) \<notin> set (saUserPermissions d)"
  shows "\<not> admits d c req"
  using admits_holder[of d c req] assms by (auto simp: caller_perms_def mem_held_permissions)

lemma order_irrelevant: "set req = set req' \<Longrightarrow> admits d c req = admits d c req'"
  using admits_mono by blast

end

interpretation org_gate: permission_gate "\<lambda>d c req. checkPermission d c req target = Inr ()" for target
  by unfold_locales
    (auto simp: checkPermission_def Let_def list_ex_iff split: option.splits if_splits)

interpretation app_gate: permission_gate
  "\<lambda>d c req. checkPermissionForApp d c req targetApp callerApp = Inr ()" for targetApp callerApp
  by unfold_locales
    (auto simp: checkPermissionForApp_def Let_def list_ex_iff split: option.splits if_splits)

interpretation list_gate: permission_gate "\<lambda>d c req. \<exists>s. resolveListScope d c req = Inr s"
  by unfold_locales
    (auto simp: resolveListScope_def Let_def list_ex_iff split: option.splits if_splits)

section \<open>Properties\<close>


end
