(* ===== verification/Token_Service.thy ===== *)
theory Token_Service
  imports Client_Auth Authz Example_Data
begin

text \<open>
  Minting and verifying tokens: \<open>token/token.service.ts\<close>. The signature scheme is the host's; the
  payloads, what they may contain and which of them a verifier accepts are modelled here. The
  \<open>console.log\<close> calls and the telemetry around minting are left out.
\<close>

definition TOKEN_TTL_SECONDS :: int where
  "TOKEN_TTL_SECONDS = 3600"

definition SERVICE_TOKEN_TTL_SECONDS :: int where
  "SERVICE_TOKEN_TTL_SECONDS = 300"

definition SERVICE_TOKEN_AUDIENCE :: string where
  "SERVICE_TOKEN_AUDIENCE = ''sassy-auth-management-api''"

definition inAudience :: "int \<Rightarrow> sa_permission \<Rightarrow> bool" where
  "inAudience audienceAppId p \<longleftrightarrow> perm_isSystem p \<or> perm_appId p = audienceAppId"

definition resolvePermissions :: "db \<Rightarrow> int \<Rightarrow> int \<Rightarrow> err + string list" where
  "resolvePermissions d saUserId audienceAppId =
     (case sau_by_id d saUserId of
        None \<Rightarrow> Inl (NotFoundE USER_NOT_FOUND)
      | Some u \<Rightarrow>
          Inr (sort_unique (map perm_name
            (filter (inAudience audienceAppId) (held_permissions d (sau_id u))))))"

definition resolveRoles :: "db \<Rightarrow> int \<Rightarrow> int \<Rightarrow> err + string list" where
  "resolveRoles d saUserId audienceAppId =
     (case sau_by_id d saUserId of
        None \<Rightarrow> Inl (NotFoundE USER_NOT_FOUND)
      | Some u \<Rightarrow>
          Inr (sort_unique (map role_name
            (filter (\<lambda>r. role_appId r = audienceAppId) (roles_of d (sau_id u))))))"

record issue_jwt_params =
  jp_saUserId :: int
  jp_userPublicId :: string
  jp_orgPublicId :: string
  jp_appPublicId :: string
  jp_appId :: int
  jp_scope :: string
  jp_amr :: "string list"
  jp_idp :: "string option"

definition access_claims ::
    "host \<Rightarrow> int \<Rightarrow> string list \<Rightarrow> string list \<Rightarrow> issue_jwt_params \<Rightarrow> jwt_claims" where
  "access_claims h now permissions roles p =
     \<lparr>c_sub = Some (jp_userPublicId p), c_aud = Some (jp_appPublicId p),
      c_org = Some (jp_orgPublicId p), c_azp = None, c_iss = resolveIssuer h,
      c_iat = now div 1000, c_exp = now div 1000 + TOKEN_TTL_SECONDS,
      c_scope = Some (jp_scope p), c_permissions = Some permissions, c_roles = Some roles,
      c_amr = (if jp_amr p \<noteq> [] then Some (jp_amr p) else None),
      c_idp = (if truthy (jp_idp p) then jp_idp p else None),
      c_auth_time = None, c_at_hash = None, c_nonce = None, c_token_use = None,
      c_scoped = no_scoped_claims\<rparr>"

definition issueJwt :: "host \<Rightarrow> int \<Rightarrow> issue_jwt_params \<Rightarrow> db \<Rightarrow> err + string" where
  "issueJwt h now p d =
     (case resolvePermissions d (jp_saUserId p) (jp_appId p) of
        Inl e \<Rightarrow> Inl e
      | Inr permissions \<Rightarrow>
          (case resolveRoles d (jp_saUserId p) (jp_appId p) of
             Inl e \<Rightarrow> Inl e
           | Inr roles \<Rightarrow> Inr (h_jwt_sign h (access_claims h now permissions roles p))))"

definition buildScopedClaims :: "db \<Rightarrow> int \<Rightarrow> string \<Rightarrow> err + scoped_claims" where
  "buildScopedClaims d saUserId scope =
     (let granted = js_words scope in
      if ''profile'' \<notin> set granted \<and> ''email'' \<notin> set granted then Inr no_scoped_claims
      else
        (case sau_by_id d saUserId of
           None \<Rightarrow> Inl (NotFoundE USER_NOT_FOUND)
         | Some u \<Rightarrow>
             (case user_by_id d (sau_betterAuthUserId u) of
                None \<Rightarrow> Inl (JsError ''Inconsistent query result'')
              | Some b \<Rightarrow>
                  Inr
                    \<lparr>sc_name = (if ''profile'' \<in> set granted
                        then Some (js_trim (sau_firstName u @ '' '' @ sau_lastName u)) else None),
                     sc_given_name = (if ''profile'' \<in> set granted then Some (sau_firstName u) else None),
                     sc_family_name = (if ''profile'' \<in> set granted then Some (sau_lastName u) else None),
                     sc_email = (if ''email'' \<in> set granted then Some (usr_email b) else None),
                     sc_email_verified =
                       (if ''email'' \<in> set granted then Some (usr_emailVerified b) else None)\<rparr>)))"

record issue_id_token_params =
  dp_saUserId :: int
  dp_userPublicId :: string
  dp_orgPublicId :: string
  dp_appPublicId :: string
  dp_scope :: string
  dp_nonce :: "string option"
  dp_authTime :: int
  dp_amr :: "string list"
  dp_accessToken :: string

definition atHash :: "host \<Rightarrow> string \<Rightarrow> string" where
  "atHash h accessToken = h_sha256_half_base64url h accessToken"

definition id_claims :: "host \<Rightarrow> int \<Rightarrow> scoped_claims \<Rightarrow> issue_id_token_params \<Rightarrow> jwt_claims" where
  "id_claims h now scoped p =
     \<lparr>c_sub = Some (dp_userPublicId p), c_aud = Some (dp_appPublicId p),
      c_org = Some (dp_orgPublicId p), c_azp = None, c_iss = resolveIssuer h,
      c_iat = now div 1000, c_exp = now div 1000 + 3600,
      c_scope = None, c_permissions = None, c_roles = None, c_amr = Some (dp_amr p), c_idp = None,
      c_auth_time = Some (dp_authTime p div 1000), c_at_hash = Some (atHash h (dp_accessToken p)),
      c_nonce = (if truthy (dp_nonce p) then dp_nonce p else None), c_token_use = None,
      c_scoped = scoped\<rparr>"

definition issueIdToken :: "host \<Rightarrow> int \<Rightarrow> issue_id_token_params \<Rightarrow> db \<Rightarrow> err + string" where
  "issueIdToken h now p d =
     (case buildScopedClaims d (dp_saUserId p) (dp_scope p) of
        Inl e \<Rightarrow> Inl e
      | Inr scoped \<Rightarrow> Inr (h_jwt_sign h (id_claims h now scoped p)))"

definition verifyAccessToken :: "host \<Rightarrow> int \<Rightarrow> string \<Rightarrow> err + jwt_claims" where
  "verifyAccessToken h now token =
     (case h_jwt_verify h now None (resolveIssuer h) token of
        None \<Rightarrow> Inl (JsError ''JsonWebTokenError'')
      | Some claims \<Rightarrow>
          (if \<not> truthy (c_sub claims)
           then Inl (JsError ''Not a user access token (missing sub)'')
           else Inr claims))"

definition service_claims :: "host \<Rightarrow> int \<Rightarrow> string \<Rightarrow> string \<Rightarrow> jwt_claims" where
  "service_claims h now appPublicId scope =
     \<lparr>c_sub = None, c_aud = Some SERVICE_TOKEN_AUDIENCE, c_org = None, c_azp = Some appPublicId,
      c_iss = resolveIssuer h, c_iat = now div 1000,
      c_exp = now div 1000 + SERVICE_TOKEN_TTL_SECONDS, c_scope = Some scope,
      c_permissions = None, c_roles = None, c_amr = None, c_idp = None, c_auth_time = None,
      c_at_hash = None, c_nonce = None, c_token_use = Some ''service'', c_scoped = no_scoped_claims\<rparr>"

definition issueServiceJwt :: "host \<Rightarrow> int \<Rightarrow> string \<Rightarrow> string \<Rightarrow> string" where
  "issueServiceJwt h now appPublicId scope = h_jwt_sign h (service_claims h now appPublicId scope)"

definition verifyServiceAccessToken :: "host \<Rightarrow> int \<Rightarrow> string \<Rightarrow> err + jwt_claims" where
  "verifyServiceAccessToken h now token =
     (case h_jwt_verify h now (Some SERVICE_TOKEN_AUDIENCE) (resolveIssuer h) token of
        None \<Rightarrow> Inl (JsError ''JsonWebTokenError'')
      | Some claims \<Rightarrow>
          (if c_token_use claims \<noteq> Some ''service''
           then Inl (JsError ''Not a service access token'')
           else Inr claims))"

section \<open>What a token says\<close>

text \<open>
  A permission is effective for an audience when it is a system permission or belongs to the
  audience app, and the user holds it.
\<close>

definition effective_permission :: "db \<Rightarrow> int \<Rightarrow> int \<Rightarrow> sa_permission \<Rightarrow> bool" where
  "effective_permission d uid aud p \<longleftrightarrow>
     p \<in> set (saPermissions d) \<and> (perm_isSystem p \<or> perm_appId p = aud) \<and>
     ((uid, perm_id p) \<in> set (saUserPermissions d) \<or>
      (\<exists>r \<in> set (saRoles d). (uid, role_id r) \<in> set (saUserRoles d) \<and>
         (role_id r, perm_id p) \<in> set (saRolePermissions d)))"

lemma resolvePermissions_ok:
  "resolvePermissions d uid aud = Inr ns \<longleftrightarrow>
     (\<exists>u. sau_by_id d uid = Some u) \<and>
     ns = sort_unique (map perm_name (filter (inAudience aud) (held_permissions d uid)))"
  by (auto simp: resolvePermissions_def dest: lookup_sound split: option.splits)

lemma mem_effective:
  "n \<in> set (sort_unique (map perm_name (filter (inAudience aud) (held_permissions d uid)))) \<longleftrightarrow>
     (\<exists>p. effective_permission d uid aud p \<and> perm_name p = n)"
  unfolding effective_permission_def inAudience_def sort_unique_props set_map set_filter image_iff
  by (simp only: mem_Collect_eq Bex_def mem_held_permissions) blast

lemma resolveRoles_ok:
  "resolveRoles d uid aud = Inr ns \<longleftrightarrow>
     (\<exists>u. sau_by_id d uid = Some u) \<and>
     ns = sort_unique (map role_name (filter (\<lambda>r. role_appId r = aud) (roles_of d uid)))"
  by (auto simp: resolveRoles_def dest: lookup_sound split: option.splits)

lemma issueJwt_ok:
  "issueJwt h now p d = Inr t \<longleftrightarrow>
     (\<exists>ps rs. resolvePermissions d (jp_saUserId p) (jp_appId p) = Inr ps \<and>
        resolveRoles d (jp_saUserId p) (jp_appId p) = Inr rs \<and>
        t = h_jwt_sign h (access_claims h now ps rs p))"
  by (auto simp: issueJwt_def split: sum.splits)

lemma issueJwt_err: "issueJwt h now p d = Inl e \<Longrightarrow> e = NotFoundE USER_NOT_FOUND"
  by (auto simp: issueJwt_def resolvePermissions_def resolveRoles_def split: sum.splits option.splits)

text \<open>Scoped claims reveal the profile only under \<open>profile\<close>, the address only under \<open>email\<close>.\<close>

lemma buildScopedClaims_gated:
  assumes "buildScopedClaims d uid scope = Inr sc"
  shows "sc_name sc \<noteq> None \<or> sc_given_name sc \<noteq> None \<or> sc_family_name sc \<noteq> None \<Longrightarrow>
           ''profile'' \<in> set (js_words scope)"
    and "sc_email sc \<noteq> None \<or> sc_email_verified sc \<noteq> None \<Longrightarrow> ''email'' \<in> set (js_words scope)"
  using assms
  by (auto simp: buildScopedClaims_def Let_def no_scoped_claims_def split: if_splits option.splits)

lemma verifyAccessToken_ok:
  "verifyAccessToken h now t = Inr c \<longleftrightarrow>
     h_jwt_verify h now None (resolveIssuer h) t = Some c \<and> truthy (c_sub c)"
  by (auto simp: verifyAccessToken_def split: option.splits)

lemma verifyServiceAccessToken_ok:
  "verifyServiceAccessToken h now t = Inr c \<longleftrightarrow>
     h_jwt_verify h now (Some SERVICE_TOKEN_AUDIENCE) (resolveIssuer h) t = Some c \<and>
     c_token_use c = Some ''service''"
  by (auto simp: verifyServiceAccessToken_def split: option.splits)

section \<open>Properties\<close>

text \<open>C12 The permissions of an access token are exactly the names of the permissions that are
  effective for its audience (system permissions and those of the audience app, held directly or
  through a role), sorted and without duplicates; its roles are exactly the user's roles in that
  app; issuing fails only for an unknown user.\<close>

theorem access_token_claims_effective:
  assumes "sau_by_id d (jp_saUserId p) = Some u"
  shows "\<exists>ps rs. issueJwt h now p d = Inr (h_jwt_sign h (access_claims h now ps rs p)) \<and>
     set ps = {n. \<exists>q. effective_permission d (jp_saUserId p) (jp_appId p) q \<and> perm_name q = n} \<and>
     sorted ps \<and> distinct ps \<and>
     set rs = {role_name r |r. r \<in> set (saRoles d) \<and> role_appId r = jp_appId p \<and>
                 (jp_saUserId p, role_id r) \<in> set (saUserRoles d)} \<and>
     sorted rs \<and> distinct rs"
proof -
  define ps where "ps = sort_unique (map perm_name
    (filter (inAudience (jp_appId p)) (held_permissions d (jp_saUserId p))))"
  define rs where "rs = sort_unique (map role_name
    (filter (\<lambda>r. role_appId r = jp_appId p) (roles_of d (jp_saUserId p))))"
  have "issueJwt h now p d = Inr (h_jwt_sign h (access_claims h now ps rs p))"
    using assms unfolding issueJwt_ok resolvePermissions_ok resolveRoles_ok ps_def rs_def by blast
  moreover have "set ps = {n. \<exists>q. effective_permission d (jp_saUserId p) (jp_appId p) q \<and> perm_name q = n}"
    unfolding ps_def by (rule set_eqI) (simp only: mem_effective mem_Collect_eq)
  moreover have "set rs = {role_name r |r. r \<in> set (saRoles d) \<and> role_appId r = jp_appId p \<and>
                 (jp_saUserId p, role_id r) \<in> set (saUserRoles d)}"
    by (auto simp: rs_def mem_roles_of)
  moreover have "sorted ps" "distinct ps" "sorted rs" "distinct rs" by (simp_all add: ps_def rs_def)
  ultimately show ?thesis by blast
qed

lemma access_token_claims_effective_witness:
  "\<exists>ps rs. issueJwt example_host 0 \<lparr>jp_saUserId = 3, jp_userPublicId = ''xxx'', jp_orgPublicId = ''xx'',
      jp_appPublicId = ''xx'', jp_appId = 2, jp_scope = [], jp_amr = [''pwd''], jp_idp = None\<rparr> example_db =
    Inr (h_jwt_sign example_host (access_claims example_host 0 ps rs \<lparr>jp_saUserId = 3, jp_userPublicId = ''xxx'',
      jp_orgPublicId = ''xx'', jp_appPublicId = ''xx'', jp_appId = 2, jp_scope = [], jp_amr = [''pwd''],
      jp_idp = None\<rparr>))"
proof -
  have "sau_by_id example_db (jp_saUserId \<lparr>jp_saUserId = 3, jp_userPublicId = ''xxx'', jp_orgPublicId = ''xx'',
      jp_appPublicId = ''xx'', jp_appId = 2, jp_scope = [], jp_amr = [''pwd''], jp_idp = None\<rparr>) =
      Some (example_sa_user 3 ''b3'' 2)"
    by (simp add: sau_by_id_def example_db_def empty_db_def example_sa_user_def)
  from access_token_claims_effective[OF this] show ?thesis by blast
qed

text \<open>C13 User and service tokens are not interchangeable: an access token or id token of a user never
  passes the service-token verifier, and a service token never passes the user-token verifier, under
  the documented behaviour of the JWT library for the tokens concerned.\<close>

theorem tokens_not_interchangeable:
  assumes "jwt_faithful h (access_claims h t0 ps rs p)" "jwt_faithful h (id_claims h t1 sc q)"
    and "jwt_faithful h (service_claims h t2 app scope)"
  shows "(\<nexists>c. verifyServiceAccessToken h now (h_jwt_sign h (access_claims h t0 ps rs p)) = Inr c) \<and>
     (\<nexists>c. verifyServiceAccessToken h now (h_jwt_sign h (id_claims h t1 sc q)) = Inr c) \<and>
     (\<nexists>c. verifyAccessToken h now (h_jwt_sign h (service_claims h t2 app scope)) = Inr c)"
proof -
  have "c_token_use (access_claims h t0 ps rs p) = None" "c_token_use (id_claims h t1 sc q) = None"
    "c_sub (service_claims h t2 app scope) = None"
    by (simp_all add: access_claims_def id_claims_def service_claims_def)
  then show ?thesis
    using jwt_faithfulD[OF assms(1)] jwt_faithfulD[OF assms(2)] jwt_faithfulD[OF assms(3)]
    unfolding verifyServiceAccessToken_ok verifyAccessToken_ok truthy_iff by fastforce
qed

text \<open>A host whose signer prints the subject and the use of the token and whose verifier knows three
  payloads, checking the issuer and the audience.\<close>

definition jwt_host :: "jwt_claims list \<Rightarrow> host" where
  "jwt_host known = example_host\<lparr>
     h_jwt_sign := (\<lambda>c. (case c_token_use c of None \<Rightarrow> ''u'' | Some u \<Rightarrow> u) @
                        (case c_auth_time c of None \<Rightarrow> ''a'' | Some t \<Rightarrow> ''i'')),
     h_jwt_verify := (\<lambda>now aud iss t.
       find (\<lambda>c. t = (case c_token_use c of None \<Rightarrow> ''u'' | Some u \<Rightarrow> u) @
                     (case c_auth_time c of None \<Rightarrow> ''a'' | Some t \<Rightarrow> ''i'') \<and>
                 c_iss c = iss \<and> (aud = None \<or> c_aud c = aud)) known)\<rparr>"

definition witness_jp :: issue_jwt_params where
  "witness_jp = \<lparr>jp_saUserId = 3, jp_userPublicId = ''xxx'', jp_orgPublicId = ''xx'', jp_appPublicId = ''xx'',
     jp_appId = 2, jp_scope = ''openid'', jp_amr = [''pwd''], jp_idp = None\<rparr>"

definition witness_dp :: issue_id_token_params where
  "witness_dp = \<lparr>dp_saUserId = 3, dp_userPublicId = ''xxx'', dp_orgPublicId = ''xx'', dp_appPublicId = ''xx'',
     dp_scope = ''openid'', dp_nonce = None, dp_authTime = 0, dp_amr = [''pwd''], dp_accessToken = ''ua''\<rparr>"

lemma tokens_not_interchangeable_witness:
  "let h0 = example_host;
       h = jwt_host [access_claims h0 0 [] [] witness_jp, id_claims h0 0 no_scoped_claims witness_dp,
                     service_claims h0 0 ''xx'' ''roles:write''] in
   (\<exists>c. verifyAccessToken h 0 (h_jwt_sign h (access_claims h 0 [] [] witness_jp)) = Inr c) \<and>
   (\<exists>c. verifyServiceAccessToken h 0 (h_jwt_sign h (service_claims h 0 ''xx'' ''roles:write'')) = Inr c) \<and>
   (\<nexists>c. verifyServiceAccessToken h 0 (h_jwt_sign h (access_claims h 0 [] [] witness_jp)) = Inr c)"
proof -
  define h where "h = jwt_host [access_claims example_host 0 [] [] witness_jp,
      id_claims example_host 0 no_scoped_claims witness_dp, service_claims example_host 0 ''xx'' ''roles:write'']"
  have same: "access_claims h 0 [] [] witness_jp = access_claims example_host 0 [] [] witness_jp"
    "id_claims h 0 no_scoped_claims witness_dp = id_claims example_host 0 no_scoped_claims witness_dp"
    "service_claims h 0 ''xx'' ''roles:write'' = service_claims example_host 0 ''xx'' ''roles:write''"
    by (simp_all add: h_def jwt_host_def access_claims_def id_claims_def service_claims_def resolveIssuer_def
        atHash_def)
  note defs = h_def jwt_host_def access_claims_def id_claims_def service_claims_def witness_jp_def witness_dp_def
  have iss: "resolveIssuer h = resolveIssuer example_host"
    by (simp add: h_def jwt_host_def resolveIssuer_def)
  have "jwt_faithful h (access_claims h 0 [] [] witness_jp)"
    "jwt_faithful h (id_claims h 0 no_scoped_claims witness_dp)"
    "jwt_faithful h (service_claims h 0 ''xx'' ''roles:write'')"
    unfolding same jwt_faithful_def by (auto simp: defs split: if_splits)
  from tokens_not_interchangeable[OF this, of 0]
  have "\<nexists>c. verifyServiceAccessToken h 0 (h_jwt_sign h (access_claims h 0 [] [] witness_jp)) = Inr c" by blast
  moreover have "\<exists>c. verifyAccessToken h 0 (h_jwt_sign h (access_claims h 0 [] [] witness_jp)) = Inr c"
    unfolding verifyAccessToken_ok iss same by (simp add: defs)
  moreover have "\<exists>c. verifyServiceAccessToken h 0 (h_jwt_sign h (service_claims h 0 ''xx'' ''roles:write'')) = Inr c"
    unfolding verifyServiceAccessToken_ok iss same by (simp add: defs)
  ultimately show ?thesis unfolding Let_def h_def[symmetric] by blast
qed

end
