(* ===== verification/Token_Grants.thy ===== *)
theory Token_Grants
  imports Oauth_Codes Refresh_Tokens Token_Service
begin

text \<open>
  The token endpoint and direct login: \<open>oauthToken\<close>, \<open>handleClientCredentials\<close>,
  \<open>refreshTokenGrant\<close> and \<open>directLoginInner\<close> of \<open>token/token.controller.ts\<close>. The state is the
  database, the response headers set so far and the number of scrypt computations spent on the
  request (the cost the timing guards of direct login equalise). The DTO has been validated: each
  grant type carries the fields its \<open>@ValidateIf\<close> makes mandatory.
\<close>

record srv =
  sv_db :: db
  sv_headers :: "(string \<times> string) list"
  sv_scrypts :: nat

definition on_db :: "(db, 'a) eff \<Rightarrow> (srv, 'a) eff" where
  "on_db m = (\<lambda>s. case m (sv_db s) of (r, d) \<Rightarrow> (r, s\<lparr>sv_db := d\<rparr>))"

definition setHeader :: "string \<Rightarrow> string \<Rightarrow> (srv, unit) eff" where
  "setHeader k v = modifyE (\<lambda>s. s\<lparr>sv_headers := sv_headers s @ [(k, v)]\<rparr>)"

definition WWW_AUTHENTICATE :: "string \<times> string" where
  "WWW_AUTHENTICATE = (''WWW-Authenticate'', ''Basic realm='' @ [CHR 0x22] @ ''sassy-auth'' @ [CHR 0x22])"

definition reject_client :: "(srv, 'a) eff" where
  "reject_client =
     thenE (setHeader (fst WWW_AUTHENTICATE) (snd WWW_AUTHENTICATE)) (raise (UnauthorizedE INVALID_CLIENT))"

datatype grant =
    AuthorizationCode string string "string option"
  | ClientCredentials "string option"
  | RefreshTokenGrant string

record token_request =
  tq_client_id :: string
  tq_client_secret :: "string option"
  tq_authorization :: "string option"
  tq_grant :: grant

record token_response =
  tp_access_token :: string
  tp_expires_in :: int
  tp_scope :: "string option"
  tp_id_token :: "string option"
  tp_refresh_token :: "string option"

text \<open>\<open>sqidService.decode\<close> and the app lookup that open every grant.\<close>

definition find_client :: "host \<Rightarrow> string \<Rightarrow> err \<Rightarrow> (db, sa_app) eff" where
  "find_client h client_id undecodable =
     (case h_sqid_decode h client_id of
        None \<Rightarrow> raise undecodable
      | Some i \<Rightarrow> findE (\<lambda>d. app_by_id d i) (NotFoundE APP_NOT_FOUND))"

definition authenticate_client :: "host \<Rightarrow> token_request \<Rightarrow> sa_app \<Rightarrow> err + bool" where
  "authenticate_client h rq app =
     (case extractClientSecret h (tq_authorization rq) (tq_client_secret rq) of
        Inl e \<Rightarrow> Inl e
      | Inr presented \<Rightarrow> Inr (verifyClientSecret h presented (app_clientSecretHash app)))"

section \<open>client_credentials\<close>

definition handleClientCredentials ::
    "host \<Rightarrow> (nat \<Rightarrow> int) \<Rightarrow> token_request \<Rightarrow> string option \<Rightarrow> (srv, token_response) eff" where
  "handleClientCredentials h clk rq scope =
     bindE (on_db (find_client h (tq_client_id rq) (BadRequestE APP_NOT_FOUND))) (\<lambda>app.
       if \<not> truthy (app_clientSecretHash app) then raise (UnauthorizedE INVALID_CLIENT)
       else bindE (liftR (\<lambda>_. authenticate_client h rq app)) (\<lambda>clientAuthenticated.
         if \<not> clientAuthenticated then reject_client
         else
           (let requested = parseServiceScopes scope;
                granted = (if app_canManageOwnRoles app then requested else []);
                token = issueServiceJwt h (clk 0) (app_publicId app) (js_join '' '' granted) in
            ret \<lparr>tp_access_token = token, tp_expires_in = SERVICE_TOKEN_TTL_SECONDS,
                 tp_scope = Some (js_join '' '' granted), tp_id_token = None,
                 tp_refresh_token = None\<rparr>)))"

section \<open>refresh_token\<close>

definition mint_refreshed ::
    "host \<Rightarrow> (nat \<Rightarrow> int) \<Rightarrow> rotated_token \<Rightarrow> (srv, token_response) eff" where
  "mint_refreshed h clk rotated =
     bindE (liftR (\<lambda>s. issueJwt h (clk 1)
       \<lparr>jp_saUserId = rot_saUserId rotated, jp_userPublicId = rot_userPublicId rotated,
        jp_orgPublicId = rot_orgPublicId rotated, jp_appPublicId = rot_appPublicId rotated,
        jp_appId = rot_appId rotated, jp_scope = rot_scope rotated, jp_amr = rot_amr rotated,
        jp_idp = rot_idp rotated\<rparr> (sv_db s))) (\<lambda>token.
     bindE (if ''openid'' \<in> set (split_ws (rot_scope rotated))
        then bindE (liftR (\<lambda>s. issueIdToken h (clk 2)
          \<lparr>dp_saUserId = rot_saUserId rotated, dp_userPublicId = rot_userPublicId rotated,
           dp_orgPublicId = rot_orgPublicId rotated, dp_appPublicId = rot_appPublicId rotated,
           dp_scope = rot_scope rotated, dp_nonce = None, dp_authTime = rot_authTime rotated,
           dp_amr = rot_amr rotated, dp_accessToken = token\<rparr> (sv_db s))) (\<lambda>t. ret (Some t))
        else ret None) (\<lambda>idToken.
       ret \<lparr>tp_access_token = token, tp_expires_in = 3600, tp_scope = Some (rot_scope rotated),
            tp_id_token = idToken, tp_refresh_token = Some (rot_token rotated)\<rparr>))"

definition refreshTokenGrant ::
    "host \<Rightarrow> (nat \<Rightarrow> int) \<Rightarrow> (nat \<Rightarrow> string) \<Rightarrow> token_request \<Rightarrow> string \<Rightarrow> (srv, token_response) eff" where
  "refreshTokenGrant h clk rnd rq presented =
     bindE (on_db (find_client h (tq_client_id rq) (BadRequestE APP_NOT_FOUND))) (\<lambda>app.
     bindE (liftR (\<lambda>_. authenticate_client h rq app)) (\<lambda>clientAuthenticated.
       if truthy (app_clientSecretHash app) \<and> \<not> clientAuthenticated then reject_client
       else
         bindE (on_db (rotate h (clk 0) (rnd 0) presented (tq_client_id rq))) (\<lambda>rotated.
         bindE (readE (\<lambda>s. sau_by_publicId (sv_db s) (rot_userPublicId rotated))) (\<lambda>found.
           if map_option sau_status found \<noteq> Some Active then raise (ForbiddenE USER_NOT_FOUND)
           else mint_refreshed h clk rotated))))"

section \<open>authorization_code\<close>

definition finish_code_grant ::
    "host \<Rightarrow> (nat \<Rightarrow> int) \<Rightarrow> (nat \<Rightarrow> string) \<Rightarrow> sa_app \<Rightarrow> exchanged_code \<Rightarrow> sa_user \<Rightarrow> sa_org \<Rightarrow>
     (srv, token_response) eff" where
  "finish_code_grant h clk rnd app x u org =
     bindE (liftR (\<lambda>s. issueJwt h (clk 1)
       \<lparr>jp_saUserId = sau_id u, jp_userPublicId = sau_publicId u, jp_orgPublicId = org_publicId org,
        jp_appPublicId = ex_appPublicId x, jp_appId = app_id app, jp_scope = ex_scope x,
        jp_amr = ex_amr x, jp_idp = ex_idp x\<rparr> (sv_db s))) (\<lambda>token.
     bindE (if ''openid'' \<in> set (split_ws (ex_scope x))
        then bindE (liftR (\<lambda>s. issueIdToken h (clk 2)
          \<lparr>dp_saUserId = sau_id u, dp_userPublicId = sau_publicId u, dp_orgPublicId = org_publicId org,
           dp_appPublicId = ex_appPublicId x, dp_scope = ex_scope x, dp_nonce = ex_nonce x,
           dp_authTime = ex_authTime x, dp_amr = ex_amr x, dp_accessToken = token\<rparr> (sv_db s)))
          (\<lambda>t. ret (Some t))
        else ret None) (\<lambda>idToken.
     bindE (if ''offline_access'' \<in> set (split_ws (ex_scope x))
        then bindE (on_db (issue_token h (rnd 0) (rnd 1) (clk 3)
          \<lparr>ip_saUserId = sau_id u, ip_userPublicId = sau_publicId u, ip_orgPublicId = org_publicId org,
           ip_appId = app_id app, ip_appPublicId = ex_appPublicId x, ip_scope = ex_scope x,
           ip_amr = ex_amr x, ip_idp = ex_idp x, ip_authTime = ex_authTime x\<rparr>)) (\<lambda>t. ret (Some t))
        else ret None) (\<lambda>refreshToken.
       ret \<lparr>tp_access_token = token, tp_expires_in = 3600, tp_scope = Some (ex_scope x),
            tp_id_token = idToken, tp_refresh_token = refreshToken\<rparr>)))"

definition code_user_refused :: "string list \<Rightarrow> user_status \<Rightarrow> bool" where
  "code_user_refused amr status =
     (if ''signup'' \<in> set amr then status = Inactive else status \<noteq> Active)"

definition authorizationCodeGrant ::
    "host \<Rightarrow> (nat \<Rightarrow> int) \<Rightarrow> (nat \<Rightarrow> string) \<Rightarrow> token_request \<Rightarrow> string \<Rightarrow> string \<Rightarrow> string option \<Rightarrow>
     (srv, token_response) eff" where
  "authorizationCodeGrant h clk rnd rq code redirect_uri code_verifier =
     bindE (on_db (find_client h (tq_client_id rq) (BadRequestE APP_NOT_FOUND))) (\<lambda>app.
     thenE (liftR (\<lambda>s. assertRedirectUriAllowed h redirect_uri (app_url app)
                         (app_redirect_uris (sv_db s) (app_id app))))
     (bindE (liftR (\<lambda>_. authenticate_client h rq app)) (\<lambda>clientAuthenticated.
       if truthy (app_clientSecretHash app) \<and> \<not> clientAuthenticated then reject_client
       else
         bindE (on_db (exchangeCode h (clk 0) code (tq_client_id rq) redirect_uri code_verifier))
         (\<lambda>exchanged.
           if \<not> ex_hadChallenge exchanged \<and> \<not> clientAuthenticated then reject_client
           else
             bindE (findE (\<lambda>s. sau_by_publicId (sv_db s) (ex_userId exchanged))
                      (ForbiddenE USER_NOT_FOUND)) (\<lambda>u.
             bindE (findE (\<lambda>s. org_by_id (sv_db s) (sau_orgId u))
                      (JsError ''Inconsistent query result'')) (\<lambda>org.
               if code_user_refused (ex_amr exchanged) (sau_status u)
               then raise (ForbiddenE USER_NOT_FOUND)
               else finish_code_grant h clk rnd app exchanged u org))))))"

definition oauthToken ::
    "host \<Rightarrow> (nat \<Rightarrow> int) \<Rightarrow> (nat \<Rightarrow> string) \<Rightarrow> token_request \<Rightarrow> (srv, token_response) eff" where
  "oauthToken h clk rnd rq =
     (case tq_grant rq of
        ClientCredentials scope \<Rightarrow> handleClientCredentials h clk rq scope
      | RefreshTokenGrant presented \<Rightarrow> refreshTokenGrant h clk rnd rq presented
      | AuthorizationCode code uri verifier \<Rightarrow>
          authorizationCodeGrant h clk rnd rq code uri verifier)"

section \<open>Direct login\<close>

datatype identifier_type = EmailId | PhoneId | UsernameId

definition phone_char :: "char \<Rightarrow> bool" where
  "phone_char c \<longleftrightarrow> is_digit c \<or> is_ws c \<or> c \<in> set ''-().''"

definition detectIdentifierType :: "string \<Rightarrow> identifier_type" where
  "detectIdentifierType identifier =
     (let body = (case identifier of [] \<Rightarrow> [] | c # cs \<Rightarrow> if c = CHR ''+'' then cs else identifier) in
      if CHR ''@'' \<in> set identifier then EmailId
      else if 7 \<le> length body \<and> list_all phone_char body then PhoneId
      else UsernameId)"

record login_request =
  lq_identifier :: string
  lq_password :: string
  lq_appId :: string
  lq_totpCode :: "string option"

definition verify_pw :: "host \<Rightarrow> string \<Rightarrow> string \<Rightarrow> (srv, bool) eff" where
  "verify_pw h hash password = (\<lambda>s.
     (case h_verify_password h hash password of
        None \<Rightarrow> Inl (JsError ''Invalid password hash'') | Some b \<Rightarrow> Inr b,
      s\<lparr>sv_scrypts := Suc (sv_scrypts s)\<rparr>))"

text \<open>The dummy verification of the bug-0209 guard, then the opaque 401.\<close>

definition reject_after_dummy :: "host \<Rightarrow> string \<Rightarrow> (srv, 'a) eff" where
  "reject_after_dummy h password =
     thenE (verify_pw h (h_dummy_hash h) password) (raise (UnauthorizedE INVALID_CREDENTIALS))"

definition user_email_is :: "db \<Rightarrow> string \<Rightarrow> string \<Rightarrow> bool" where
  "user_email_is d uid email =
     (case user_by_id d uid of None \<Rightarrow> False | Some b \<Rightarrow> usr_email b = email)"

definition login_user :: "db \<Rightarrow> string \<Rightarrow> sa_user option" where
  "login_user d identifier =
     (case detectIdentifierType identifier of
        EmailId \<Rightarrow> find (\<lambda>u. user_email_is d (sau_betterAuthUserId u) identifier) (saUsers d)
      | UsernameId \<Rightarrow> find (\<lambda>u. sau_username u = Some identifier) (saUsers d)
      | PhoneId \<Rightarrow> find (\<lambda>u. sau_phoneNumber u = Some identifier) (saUsers d))"

definition credential_account :: "db \<Rightarrow> string \<Rightarrow> account_row option" where
  "credential_account d email =
     find (\<lambda>a. user_email_is d (acc_userId a) email \<and> acc_providerId a = ''credential'') (accounts d)"

definition verifyUserTotp :: "host \<Rightarrow> int \<Rightarrow> string \<Rightarrow> string \<Rightarrow> (srv, bool) eff" where
  "verifyUserTotp h now betterAuthUserId totp = liftR (\<lambda>s.
     case find (\<lambda>r. tf_userId r = betterAuthUserId) (twoFactors (sv_db s)) of
       None \<Rightarrow> Inr False
     | Some r \<Rightarrow>
         (case h_totp_verify h now (tf_secret r) totp of
            None \<Rightarrow> Inl (JsError ''decryption failed'') | Some b \<Rightarrow> Inr b))"

definition touch_last_login :: "int \<Rightarrow> int \<Rightarrow> db \<Rightarrow> db" where
  "touch_last_login now uid d =
     d\<lparr>saUsers := map (\<lambda>u. if sau_id u = uid then u\<lparr>sau_lastLoginAt := Some now\<rparr> else u) (saUsers d)\<rparr>"

definition finish_login ::
    "host \<Rightarrow> (nat \<Rightarrow> int) \<Rightarrow> (nat \<Rightarrow> string) \<Rightarrow> sa_app \<Rightarrow> sa_user \<Rightarrow> sa_org \<Rightarrow> string list \<Rightarrow>
     (srv, token_response) eff" where
  "finish_login h clk rnd app u org amr =
     thenE (on_db (modifyE (touch_last_login (clk 1) (sau_id u))))
     (bindE (liftR (\<lambda>s. issueJwt h (clk 2)
        \<lparr>jp_saUserId = sau_id u, jp_userPublicId = sau_publicId u, jp_orgPublicId = org_publicId org,
         jp_appPublicId = app_publicId app, jp_appId = app_id app, jp_scope = [], jp_amr = amr,
         jp_idp = None\<rparr> (sv_db s))) (\<lambda>token.
      bindE (on_db (issue_token h (rnd 0) (rnd 1) (clk 3)
        \<lparr>ip_saUserId = sau_id u, ip_userPublicId = sau_publicId u, ip_orgPublicId = org_publicId org,
         ip_appId = app_id app, ip_appPublicId = app_publicId app, ip_scope = [], ip_amr = amr,
         ip_idp = None, ip_authTime = clk 4\<rparr>)) (\<lambda>refreshToken.
      ret \<lparr>tp_access_token = token, tp_expires_in = 3600, tp_scope = None, tp_id_token = None,
           tp_refresh_token = Some refreshToken\<rparr>)))"

definition login_second_factor ::
    "host \<Rightarrow> int \<Rightarrow> login_request \<Rightarrow> sa_app \<Rightarrow> sa_user \<Rightarrow> (srv, string list) eff" where
  "login_second_factor h now rq app u =
     bindE (readE (\<lambda>s. case user_by_id (sv_db s) (sau_betterAuthUserId u) of
                         None \<Rightarrow> False | Some b \<Rightarrow> usr_twoFactorEnabled b)) (\<lambda>twoFactorEnabled.
       if isTwoFactorRequired h app \<or> twoFactorEnabled then
         (if \<not> twoFactorEnabled then raise (ForbiddenE TWO_FACTOR_REQUIRED)
          else if \<not> truthy (lq_totpCode rq) then raise (ForbiddenE TWO_FACTOR_REQUIRED)
          else bindE (verifyUserTotp h now (sau_betterAuthUserId u) (the (lq_totpCode rq)))
            (\<lambda>ok. if \<not> ok then raise (ForbiddenE TWO_FACTOR_REQUIRED)
                  else ret [''pwd'', ''otp'', ''mfa'']))
       else ret [''pwd''])"

definition directLogin ::
    "host \<Rightarrow> (nat \<Rightarrow> int) \<Rightarrow> (nat \<Rightarrow> string) \<Rightarrow> login_request \<Rightarrow> (srv, token_response) eff" where
  "directLogin h clk rnd rq =
     bindE (on_db (find_client h (lq_appId rq) (NotFoundE APP_NOT_FOUND))) (\<lambda>app.
     bindE (readE (\<lambda>s. login_user (sv_db s) (lq_identifier rq))) (\<lambda>found.
       case found of
         None \<Rightarrow> reject_after_dummy h (lq_password rq)
       | Some u \<Rightarrow>
           bindE (findE (\<lambda>s. org_by_id (sv_db s) (sau_orgId u)) (JsError ''Inconsistent query result''))
           (\<lambda>org.
           bindE (findE (\<lambda>s. user_by_id (sv_db s) (sau_betterAuthUserId u))
                    (JsError ''Inconsistent query result'')) (\<lambda>b.
           bindE (readE (\<lambda>s. credential_account (sv_db s) (usr_email b))) (\<lambda>account.
             if \<not> truthy (Option.bind account acc_password) then reject_after_dummy h (lq_password rq)
             else
               bindE (verify_pw h (the (Option.bind account acc_password)) (lq_password rq)) (\<lambda>valid.
                 if \<not> valid then raise (UnauthorizedE INVALID_CREDENTIALS)
                 else if org_appId org \<noteq> app_id app then raise (UnauthorizedE INVALID_CREDENTIALS)
                 else if sau_status u \<noteq> Active then raise (UnauthorizedE INVALID_CREDENTIALS)
                 else
                   bindE (login_second_factor h (clk 0) rq app u) (\<lambda>amr.
                     finish_login h clk rnd app u org amr)))))))"

section \<open>Outcomes\<close>

lemma on_db_ok [eff_simps]:
  "on_db m s = (Inr a, t) \<longleftrightarrow> (\<exists>d. m (sv_db s) = (Inr a, d) \<and> t = s\<lparr>sv_db := d\<rparr>)"
  by (auto simp: on_db_def split: prod.splits)

lemma on_db_err [eff_simps]:
  "on_db m s = (Inl e, t) \<longleftrightarrow> (\<exists>d. m (sv_db s) = (Inl e, d) \<and> t = s\<lparr>sv_db := d\<rparr>)"
  by (auto simp: on_db_def split: prod.splits)

lemma find_client_ok [eff_simps]:
  "find_client h c e d = (Inr app, t) \<longleftrightarrow>
     t = d \<and> (\<exists>i. h_sqid_decode h c = Some i \<and> app_by_id d i = Some app)"
  by (auto simp: find_client_def eff_simps split: option.splits)

lemma find_client_err [eff_simps]:
  "find_client h c e d = (Inl e', t) \<longleftrightarrow>
     t = d \<and> (case h_sqid_decode h c of None \<Rightarrow> e' = e
              | Some i \<Rightarrow> app_by_id d i = None \<and> e' = NotFoundE APP_NOT_FOUND)"
  by (auto simp: find_client_def eff_simps split: option.splits)

lemma reject_client_eq [simp]:
  "reject_client s =
     (Inl (UnauthorizedE INVALID_CLIENT), s\<lparr>sv_headers := sv_headers s @ [WWW_AUTHENTICATE]\<rparr>)"
  by (simp add: reject_client_def setHeader_def thenE_def bindE_def)

text \<open>The client named by a request, and whether the request proves it is that client.\<close>

definition client_of :: "host \<Rightarrow> db \<Rightarrow> string \<Rightarrow> sa_app \<Rightarrow> bool" where
  "client_of h d c app \<longleftrightarrow> (\<exists>i. h_sqid_decode h c = Some i \<and> app_by_id d i = Some app)"

definition proves_client :: "host \<Rightarrow> token_request \<Rightarrow> sa_app \<Rightarrow> bool" where
  "proves_client h rq app \<longleftrightarrow>
     (\<exists>secret hash. extractClientSecret h (tq_authorization rq) (tq_client_secret rq) = Inr (Some secret) \<and>
        secret \<noteq> [] \<and> app_clientSecretHash app = Some hash \<and> hash \<noteq> [] \<and>
        h_verify_password h hash secret = Some True)"

lemma authenticate_client_True:
  "authenticate_client h rq app = Inr True \<longleftrightarrow> proves_client h rq app"
  by (auto simp: authenticate_client_def proves_client_def verifyClientSecret_def truthy_iff
      split: sum.splits option.splits)

lemma if_ret_ok:
  "(if b then bindE m (\<lambda>t. ret (Some t)) else ret None) s = (Inr x, s') \<longleftrightarrow>
     (if b then \<exists>t. m s = (Inr t, s') \<and> x = Some t else x = None \<and> s' = s)"
  by (auto simp: eff_simps)

section \<open>client_credentials and refresh_token\<close>

lemma find_client_known: "client_of h d c app \<Longrightarrow> find_client h c e d = (Inr app, d)"
  by (auto simp: client_of_def find_client_def findE_def)

lemma on_db_read [simp]: "m (sv_db s) = (r, sv_db s) \<Longrightarrow> on_db m s = (r, s)"
  by (simp add: on_db_def)

lemma client_of_unique: "client_of h d c app \<Longrightarrow> client_of h d c app' \<Longrightarrow> app' = app"
  by (auto simp: client_of_def)

lemma needs_client:
  "bindE (on_db (find_client h c e)) k s = (Inr resp, t) \<longleftrightarrow>
     (\<exists>app. client_of h (sv_db s) c app \<and> k app s = (Inr resp, t))"
  by (auto simp: bindE_ok on_db_ok find_client_ok client_of_def)

lemma needs_authentication:
  "bindE (liftR (\<lambda>_. authenticate_client h rq app))
      (\<lambda>ca. if truthy (app_clientSecretHash app) \<and> \<not> ca then reject_client else k ca) s = (Inr resp, t) \<longleftrightarrow>
     (\<exists>a. authenticate_client h rq app = Inr a \<and> (truthy (app_clientSecretHash app) \<longrightarrow> a) \<and>
        k a s = (Inr resp, t))"
  by (cases "authenticate_client h rq app") auto

lemma needs_row: "bindE (on_db m) k s = (Inr resp, t) \<longleftrightarrow>
     (\<exists>a d. m (sv_db s) = (Inr a, d) \<and> k a (s\<lparr>sv_db := d\<rparr>) = (Inr resp, t))"
  by (auto simp: bindE_ok on_db_ok)

lemma needs_active:
  "bindE (readE (\<lambda>s. sau_by_publicId (sv_db s) pid))
      (\<lambda>found. if map_option sau_status found \<noteq> Some Active then raise e else m) s = (Inr resp, t) \<longleftrightarrow>
     (\<exists>u. sau_by_publicId (sv_db s) pid = Some u \<and> sau_status u = Active \<and> m s = (Inr resp, t))"
  by (cases "sau_by_publicId (sv_db s) pid") (auto simp: bindE_def)

definition service_response :: "host \<Rightarrow> int \<Rightarrow> sa_app \<Rightarrow> string option \<Rightarrow> token_response" where
  "service_response h now app scope =
     (let granted = js_join '' '' (if app_canManageOwnRoles app then parseServiceScopes scope else []) in
      \<lparr>tp_access_token = h_jwt_sign h (service_claims h now (app_publicId app) granted),
       tp_expires_in = 300, tp_scope = Some granted, tp_id_token = None, tp_refresh_token = None\<rparr>)"

lemma handleClientCredentials_ok:
  "handleClientCredentials h clk rq scope s = (Inr resp, t) \<longleftrightarrow>
     t = s \<and> (\<exists>app. client_of h (sv_db s) (tq_client_id rq) app \<and> proves_client h rq app \<and>
       resp = service_response h (clk 0) app scope)"
proof -
  have "(if \<not> truthy (app_clientSecretHash app) then raise (UnauthorizedE INVALID_CLIENT)
       else bindE (liftR (\<lambda>_. authenticate_client h rq app)) (\<lambda>clientAuthenticated.
         if \<not> clientAuthenticated then reject_client
         else ret (service_response h (clk 0) app scope))) s = (Inr resp, t) \<longleftrightarrow>
      t = s \<and> proves_client h rq app \<and> resp = service_response h (clk 0) app scope" for app
  proof (cases "authenticate_client h rq app")
    case (Inr a)
    show ?thesis
      using Inr authenticate_client_True[of h rq app] by (cases a) (auto simp: proves_client_def)
  next
    case (Inl e)
    then have "\<not> proves_client h rq app" using authenticate_client_True[of h rq app] by simp
    with Inl show ?thesis by simp
  qed
  then show ?thesis
    unfolding handleClientCredentials_def needs_client service_response_def issueServiceJwt_def
      SERVICE_TOKEN_TTL_SECONDS_def Let_def
    by auto
qed

lemma mint_refreshed_ok:
  assumes "mint_refreshed h clk rotated s = (Inr resp, t)"
  shows "t = s"
    and "tp_scope resp = Some (rot_scope rotated)" "tp_refresh_token resp = Some (rot_token rotated)"
    and "tp_id_token resp \<noteq> None \<longleftrightarrow> ''openid'' \<in> set (split_ws (rot_scope rotated))"
    and "issueJwt h (clk 1)
       \<lparr>jp_saUserId = rot_saUserId rotated, jp_userPublicId = rot_userPublicId rotated,
        jp_orgPublicId = rot_orgPublicId rotated, jp_appPublicId = rot_appPublicId rotated,
        jp_appId = rot_appId rotated, jp_scope = rot_scope rotated, jp_amr = rot_amr rotated,
        jp_idp = rot_idp rotated\<rparr> (sv_db s) = Inr (tp_access_token resp)"
  using assms unfolding mint_refreshed_def
  by (auto simp: bindE_ok if_ret_ok split: if_splits)

lemma mint_refreshed_state: "snd (mint_refreshed h clk rotated s) = s"
  by (simp add: mint_refreshed_def bindE_def split: sum.splits)

lemma refreshTokenGrant_ok:
  "refreshTokenGrant h clk rnd rq presented s = (Inr resp, t) \<longleftrightarrow>
     (\<exists>app a d' rotated u. client_of h (sv_db s) (tq_client_id rq) app \<and>
        authenticate_client h rq app = Inr a \<and> (truthy (app_clientSecretHash app) \<longrightarrow> a) \<and>
        rotate h (clk 0) (rnd 0) presented (tq_client_id rq) (sv_db s) = (Inr rotated, d') \<and>
        sau_by_publicId d' (rot_userPublicId rotated) = Some u \<and> sau_status u = Active \<and>
        mint_refreshed h clk rotated (s\<lparr>sv_db := d'\<rparr>) = (Inr resp, t))"
  unfolding refreshTokenGrant_def needs_client
  unfolding needs_authentication
  unfolding needs_row
  unfolding needs_active by simp blast

section \<open>authorization_code\<close>

lemma needs_read: "thenE (liftR f) m s = (Inr resp, t) \<longleftrightarrow> (\<exists>x. f s = Inr x) \<and> m s = (Inr resp, t)"
  by (auto simp: thenE_ok)

lemma needs_found: "bindE (findE f e) k s = (Inr resp, t) \<longleftrightarrow> (\<exists>a. f s = Some a \<and> k a s = (Inr resp, t))"
  by (auto simp: bindE_ok findE_ok)

lemma needs_not: "(if b then raise e else m) s = (Inr resp, t) \<longleftrightarrow> \<not> b \<and> m s = (Inr resp, t)"
  "(if b then reject_client else m) s = (Inr resp, t) \<longleftrightarrow> \<not> b \<and> m s = (Inr resp, t)"
  by auto

lemma authorizationCodeGrant_ok:
  "authorizationCodeGrant h clk rnd rq code uri v s = (Inr resp, t) \<longleftrightarrow>
     (\<exists>app a x d' u org. client_of h (sv_db s) (tq_client_id rq) app \<and>
        assertRedirectUriAllowed h uri (app_url app) (app_redirect_uris (sv_db s) (app_id app)) = Inr () \<and>
        authenticate_client h rq app = Inr a \<and> (truthy (app_clientSecretHash app) \<longrightarrow> a) \<and>
        exchangeCode h (clk 0) code (tq_client_id rq) uri v (sv_db s) = (Inr x, d') \<and>
        (ex_hadChallenge x \<or> a) \<and>
        sau_by_publicId d' (ex_userId x) = Some u \<and> org_by_id d' (sau_orgId u) = Some org \<and>
        \<not> code_user_refused (ex_amr x) (sau_status u) \<and>
        finish_code_grant h clk rnd app x u org (s\<lparr>sv_db := d'\<rparr>) = (Inr resp, t))"
  unfolding authorizationCodeGrant_def needs_client
  unfolding needs_read needs_authentication
  unfolding needs_row
  unfolding needs_not needs_found
  by simp

lemma needs_lift: "bindE (liftR f) k s = (Inr resp, t) \<longleftrightarrow> (\<exists>a. f s = Inr a \<and> k a s = (Inr resp, t))"
  by (auto simp: bindE_ok)

lemma needs_optional_read:
  "bindE (if b then bindE (liftR f) (\<lambda>x. ret (Some x)) else ret None) k s = (Inr resp, t) \<longleftrightarrow>
     (\<exists>x. (if b then \<exists>y. f s = Inr y \<and> x = Some y else x = None) \<and> k x s = (Inr resp, t))"
  by (auto simp: bindE_ok)

lemma needs_optional_row:
  "bindE (if b then bindE (on_db m) (\<lambda>x. ret (Some x)) else ret None) k s = (Inr resp, t) \<longleftrightarrow>
     (\<exists>x d. (if b then \<exists>y. m (sv_db s) = (Inr y, d) \<and> x = Some y else x = None \<and> d = sv_db s) \<and>
        k x (s\<lparr>sv_db := d\<rparr>) = (Inr resp, t))"
  by (auto simp: bindE_ok on_db_ok)

lemma issue_token_result:
  "issue_token h token fam now p d = (r, t) \<Longrightarrow>
     (r = Inr token \<and> t = d\<lparr>saRefreshTokens := saRefreshTokens d @ [issue_row h token fam now p]\<rparr>) \<or>
     (r = Inl (PrismaE ''P2002'') \<and> t = d)"
  by (auto simp: issue_token_def thenE_def bindE_def create_token_def split: if_splits)

lemma finish_code_grant_ok:
  assumes "finish_code_grant h clk rnd app x u org s = (Inr resp, t)"
  shows "issueJwt h (clk 1)
       \<lparr>jp_saUserId = sau_id u, jp_userPublicId = sau_publicId u, jp_orgPublicId = org_publicId org,
        jp_appPublicId = ex_appPublicId x, jp_appId = app_id app, jp_scope = ex_scope x,
        jp_amr = ex_amr x, jp_idp = ex_idp x\<rparr> (sv_db s) = Inr (tp_access_token resp)"
    and "tp_scope resp = Some (ex_scope x)"
    and "tp_id_token resp \<noteq> None \<longleftrightarrow> ''openid'' \<in> set (split_ws (ex_scope x))"
    and "tp_refresh_token resp \<noteq> None \<longleftrightarrow> ''offline_access'' \<in> set (split_ws (ex_scope x))"
    and "saOauthCodes (sv_db t) = saOauthCodes (sv_db s)"
  using assms
  unfolding finish_code_grant_def needs_lift needs_optional_read needs_optional_row
  by (auto dest!: issue_token_result split: if_splits)

text \<open>A client that must authenticate and does not gets nothing and changes nothing.\<close>

lemma unauthenticated_rejected:
  assumes "client_of h (sv_db s) (tq_client_id rq) app" "truthy (app_clientSecretHash app)"
    and "\<not> proves_client h rq app"
  shows "\<exists>e t. oauthToken h clk rnd rq s = (Inl e, t) \<and> sv_db t = sv_db s"
proof -
  have found: "bindE (on_db (find_client h (tq_client_id rq) (BadRequestE APP_NOT_FOUND))) k s = k app s"
    for k :: "sa_app \<Rightarrow> (srv, token_response) eff"
    using assms(1) by (simp add: find_client_known bindE_def)
  have auth: "authenticate_client h rq app \<noteq> Inr True"
    using assms(3) by (simp add: authenticate_client_True)
  obtain e t where reject: "bindE (liftR (\<lambda>_. authenticate_client h rq app))
      (\<lambda>ca. if truthy (app_clientSecretHash app) \<and> \<not> ca then reject_client else k ca) s = (Inl e, t) \<and>
      sv_db t = sv_db s" for k :: "bool \<Rightarrow> (srv, token_response) eff"
    using auth assms(2) by (cases "authenticate_client h rq app") fastforce+
  show ?thesis
  proof (cases "tq_grant rq")
    case (AuthorizationCode code uri v)
    show ?thesis
      using AuthorizationCode reject
      by (cases "assertRedirectUriAllowed h uri (app_url app) (app_redirect_uris (sv_db s) (app_id app))")
        (auto simp: oauthToken_def authorizationCodeGrant_def found thenE_def)
  next
    case (ClientCredentials scope)
    show ?thesis
      using ClientCredentials auth assms(2)
      by (cases "authenticate_client h rq app")
        (auto simp: oauthToken_def handleClientCredentials_def found)
  next
    case (RefreshTokenGrant p)
    show ?thesis
      using RefreshTokenGrant reject
      by (auto simp: oauthToken_def refreshTokenGrant_def found)
  qed
qed

section \<open>Direct login\<close>

lemma verify_pw_ok:
  "verify_pw h hash pw s = (Inr b, t) \<longleftrightarrow>
     h_verify_password h hash pw = Some b \<and> t = s\<lparr>sv_scrypts := Suc (sv_scrypts s)\<rparr>"
  by (auto simp: verify_pw_def split: option.splits)

lemma reject_after_dummy_not_ok [simp]: "reject_after_dummy h pw s \<noteq> (Inr x, t)"
  by (simp add: reject_after_dummy_def thenE_ok)

text \<open>The identifier names a user whose stored password is the one presented.\<close>

definition password_verified :: "host \<Rightarrow> db \<Rightarrow> login_request \<Rightarrow> sa_user \<Rightarrow> bool" where
  "password_verified h d rq u \<longleftrightarrow>
     login_user d (lq_identifier rq) = Some u \<and>
     (\<exists>b acc hash. user_by_id d (sau_betterAuthUserId u) = Some b \<and>
        credential_account d (usr_email b) = Some acc \<and> acc_password acc = Some hash \<and> hash \<noteq> [] \<and>
        h_verify_password h hash (lq_password rq) = Some True)"

definition org_matches :: "db \<Rightarrow> sa_user \<Rightarrow> sa_app \<Rightarrow> bool" where
  "org_matches d u app \<longleftrightarrow> (\<exists>r. org_by_id d (sau_orgId u) = Some r \<and> org_appId r = app_id app)"

definition enrolled :: "db \<Rightarrow> sa_user \<Rightarrow> bool" where
  "enrolled d u \<longleftrightarrow> (\<exists>b. user_by_id d (sau_betterAuthUserId u) = Some b \<and> usr_twoFactorEnabled b)"

definition totp_verified :: "host \<Rightarrow> int \<Rightarrow> db \<Rightarrow> login_request \<Rightarrow> sa_user \<Rightarrow> bool" where
  "totp_verified h now d rq u \<longleftrightarrow>
     (\<exists>c r. lq_totpCode rq = Some c \<and> c \<noteq> [] \<and>
        find (\<lambda>r. tf_userId r = sau_betterAuthUserId u) (twoFactors d) = Some r \<and>
        h_totp_verify h now (tf_secret r) c = Some True)"

lemma login_second_factor_ok:
  "login_second_factor h now rq app u s = (Inr amr, t) \<longleftrightarrow>
     t = s \<and>
     (if isTwoFactorRequired h app \<or> enrolled (sv_db s) u
      then enrolled (sv_db s) u \<and> totp_verified h now (sv_db s) rq u \<and> amr = [''pwd'', ''otp'', ''mfa'']
      else amr = [''pwd''])"
proof -
  have read: "login_second_factor h now rq app u s =
      (if isTwoFactorRequired h app \<or> enrolled (sv_db s) u then
         (if \<not> enrolled (sv_db s) u then raise (ForbiddenE TWO_FACTOR_REQUIRED)
          else if \<not> truthy (lq_totpCode rq) then raise (ForbiddenE TWO_FACTOR_REQUIRED)
          else bindE (verifyUserTotp h now (sau_betterAuthUserId u) (the (lq_totpCode rq)))
            (\<lambda>ok. if \<not> ok then raise (ForbiddenE TWO_FACTOR_REQUIRED)
                  else ret [''pwd'', ''otp'', ''mfa'']))
       else ret [''pwd'']) s"
    by (cases "user_by_id (sv_db s) (sau_betterAuthUserId u)")
      (simp_all add: login_second_factor_def bindE_def[of "readE _"] enrolled_def)
  have totp: "verifyUserTotp h now uid c s = (Inr b, t) \<longleftrightarrow>
      t = s \<and> (case find (\<lambda>r. tf_userId r = uid) (twoFactors (sv_db s)) of
                 None \<Rightarrow> \<not> b | Some r \<Rightarrow> h_totp_verify h now (tf_secret r) c = Some b)" for uid c b
    by (auto simp: verifyUserTotp_def split: option.splits)
  show ?thesis
  proof (cases "isTwoFactorRequired h app \<or> enrolled (sv_db s) u")
    case required: True
    show ?thesis
    proof (cases "enrolled (sv_db s) u \<and> truthy (lq_totpCode rq)")
      case True
      then obtain c where c: "lq_totpCode rq = Some c" "c \<noteq> []" by (auto simp: truthy_iff)
      have "login_second_factor h now rq app u s = (Inr amr, t) \<longleftrightarrow>
          verifyUserTotp h now (sau_betterAuthUserId u) c s = (Inr True, t) \<and>
          amr = [''pwd'', ''otp'', ''mfa'']"
        using True c required by (simp add: read bindE_ok[of "verifyUserTotp _ _ _ _"])
          (auto simp: totp split: if_splits)
      then show ?thesis
        using True c required by (auto simp: totp totp_verified_def split: option.splits)
    next
      case False
      then show ?thesis using required by (auto simp: read totp_verified_def truthy_iff)
    qed
  next
    case False
    then show ?thesis by (auto simp: read)
  qed
qed

lemma finish_login_ok:
  assumes "finish_login h clk rnd app u org amr s = (Inr resp, t)"
  shows "issueJwt h (clk 2)
       \<lparr>jp_saUserId = sau_id u, jp_userPublicId = sau_publicId u, jp_orgPublicId = org_publicId org,
        jp_appPublicId = app_publicId app, jp_appId = app_id app, jp_scope = [], jp_amr = amr,
        jp_idp = None\<rparr> (touch_last_login (clk 1) (sau_id u) (sv_db s)) = Inr (tp_access_token resp)"
    and "tp_refresh_token resp = Some (rnd 0)"
  using assms unfolding finish_login_def
  by (auto simp: thenE_ok bindE_ok on_db_ok dest!: issue_token_result)

lemma directLogin_ok:
  assumes "directLogin h clk rnd rq s = (Inr resp, t)"
  obtains app u org amr s1 where "client_of h (sv_db s) (lq_appId rq) app"
    "password_verified h (sv_db s) rq u" "org_by_id (sv_db s) (sau_orgId u) = Some org"
    "org_appId org = app_id app" "sau_status u = Active"
    "if isTwoFactorRequired h app \<or> enrolled (sv_db s) u
     then enrolled (sv_db s) u \<and> totp_verified h (clk 0) (sv_db s) rq u \<and> amr = [''pwd'', ''otp'', ''mfa'']
     else amr = [''pwd'']"
    "sv_db s1 = sv_db s" "finish_login h clk rnd app u org amr s1 = (Inr resp, t)"
proof -
  from assms obtain app where app: "client_of h (sv_db s) (lq_appId rq) app"
    and rest: "bindE (readE (\<lambda>s. login_user (sv_db s) (lq_identifier rq))) (\<lambda>found.
       case found of
         None \<Rightarrow> reject_after_dummy h (lq_password rq)
       | Some u \<Rightarrow>
           bindE (findE (\<lambda>s. org_by_id (sv_db s) (sau_orgId u)) (JsError ''Inconsistent query result''))
           (\<lambda>org.
           bindE (findE (\<lambda>s. user_by_id (sv_db s) (sau_betterAuthUserId u))
                    (JsError ''Inconsistent query result'')) (\<lambda>b.
           bindE (readE (\<lambda>s. credential_account (sv_db s) (usr_email b))) (\<lambda>account.
             if \<not> truthy (Option.bind account acc_password) then reject_after_dummy h (lq_password rq)
             else
               bindE (verify_pw h (the (Option.bind account acc_password)) (lq_password rq)) (\<lambda>valid.
                 if \<not> valid then raise (UnauthorizedE INVALID_CREDENTIALS)
                 else if org_appId org \<noteq> app_id app then raise (UnauthorizedE INVALID_CREDENTIALS)
                 else if sau_status u \<noteq> Active then raise (UnauthorizedE INVALID_CREDENTIALS)
                 else
                   bindE (login_second_factor h (clk 0) rq app u) (\<lambda>amr.
                     finish_login h clk rnd app u org amr)))))) s = (Inr resp, t)"
    unfolding directLogin_def needs_client by blast
  from rest obtain u where u: "login_user (sv_db s) (lq_identifier rq) = Some u"
    by (cases "login_user (sv_db s) (lq_identifier rq)") (simp_all add: bindE_def[of "readE _"])
  from rest u obtain org b account where org: "org_by_id (sv_db s) (sau_orgId u) = Some org"
    and b: "user_by_id (sv_db s) (sau_betterAuthUserId u) = Some b"
    and account: "account = credential_account (sv_db s) (usr_email b)"
    and rest2: "(if \<not> truthy (Option.bind account acc_password) then reject_after_dummy h (lq_password rq)
             else
               bindE (verify_pw h (the (Option.bind account acc_password)) (lq_password rq)) (\<lambda>valid.
                 if \<not> valid then raise (UnauthorizedE INVALID_CREDENTIALS)
                 else if org_appId org \<noteq> app_id app then raise (UnauthorizedE INVALID_CREDENTIALS)
                 else if sau_status u \<noteq> Active then raise (UnauthorizedE INVALID_CREDENTIALS)
                 else
                   bindE (login_second_factor h (clk 0) rq app u) (\<lambda>amr.
                     finish_login h clk rnd app u org amr))) s = (Inr resp, t)"
    by (auto simp: bindE_ok[of "readE _"] needs_found)
  from rest2 obtain acc hash where acc: "account = Some acc" "acc_password acc = Some hash" "hash \<noteq> []"
    by (cases account) (auto simp: truthy_iff split: if_splits)
  with rest2 obtain s1 where s1: "h_verify_password h hash (lq_password rq) = Some True"
      "s1 = s\<lparr>sv_scrypts := Suc (sv_scrypts s)\<rparr>" "org_appId org = app_id app" "sau_status u = Active"
      "bindE (login_second_factor h (clk 0) rq app u) (\<lambda>amr. finish_login h clk rnd app u org amr) s1
         = (Inr resp, t)"
    by (auto simp: bindE_ok[of "verify_pw _ _ _"] verify_pw_ok split: if_splits)
  then obtain amr where amr: "login_second_factor h (clk 0) rq app u s1 = (Inr amr, s1)"
      "finish_login h clk rnd app u org amr s1 = (Inr resp, t)"
    by (auto simp: bindE_ok login_second_factor_ok)
  have "password_verified h (sv_db s) rq u"
    using u b account[symmetric] acc s1(1) by (auto simp: password_verified_def)
  moreover have "sv_db s1 = sv_db s" using s1(2) by simp
  moreover from this have "if isTwoFactorRequired h app \<or> enrolled (sv_db s) u
     then enrolled (sv_db s) u \<and> totp_verified h (clk 0) (sv_db s) rq u \<and> amr = [''pwd'', ''otp'', ''mfa'']
     else amr = [''pwd'']"
    using amr(1) unfolding login_second_factor_ok by (metis (full_types))
  ultimately show thesis using that app org s1(3,4) amr(2) by blast
qed

text \<open>
  Short of a verified password for an active user of the app, every outcome is the same exception
  after exactly one scrypt computation and no write.
\<close>

lemma directLogin_opaque:
  assumes client: "client_of h (sv_db s) (lq_appId rq) app"
    and fks: "fks_ok (sv_db s)"
    and scrypt: "\<And>hash. h_verify_password h hash (lq_password rq) \<noteq> None"
    and bad: "\<And>u. password_verified h (sv_db s) rq u \<Longrightarrow>
       \<not> org_matches (sv_db s) u app \<or> sau_status u \<noteq> Active"
  shows "directLogin h clk rnd rq s =
     (Inl (UnauthorizedE INVALID_CREDENTIALS), s\<lparr>sv_scrypts := Suc (sv_scrypts s)\<rparr>)"
proof -
  have dummy: "reject_after_dummy h (lq_password rq) s =
      ((Inl (UnauthorizedE INVALID_CREDENTIALS), s\<lparr>sv_scrypts := Suc (sv_scrypts s)\<rparr>) ::
        (err + token_response) \<times> srv)"
    using scrypt[of "h_dummy_hash h"]
    by (auto simp: reject_after_dummy_def thenE_def bindE_def verify_pw_def split: option.splits)
  have found: "on_db (find_client h (lq_appId rq) (NotFoundE APP_NOT_FOUND)) s = (Inr app, s)"
    using client by (simp add: find_client_known)
  show ?thesis
  proof (cases "login_user (sv_db s) (lq_identifier rq)")
    case None
    with dummy found show ?thesis by (simp add: directLogin_def)
  next
    case (Some u)
    have "u \<in> set (saUsers (sv_db s))"
      using Some by (auto simp: login_user_def split: identifier_type.splits dest!: find_Some_iff)
    then obtain b org where b: "user_by_id (sv_db s) (sau_betterAuthUserId u) = Some b"
      and org: "org_by_id (sv_db s) (sau_orgId u) = Some org"
      using user_relations[OF fks] by blast
    define pw where "pw = Option.bind (credential_account (sv_db s) (usr_email b)) acc_password"
    have step: "directLogin h clk rnd rq s =
       (if \<not> truthy pw then reject_after_dummy h (lq_password rq) s
        else bindE (verify_pw h (the pw) (lq_password rq)) (\<lambda>valid.
                 if \<not> valid then raise (UnauthorizedE INVALID_CREDENTIALS)
                 else if org_appId org \<noteq> app_id app then raise (UnauthorizedE INVALID_CREDENTIALS)
                 else if sau_status u \<noteq> Active then raise (UnauthorizedE INVALID_CREDENTIALS)
                 else
                   bindE (login_second_factor h (clk 0) rq app u) (\<lambda>amr.
                     finish_login h clk rnd app u org amr)) s)"
      using found Some b org by (simp add: directLogin_def findE_def pw_def)
    show ?thesis
    proof (cases "truthy pw")
      case False
      with step dummy show ?thesis by simp
    next
      case True
      then obtain acc hash where acc: "credential_account (sv_db s) (usr_email b) = Some acc"
          "acc_password acc = Some hash" "hash \<noteq> []" "pw = Some hash"
        unfolding pw_def truthy_iff by (auto simp: bind_eq_Some_conv)
      obtain valid where valid: "h_verify_password h hash (lq_password rq) = Some valid"
        using scrypt[of hash] by auto
      have "valid \<Longrightarrow> org_appId org \<noteq> app_id app \<or> sau_status u \<noteq> Active"
        using bad[of u] Some b org acc valid by (auto simp: password_verified_def org_matches_def)
      then show ?thesis
        using step True acc(4) valid by (auto simp: verify_pw_def bindE_def)
    qed
  qed
qed

section \<open>Properties\<close>

text \<open>C6 The authorization-code grant yields tokens only for a code stored in the database that was
  issued to this client and this redirect URI, is unexpired and whose PKCE challenge (if any) the
  verifier answers; a confidential client has proved its secret, and so has the redeemer of a code
  without challenge; the user of the code is active (a signup code: not inactive). The token carries
  the code's user, app, scope and methods; the code is gone afterwards; an id token is returned
  exactly for \<open>openid\<close> and a refresh token exactly for \<open>offline_access\<close>.\<close>

theorem code_grant_is_safe:
  assumes "tq_grant rq = AuthorizationCode code uri v" "oauthToken h clk rnd rq s = (Inr resp, t)"
  shows "\<exists>app row u org ps rs. client_of h (sv_db s) (tq_client_id rq) app \<and>
     code_row (sv_db s) code = Some row \<and> redeemable h (clk 0) row (tq_client_id rq) uri v \<and>
     assertRedirectUriAllowed h uri (app_url app) (app_redirect_uris (sv_db s) (app_id app)) = Inr () \<and>
     (truthy (app_clientSecretHash app) \<or> oc_codeChallenge row = None \<longrightarrow> proves_client h rq app) \<and>
     sau_by_publicId (sv_db s) (oc_userId row) = Some u \<and>
     org_by_id (sv_db s) (sau_orgId u) = Some org \<and>
     sau_status u \<noteq> Inactive \<and> (''signup'' \<notin> set (safeParseAmr (oc_amr row)) \<longrightarrow> sau_status u = Active) \<and>
     tp_access_token resp = h_jwt_sign h (access_claims h (clk 1) ps rs
       \<lparr>jp_saUserId = sau_id u, jp_userPublicId = sau_publicId u, jp_orgPublicId = org_publicId org,
        jp_appPublicId = oc_appPublicId row, jp_appId = app_id app, jp_scope = oc_scope row,
        jp_amr = safeParseAmr (oc_amr row), jp_idp = oc_idp row\<rparr>) \<and>
     tp_scope resp = Some (oc_scope row) \<and> code_row (sv_db t) code = None \<and>
     (tp_id_token resp \<noteq> None \<longleftrightarrow> ''openid'' \<in> set (split_ws (oc_scope row))) \<and>
     (tp_refresh_token resp \<noteq> None \<longleftrightarrow> ''offline_access'' \<in> set (split_ws (oc_scope row)))"
proof -
  have "authorizationCodeGrant h clk rnd rq code uri v s = (Inr resp, t)"
    using assms by (simp add: oauthToken_def)
  then obtain app a x d' u org where app: "client_of h (sv_db s) (tq_client_id rq) app"
      "assertRedirectUriAllowed h uri (app_url app) (app_redirect_uris (sv_db s) (app_id app)) = Inr ()"
    and a: "authenticate_client h rq app = Inr a" "truthy (app_clientSecretHash app) \<longrightarrow> a"
    and x: "exchangeCode h (clk 0) code (tq_client_id rq) uri v (sv_db s) = (Inr x, d')"
    and had: "ex_hadChallenge x \<or> a"
    and u: "sau_by_publicId d' (ex_userId x) = Some u" "org_by_id d' (sau_orgId u) = Some org"
      "\<not> code_user_refused (ex_amr x) (sau_status u)"
    and fin: "finish_code_grant h clk rnd app x u org (s\<lparr>sv_db := d'\<rparr>) = (Inr resp, t)"
    unfolding authorizationCodeGrant_ok by blast
  from x obtain row where row: "code_row (sv_db s) code = Some row"
      "redeemable h (clk 0) row (tq_client_id rq) uri v" "d' = without_code (sv_db s) code"
    and xe: "ex_userId x = oc_userId row" "ex_amr x = safeParseAmr (oc_amr row)" "ex_scope x = oc_scope row"
      "ex_appPublicId x = oc_appPublicId row" "ex_idp x = oc_idp row"
      "ex_hadChallenge x \<longleftrightarrow> oc_codeChallenge row \<noteq> None"
    unfolding exchangeCode_ok by auto
  note fin = finish_code_grant_ok[OF fin, unfolded xe]
  from fin(1) obtain ps rs where "tp_access_token resp = h_jwt_sign h (access_claims h (clk 1) ps rs
       \<lparr>jp_saUserId = sau_id u, jp_userPublicId = sau_publicId u, jp_orgPublicId = org_publicId org,
        jp_appPublicId = oc_appPublicId row, jp_appId = app_id app, jp_scope = oc_scope row,
        jp_amr = safeParseAmr (oc_amr row), jp_idp = oc_idp row\<rparr>)"
    unfolding issueJwt_ok by blast
  moreover have "truthy (app_clientSecretHash app) \<or> oc_codeChallenge row = None \<longrightarrow> proves_client h rq app"
    using a had xe(6) authenticate_client_True[of h rq app] by (cases a) auto
  moreover have "sau_by_publicId (sv_db s) (oc_userId row) = Some u"
    using u(1) unfolding row(3) xe(1) by (simp add: sau_by_publicId_def without_code_def)
  moreover have "org_by_id (sv_db s) (sau_orgId u) = Some org"
    using u(2) unfolding row(3) by (simp add: org_by_id_def without_code_def)
  moreover have "code_row (sv_db t) code = None"
    using fin(5) code_row_without(1)[of "sv_db s" code] by (simp add: code_row_def row(3))
  moreover have "sau_status u \<noteq> Inactive"
    "''signup'' \<notin> set (safeParseAmr (oc_amr row)) \<longrightarrow> sau_status u = Active"
    using u(3) xe(2) by (auto simp: code_user_refused_def split: if_splits)
  ultimately show ?thesis
    using app row(1,2) fin(2-4)
    by - (rule exI[of _ app], rule exI[of _ row], rule exI[of _ u], rule exI[of _ org], rule exI[of _ ps],
        rule exI[of _ rs], intro conjI; (assumption | blast))
qed

definition code_request :: token_request where
  "code_request = \<lparr>tq_client_id = ''xx'', tq_client_secret = None, tq_authorization = None,
     tq_grant = AuthorizationCode ''k'' ''https://c'' (Some ''ver'')\<rparr>"

definition code_srv :: srv where
  "code_srv = \<lparr>sv_db = example_db\<lparr>saOauthCodes := [example_code]\<rparr>, sv_headers = [], sv_scrypts = 0\<rparr>"

lemma code_request_succeeds:
  "\<exists>resp t. oauthToken example_host (\<lambda>_. 50) (\<lambda>_. ''r'') code_request code_srv = (Inr resp, t)"
proof -
  let ?h = example_host and ?d = "without_code (example_db\<lparr>saOauthCodes := [example_code]\<rparr>) ''k''"
  let ?x = "\<lparr>ex_userId = ''xxx'', ex_appPublicId = ''xx'', ex_amr = [''pwd''], ex_nonce = None,
      ex_scope = ''openid'', ex_authTime = 0, ex_hadChallenge = True, ex_idp = None\<rparr>"
  let ?u = "example_sa_user 3 ''b3'' 2"
  let ?org = "\<lparr>org_id = 2, org_publicId = ''xx'', org_name = ''C'', org_appId = 2, org_isPlatform = False\<rparr>"
  have client: "client_of ?h (sv_db code_srv) (tq_client_id code_request) customer_app"
    by (simp add: client_of_def code_srv_def code_request_def example_defs app_by_id_def)
  have allowed: "assertRedirectUriAllowed ?h ''https://c'' (app_url customer_app)
      (app_redirect_uris (sv_db code_srv) (app_id customer_app)) = Inr ()"
    by (simp add: assertRedirectUriAllowed_def registered_def app_redirect_uris_def code_srv_def example_defs)
  have auth: "authenticate_client ?h code_request customer_app = Inr False"
    by (simp add: authenticate_client_def extractClientSecret_def split_authorization_def code_request_def
        to_lower_def verifyClientSecret_def)
  have exch: "exchangeCode ?h 50 ''k'' ''xx'' ''https://c'' (Some ''ver'') (sv_db code_srv) = (Inr ?x, ?d)"
    by (simp add: exchangeCode_ok code_row_def redeemable_def code_srv_def example_code_def example_host_def
        s256_def base64UrlEncode_def)
  have u: "sau_by_publicId ?d ''xxx'' = Some ?u" "org_by_id ?d 2 = Some ?org" "sau_by_id ?d 3 = Some ?u"
    by (simp_all add: sau_by_publicId_def org_by_id_def sau_by_id_def without_code_def example_db_def
        empty_db_def example_sa_user_def)
  have scopes: "''openid'' \<in> set (split_ws ''openid'')" "''offline_access'' \<notin> set (split_ws ''openid'')"
    "js_words ''openid'' = [''openid'']"
    by (simp_all add: js_words_def is_ws_def char_code_def)
  have claims: "buildScopedClaims ?d 3 ''openid'' = Inr no_scoped_claims"
    by (simp add: buildScopedClaims_def scopes)
  have "\<exists>resp t. finish_code_grant ?h (\<lambda>_. 50) (\<lambda>_. ''r'') customer_app ?x ?u ?org (code_srv\<lparr>sv_db := ?d\<rparr>) =
      (Inr resp, t)"
    by (simp add: finish_code_grant_def bindE_def issueJwt_def resolvePermissions_def resolveRoles_def u scopes
        issueIdToken_def claims example_sa_user_def)
  then obtain resp t where fin: "finish_code_grant ?h (\<lambda>_. 50) (\<lambda>_. ''r'') customer_app ?x ?u ?org
      (code_srv\<lparr>sv_db := ?d\<rparr>) = (Inr resp, t)" by blast
  have "authorizationCodeGrant ?h (\<lambda>_. 50) (\<lambda>_. ''r'') code_request ''k'' ''https://c'' (Some ''ver'') code_srv =
      (Inr resp, t)"
    unfolding authorizationCodeGrant_ok
    by (rule exI[of _ customer_app], rule exI[of _ False], rule exI[of _ ?x], rule exI[of _ ?d],
        rule exI[of _ ?u], rule exI[of _ ?org])
      (use client allowed auth exch u fin in \<open>simp add: code_request_def code_user_refused_def
        example_sa_user_def customer_app_def platform_app_def\<close>)
  then show ?thesis by (auto simp: oauthToken_def code_request_def)
qed

lemma code_grant_is_safe_witness:
  "\<exists>row. code_row (sv_db code_srv) ''k'' = Some row \<and> redeemable example_host 50 row ''xx'' ''https://c'' (Some ''ver'')"
proof -
  obtain resp t where "oauthToken example_host (\<lambda>_. 50) (\<lambda>_. ''r'') code_request code_srv = (Inr resp, t)"
    using code_request_succeeds by blast
  moreover have "tq_grant code_request = AuthorizationCode ''k'' ''https://c'' (Some ''ver'')"
    by (simp add: code_request_def)
  ultimately have "\<exists>app row u org ps rs. client_of example_host (sv_db code_srv) (tq_client_id code_request) app \<and>
     code_row (sv_db code_srv) ''k'' = Some row \<and>
     redeemable example_host 50 row (tq_client_id code_request) ''https://c'' (Some ''ver'')"
    using code_grant_is_safe[of code_request "''k''" "''https://c''" "Some ''ver''" example_host "\<lambda>_. 50"
        "\<lambda>_. ''r''" code_srv resp t] by blast
  then show ?thesis by (auto simp: code_request_def)
qed

text \<open>Client authentication holds for every grant: if the app named by a token request has a client
  secret and the request does not prove it, the request fails and the database is unchanged: no
  code is consumed, no refresh token rotated or revoked.\<close>

theorem confidential_client_must_authenticate:
  assumes "client_of h (sv_db s) (tq_client_id rq) app" "truthy (app_clientSecretHash app)"
    and "\<not> proves_client h rq app"
  shows "\<exists>e t. oauthToken h clk rnd rq s = (Inl e, t) \<and> sv_db t = sv_db s"
  using assms by (rule unauthenticated_rejected)

lemma confidential_client_must_authenticate_witness:
  "\<exists>e t. oauthToken example_host (\<lambda>_. 50) (\<lambda>_. ''r'') (code_request\<lparr>tq_client_secret := Some ''guess''\<rparr>)
       (code_srv\<lparr>sv_db := (sv_db code_srv)\<lparr>saApps := [customer_app\<lparr>app_clientSecretHash := Some ''hpw''\<rparr>]\<rparr>\<rparr>) =
     (Inl e, t) \<and>
     sv_db t = (sv_db code_srv)\<lparr>saApps := [customer_app\<lparr>app_clientSecretHash := Some ''hpw''\<rparr>]\<rparr>"
proof -
  let ?s = "code_srv\<lparr>sv_db := (sv_db code_srv)\<lparr>saApps := [customer_app\<lparr>app_clientSecretHash := Some ''hpw''\<rparr>]\<rparr>\<rparr>"
  have "client_of example_host (sv_db ?s) (tq_client_id (code_request\<lparr>tq_client_secret := Some ''guess''\<rparr>))
      (customer_app\<lparr>app_clientSecretHash := Some ''hpw''\<rparr>)"
    by (simp add: client_of_def code_request_def example_defs app_by_id_def)
  moreover have "\<not> proves_client example_host (code_request\<lparr>tq_client_secret := Some ''guess''\<rparr>)
      (customer_app\<lparr>app_clientSecretHash := Some ''hpw''\<rparr>)"
    by (simp add: proves_client_def extractClientSecret_def split_authorization_def code_request_def
        to_lower_def example_host_def)
  ultimately show ?thesis
    using confidential_client_must_authenticate[of example_host ?s] by simp
qed

text \<open>C7 A refresh succeeds only with a live, unexpired token of the requesting client, whose user is
  still active, and a confidential client has proved its secret. The tokens returned carry exactly
  the scope, user, app and methods of that family, and the token is rotated.\<close>

theorem refresh_grant_is_safe:
  assumes "tq_grant rq = RefreshTokenGrant p" "oauthToken h clk rnd rq s = (Inr resp, t)"
  shows "\<exists>app old u ps rs. client_of h (sv_db s) (tq_client_id rq) app \<and>
     (truthy (app_clientSecretHash app) \<longrightarrow> proves_client h rq app) \<and>
     token_row (sv_db s) (hashToken h p) = Some old \<and> rotatable (clk 0) (tq_client_id rq) old \<and>
     sau_by_publicId (sv_db s) (rt_userPublicId old) = Some u \<and> sau_status u = Active \<and>
     tp_access_token resp = h_jwt_sign h (access_claims h (clk 1) ps rs
       \<lparr>jp_saUserId = rt_saUserId old, jp_userPublicId = rt_userPublicId old,
        jp_orgPublicId = rt_orgPublicId old, jp_appPublicId = rt_appPublicId old, jp_appId = rt_appId old,
        jp_scope = rt_scope old, jp_amr = safeParseAmr (rt_amr old), jp_idp = rt_idp old\<rparr>) \<and>
     tp_scope resp = Some (rt_scope old) \<and> tp_refresh_token resp = Some (rnd 0) \<and>
     sv_db t = rotated_db (sv_db s) old (hashToken h (rnd 0)) (clk 0)"
proof -
  have "refreshTokenGrant h clk rnd rq p s = (Inr resp, t)" using assms by (simp add: oauthToken_def)
  then obtain app a d' rotated u where app: "client_of h (sv_db s) (tq_client_id rq) app"
    and a: "authenticate_client h rq app = Inr a" "truthy (app_clientSecretHash app) \<longrightarrow> a"
    and rot: "rotate h (clk 0) (rnd 0) p (tq_client_id rq) (sv_db s) = (Inr rotated, d')"
    and u: "sau_by_publicId d' (rot_userPublicId rotated) = Some u" "sau_status u = Active"
    and mint: "mint_refreshed h clk rotated (s\<lparr>sv_db := d'\<rparr>) = (Inr resp, t)"
    unfolding refreshTokenGrant_ok by blast
  from rot obtain old where old: "token_row (sv_db s) (hashToken h p) = Some old"
      "rotatable (clk 0) (tq_client_id rq) old" "d' = rotated_db (sv_db s) old (hashToken h (rnd 0)) (clk 0)"
    and r: "rot_token rotated = rnd 0" "rot_saUserId rotated = rt_saUserId old"
      "rot_userPublicId rotated = rt_userPublicId old" "rot_orgPublicId rotated = rt_orgPublicId old"
      "rot_appId rotated = rt_appId old" "rot_appPublicId rotated = rt_appPublicId old"
      "rot_scope rotated = rt_scope old" "rot_amr rotated = safeParseAmr (rt_amr old)"
      "rot_idp rotated = rt_idp old"
    by (cases rule: rotate_cases) auto
  note mint = mint_refreshed_ok[OF mint, unfolded r]
  from mint(5) obtain ps rs where "tp_access_token resp = h_jwt_sign h (access_claims h (clk 1) ps rs
       \<lparr>jp_saUserId = rt_saUserId old, jp_userPublicId = rt_userPublicId old,
        jp_orgPublicId = rt_orgPublicId old, jp_appPublicId = rt_appPublicId old, jp_appId = rt_appId old,
        jp_scope = rt_scope old, jp_amr = safeParseAmr (rt_amr old), jp_idp = rt_idp old\<rparr>)"
    unfolding issueJwt_ok by blast
  moreover have "truthy (app_clientSecretHash app) \<longrightarrow> proves_client h rq app"
    using a authenticate_client_True[of h rq app] by (cases a) auto
  moreover have "sau_by_publicId (sv_db s) (rt_userPublicId old) = Some u"
    using u(1) unfolding old(3) r(3) by (simp add: sau_by_publicId_def rotated_db_def)
  moreover have "sv_db t = rotated_db (sv_db s) old (hashToken h (rnd 0)) (clk 0)"
    using mint(1) old(3) by simp
  ultimately show ?thesis
    using app old(1,2) u(2) mint(2,3)
    by - (rule exI[of _ app], rule exI[of _ old], rule exI[of _ u], rule exI[of _ ps], rule exI[of _ rs],
        intro conjI; (assumption | blast))
qed

definition refresh_request :: token_request where
  "refresh_request = \<lparr>tq_client_id = ''xx'', tq_client_secret = None, tq_authorization = None,
     tq_grant = RefreshTokenGrant ''t0''\<rparr>"

definition refresh_srv :: srv where
  "refresh_srv = \<lparr>sv_db = example_token_db, sv_headers = [], sv_scrypts = 0\<rparr>"

lemma refresh_request_succeeds:
  "\<exists>resp t. oauthToken example_host (\<lambda>_. 5) (\<lambda>_. ''t1'') refresh_request refresh_srv = (Inr resp, t)"
proof -
  let ?row = "issue_row example_host ''t0'' ''f'' 0 example_params"
  let ?d = "rotated_db example_token_db ?row (hashToken example_host ''t1'') 5"
  let ?x = "\<lparr>rot_token = ''t1'', rot_saUserId = 3, rot_userPublicId = ''xxx'', rot_orgPublicId = ''xx'',
           rot_appId = 2, rot_appPublicId = ''xx'', rot_scope = ''openid offline_access'',
           rot_amr = [''pwd''], rot_idp = None, rot_authTime = 0\<rparr>"
  let ?u = "example_sa_user 3 ''b3'' 2"
  have client: "client_of example_host (sv_db refresh_srv) (tq_client_id refresh_request) customer_app"
    by (simp add: client_of_def refresh_srv_def refresh_request_def example_token_db_def example_defs app_by_id_def)
  have auth: "authenticate_client example_host refresh_request customer_app = Inr False"
    by (simp add: authenticate_client_def extractClientSecret_def split_authorization_def refresh_request_def
        to_lower_def verifyClientSecret_def)
  have public: "\<not> truthy (app_clientSecretHash customer_app)"
    by (simp add: customer_app_def platform_app_def)
  have u: "sau_by_publicId ?d ''xxx'' = Some ?u" "sau_by_id ?d 3 = Some ?u" "sau_status ?u = Active"
    by (simp_all add: sau_by_publicId_def sau_by_id_def rotated_db_def example_token_db_def example_db_def
        empty_db_def example_sa_user_def)
  have claims: "buildScopedClaims ?d 3 ''openid offline_access'' = Inr no_scoped_claims"
    by (simp add: buildScopedClaims_def js_words_def is_ws_def char_code_def)
  have "\<exists>resp t. mint_refreshed example_host (\<lambda>_. 5) ?x (refresh_srv\<lparr>sv_db := ?d\<rparr>) = (Inr resp, t)"
    using u(1) by (simp add: mint_refreshed_def bindE_def issueJwt_def resolvePermissions_def resolveRoles_def
        u(2) issueIdToken_def claims del: split_ws.simps)
  then obtain resp t where mint: "mint_refreshed example_host (\<lambda>_. 5) ?x (refresh_srv\<lparr>sv_db := ?d\<rparr>) = (Inr resp, t)"
    by blast
  have rot: "rotate example_host 5 ''t1'' ''t0'' (tq_client_id refresh_request) (sv_db refresh_srv) = (Inr ?x, ?d)"
    using example_rotation by (simp add: refresh_request_def refresh_srv_def)
  have "refreshTokenGrant example_host (\<lambda>_. 5) (\<lambda>_. ''t1'') refresh_request ''t0'' refresh_srv = (Inr resp, t)"
    unfolding refreshTokenGrant_ok
    by (rule exI[of _ customer_app], rule exI[of _ False], rule exI[of _ ?d], rule exI[of _ ?x], rule exI[of _ ?u],
        intro conjI client auth rot mint)
      (simp_all add: public u)
  then show ?thesis by (auto simp: oauthToken_def refresh_request_def)
qed

lemma refresh_grant_is_safe_witness:
  "\<exists>old. token_row example_token_db (hashToken example_host ''t0'') = Some old \<and> rotatable 5 ''xx'' old"
proof -
  obtain resp t where "oauthToken example_host (\<lambda>_. 5) (\<lambda>_. ''t1'') refresh_request refresh_srv = (Inr resp, t)"
    using refresh_request_succeeds by blast
  moreover have "tq_grant refresh_request = RefreshTokenGrant ''t0''" by (simp add: refresh_request_def)
  ultimately have "\<exists>old. token_row (sv_db refresh_srv) (hashToken example_host ''t0'') = Some old \<and>
      rotatable 5 (tq_client_id refresh_request) old"
    using refresh_grant_is_safe[of refresh_request "''t0''" example_host "\<lambda>_. 5" "\<lambda>_. ''t1''" refresh_srv resp t]
    by blast
  then show ?thesis by (simp add: refresh_srv_def refresh_request_def)
qed

text \<open>A service token is minted only for an app with a client secret that the request proves; it
  never touches the database, lives 300 seconds, and its scope is \<open>roles:write\<close> only if that was
  requested and the app may manage its own roles, and empty otherwise.\<close>

theorem client_credentials_gated:
  assumes "tq_grant rq = ClientCredentials scope" "oauthToken h clk rnd rq s = (Inr resp, t)"
  shows "t = s \<and> tp_refresh_token resp = None \<and> tp_id_token resp = None \<and> tp_expires_in resp = 300 \<and>
     (\<exists>app. client_of h (sv_db s) (tq_client_id rq) app \<and> proves_client h rq app \<and>
        tp_access_token resp = h_jwt_sign h (service_claims h (clk 0) (app_publicId app) (the (tp_scope resp))) \<and>
        tp_scope resp =
          Some (if app_canManageOwnRoles app \<and> scope \<noteq> None \<and> ''roles:write'' \<in> set (js_words (the scope))
                then ''roles:write'' else []))"
proof -
  have "handleClientCredentials h clk rq scope s = (Inr resp, t)" using assms by (simp add: oauthToken_def)
  then obtain app where app: "t = s" "client_of h (sv_db s) (tq_client_id rq) app" "proves_client h rq app"
      "resp = service_response h (clk 0) app scope"
    unfolding handleClientCredentials_ok by blast
  have "parseServiceScopes scope =
      (if scope \<noteq> None \<and> ''roles:write'' \<in> set (js_words (the scope)) then [''roles:write''] else [])"
    by (cases scope) (auto simp: parseServiceScopes_def SUPPORTED_SERVICE_SCOPES_def mem_js_words)
  then have "js_join '' '' (if app_canManageOwnRoles app then parseServiceScopes scope else []) =
      (if app_canManageOwnRoles app \<and> scope \<noteq> None \<and> ''roles:write'' \<in> set (js_words (the scope))
       then ''roles:write'' else [])"
    by simp
  with app show ?thesis unfolding service_response_def Let_def by auto
qed

definition service_request :: token_request where
  "service_request = \<lparr>tq_client_id = ''xx'', tq_client_secret = Some ''pw'', tq_authorization = None,
     tq_grant = ClientCredentials (Some ''roles:write'')\<rparr>"

definition service_srv :: srv where
  "service_srv = \<lparr>sv_db = example_db\<lparr>saApps := [customer_app\<lparr>app_clientSecretHash := Some ''hpw''\<rparr>]\<rparr>,
     sv_headers = [], sv_scrypts = 0\<rparr>"

lemma client_credentials_gated_witness:
  "\<exists>resp t. oauthToken example_host (\<lambda>_. 5) (\<lambda>_. ''r'') service_request service_srv = (Inr resp, t) \<and>
     tp_scope resp = Some [] \<and> t = service_srv"
proof -
  let ?app = "customer_app\<lparr>app_clientSecretHash := Some ''hpw''\<rparr>"
  have app: "client_of example_host (sv_db service_srv) (tq_client_id service_request) ?app"
    by (simp add: client_of_def service_srv_def service_request_def example_defs app_by_id_def)
  have proves: "proves_client example_host service_request ?app"
    by (simp add: proves_client_def extractClientSecret_def split_authorization_def service_request_def
        to_lower_def example_host_def)
  have run: "oauthToken example_host (\<lambda>_. 5) (\<lambda>_. ''r'') service_request service_srv =
      (Inr (service_response example_host 5 ?app (Some ''roles:write'')), service_srv)"
    using app proves handleClientCredentials_ok[of example_host "\<lambda>_. 5" service_request "Some ''roles:write''" service_srv]
    by (auto simp: oauthToken_def service_request_def)
  from client_credentials_gated[OF _ this, of "Some ''roles:write''"] run app show ?thesis
    by (auto simp: service_request_def client_of_def service_srv_def example_defs app_by_id_def)
qed

text \<open>C9 Direct login succeeds only for an existing app, with the stored password of the user the
  identifier names, for an active user whose organisation belongs to that app; when the app requires
  two factors or the user has enrolled, only with a valid one-time code of an enrolled user. The
  access token then carries exactly the methods verified, and a refresh token is issued.\<close>

theorem direct_login_is_safe:
  assumes "directLogin h clk rnd rq s = (Inr resp, t)"
  shows "\<exists>app u org ps rs amr. client_of h (sv_db s) (lq_appId rq) app \<and> password_verified h (sv_db s) rq u \<and>
     sau_status u = Active \<and> org_by_id (sv_db s) (sau_orgId u) = Some org \<and> org_appId org = app_id app \<and>
     (if isTwoFactorRequired h app \<or> enrolled (sv_db s) u
      then enrolled (sv_db s) u \<and> totp_verified h (clk 0) (sv_db s) rq u \<and> amr = [''pwd'', ''otp'', ''mfa'']
      else amr = [''pwd'']) \<and>
     tp_access_token resp = h_jwt_sign h (access_claims h (clk 2) ps rs
       \<lparr>jp_saUserId = sau_id u, jp_userPublicId = sau_publicId u, jp_orgPublicId = org_publicId org,
        jp_appPublicId = app_publicId app, jp_appId = app_id app, jp_scope = [], jp_amr = amr, jp_idp = None\<rparr>) \<and>
     tp_refresh_token resp = Some (rnd 0)"
  using assms
proof (cases rule: directLogin_ok)
  case (1 app u org amr s1)
  from finish_login_ok(1)[OF 1(8)] obtain ps rs where "tp_access_token resp = h_jwt_sign h (access_claims h (clk 2) ps rs
       \<lparr>jp_saUserId = sau_id u, jp_userPublicId = sau_publicId u, jp_orgPublicId = org_publicId org,
        jp_appPublicId = app_publicId app, jp_appId = app_id app, jp_scope = [], jp_amr = amr, jp_idp = None\<rparr>)"
    unfolding issueJwt_ok by blast
  with 1(1-6) finish_login_ok(2)[OF 1(8)] show ?thesis
    by - (rule exI[of _ app], rule exI[of _ u], rule exI[of _ org], rule exI[of _ ps], rule exI[of _ rs],
        rule exI[of _ amr], intro conjI; assumption)
qed


definition example_login :: "string \<Rightarrow> string \<Rightarrow> login_request" where
  "example_login i p = \<lparr>lq_identifier = i, lq_password = p, lq_appId = ''xx'', lq_totpCode = None\<rparr>"

definition login_srv :: srv where
  "login_srv = \<lparr>sv_db = example_db, sv_headers = [], sv_scrypts = 0\<rparr>"

lemma login_client: "client_of example_host (sv_db login_srv) (lq_appId (example_login i p)) customer_app"
  by (simp add: client_of_def login_srv_def example_login_def example_defs app_by_id_def)


lemma login_request_succeeds:
  "\<exists>resp t. directLogin example_host (\<lambda>_. 5) (\<lambda>_. ''r'') (example_login ''user@c'' ''pw'') login_srv = (Inr resp, t)"
proof -
  let ?u = "example_sa_user 3 ''b3'' 2" and ?b = "example_user_row ''b3'' ''user@c''"
  let ?org = "\<lparr>org_id = 2, org_publicId = ''xx'', org_name = ''C'', org_appId = 2, org_isPlatform = False\<rparr>"
  let ?acc = "\<lparr>acc_id = ''a3'', acc_accountId = ''b3'', acc_providerId = ''credential'',
                acc_userId = ''b3'', acc_password = Some ''hpw''\<rparr>"
  have found: "on_db (find_client example_host (lq_appId (example_login ''user@c'' ''pw'')) (NotFoundE APP_NOT_FOUND)) login_srv =
      (Inr customer_app, login_srv)"
    using login_client by (simp add: find_client_known)
  have user: "login_user example_db ''user@c'' = Some ?u"
    by (simp add: login_user_def detectIdentifierType_def user_email_is_def user_by_id_def example_db_def
        empty_db_def example_user_row_def example_sa_user_def)
  have org: "org_by_id example_db (sau_orgId ?u) = Some ?org"
    and b: "user_by_id d (sau_betterAuthUserId ?u) = Some ?b" if "users d = users example_db" for d
    using that by (simp_all add: org_by_id_def user_by_id_def example_db_def empty_db_def example_user_row_def
        example_sa_user_def)
  have acc: "credential_account example_db (usr_email ?b) = Some ?acc"
    by (simp add: credential_account_def user_email_is_def user_by_id_def example_db_def empty_db_def
        example_user_row_def)
  have pw: "verify_pw example_host ''hpw'' ''pw'' login_srv = (Inr True, login_srv\<lparr>sv_scrypts := 1\<rparr>)"
    by (simp add: verify_pw_def example_host_def login_srv_def)
  have second: "login_second_factor example_host 5 (example_login ''user@c'' ''pw'') customer_app ?u
      (login_srv\<lparr>sv_scrypts := 1\<rparr>) = (Inr [''pwd''], login_srv\<lparr>sv_scrypts := 1\<rparr>)"
    using b[of example_db]
    by (simp add: login_second_factor_ok enrolled_def isTwoFactorRequired_def customer_app_def platform_app_def
        login_srv_def example_user_row_def)
  have customer_id: "app_id customer_app = 2" by (simp add: customer_app_def)
  have uid: "sau_by_id (touch_last_login 5 3 example_db) 3 = Some (?u\<lparr>sau_lastLoginAt := Some 5\<rparr>)"
    by (simp add: sau_by_id_def touch_last_login_def example_db_def empty_db_def example_sa_user_def)
  have "\<exists>resp t. finish_login example_host (\<lambda>_. 5) (\<lambda>_. ''r'') customer_app ?u ?org [''pwd'']
      (login_srv\<lparr>sv_scrypts := 1\<rparr>) = (Inr resp, t)"
    by (simp add: finish_login_def thenE_def bindE_def on_db_def issueJwt_def resolvePermissions_def
        resolveRoles_def example_sa_user_def[of 3] uid login_srv_def issue_token_def create_token_def
        token_row_def touch_last_login_def[of _ _ "touch_last_login _ _ _"])
      (simp add: touch_last_login_def example_db_def empty_db_def)
  then show ?thesis
    using found user org[of example_db] b[of example_db] acc pw second customer_id
    by (simp add: directLogin_def findE_def login_srv_def example_login_def example_sa_user_def)
qed

lemma direct_login_is_safe_witness:
  "\<exists>u. password_verified example_host example_db (example_login ''user@c'' ''pw'') u \<and> sau_status u = Active"
proof -
  obtain resp t where "directLogin example_host (\<lambda>_. 5) (\<lambda>_. ''r'') (example_login ''user@c'' ''pw'') login_srv = (Inr resp, t)"
    using login_request_succeeds by blast
  from direct_login_is_safe[OF this] show ?thesis by (auto simp: login_srv_def)
qed

end
