(* ===== verification/Session_Endpoints.thy ===== *)
theory Session_Endpoints
  imports Token_Grants
begin

text \<open>
  The endpoints that consume tokens: \<open>userinfo\<close> and \<open>handleOauthLogout\<close> (with its GET and POST
  wrappers) of \<open>token/token.controller.ts\<close>, and the service-token guard of
  \<open>service-users/service-token.guard.ts\<close>. \<open>signOut\<close> is better-auth's call, an effect that may fail.
\<close>

section \<open>userinfo\<close>

record userinfo_response =
  ui_sub :: string
  ui_status :: user_status
  ui_scoped :: scoped_claims

definition userinfo :: "host \<Rightarrow> int \<Rightarrow> string option \<Rightarrow> db \<Rightarrow> err + userinfo_response" where
  "userinfo h now authorization d =
     (case split_authorization authorization of
        (scheme, raw) \<Rightarrow>
          (if to_lower scheme \<noteq> ''bearer'' \<or> raw = [] then Inl (UnauthorizedE INVALID_REQUEST)
           else
             (case verifyAccessToken h now raw of
                Inl _ \<Rightarrow> Inl (UnauthorizedE INVALID_GRANT)
              | Inr claims \<Rightarrow>
                  (case sau_by_publicId d (the (c_sub claims)) of
                     None \<Rightarrow> Inl (UnauthorizedE USER_NOT_FOUND)
                   | Some u \<Rightarrow>
                       (if sau_status u = Inactive then Inl (UnauthorizedE USER_NOT_FOUND)
                        else
                          (case buildScopedClaims d (sau_id u)
                                  (case c_scope claims of None \<Rightarrow> [] | Some sc \<Rightarrow> sc) of
                             Inl e \<Rightarrow> Inl e
                           | Inr scoped \<Rightarrow>
                               Inr \<lparr>ui_sub = the (c_sub claims), ui_status = sau_status u,
                                    ui_scoped = scoped\<rparr>))))))"

lemma userinfo_ok:
  assumes "userinfo h now a d = Inr resp"
  obtains raw c u where "h_jwt_verify h now None (resolveIssuer h) raw = Some c"
    "to_lower (fst (split_authorization a)) = ''bearer''" "raw = snd (split_authorization a)"
    "c_sub c = Some (ui_sub resp)" "sau_by_publicId d (ui_sub resp) = Some u"
    "sau_status u \<noteq> Inactive" "ui_status resp = sau_status u"
    "buildScopedClaims d (sau_id u) (case c_scope c of None \<Rightarrow> [] | Some sc \<Rightarrow> sc) = Inr (ui_scoped resp)"
proof -
  obtain scheme raw where a: "split_authorization a = (scheme, raw)" by fastforce
  with assms have bearer: "to_lower scheme = ''bearer''" "raw \<noteq> []"
    by (auto simp: userinfo_def split: if_splits)
  obtain c where c: "verifyAccessToken h now raw = Inr c"
    using assms a bearer by (cases "verifyAccessToken h now raw") (simp_all add: userinfo_def)
  then obtain sub where sub: "c_sub c = Some sub" "h_jwt_verify h now None (resolveIssuer h) raw = Some c"
    by (auto simp: verifyAccessToken_ok truthy_iff)
  obtain u where u: "sau_by_publicId d sub = Some u"
    using assms a bearer c sub by (cases "sau_by_publicId d sub") (simp_all add: userinfo_def)
  have active: "sau_status u \<noteq> Inactive"
    using assms a bearer c sub u by (auto simp: userinfo_def)
  obtain sc where sc: "buildScopedClaims d (sau_id u) (case c_scope c of None \<Rightarrow> [] | Some sc \<Rightarrow> sc) = Inr sc"
    using assms a bearer c sub u active
    by (cases "buildScopedClaims d (sau_id u) (case c_scope c of None \<Rightarrow> [] | Some sc \<Rightarrow> sc)")
      (simp_all add: userinfo_def)
  have "resp = \<lparr>ui_sub = sub, ui_status = sau_status u, ui_scoped = sc\<rparr>"
    using assms a bearer c sub u active sc by (simp add: userinfo_def)
  then have resp: "ui_sub resp = sub" "ui_status resp = sau_status u" "ui_scoped resp = sc"
    by simp_all
  show thesis
    by (rule that[of raw c u]) (simp_all only: resp sub u sc a bearer active fst_conv snd_conv not_False_eq_True)
qed

section \<open>Logout\<close>

definition logged_out_url :: "host \<Rightarrow> string" where
  "logged_out_url h =
     strip_one_slash (case h_env h ''ADMIN_URL'' of None \<Rightarrow> [] | Some u \<Rightarrow> u) @ ''/logged-out''"

datatype logout_target = LoggedOutPage string | PostLogout url

definition post_logout_target ::
    "host \<Rightarrow> string \<Rightarrow> string \<Rightarrow> string \<Rightarrow> db \<Rightarrow> err + logout_target" where
  "post_logout_target h audience postLogoutRedirectUri state d =
     (case app_by_publicId d audience of
        None \<Rightarrow> Inr (LoggedOutPage (logged_out_url h))
      | Some app \<Rightarrow>
          (case assertPostLogoutRedirectUriAllowed h postLogoutRedirectUri
                  (app_redirect_uris d (app_id app)) of
             Inl _ \<Rightarrow> Inr (LoggedOutPage (logged_out_url h))
           | Inr _ \<Rightarrow>
               (case h_parse_url h postLogoutRedirectUri of
                  None \<Rightarrow> Inl (JsError ''Invalid URL'')
                | Some target \<Rightarrow>
                    Inr (PostLogout (if state \<noteq> [] then url_set_param target ''state'' state
                                     else target)))))"

definition handleOauthLogout ::
    "host \<Rightarrow> (nat \<Rightarrow> int) \<Rightarrow> (db, unit) eff \<Rightarrow> string \<Rightarrow> string \<Rightarrow> string \<Rightarrow> (db, logout_target) eff" where
  "handleOauthLogout h clk signOut idTokenHint postLogoutRedirectUri state =
     thenE (catchE signOut (\<lambda>_. ret ()))
     (if idTokenHint = [] \<or> postLogoutRedirectUri = [] then ret (LoggedOutPage (logged_out_url h))
      else
        (case verifyAccessToken h (clk 0) idTokenHint of
           Inl _ \<Rightarrow> ret (LoggedOutPage (logged_out_url h))
         | Inr claims \<Rightarrow>
             (if \<not> truthy (c_aud claims) then ret (LoggedOutPage (logged_out_url h))
              else
                thenE (catchE (revokeForUserApp (clk 1) (the (c_sub claims)) (the (c_aud claims)))
                         (\<lambda>_. ret ()))
                (liftR (post_logout_target h (the (c_aud claims)) postLogoutRedirectUri state)))))"

definition oauthLogoutPost ::
    "host \<Rightarrow> (nat \<Rightarrow> int) \<Rightarrow> (db, unit) eff \<Rightarrow> string \<Rightarrow> string \<Rightarrow> string \<Rightarrow> string \<Rightarrow> string \<Rightarrow> string \<Rightarrow>
     (db, logout_target) eff" where
  "oauthLogoutPost h clk signOut hintQuery uriQuery stateQuery hintBody uriBody stateBody =
     handleOauthLogout h clk signOut (or_string hintQuery hintBody) (or_string uriQuery uriBody)
       (or_string stateQuery stateBody)"

definition signed_out :: "(db, unit) eff \<Rightarrow> db \<Rightarrow> db" where
  "signed_out signOut d = snd (signOut d)"

lemma sign_out_first: "thenE (catchE signOut (\<lambda>_. ret ())) m d = m (signed_out signOut d)"
  by (auto simp: thenE_def bindE_def catchE_def signed_out_def split: prod.splits sum.splits)

lemma sign_out_hint:
  assumes "idTokenHint \<noteq> []" "uri \<noteq> []" "verifyAccessToken h (clk 0) idTokenHint = Inr c"
    "truthy (c_aud c)"
  shows "handleOauthLogout h clk signOut idTokenHint uri st d =
    (let d' = revoke_where (\<lambda>r. rt_userPublicId r = the (c_sub c) \<and> rt_appPublicId r = the (c_aud c)) (clk 1)
                (signed_out signOut d) in
     (post_logout_target h (the (c_aud c)) uri st d', d'))"
  unfolding handleOauthLogout_def sign_out_first
  using assms by (simp add: Let_def signed_out_def revokeForUserApp_def)

lemma logout_cases:
  obtains (page) "handleOauthLogout h clk signOut hint uri st d =
       (Inr (LoggedOutPage (logged_out_url h)), signed_out signOut d)"
    | (hinted) c where "hint \<noteq> []" "uri \<noteq> []" "verifyAccessToken h (clk 0) hint = Inr c" "truthy (c_aud c)"
proof (cases "hint \<noteq> [] \<and> uri \<noteq> []")
  case False
  then show thesis
    by (intro page) (auto simp: handleOauthLogout_def sign_out_first)
next
  case True
  show thesis
  proof (cases "verifyAccessToken h (clk 0) hint")
    case (Inl e)
    then show thesis using True by (intro page) (simp add: handleOauthLogout_def sign_out_first)
  next
    case (Inr c)
    show thesis
    proof (cases "truthy (c_aud c)")
      case False
      then show thesis
        using True Inr by (intro page) (simp add: handleOauthLogout_def sign_out_first)
    qed (use True Inr hinted in blast)
  qed
qed

text \<open>A post-logout redirect goes to a URI the audience app registered for that purpose.\<close>

lemma post_logout_registered:
  assumes "post_logout_target h aud uri st d = Inr (PostLogout u)"
  obtains app cand b where "app_by_publicId d aud = Some app"
    "cand \<in> set (registered (app_redirect_uris d (app_id app)) ''post_logout'')"
    "h_parse_url h cand = Some b" "u_protocol u = u_protocol b" "u_host u = u_host b"
    "u_pathname u = u_pathname b"
proof -
  from assms obtain app where app: "app_by_publicId d aud = Some app"
    and allowed: "list_ex (isExactMatch h uri) (registered (app_redirect_uris d (app_id app)) ''post_logout'')"
    and u: "\<exists>t. h_parse_url h uri = Some t \<and> u = (if st \<noteq> [] then url_set_param t ''state'' st else t)"
    by (auto simp: post_logout_target_def assertPostLogoutRedirectUriAllowed_def
        split: option.splits sum.splits if_splits)
  from allowed obtain cand where "cand \<in> set (registered (app_redirect_uris d (app_id app)) ''post_logout'')"
      "isExactMatch h uri cand"
    by (auto simp: list_ex_iff)
  with that[OF app] u show thesis
    by (auto simp: isExactMatch_def split: option.splits if_splits)
qed

section \<open>Properties\<close>

text \<open>Userinfo describes only the subject of a verified user token who is not deactivated, and
  reveals the name claims only under the token's \<open>profile\<close> scope and the address claims only under
  its \<open>email\<close> scope.\<close>

theorem userinfo_reveals_only_granted_claims:
  assumes "userinfo h now a d = Inr resp"
  shows "\<exists>c u. h_jwt_verify h now None (resolveIssuer h) (snd (split_authorization a)) = Some c \<and>
     c_sub c = Some (ui_sub resp) \<and> sau_by_publicId d (ui_sub resp) = Some u \<and> sau_status u \<noteq> Inactive \<and>
     ((sc_name (ui_scoped resp), sc_given_name (ui_scoped resp), sc_family_name (ui_scoped resp)) = (None, None, None)
       \<or> ''profile'' \<in> set (js_words (case c_scope c of None \<Rightarrow> [] | Some sc \<Rightarrow> sc))) \<and>
     ((sc_email (ui_scoped resp), sc_email_verified (ui_scoped resp)) = (None, None)
       \<or> ''email'' \<in> set (js_words (case c_scope c of None \<Rightarrow> [] | Some sc \<Rightarrow> sc)))"
  using assms
proof (cases rule: userinfo_ok)
  case (1 raw c u)
  let ?scope = "case c_scope c of None \<Rightarrow> [] | Some sc \<Rightarrow> sc"
  note gated = buildScopedClaims_gated[OF 1(8)]
  have "(sc_name (ui_scoped resp), sc_given_name (ui_scoped resp), sc_family_name (ui_scoped resp)) = (None, None, None)
       \<or> ''profile'' \<in> set (js_words ?scope)"
    using gated(1) by (metis (full_types))
  moreover have "(sc_email (ui_scoped resp), sc_email_verified (ui_scoped resp)) = (None, None)
       \<or> ''email'' \<in> set (js_words ?scope)"
    using gated(2) by (metis (full_types))
  ultimately show ?thesis
    using 1(1,3,4,5,6) by - (rule exI[of _ c], rule exI[of _ u], intro conjI; (assumption | simp))
qed

lemma userinfo_reveals_only_granted_claims_witness:
  "\<exists>resp. userinfo (example_host\<lparr>h_jwt_verify := (\<lambda>now aud iss t. Some
        (access_claims example_host 0 [] [] witness_jp))\<rparr>) 0 (Some ''Bearer t'') example_db = Inr resp \<and>
     sc_email (ui_scoped resp) = None"
proof -
  let ?h = "example_host\<lparr>h_jwt_verify := (\<lambda>now aud iss t. Some (access_claims example_host 0 [] [] witness_jp))\<rparr>"
  let ?resp = "\<lparr>ui_sub = ''xxx'', ui_status = Active, ui_scoped = no_scoped_claims\<rparr>"
  have words: "js_words ''openid'' = [''openid'']"
    by (simp add: js_words_def is_ws_def char_code_def)
  have run: "userinfo ?h 0 (Some ''Bearer t'') example_db = Inr ?resp"
    by (simp add: userinfo_def split_authorization_def verifyAccessToken_def access_claims_def witness_jp_def sau_by_publicId_def example_db_def empty_db_def
        example_sa_user_def buildScopedClaims_def words)
  from userinfo_reveals_only_granted_claims[OF this] have "''email'' \<in> set (js_words ''openid'') \<or>
      sc_email (ui_scoped ?resp) = None"
    by (auto simp: access_claims_def witness_jp_def)
  with run words show ?thesis by auto
qed



end
