(* ===== verification/Service_Users.thy ===== *)
theory Service_Users
  imports Token_Service
begin

text \<open>
  Machine callers: \<open>service-users/service-token.guard.ts\<close> (which app a service token speaks for)
  and \<open>service-users/service-users.service.ts\<close> (granting the app's own roles to its own users).
\<close>

section \<open>The guard\<close>

record service_app =
  sa_appId :: int
  sa_appPublicId :: string

definition service_token_guard :: "host \<Rightarrow> int \<Rightarrow> string option \<Rightarrow> err + service_app" where
  "service_token_guard h now authorization =
     (case split_authorization authorization of
        (scheme, raw) \<Rightarrow>
          (if to_lower scheme \<noteq> ''bearer'' \<or> raw = [] then Inl (UnauthorizedE INVALID_REQUEST)
           else
             (case verifyServiceAccessToken h now raw of
                Inl _ \<Rightarrow> Inl (UnauthorizedE INVALID_GRANT)
              | Inr claims \<Rightarrow>
                  (if ''roles:write'' \<notin> set (js_words (case c_scope claims of None \<Rightarrow> [] | Some sc \<Rightarrow> sc))
                   then Inl forbidden
                   else if \<not> truthy (c_azp claims) then Inl (UnauthorizedE INVALID_GRANT)
                   else (case h_sqid_decode h (the (c_azp claims)) of
                           None \<Rightarrow> Inl (UnauthorizedE INVALID_GRANT)
                         | Some appId \<Rightarrow>
                             Inr \<lparr>sa_appId = appId, sa_appPublicId = the (c_azp claims)\<rparr>)))))"

section \<open>The service\<close>

definition resolveAndAuthorize :: "int \<Rightarrow> string \<Rightarrow> string \<Rightarrow> db \<Rightarrow> err + sa_user \<times> sa_role" where
  "resolveAndAuthorize callingAppId userPublicId rolePublicId d =
     (case sau_by_publicId d userPublicId of
        None \<Rightarrow> Inl (NotFoundE ''Not Found'')
      | Some user \<Rightarrow>
          (case org_by_id d (sau_orgId user) of
             None \<Rightarrow> Inl (JsError ''Inconsistent query result'')
           | Some org \<Rightarrow>
               (if org_appId org \<noteq> callingAppId then Inl (NotFoundE ''Not Found'')
                else
                  (case role_by_publicId d rolePublicId of
                     None \<Rightarrow> Inl (NotFoundE ''Not Found'')
                   | Some role \<Rightarrow>
                       (if role_appId role \<noteq> callingAppId then Inl (NotFoundE ''Not Found'')
                        else if list_ex perm_isSystem (permissions_of_role d (role_id role)) then
                          Inl (ForbiddenE
                            ''Cannot assign a role carrying a system permission via a service token'')
                        else Inr (user, role))))))"

text \<open>\<open>saUserRole.create\<close> and \<open>saUserRole.delete\<close> on the compound key.\<close>

definition create_user_role :: "int \<Rightarrow> int \<Rightarrow> (db, unit) eff" where
  "create_user_role uid rid = (\<lambda>d.
     if (uid, rid) \<in> set (saUserRoles d) then (Inl (PrismaE ''P2002''), d)
     else (Inr (), d\<lparr>saUserRoles := saUserRoles d @ [(uid, rid)]\<rparr>))"

definition delete_user_role :: "int \<Rightarrow> int \<Rightarrow> (db, unit) eff" where
  "delete_user_role uid rid = (\<lambda>d.
     if (uid, rid) \<notin> set (saUserRoles d) then (Inl (PrismaE ''P2025''), d)
     else (Inr (), d\<lparr>saUserRoles := filter (\<lambda>x. x \<noteq> (uid, rid)) (saUserRoles d)\<rparr>))"

definition swallow :: "string \<Rightarrow> ('s, unit) eff \<Rightarrow> ('s, unit) eff" where
  "swallow code m = catchE m (\<lambda>e. if e = PrismaE code then ret () else raise e)"

definition service_assignRole :: "int \<Rightarrow> string \<Rightarrow> string \<Rightarrow> (db, unit) eff" where
  "service_assignRole callingAppId userPublicId rolePublicId =
     bindE (liftR (resolveAndAuthorize callingAppId userPublicId rolePublicId))
       (\<lambda>(user, role). swallow ''P2002'' (create_user_role (sau_id user) (role_id role)))"

definition service_removeRole :: "int \<Rightarrow> string \<Rightarrow> string \<Rightarrow> (db, unit) eff" where
  "service_removeRole callingAppId userPublicId rolePublicId =
     bindE (liftR (resolveAndAuthorize callingAppId userPublicId rolePublicId))
       (\<lambda>(user, role). swallow ''P2025'' (delete_user_role (sau_id user) (role_id role)))"

section \<open>The boundary\<close>

lemma resolveAndAuthorize_ok:
  "resolveAndAuthorize a up rp d = Inr (u, r) \<longleftrightarrow>
     sau_by_publicId d up = Some u \<and> role_by_publicId d rp = Some r \<and> role_appId r = a \<and>
     (\<exists>g. org_by_id d (sau_orgId u) = Some g \<and> org_appId g = a) \<and>
     (\<forall>p \<in> set (permissions_of_role d (role_id r)). \<not> perm_isSystem p)"
  by (auto simp: resolveAndAuthorize_def list_ex_iff split: option.splits)

lemma create_user_role_cases:
  "swallow ''P2002'' (create_user_role uid rid) d =
     (Inr (), if (uid, rid) \<in> set (saUserRoles d) then d
              else d\<lparr>saUserRoles := saUserRoles d @ [(uid, rid)]\<rparr>)"
  by (simp add: swallow_def create_user_role_def catchE_def)

lemma delete_user_role_cases:
  "swallow ''P2025'' (delete_user_role uid rid) d =
     (Inr (), d\<lparr>saUserRoles := filter (\<lambda>x. x \<noteq> (uid, rid)) (saUserRoles d)\<rparr>)"
proof (cases "(uid, rid) \<in> set (saUserRoles d)")
  case False
  then have "filter (\<lambda>x. x \<noteq> (uid, rid)) (saUserRoles d) = saUserRoles d"
    by (auto simp: filter_id_conv)
  with False show ?thesis by (simp add: swallow_def delete_user_role_def catchE_def)
qed (simp add: swallow_def delete_user_role_def catchE_def)

lemma service_assign_result:
  "service_assignRole a up rp d =
     (case resolveAndAuthorize a up rp d of
        Inl e \<Rightarrow> (Inl e, d)
      | Inr (u, r) \<Rightarrow>
          (Inr (), if (sau_id u, role_id r) \<in> set (saUserRoles d) then d
                   else d\<lparr>saUserRoles := saUserRoles d @ [(sau_id u, role_id r)]\<rparr>))"
  by (auto simp: service_assignRole_def bindE_def create_user_role_cases split: sum.splits)

lemma service_remove_result:
  "service_removeRole a up rp d =
     (case resolveAndAuthorize a up rp d of
        Inl e \<Rightarrow> (Inl e, d)
      | Inr (u, r) \<Rightarrow>
          (Inr (), d\<lparr>saUserRoles := filter (\<lambda>x. x \<noteq> (sau_id u, role_id r)) (saUserRoles d)\<rparr>))"
  by (auto simp: service_removeRole_def bindE_def delete_user_role_cases split: sum.splits)

lemma service_token_guard_ok:
  assumes "service_token_guard h now a = Inr x"
  obtains c where "h_jwt_verify h now (Some SERVICE_TOKEN_AUDIENCE) (resolveIssuer h)
      (snd (split_authorization a)) = Some c" "c_token_use c = Some ''service''"
    "''roles:write'' \<in> set (js_words (case c_scope c of None \<Rightarrow> [] | Some sc \<Rightarrow> sc))"
    "c_azp c = Some (sa_appPublicId x)" "h_sqid_decode h (sa_appPublicId x) = Some (sa_appId x)"
  using assms
  by (auto simp: service_token_guard_def verifyServiceAccessToken_ok truthy_iff
      split: prod.splits if_splits sum.splits option.splits)

section \<open>Properties\<close>

text \<open>C11 A machine caller only moves its own app's roles between its own app's users: whatever
  \<open>assignRole\<close> or \<open>removeRole\<close> changes under a guard-accepted service token is the one assignment of a
  user in an organisation of the app the token speaks for and a role of that app that carries no
  system permission; every refusal leaves the database as it was.\<close>

theorem service_calls_stay_within_the_app:
  assumes "service_token_guard h now authorization = Inr caller"
    and "snd (service_assignRole (sa_appId caller) up rp d) = t \<or>
         snd (service_removeRole (sa_appId caller) up rp d) = t" "t \<noteq> d"
  shows "\<exists>c u r org. h_jwt_verify h now (Some SERVICE_TOKEN_AUDIENCE) (resolveIssuer h)
       (snd (split_authorization authorization)) = Some c \<and> c_token_use c = Some ''service'' \<and>
     c_azp c = Some (sa_appPublicId caller) \<and> h_sqid_decode h (sa_appPublicId caller) = Some (sa_appId caller) \<and>
     u \<in> set (saUsers d) \<and> sau_publicId u = up \<and> org_by_id d (sau_orgId u) = Some org \<and>
     org_appId org = sa_appId caller \<and>
     r \<in> set (saRoles d) \<and> role_publicId r = rp \<and> role_appId r = sa_appId caller \<and>
     (\<nexists>p. p \<in> set (permissions_of_role d (role_id r)) \<and> perm_isSystem p) \<and>
     (\<exists>rows. t = d\<lparr>saUserRoles := rows\<rparr> \<and>
        (rows = saUserRoles d @ [(sau_id u, role_id r)] \<or>
         rows = filter (\<lambda>x. x \<noteq> (sau_id u, role_id r)) (saUserRoles d)))"
proof -
  obtain u r rows where auth: "resolveAndAuthorize (sa_appId caller) up rp d = Inr (u, r)"
    and t: "t = d\<lparr>saUserRoles := rows\<rparr>"
      "rows = saUserRoles d @ [(sau_id u, role_id r)] \<or>
       rows = filter (\<lambda>x. x \<noteq> (sau_id u, role_id r)) (saUserRoles d)"
  proof (cases "resolveAndAuthorize (sa_appId caller) up rp d")
    case (Inl e)
    then show thesis using assms(2,3) by (simp add: service_assign_result service_remove_result)
  next
    case (Inr x)
    then show thesis
      using assms(2,3) that
      by (cases x) (auto simp: service_assign_result service_remove_result split: if_splits)
  qed
  from auth obtain org where org: "sau_by_publicId d up = Some u" "role_by_publicId d rp = Some r"
      "role_appId r = sa_appId caller" "org_by_id d (sau_orgId u) = Some org" "org_appId org = sa_appId caller"
      "\<forall>p \<in> set (permissions_of_role d (role_id r)). \<not> perm_isSystem p"
    unfolding resolveAndAuthorize_ok by blast
  from assms(1) obtain c where c: "h_jwt_verify h now (Some SERVICE_TOKEN_AUDIENCE) (resolveIssuer h)
      (snd (split_authorization authorization)) = Some c" "c_token_use c = Some ''service''"
      "c_azp c = Some (sa_appPublicId caller)" "h_sqid_decode h (sa_appPublicId caller) = Some (sa_appId caller)"
    by (rule service_token_guard_ok)
  have "u \<in> set (saUsers d)" "sau_publicId u = up" "r \<in> set (saRoles d)" "role_publicId r = rp"
    using lookup_sound(8)[OF org(1)] lookup_sound(11)[OF org(2)] by blast+
  then show ?thesis using c org t by blast
qed

lemma service_calls_stay_within_the_app_witness:
  "\<exists>t. snd (service_assignRole 2 ''xx'' ''xxx'' example_db) = t \<and>
     (\<exists>u r. u \<in> set (saUsers example_db) \<and> sau_publicId u = ''xx'' \<and> r \<in> set (saRoles example_db) \<and>
        role_appId r = 2)"
proof -
  let ?h = "example_host\<lparr>h_jwt_verify := (\<lambda>now aud iss t. Some (service_claims example_host 0 ''xx'' ''roles:write''))\<rparr>"
  let ?caller = "\<lparr>sa_appId = 2, sa_appPublicId = ''xx''\<rparr>"
  let ?t = "example_db\<lparr>saUserRoles := saUserRoles example_db @ [(2, 3)]\<rparr>"
  have words: "js_words ''roles:write'' = [''roles:write'']"
    by (simp add: js_words_def is_ws_def char_code_def)
  have guard: "service_token_guard ?h 0 (Some ''Bearer t'') = Inr ?caller"
    by (simp add: service_token_guard_def split_authorization_def verifyServiceAccessToken_def service_claims_def words example_host_def)
  have run: "snd (service_assignRole 2 ''xx'' ''xxx'' example_db) = ?t"
    by (simp add: service_assign_result resolveAndAuthorize_def sau_by_publicId_def org_by_id_def
        role_by_publicId_def permissions_of_role_def example_db_def empty_db_def example_sa_user_def
        example_role_def example_perm_def)
  have changed: "?t \<noteq> example_db"
    by (simp add: example_db_def empty_db_def)
  have run': "snd (service_assignRole (sa_appId ?caller) ''xx'' ''xxx'' example_db) = ?t"
    using run by simp
  obtain u r where "u \<in> set (saUsers example_db)" "sau_publicId u = ''xx''"
      "r \<in> set (saRoles example_db)" "role_appId r = sa_appId ?caller"
    using service_calls_stay_within_the_app[OF guard disjI1[OF run'] changed] by blast
  with run show ?thesis by auto
qed

end
