(* ===== verification/Authorize.thy ===== *)
theory Authorize
  imports Oauth_Codes Token_Service
begin

text \<open>
  The authorization endpoint: \<open>oauthAuthorize\<close> of \<open>token/token.controller.ts\<close>. The handler's
  \<open>try\<close> body is two parts, before and after the redirect URI has been validated, because its
  \<open>catch\<close> answers differently (the flag \<open>redirectUriValidated\<close>). \<open>clk i\<close> is the \<open>i\<close>-th reading of
  the clock and \<open>session\<close> what \<open>auth.api.getSession\<close> returned.
\<close>

record authorize_request =
  ar_client_id :: string
  ar_redirect_uri :: string
  ar_code_challenge :: "string option"
  ar_code_challenge_method :: "string option"
  ar_state :: string
  ar_scope :: string
  ar_nonce :: string
  ar_prompt :: string
  ar_max_age :: string

record auth_session =
  as_userId :: string
  as_twoFactorEnabled :: bool
  as_createdAt :: "int option"
  as_signInMethod :: "string option"

text \<open>Where the 302 goes: back to the client's validated URI, or to a page of the admin app.\<close>

datatype redirect = ToClient url | ToAdmin string

fun redirect_location :: "redirect \<Rightarrow> string" where
  "redirect_location (ToClient u) = url_to_string u"
| "redirect_location (ToAdmin s) = s"

definition js_string_of :: "string option \<Rightarrow> string" where
  "js_string_of x = (case x of None \<Rightarrow> ''undefined'' | Some s \<Rightarrow> s)"

section \<open>Client and redirect URI\<close>

definition authorize_client :: "host \<Rightarrow> authorize_request \<Rightarrow> (db, sa_app) eff" where
  "authorize_client h rq =
     (case h_sqid_decode h (ar_client_id rq) of
        None \<Rightarrow> raise (BadRequestE APP_NOT_FOUND)
      | Some numericId \<Rightarrow>
          bindE (findE (\<lambda>d. app_by_id d numericId) (NotFoundE APP_NOT_FOUND)) (\<lambda>app.
            if truthy (ar_code_challenge rq) \<and> ar_code_challenge_method rq \<noteq> Some ''S256'' then
              raise (BadRequestE INVALID_REQUEST)
            else if \<not> truthy (ar_code_challenge rq) \<and> app_clientSecretHash app = None then
              raise (BadRequestE INVALID_REQUEST)
            else
              thenE (liftR (\<lambda>d. assertRedirectUriAllowed h (ar_redirect_uri rq) (app_url app)
                                 (app_redirect_uris d (app_id app))))
              (ret app)))"

section \<open>Session, user, two-factor enrollment\<close>

definition stale_for_max_age :: "int \<Rightarrow> string \<Rightarrow> auth_session option \<Rightarrow> bool" where
  "stale_for_max_age now max_age session =
     (max_age \<noteq> [] \<and> is_finite_number (to_number max_age) \<and>
      (case Option.bind session as_createdAt of
         None \<Rightarrow> True
       | Some created \<Rightarrow> thousandths_greater (now - created) (to_number max_age)))"

definition must_reauthenticate :: "int \<Rightarrow> authorize_request \<Rightarrow> auth_session option \<Rightarrow> bool" where
  "must_reauthenticate now rq session =
     (session = None \<or> ''login'' \<in> set (js_words (ar_prompt rq)) \<or>
      stale_for_max_age now (ar_max_age rq) session)"

definition with_param :: "string \<Rightarrow> string \<Rightarrow> params \<Rightarrow> params" where
  "with_param k v q = (if v \<noteq> [] then params_set q k v else q)"

definition reauth_query :: "authorize_request \<Rightarrow> params" where
  "reauth_query rq =
     with_param ''state'' (ar_state rq)
       ([(''client_id'', ar_client_id rq), (''redirect_uri'', ar_redirect_uri rq),
         (''scope'', ar_scope rq)] @
        (if ar_nonce rq \<noteq> [] then [(''nonce'', ar_nonce rq)] else []) @
        (if truthy (ar_code_challenge rq)
         then [(''code_challenge'', the (ar_code_challenge rq)), (''code_challenge_method'', ''S256'')]
         else []))"

definition enroll_query :: "authorize_request \<Rightarrow> params" where
  "enroll_query rq =
     with_param ''nonce'' (ar_nonce rq) (with_param ''scope'' (ar_scope rq)
       (with_param ''state'' (ar_state rq)
         [(''client_id'', ar_client_id rq), (''redirect_uri'', ar_redirect_uri rq),
          (''code_challenge'', js_string_of (ar_code_challenge rq)),
          (''code_challenge_method'', js_string_of (ar_code_challenge_method rq))]))"

definition next_path :: "host \<Rightarrow> params \<Rightarrow> string" where
  "next_path h q = resolveIssuer h @ OAUTH_AUTHORIZE_PATH @ ''?'' @ params_to_string q"

definition admin_url :: "host \<Rightarrow> string option" where
  "admin_url h = (if truthy (h_env h ''ADMIN_URL'') then h_env h ''ADMIN_URL'' else None)"

definition granted_scopes :: "sa_app \<Rightarrow> string \<Rightarrow> string list" where
  "granted_scopes app scope =
     filter (\<lambda>s. s \<noteq> ''offline_access'' \<or> app_allowOfflineAccess app) (parseScopes (Some scope))"

definition issue_code ::
    "host \<Rightarrow> (nat \<Rightarrow> int) \<Rightarrow> string \<Rightarrow> authorize_request \<Rightarrow> sa_app \<Rightarrow> auth_session \<Rightarrow> sa_user \<Rightarrow>
     (db, redirect) eff" where
  "issue_code h clk rnd rq app session saUser =
     (let (amr, idp) = deriveAuthMethods (as_signInMethod session) (as_twoFactorEnabled session);
          authTime = (case as_createdAt session of Some t \<Rightarrow> t | None \<Rightarrow> clk 1);
          challenged = truthy (ar_code_challenge rq) in
      bindE (generateCode rnd (clk 2) (sau_publicId saUser) (app_publicId app) (ar_redirect_uri rq)
               (if challenged then ar_code_challenge rq else None)
               (if challenged then Some ''S256'' else None)
               amr (if ar_nonce rq \<noteq> [] then Some (ar_nonce rq) else None)
               (js_join '' '' (granted_scopes app (ar_scope rq))) authTime idp)
        (\<lambda>code. case h_parse_url h (ar_redirect_uri rq) of
                   None \<Rightarrow> raise (JsError ''Invalid URL'')
                 | Some u \<Rightarrow>
                     (let u2 = url_set_param u ''code'' code in
                      ret (ToClient (if ar_state rq \<noteq> [] then url_set_param u2 ''state'' (ar_state rq)
                                     else u2)))))"

definition client_error :: "host \<Rightarrow> authorize_request \<Rightarrow> string \<Rightarrow> string \<Rightarrow> (db, redirect) eff" where
  "client_error h rq error description =
     liftR (\<lambda>_. case buildClientErrorRedirectUrl h (ar_redirect_uri rq) error description (ar_state rq) of
                   Inl e \<Rightarrow> Inl e | Inr u \<Rightarrow> Inr (ToClient u))"

definition authorize_user ::
    "host \<Rightarrow> (nat \<Rightarrow> int) \<Rightarrow> string \<Rightarrow> authorize_request \<Rightarrow> sa_app \<Rightarrow> auth_session \<Rightarrow> (db, redirect) eff" where
  "authorize_user h clk rnd rq app session =
     bindE (findE (\<lambda>d. sau_by_betterAuthUserId d (as_userId session)) (ForbiddenE USER_NOT_FOUND))
     (\<lambda>saUser.
      bindE (findE (\<lambda>d. org_by_id d (sau_orgId saUser)) (JsError ''Inconsistent query result''))
      (\<lambda>org.
        if sau_status saUser \<noteq> Active then raise (ForbiddenE USER_NOT_FOUND)
        else if org_appId org \<noteq> app_id app then raise (ForbiddenE USER_ORG_MISMATCH)
        else if isTwoFactorRequired h app \<and> \<not> as_twoFactorEnabled session then
          (if ''none'' \<in> set (js_words (ar_prompt rq)) then
             client_error h rq ''interaction_required'' ''Two-factor enrollment required''
           else (case admin_url h of
                   Some adminUrl \<Rightarrow>
                     ret (ToAdmin (strip_one_slash adminUrl @ ''/account/security?enroll=1&next='' @
                            encode_uri_component (next_path h (enroll_query rq))))
                 | None \<Rightarrow> raise (ForbiddenE USER_NOT_FOUND)))
        else issue_code h clk rnd rq app session saUser))"

definition authorize_session ::
    "host \<Rightarrow> (nat \<Rightarrow> int) \<Rightarrow> string \<Rightarrow> authorize_request \<Rightarrow> auth_session option \<Rightarrow> sa_app \<Rightarrow>
     (db, redirect) eff" where
  "authorize_session h clk rnd rq session app =
     (if must_reauthenticate (clk 0) rq session then
        (if ''none'' \<in> set (js_words (ar_prompt rq)) then
           client_error h rq ''login_required'' ''No active session satisfying the request''
         else (case admin_url h of
                 None \<Rightarrow> raise unauthorized
               | Some adminUrl \<Rightarrow>
                   ret (ToAdmin (strip_one_slash adminUrl @ ''/login?next='' @
                          encode_uri_component (next_path h (reauth_query rq))))))
      else authorize_user h clk rnd rq app (the session))"

section \<open>The handler\<close>

definition authorize_catch :: "host \<Rightarrow> authorize_request \<Rightarrow> bool \<Rightarrow> err \<Rightarrow> (db, redirect) eff" where
  "authorize_catch h rq redirectUriValidated e =
     (case extractTokenErrorCode e of
        None \<Rightarrow> raise e
      | Some code \<Rightarrow>
          (if \<not> (case http_status e of Some status \<Rightarrow> 400 \<le> status \<and> status < 500 | None \<Rightarrow> False)
           then raise e
           else if redirectUriValidated then
             client_error h rq
               (if code = USER_ORG_MISMATCH \<or> code = USER_NOT_FOUND then ''access_denied''
                else ''invalid_request'') code
           else (case admin_url h of
                   None \<Rightarrow> raise e
                 | Some adminUrl \<Rightarrow>
                     ret (ToAdmin (buildOauthErrorRedirectUrl adminUrl code (ar_client_id rq))))))"

definition oauthAuthorize ::
    "host \<Rightarrow> (nat \<Rightarrow> int) \<Rightarrow> string \<Rightarrow> authorize_request \<Rightarrow> auth_session option \<Rightarrow> (db, redirect) eff" where
  "oauthAuthorize h clk rnd rq session = (\<lambda>d.
     case authorize_client h rq d of
       (Inl e, d1) \<Rightarrow> authorize_catch h rq False e d1
     | (Inr app, d1) \<Rightarrow>
         catchE (authorize_session h clk rnd rq session app) (authorize_catch h rq True) d1)"

section \<open>What each part returns\<close>

lemma authorize_client_ok:
  "authorize_client h rq d = (Inr app, t) \<longleftrightarrow>
     t = d \<and> (\<exists>i. h_sqid_decode h (ar_client_id rq) = Some i \<and> app_by_id d i = Some app) \<and>
     (truthy (ar_code_challenge rq) \<longrightarrow> ar_code_challenge_method rq = Some ''S256'') \<and>
     (truthy (ar_code_challenge rq) \<or> app_clientSecretHash app \<noteq> None) \<and>
     assertRedirectUriAllowed h (ar_redirect_uri rq) (app_url app) (app_redirect_uris d (app_id app))
       = Inr ()"
  by (auto simp: authorize_client_def eff_simps split: option.splits if_splits)

lemma authorize_client_state: "snd (authorize_client h rq d) = d"
  by (auto simp: authorize_client_def bindE_def thenE_def findE_def split: option.splits sum.splits)

lemma authorize_catch_state: "snd (authorize_catch h rq v e d) = d"
  by (auto simp: authorize_catch_def client_error_def split: option.splits)

lemma allowed_parses:
  "assertRedirectUriAllowed h ru au rs = Inr () \<Longrightarrow> \<exists>u. h_parse_url h ru = Some u"
  by (auto simp: assertRedirectUriAllowed_def Let_def isExactMatch_def list_ex_iff
      split: if_splits option.splits)

text \<open>
  The URI an app accepts: its scheme, host and path are those of a registered login URI, or, with
  none registered, its origin is that of the app.
\<close>

definition uri_of_app :: "host \<Rightarrow> url \<Rightarrow> sa_app \<Rightarrow> redirect_uri_row list \<Rightarrow> bool" where
  "uri_of_app h u app rs \<longleftrightarrow>
     (if registered rs ''login'' \<noteq> []
      then \<exists>uri b. uri \<in> set (registered rs ''login'') \<and> h_parse_url h uri = Some b \<and>
             u_protocol u = u_protocol b \<and> u_host u = u_host b \<and> u_pathname u = u_pathname b
      else \<exists>b. h_parse_url h (app_url app) = Some b \<and> u_origin u = u_origin b)"

lemma allowed_uri_of_app:
  "assertRedirectUriAllowed h ru (app_url app) rs = Inr () \<Longrightarrow> h_parse_url h ru = Some u \<Longrightarrow>
     uri_of_app h u app rs"
  by (fastforce simp: assertRedirectUriAllowed_def Let_def isExactMatch_def list_ex_iff uri_of_app_def
      split: if_splits option.splits)

lemma uri_of_app_set_param [simp]:
  "uri_of_app h (url_set_param u k v) app rs = uri_of_app h u app rs"
  by (simp add: uri_of_app_def)

lemma uri_of_app_client_error:
  "uri_of_app h (client_error_url u e ds st) app rs = uri_of_app h u app rs"
  by (simp add: client_error_url_def Let_def)

lemma client_error_ok:
  "client_error h rq er ds d = (Inr r, t) \<longleftrightarrow>
     t = d \<and> (\<exists>u. h_parse_url h (ar_redirect_uri rq) = Some u \<and>
        r = ToClient (client_error_url u er ds (ar_state rq)))"
  by (auto simp: client_error_def buildClientErrorRedirectUrl_def split: option.splits)

lemma client_error_state: "snd (client_error h rq er ds d) = d"
  by (simp add: client_error_def)

definition stored_code ::
    "(nat \<Rightarrow> int) \<Rightarrow> string \<Rightarrow> authorize_request \<Rightarrow> sa_app \<Rightarrow> auth_session \<Rightarrow> sa_user \<Rightarrow> oauth_code" where
  "stored_code clk rnd rq app session saUser =
     \<lparr>oc_code = rnd, oc_userId = sau_publicId saUser, oc_appPublicId = app_publicId app,
      oc_redirectUri = ar_redirect_uri rq,
      oc_codeChallenge = (if truthy (ar_code_challenge rq) then ar_code_challenge rq else None),
      oc_codeChallengeMethod = (if truthy (ar_code_challenge rq) then Some ''S256'' else None),
      oc_nonce = (if ar_nonce rq \<noteq> [] then Some (ar_nonce rq) else None),
      oc_scope = js_join '' '' (granted_scopes app (ar_scope rq)),
      oc_authTime = (case as_createdAt session of Some t \<Rightarrow> t | None \<Rightarrow> clk 1),
      oc_amr = json_stringify (fst (deriveAuthMethods (as_signInMethod session) (as_twoFactorEnabled session))),
      oc_idp = snd (deriveAuthMethods (as_signInMethod session) (as_twoFactorEnabled session)),
      oc_expiresAt = clk 2 + CODE_TTL_MS\<rparr>"

lemma issue_code_eq:
  assumes "h_parse_url h (ar_redirect_uri rq) = Some u"
  shows "issue_code h clk rnd rq app session saUser d =
     (if code_row d rnd \<noteq> None then (Inl (PrismaE ''P2002''), d)
      else (Inr (ToClient (let u2 = url_set_param u ''code'' rnd in
                   if ar_state rq \<noteq> [] then url_set_param u2 ''state'' (ar_state rq) else u2)),
            d\<lparr>saOauthCodes := saOauthCodes d @ [stored_code clk rnd rq app session saUser]\<rparr>))"
  using assms
  by (simp add: issue_code_def Let_def generateCode_def create_code_def thenE_def bindE_def
      stored_code_def split: prod.splits)

text \<open>The conditions under which a code is issued.\<close>

definition may_issue ::
    "host \<Rightarrow> (nat \<Rightarrow> int) \<Rightarrow> authorize_request \<Rightarrow> auth_session option \<Rightarrow> db \<Rightarrow> sa_app \<Rightarrow>
     auth_session \<Rightarrow> sa_user \<Rightarrow> bool" where
  "may_issue h clk rq session d app s u \<longleftrightarrow>
     (\<exists>i. h_sqid_decode h (ar_client_id rq) = Some i \<and> app_by_id d i = Some app) \<and>
     (truthy (ar_code_challenge rq) \<longrightarrow> ar_code_challenge_method rq = Some ''S256'') \<and>
     (truthy (ar_code_challenge rq) \<or> app_clientSecretHash app \<noteq> None) \<and>
     assertRedirectUriAllowed h (ar_redirect_uri rq) (app_url app) (app_redirect_uris d (app_id app))
       = Inr () \<and>
     session = Some s \<and> \<not> must_reauthenticate (clk 0) rq session \<and>
     sau_by_betterAuthUserId d (as_userId s) = Some u \<and> sau_status u = Active \<and>
     (\<exists>org. org_by_id d (sau_orgId u) = Some org \<and> org_appId org = app_id app) \<and>
     (isTwoFactorRequired h app \<longrightarrow> as_twoFactorEnabled s)"

lemma authorize_user_cases:
  assumes "authorize_user h clk rnd rq app s d = (r, t)"
    and "h_parse_url h (ar_redirect_uri rq) = Some u0"
  obtains (issued) u org where
      "sau_by_betterAuthUserId d (as_userId s) = Some u" "sau_status u = Active"
      "org_by_id d (sau_orgId u) = Some org" "org_appId org = app_id app"
      "isTwoFactorRequired h app \<longrightarrow> as_twoFactorEnabled s"
      "issue_code h clk rnd rq app s u d = (r, t)"
    | (error) er ds where "r = Inr (ToClient (client_error_url u0 er ds (ar_state rq)))" "t = d"
    | (enroll) l where "r = Inr (ToAdmin l)" "''none'' \<notin> set (js_words (ar_prompt rq))" "t = d"
    | (rejected) e where "r = Inl e" "t = d"
proof (cases "sau_by_betterAuthUserId d (as_userId s)")
  case None
  then show thesis using assms rejected by (auto simp: authorize_user_def findE_def bindE_def)
next
  case (Some u)
  note u = this
  show thesis
  proof (cases "org_by_id d (sau_orgId u)")
    case None
    then show thesis using assms rejected u by (auto simp: authorize_user_def findE_def bindE_def)
  next
    case org: (Some org)
    consider "sau_status u \<noteq> Active" | "sau_status u = Active" "org_appId org \<noteq> app_id app"
      | "sau_status u = Active" "org_appId org = app_id app"
        "isTwoFactorRequired h app \<and> \<not> as_twoFactorEnabled s"
      | "sau_status u = Active" "org_appId org = app_id app"
        "\<not> (isTwoFactorRequired h app \<and> \<not> as_twoFactorEnabled s)" by blast
    then show thesis
    proof cases
      case 3
      then show thesis
        using assms u org error enroll rejected
        by (auto simp: authorize_user_def findE_def bindE_def client_error_def
            buildClientErrorRedirectUrl_def split: if_splits option.splits)
    next
      case 4
      then show thesis
        using assms u org issued by (auto simp: authorize_user_def findE_def bindE_def)
    qed (use assms u org rejected in \<open>auto simp: authorize_user_def findE_def bindE_def\<close>)
  qed
qed

lemma authorize_session_cases:
  assumes "authorize_session h clk rnd rq session app d = (r, t)"
    and "h_parse_url h (ar_redirect_uri rq) = Some u0"
  obtains (issued) s u org where
      "session = Some s" "\<not> must_reauthenticate (clk 0) rq session"
      "sau_by_betterAuthUserId d (as_userId s) = Some u" "sau_status u = Active"
      "org_by_id d (sau_orgId u) = Some org" "org_appId org = app_id app"
      "isTwoFactorRequired h app \<longrightarrow> as_twoFactorEnabled s"
      "issue_code h clk rnd rq app s u d = (r, t)"
    | (error) er ds where "r = Inr (ToClient (client_error_url u0 er ds (ar_state rq)))" "t = d"
    | (interact) l where "r = Inr (ToAdmin l)" "''none'' \<notin> set (js_words (ar_prompt rq))" "t = d"
    | (rejected) e where "r = Inl e" "t = d"
proof (cases "must_reauthenticate (clk 0) rq session")
  case True
  then show thesis
    using assms error interact rejected
    by (auto simp: authorize_session_def client_error_def buildClientErrorRedirectUrl_def
        split: if_splits option.splits)
next
  case False
  then obtain s where s: "session = Some s" by (auto simp: must_reauthenticate_def)
  then have "authorize_user h clk rnd rq app s d = (r, t)"
    using assms(1) False by (simp add: authorize_session_def)
  then show thesis
    using assms(2)
  proof (cases rule: authorize_user_cases)
    case (issued u org)
    then show thesis using that(1) s False by blast
  qed (use that in auto)
qed

text \<open>The app, the session and the user of a request are determined by it.\<close>

lemma may_issue_unique:
  "may_issue h clk rq session d app s u \<Longrightarrow> may_issue h clk rq session d app' s' u' \<Longrightarrow>
     app' = app \<and> s' = s \<and> u' = u"
  by (auto simp: may_issue_def)

definition code_redirect :: "authorize_request \<Rightarrow> string \<Rightarrow> url \<Rightarrow> url" where
  "code_redirect rq rnd u =
     (let u2 = url_set_param u ''code'' rnd in
      if ar_state rq \<noteq> [] then url_set_param u2 ''state'' (ar_state rq) else u2)"

lemma oauthAuthorize_issues:
  assumes "may_issue h clk rq session d app s u" "code_row d rnd = None"
    "h_parse_url h (ar_redirect_uri rq) = Some u0"
  shows "oauthAuthorize h clk rnd rq session d =
     (Inr (ToClient (code_redirect rq rnd u0)),
      d\<lparr>saOauthCodes := saOauthCodes d @ [stored_code clk rnd rq app s u]\<rparr>)"
proof -
  have "authorize_client h rq d = (Inr app, d)"
    using assms(1) by (simp add: authorize_client_ok may_issue_def)
  moreover have "authorize_session h clk rnd rq session app d = issue_code h clk rnd rq app s u d"
    using assms(1) by (auto simp: authorize_session_def authorize_user_def may_issue_def findE_def bindE_def)
  ultimately show ?thesis
    using assms(2,3)
    by (simp add: oauthAuthorize_def catchE_def issue_code_eq code_redirect_def)
qed

lemma authorize_catch_cases:
  assumes "authorize_catch h rq v e d = (r, t)"
  shows "t = d \<and> ((\<exists>e'. r = Inl e') \<or> (\<not> v \<and> (\<exists>l. r = Inr (ToAdmin l))) \<or>
     (v \<and> (\<exists>u er ds. h_parse_url h (ar_redirect_uri rq) = Some u \<and>
        r = Inr (ToClient (client_error_url u er ds (ar_state rq))))))"
  using assms
  unfolding authorize_catch_def client_error_def buildClientErrorRedirectUrl_def
  by (simp split: if_split_asm option.split_asm) blast+

lemma oauthAuthorize_cases:
  assumes "oauthAuthorize h clk rnd rq session d = (r, t)"
  obtains (issued) app s u u0 where "may_issue h clk rq session d app s u" "code_row d rnd = None"
      "h_parse_url h (ar_redirect_uri rq) = Some u0"
      "r = Inr (ToClient (code_redirect rq rnd u0))"
      "t = d\<lparr>saOauthCodes := saOauthCodes d @ [stored_code clk rnd rq app s u]\<rparr>"
    | (error) app u0 er ds where "authorize_client h rq d = (Inr app, d)"
      "h_parse_url h (ar_redirect_uri rq) = Some u0"
      "r = Inr (ToClient (client_error_url u0 er ds (ar_state rq)))" "t = d"
    | (interact) app l where "authorize_client h rq d = (Inr app, d)"
      "''none'' \<notin> set (js_words (ar_prompt rq))" "r = Inr (ToAdmin l)" "t = d"
    | (unvalidated) l e where "authorize_client h rq d = (Inl e, d)" "r = Inr (ToAdmin l)" "t = d"
    | (rejected) e where "r = Inl e" "t = d"
proof (cases "authorize_client h rq d")
  case (Pair rc d1)
  then have d1: "d1 = d" using authorize_client_state[of h rq d] by simp
  show thesis
  proof (cases rc)
    case (Inl e)
    have "authorize_catch h rq False e d = (r, t)" using assms Pair Inl d1 by (simp add: oauthAuthorize_def)
    moreover have "authorize_client h rq d = (Inl e, d)" using Pair Inl d1 by simp
    ultimately show thesis
      using authorize_catch_cases[of h rq False e d r t] unvalidated rejected by fastforce
  next
    case (Inr app)
    have client: "authorize_client h rq d = (Inr app, d)" using Pair Inr d1 by simp
    then obtain u0 where u0: "h_parse_url h (ar_redirect_uri rq) = Some u0"
      unfolding authorize_client_ok using allowed_parses by blast
    obtain rs ds where sess: "authorize_session h clk rnd rq session app d = (rs, ds)"
      by (cases "authorize_session h clk rnd rq session app d")
    have r: "(case rs of Inl e \<Rightarrow> authorize_catch h rq True e ds | Inr x \<Rightarrow> (Inr x, ds)) = (r, t)"
      using assms client sess by (simp add: oauthAuthorize_def catchE_def split: sum.splits)
    have recover: thesis if "rs = Inl e" "ds = d" for e
    proof -
      have "authorize_catch h rq True e d = (r, t)" using r that by simp
      then show thesis
        using authorize_catch_cases[of h rq True e d r t] error[OF client u0] rejected u0 by fastforce
    qed
    from sess u0 show thesis
    proof (cases rule: authorize_session_cases)
      case (issued s u org)
      then have may: "may_issue h clk rq session d app s u"
        using client by (auto simp: may_issue_def authorize_client_ok)
      show thesis
      proof (cases "code_row d rnd = None")
        case True
        show thesis
          using that(1)[OF may True u0] oauthAuthorize_issues[OF may True u0] assms by simp
      next
        case False
        then have "rs = Inl (PrismaE ''P2002'')" "ds = d"
          using issued(8) by (auto simp: issue_code_eq[OF u0])
        then show thesis by (rule recover)
      qed
    next
      case (error er ds')
      then show thesis using that(2)[OF client u0] r by auto
    next
      case (interact l)
      then show thesis using that(3)[OF client] r by auto
    next
      case (rejected e)
      then show thesis using recover by blast
    qed
  qed
qed

section \<open>Properties\<close>

text \<open>C5 A code is issued exactly when the request is entitled to one: a known app with an allowed
  redirect URI and, for a public client, an S256 challenge; a session that is fresh enough for
  \<open>prompt\<close> and \<open>max_age\<close>; an active user whose organisation belongs to the app; and two-factor
  enrollment where the app requires it. Nothing else is ever written: the one new row binds the
  user, the app, the exact redirect URI, the challenge, the granted scope and the session's methods.\<close>

theorem code_issued_iff_entitled:
  "(snd (oauthAuthorize h clk rnd rq session d) \<noteq> d \<longleftrightarrow>
      (\<exists>app s u. may_issue h clk rq session d app s u \<and> code_row d rnd = None)) \<and>
   (\<exists>rows. snd (oauthAuthorize h clk rnd rq session d) = d\<lparr>saOauthCodes := saOauthCodes d @ rows\<rparr> \<and>
      set rows \<subseteq> {stored_code clk rnd rq app s u |app s u. may_issue h clk rq session d app s u})"
proof -
  obtain r t where rt: "oauthAuthorize h clk rnd rq session d = (r, t)" by fastforce
  have parsed: "\<exists>u0. h_parse_url h (ar_redirect_uri rq) = Some u0"
    if "may_issue h clk rq session d app s u" for app s u
    using that allowed_parses unfolding may_issue_def by blast
  have writes: "d\<lparr>saOauthCodes := saOauthCodes d @ [row]\<rparr> \<noteq> d" for row
  proof
    assume "d\<lparr>saOauthCodes := saOauthCodes d @ [row]\<rparr> = d"
    then have "length (saOauthCodes d @ [row]) = length (saOauthCodes d)"
      by (metis db.select_convs(16) db.surjective db.update_convs(16))
    then show False by simp
  qed
  from rt have "(t \<noteq> d \<longleftrightarrow> (\<exists>app s u. may_issue h clk rq session d app s u \<and> code_row d rnd = None)) \<and>
    (\<exists>rows. t = d\<lparr>saOauthCodes := saOauthCodes d @ rows\<rparr> \<and>
      set rows \<subseteq> {stored_code clk rnd rq app s u |app s u. may_issue h clk rq session d app s u})"
  proof (cases "t = d")
    case True
    have "\<not> (\<exists>app s u. may_issue h clk rq session d app s u \<and> code_row d rnd = None)"
    proof
      assume "\<exists>app s u. may_issue h clk rq session d app s u \<and> code_row d rnd = None"
      then obtain app s u u0 where may: "may_issue h clk rq session d app s u" "code_row d rnd = None"
          "h_parse_url h (ar_redirect_uri rq) = Some u0"
        using parsed by blast
      from oauthAuthorize_issues[OF may] rt True writes show False by (metis snd_conv)
    qed
    with True have "t \<noteq> d \<longleftrightarrow> (\<exists>app s u. may_issue h clk rq session d app s u \<and> code_row d rnd = None)"
      by blast
    moreover have "t = d\<lparr>saOauthCodes := saOauthCodes d @ []\<rparr>" using True by simp
    ultimately show ?thesis
      by (intro conjI exI[of _ "[]"]) (assumption, assumption, simp)
  next
    case False
    from rt show ?thesis
    proof (cases rule: oauthAuthorize_cases)
      case (issued app s u u0)
      then have "set [stored_code clk rnd rq app s u]
          \<subseteq> {stored_code clk rnd rq app s u |app s u. may_issue h clk rq session d app s u}" by auto
      with issued False show ?thesis by blast
    qed (use False in auto)
  qed
  with rt show ?thesis by simp
qed

text \<open>The granted scope is the requested one cut down to the supported scopes, and
  \<open>offline_access\<close> is granted only by an app that allows offline access; splitting the stored scope
  again gives exactly the granted scopes.\<close>

theorem granted_scope_is_bounded:
  "set (js_words (oc_scope (stored_code clk rnd rq app s u))) =
     set (js_words (ar_scope rq)) \<inter>
     (if app_allowOfflineAccess app then {''openid'', ''profile'', ''email'', ''offline_access''}
      else {''openid'', ''profile'', ''email''})"
proof -
  have "set (granted_scopes app (ar_scope rq)) \<subseteq> set SUPPORTED_SCOPES"
    by (auto simp: granted_scopes_def set_parseScopes)
  then have "js_words (oc_scope (stored_code clk rnd rq app s u)) = granted_scopes app (ar_scope rq)"
    by (simp add: stored_code_def js_words_join_supported)
  then show ?thesis
    by (auto simp: granted_scopes_def set_parseScopes SUPPORTED_SCOPES_def)
qed


definition example_request :: authorize_request where
  "example_request = \<lparr>ar_client_id = ''xx'', ar_redirect_uri = ''https://c'', ar_code_challenge = Some ''ch'',
     ar_code_challenge_method = Some ''S256'', ar_state = ''st'', ar_scope = ''openid'', ar_nonce = [],
     ar_prompt = [], ar_max_age = []\<rparr>"

definition example_session :: auth_session where
  "example_session = \<lparr>as_userId = ''b3'', as_twoFactorEnabled = False, as_createdAt = Some 0,
     as_signInMethod = Some ''pwd''\<rparr>"

lemma example_may_issue:
  "may_issue example_host (\<lambda>_. 7) example_request (Some example_session) example_db customer_app example_session
     (example_sa_user 3 ''b3'' 2)"
  by (simp add: may_issue_def example_request_def example_session_def example_defs app_by_id_def
      assertRedirectUriAllowed_def registered_def app_redirect_uris_def must_reauthenticate_def
      js_words_def stale_for_max_age_def sau_by_betterAuthUserId_def org_by_id_def isTwoFactorRequired_def)


text \<open>\<open>prompt=none\<close> is never interactive: once the client and its redirect URI are accepted, such a
  request is never answered by a page of the admin app; it is a redirect to the client or an error.\<close>

theorem prompt_none_never_interacts:
  assumes "''none'' \<in> set (js_words (ar_prompt rq))"
    and "authorize_client h rq d = (Inr app, d)"
  shows "fst (oauthAuthorize h clk rnd rq session d) \<noteq> Inr (ToAdmin page)"
proof
  assume "fst (oauthAuthorize h clk rnd rq session d) = Inr (ToAdmin page)"
  then obtain t where "oauthAuthorize h clk rnd rq session d = (Inr (ToAdmin page), t)"
    by (metis prod.collapse)
  then show False using assms by (cases rule: oauthAuthorize_cases) simp_all
qed

lemma prompt_none_never_interacts_witness:
  "fst (oauthAuthorize example_host (\<lambda>_. 7) ''k'' (example_request\<lparr>ar_prompt := ''none''\<rparr>) None example_db)
     \<noteq> Inr (ToAdmin ''https://admin/login'')"
proof (rule prompt_none_never_interacts)
  show "''none'' \<in> set (js_words (ar_prompt (example_request\<lparr>ar_prompt := ''none''\<rparr>)))"
    by (simp add: js_words_def is_ws_def char_code_def)
  have "authorize_client example_host example_request example_db = (Inr customer_app, example_db)"
    using example_may_issue unfolding authorize_client_ok may_issue_def by blast
  then show "authorize_client example_host (example_request\<lparr>ar_prompt := ''none''\<rparr>) example_db =
      (Inr customer_app, example_db)"
    unfolding authorize_client_ok by simp
qed

text \<open>The forced two-factor enrollment of a confidential client that uses no PKCE cannot complete:
  the authorize URL the user is sent back to carries the text \<open>undefined\<close> as challenge and method,
  and the endpoint refuses such a request as \<open>invalid_request\<close>.\<close>

theorem enrollment_return_without_pkce_is_refused:
  assumes "ar_code_challenge rq = None" "ar_code_challenge_method rq = None"
    and "client_id = ar_client_id rq" "h_sqid_decode h client_id = Some i" "app_by_id d i = Some app"
    and "ar_client_id back = client_id"
    and "ar_code_challenge back = map_of (enroll_query rq) ''code_challenge''"
    and "ar_code_challenge_method back = map_of (enroll_query rq) ''code_challenge_method''"
  shows "authorize_client h back d = (Inl (BadRequestE INVALID_REQUEST), d)"
proof -
  have "map_of (enroll_query rq) ''code_challenge'' = Some ''undefined''"
    "map_of (enroll_query rq) ''code_challenge_method'' = Some ''undefined''"
    using assms(1,2) by (simp_all add: enroll_query_def with_param_def params_set_other js_string_of_def)
  then show ?thesis
    using assms by (simp add: authorize_client_def bindE_def findE_def)
qed

lemma enrollment_return_without_pkce_is_refused_witness:
  "authorize_client example_host (example_request\<lparr>ar_code_challenge := Some ''undefined'',
       ar_code_challenge_method := Some ''undefined''\<rparr>) example_db =
     (Inl (BadRequestE INVALID_REQUEST), example_db)"
  by (rule enrollment_return_without_pkce_is_refused[where client_id = "''xx''" and i = 2 and app = customer_app
        and rq = "example_request\<lparr>ar_code_challenge := None, ar_code_challenge_method := None\<rparr>"])
    (simp_all add: example_request_def enroll_query_def with_param_def js_string_of_def example_defs app_by_id_def)

end
