(* ===== verification/Tables.thy ===== *)
theory Tables
  imports Schema
begin

text \<open>
  The statements the services send to the database, one definition per statement and table: what a
  \<open>create\<close>, \<open>update\<close> or \<open>delete\<close> does to the rows, which constraint of the migrations refuses it
  (P2002 a unique index, P2003 a foreign key with RESTRICT or a missing parent, P2025 no such row),
  and which child rows a delete cascades to. Every one of them keeps the integrity \<open>db_ok\<close>.
\<close>

abbreviation P2002 :: err where "P2002 \<equiv> PrismaE ''P2002''"
abbreviation P2003 :: err where "P2003 \<equiv> PrismaE ''P2003''"
abbreviation P2025 :: err where "P2025 \<equiv> PrismaE ''P2025''"

section \<open>Unique columns\<close>

definition taken :: "('r \<Rightarrow> 'k) \<Rightarrow> 'r list \<Rightarrow> 'r \<Rightarrow> bool" where
  "taken key rows r \<longleftrightarrow> key r \<in> set (map key rows)"

text \<open>A nullable unique column: null never clashes.\<close>

definition taken_opt :: "('r \<Rightarrow> 'k option) \<Rightarrow> 'r list \<Rightarrow> 'r \<Rightarrow> bool" where
  "taken_opt key rows r \<longleftrightarrow> key r \<noteq> None \<and> key r \<in> set (map key rows)"

definition replace_row :: "('r \<Rightarrow> 'k) \<Rightarrow> 'k \<Rightarrow> 'r \<Rightarrow> 'r list \<Rightarrow> 'r list" where
  "replace_row key k y rows = map (\<lambda>r. if key r = k then y else r) rows"

definition others :: "('r \<Rightarrow> 'k) \<Rightarrow> 'k \<Rightarrow> 'r list \<Rightarrow> 'r list" where
  "others key k rows = filter (\<lambda>r. key r \<noteq> k) rows"

lemma set_others [simp]: "set (others key k rows) = {r \<in> set rows. key r \<noteq> k}"
  by (simp add: others_def)

lemma some_values_simps [simp]:
  "some_values [] = []"
  "some_values (x # xs) = (case x of None \<Rightarrow> some_values xs | Some v \<Rightarrow> v # some_values xs)"
  "some_values (xs @ ys) = some_values xs @ some_values ys"
  by (auto simp: some_values_def split: option.splits)

lemma set_some_values [simp]: "v \<in> set (some_values xs) \<longleftrightarrow> Some v \<in> set xs"
  by (induction xs) (auto split: option.splits)

lemma distinct_snoc_row: "distinct (map f rows) \<Longrightarrow> \<not> taken f rows r \<Longrightarrow> distinct (map f (rows @ [r]))"
  by (simp add: taken_def)

lemma distinct_snoc_opt:
  "distinct (some_values (map f rows)) \<Longrightarrow> \<not> taken_opt f rows r \<Longrightarrow>
     distinct (some_values (map f (rows @ [r])))"
  by (auto simp: taken_opt_def split: option.splits)

lemma set_replace_row:
  "set (replace_row key k y rows) =
     {r \<in> set rows. key r \<noteq> k} \<union> (if k \<in> key ` set rows then {y} else {})"
  by (auto simp: replace_row_def)

lemma replace_row_Cons:
  "key a \<noteq> k \<Longrightarrow> replace_row key k y (a # rows) = a # replace_row key k y rows"
  by (simp add: replace_row_def)

lemma key_fresh: "distinct (map key (a # rows)) \<Longrightarrow> r \<in> set rows \<Longrightarrow> key r \<noteq> key a"
  by (metis distinct.simps(2) image_eqI list.set_map list.simps(9))

lemma distinct_replace:
  "distinct (map key rows) \<Longrightarrow> distinct (map f rows) \<Longrightarrow> \<not> taken f (others key k rows) y \<Longrightarrow>
     distinct (map f (replace_row key k y rows))"
proof (induction rows)
  case (Cons a rows)
  show ?case
  proof (cases "key a = k")
    case True
    then have rows: "replace_row key k y (a # rows) = y # rows" "set (others key k (a # rows)) = set rows"
      using key_fresh[OF Cons.prems(1)] by (auto simp: replace_row_def intro: map_idI)
    show ?thesis
      using Cons.prems(2,3) unfolding rows(1) taken_def set_map rows(2) by simp
  next
    case False
    with Cons.prems have y: "f y \<noteq> f a" and "\<not> taken f (others key k rows) y"
      by (auto simp: taken_def)
    then have "distinct (map f (replace_row key k y rows))" using Cons.prems(1,2) by (intro Cons.IH) simp_all
    moreover have "f a \<notin> f ` set (replace_row key k y rows)"
      using Cons.prems(2) y by (auto simp: set_replace_row)
    ultimately show ?thesis using False by (simp add: replace_row_Cons)
  qed
qed (simp add: replace_row_def)

lemma distinct_replace_opt:
  "distinct (map key rows) \<Longrightarrow> distinct (some_values (map f rows)) \<Longrightarrow>
     \<not> taken_opt f (others key k rows) y \<Longrightarrow> distinct (some_values (map f (replace_row key k y rows)))"
proof (induction rows)
  case (Cons a rows)
  show ?case
  proof (cases "key a = k")
    case True
    then have rows: "replace_row key k y (a # rows) = y # rows" "set (others key k (a # rows)) = set rows"
      using key_fresh[OF Cons.prems(1)] by (auto simp: replace_row_def intro: map_idI)
    show ?thesis
      using Cons.prems(2,3) unfolding rows(1) taken_opt_def set_map rows(2)
      by (auto split: option.splits)
  next
    case False
    with Cons.prems have "f y = None \<or> f y \<noteq> f a" and "\<not> taken_opt f (others key k rows) y"
      by (auto simp: taken_opt_def)
    then have ih: "distinct (some_values (map f (replace_row key k y rows)))"
      using Cons.prems(1,2) by (intro Cons.IH) (simp_all split: option.splits)
    have "Some v \<notin> f ` set (replace_row key k y rows)" if "f a = Some v" for v
      using Cons.prems(2) \<open>f y = None \<or> f y \<noteq> f a\<close> that by (auto simp: set_replace_row)
    then show ?thesis using False ih
      unfolding replace_row_Cons[where key = key, OF False] by (auto simp flip: set_map split: option.splits)
  qed
qed (simp add: replace_row_def)

lemma distinct_some_filter: "distinct (some_values (map f rows)) \<Longrightarrow> distinct (some_values (map f (filter P rows)))"
  by (induction rows) (auto split: option.splits)

text \<open>A column the new row agrees on with the row it replaces is unchanged.\<close>

lemma replace_row_column:
  "distinct (map key rows) \<Longrightarrow> x \<in> set rows \<Longrightarrow> key x = k \<Longrightarrow> f y = f x \<Longrightarrow>
     map f (replace_row key k y rows) = map f rows"
  by (auto simp: replace_row_def dest: distinct_map_eq)

lemma replace_row_image:
  "distinct (map key rows) \<Longrightarrow> x \<in> set rows \<Longrightarrow> key x = k \<Longrightarrow> f y = f x \<Longrightarrow>
     f ` set (replace_row key k y rows) = f ` set rows"
  by (metis list.set_map replace_row_column)

section \<open>Credential accounts\<close>

definition create_user :: "user_row \<Rightarrow> (db, user_row) eff" where
  "create_user u = (\<lambda>d.
     if taken usr_id (users d) u \<or> taken usr_email (users d) u then (Inl P2002, d)
     else (Inr u, d\<lparr>users := users d @ [u]\<rparr>))"

definition update_user :: "string \<Rightarrow> (user_row \<Rightarrow> user_row) \<Rightarrow> (db, user_row) eff" where
  "update_user i g = (\<lambda>d.
     case user_by_id d i of
       None \<Rightarrow> (Inl P2025, d)
     | Some u \<Rightarrow> (Inr (g u), d\<lparr>users := replace_row usr_id i (g u) (users d)\<rparr>))"

text \<open>Sessions, accounts and the second factor cascade; a linked \<open>SaUser\<close> blocks the delete.\<close>

definition delete_user :: "string \<Rightarrow> (db, unit) eff" where
  "delete_user i = (\<lambda>d.
     if user_by_id d i = None then (Inl P2025, d)
     else if sau_by_betterAuthUserId d i \<noteq> None then (Inl P2003, d)
     else (Inr (), d\<lparr>users := filter (\<lambda>u. usr_id u \<noteq> i) (users d),
                     sessions := filter (\<lambda>s. ses_userId s \<noteq> i) (sessions d),
                     accounts := filter (\<lambda>a. acc_userId a \<noteq> i) (accounts d),
                     twoFactors := filter (\<lambda>t. tf_userId t \<noteq> i) (twoFactors d)\<rparr>))"

definition create_account :: "account_row \<Rightarrow> (db, unit) eff" where
  "create_account a = (\<lambda>d.
     if taken (\<lambda>a. (acc_providerId a, acc_accountId a)) (accounts d) a then (Inl P2002, d)
     else if user_by_id d (acc_userId a) = None then (Inl P2003, d)
     else (Inr (), d\<lparr>accounts := accounts d @ [a]\<rparr>))"

definition delete_sessions_of :: "string \<Rightarrow> (db, unit) eff" where
  "delete_sessions_of i = modifyE (\<lambda>d. d\<lparr>sessions := filter (\<lambda>s. ses_userId s \<noteq> i) (sessions d)\<rparr>)"

definition delete_two_factor_of :: "string \<Rightarrow> (db, unit) eff" where
  "delete_two_factor_of i = modifyE (\<lambda>d. d\<lparr>twoFactors := filter (\<lambda>t. tf_userId t \<noteq> i) (twoFactors d)\<rparr>)"

section \<open>Organisation users\<close>

definition create_sa_user :: "sa_user \<Rightarrow> (db, sa_user) eff" where
  "create_sa_user u = (\<lambda>d.
     let u' = u\<lparr>sau_id := nextId d SaUserT\<rparr> in
     if taken sau_publicId (saUsers d) u' \<or> taken sau_betterAuthUserId (saUsers d) u' \<or>
        taken_opt sau_phoneNumber (saUsers d) u' \<or> taken_opt sau_username (saUsers d) u'
     then (Inl P2002, d)
     else if user_by_id d (sau_betterAuthUserId u) = None \<or> org_by_id d (sau_orgId u) = None
     then (Inl P2003, d)
     else (Inr u', d\<lparr>saUsers := saUsers d @ [u'],
                     nextId := (nextId d)(SaUserT := nextId d SaUserT + 1)\<rparr>))"

definition update_sa_user :: "string \<Rightarrow> (sa_user \<Rightarrow> sa_user) \<Rightarrow> (db, sa_user) eff" where
  "update_sa_user pid g = (\<lambda>d.
     case sau_by_publicId d pid of
       None \<Rightarrow> (Inl P2025, d)
     | Some u \<Rightarrow>
         (let u' = g u; rest = others sau_publicId pid (saUsers d) in
          if taken_opt sau_phoneNumber rest u' \<or> taken_opt sau_username rest u' then (Inl P2002, d)
          else (Inr u', d\<lparr>saUsers := replace_row sau_publicId pid u' (saUsers d)\<rparr>)))"

text \<open>Invitations, grants and consents cascade.\<close>

definition delete_sa_user :: "string \<Rightarrow> (db, unit) eff" where
  "delete_sa_user pid = (\<lambda>d.
     case sau_by_publicId d pid of
       None \<Rightarrow> (Inl P2025, d)
     | Some u \<Rightarrow>
         (Inr (), d\<lparr>saUsers := filter (\<lambda>r. sau_publicId r \<noteq> pid) (saUsers d),
                    saInvitations := filter (\<lambda>i. inv_userId i \<noteq> sau_id u) (saInvitations d),
                    saUserRoles := filter (\<lambda>x. fst x \<noteq> sau_id u) (saUserRoles d),
                    saUserPermissions := filter (\<lambda>x. fst x \<noteq> sau_id u) (saUserPermissions d),
                    saUserConsents := filter (\<lambda>c. con_saUserId c \<noteq> sau_id u) (saUserConsents d)\<rparr>))"

definition create_user_roles :: "int \<Rightarrow> int list \<Rightarrow> (db, unit) eff" where
  "create_user_roles uid rids = (\<lambda>d.
     let new = map (Pair uid) rids in
     if \<not> distinct (saUserRoles d @ new) then (Inl P2002, d)
     else if rids \<noteq> [] \<and> (sau_by_id d uid = None \<or> list_ex (\<lambda>r. role_by_id d r = None) rids)
     then (Inl P2003, d)
     else (Inr (), d\<lparr>saUserRoles := saUserRoles d @ new\<rparr>))"

definition delete_user_roles_of :: "int \<Rightarrow> (db, unit) eff" where
  "delete_user_roles_of uid =
     modifyE (\<lambda>d. d\<lparr>saUserRoles := filter (\<lambda>x. fst x \<noteq> uid) (saUserRoles d)\<rparr>)"

definition create_user_permissions :: "int \<Rightarrow> int list \<Rightarrow> (db, unit) eff" where
  "create_user_permissions uid pids = (\<lambda>d.
     let new = map (Pair uid) pids in
     if \<not> distinct (saUserPermissions d @ new) then (Inl P2002, d)
     else if pids \<noteq> [] \<and> (sau_by_id d uid = None \<or> list_ex (\<lambda>p. perm_by_id d p = None) pids)
     then (Inl P2003, d)
     else (Inr (), d\<lparr>saUserPermissions := saUserPermissions d @ new\<rparr>))"

definition delete_user_permissions_of :: "int \<Rightarrow> (db, unit) eff" where
  "delete_user_permissions_of uid =
     modifyE (\<lambda>d. d\<lparr>saUserPermissions := filter (\<lambda>x. fst x \<noteq> uid) (saUserPermissions d)\<rparr>)"

definition create_invitation :: "sa_invitation \<Rightarrow> (db, sa_invitation) eff" where
  "create_invitation i = (\<lambda>d.
     let i' = i\<lparr>inv_id := nextId d InvitationT\<rparr> in
     if taken inv_publicId (saInvitations d) i' \<or> taken inv_token (saInvitations d) i' then (Inl P2002, d)
     else if sau_by_id d (inv_userId i) = None then (Inl P2003, d)
     else (Inr i', d\<lparr>saInvitations := saInvitations d @ [i'],
                     nextId := (nextId d)(InvitationT := nextId d InvitationT + 1)\<rparr>))"

definition create_consents :: "sa_user_consent list \<Rightarrow> (db, unit) eff" where
  "create_consents cs = (\<lambda>d.
     if \<not> distinct (map (\<lambda>c. (con_saUserId c, con_appId c, con_documentType c)) (saUserConsents d @ cs))
     then (Inl P2002, d)
     else if list_ex (\<lambda>c. sau_by_id d (con_saUserId c) = None \<or> app_by_id d (con_appId c) = None) cs
     then (Inl P2003, d)
     else (Inr (), d\<lparr>saUserConsents := saUserConsents d @ cs\<rparr>))"

section \<open>Roles and permissions\<close>

definition create_role :: "sa_role \<Rightarrow> (db, sa_role) eff" where
  "create_role r = (\<lambda>d.
     let r' = r\<lparr>role_id := nextId d RoleT\<rparr> in
     if taken role_publicId (saRoles d) r' \<or> taken (\<lambda>r. (role_appId r, role_name r)) (saRoles d) r'
     then (Inl P2002, d)
     else if app_by_id d (role_appId r) = None then (Inl P2003, d)
     else (Inr r', d\<lparr>saRoles := saRoles d @ [r'], nextId := (nextId d)(RoleT := nextId d RoleT + 1)\<rparr>))"

definition update_role :: "int \<Rightarrow> (sa_role \<Rightarrow> sa_role) \<Rightarrow> (db, sa_role) eff" where
  "update_role i g = (\<lambda>d.
     case role_by_id d i of
       None \<Rightarrow> (Inl P2025, d)
     | Some r \<Rightarrow>
         (let r' = g r; rest = others role_id i (saRoles d) in
          if taken role_publicId rest r' \<or> taken (\<lambda>r. (role_appId r, role_name r)) rest r' then (Inl P2002, d)
          else (Inr r', d\<lparr>saRoles := replace_row role_id i r' (saRoles d)\<rparr>)))"

text \<open>Its permission and user assignments cascade; an app's default role blocks the delete.\<close>

definition delete_role :: "int \<Rightarrow> (db, unit) eff" where
  "delete_role i = (\<lambda>d.
     if role_by_id d i = None then (Inl P2025, d)
     else if list_ex (\<lambda>a. app_defaultRoleId a = Some i) (saApps d) then (Inl P2003, d)
     else (Inr (), d\<lparr>saRoles := filter (\<lambda>r. role_id r \<noteq> i) (saRoles d),
                     saRolePermissions := filter (\<lambda>x. fst x \<noteq> i) (saRolePermissions d),
                     saUserRoles := filter (\<lambda>x. snd x \<noteq> i) (saUserRoles d)\<rparr>))"

definition delete_role_permissions_of :: "int \<Rightarrow> (db, unit) eff" where
  "delete_role_permissions_of i =
     modifyE (\<lambda>d. d\<lparr>saRolePermissions := filter (\<lambda>x. fst x \<noteq> i) (saRolePermissions d)\<rparr>)"

definition create_role_permissions :: "int \<Rightarrow> int list \<Rightarrow> (db, unit) eff" where
  "create_role_permissions i pids = (\<lambda>d.
     let new = map (Pair i) pids in
     if \<not> distinct (saRolePermissions d @ new) then (Inl P2002, d)
     else if pids \<noteq> [] \<and> (role_by_id d i = None \<or> list_ex (\<lambda>p. perm_by_id d p = None) pids)
     then (Inl P2003, d)
     else (Inr (), d\<lparr>saRolePermissions := saRolePermissions d @ new\<rparr>))"

definition create_permission :: "sa_permission \<Rightarrow> (db, sa_permission) eff" where
  "create_permission p = (\<lambda>d.
     let p' = p\<lparr>perm_id := nextId d PermissionT\<rparr> in
     if taken perm_publicId (saPermissions d) p' \<or> taken perm_name (saPermissions d) p' then (Inl P2002, d)
     else if app_by_id d (perm_appId p) = None then (Inl P2003, d)
     else (Inr p', d\<lparr>saPermissions := saPermissions d @ [p'],
                     nextId := (nextId d)(PermissionT := nextId d PermissionT + 1)\<rparr>))"

definition update_permission :: "int \<Rightarrow> (sa_permission \<Rightarrow> sa_permission) \<Rightarrow> (db, sa_permission) eff" where
  "update_permission i g = (\<lambda>d.
     case perm_by_id d i of
       None \<Rightarrow> (Inl P2025, d)
     | Some p \<Rightarrow>
         (let p' = g p; rest = others perm_id i (saPermissions d) in
          if taken perm_publicId rest p' \<or> taken perm_name rest p' then (Inl P2002, d)
          else (Inr p', d\<lparr>saPermissions := replace_row perm_id i p' (saPermissions d)\<rparr>)))"

text \<open>Every grant of the permission cascades.\<close>

definition delete_permission :: "int \<Rightarrow> (db, unit) eff" where
  "delete_permission i = (\<lambda>d.
     if perm_by_id d i = None then (Inl P2025, d)
     else (Inr (), d\<lparr>saPermissions := filter (\<lambda>p. perm_id p \<noteq> i) (saPermissions d),
                     saRolePermissions := filter (\<lambda>x. snd x \<noteq> i) (saRolePermissions d),
                     saUserPermissions := filter (\<lambda>x. snd x \<noteq> i) (saUserPermissions d)\<rparr>))"

section \<open>Organisations and apps\<close>

definition create_org :: "sa_org \<Rightarrow> (db, sa_org) eff" where
  "create_org g = (\<lambda>d.
     let g' = g\<lparr>org_id := nextId d OrgT\<rparr> in
     if taken org_publicId (saOrgs d) g' \<or> taken (\<lambda>r. (org_appId r, org_name r)) (saOrgs d) g'
     then (Inl P2002, d)
     else if app_by_id d (org_appId g) = None then (Inl P2003, d)
     else (Inr g', d\<lparr>saOrgs := saOrgs d @ [g'], nextId := (nextId d)(OrgT := nextId d OrgT + 1)\<rparr>))"

definition update_org :: "int \<Rightarrow> (sa_org \<Rightarrow> sa_org) \<Rightarrow> (db, sa_org) eff" where
  "update_org i f = (\<lambda>d.
     case org_by_id d i of
       None \<Rightarrow> (Inl P2025, d)
     | Some g \<Rightarrow>
         (let g' = f g; rest = others org_id i (saOrgs d) in
          if taken org_publicId rest g' \<or> taken (\<lambda>r. (org_appId r, org_name r)) rest g' then (Inl P2002, d)
          else (Inr g', d\<lparr>saOrgs := replace_row org_id i g' (saOrgs d)\<rparr>)))"

definition delete_org :: "int \<Rightarrow> (db, unit) eff" where
  "delete_org i = (\<lambda>d.
     if org_by_id d i = None then (Inl P2025, d)
     else if list_ex (\<lambda>u. sau_orgId u = i) (saUsers d) \<or>
             list_ex (\<lambda>a. app_defaultOrgId a = Some i) (saApps d) then (Inl P2003, d)
     else (Inr (), d\<lparr>saOrgs := filter (\<lambda>g. org_id g \<noteq> i) (saOrgs d)\<rparr>))"

definition default_refs_ok :: "db \<Rightarrow> sa_app \<Rightarrow> bool" where
  "default_refs_ok d a \<longleftrightarrow>
     (case app_defaultOrgId a of None \<Rightarrow> True | Some i \<Rightarrow> org_by_id d i \<noteq> None) \<and>
     (case app_defaultRoleId a of None \<Rightarrow> True | Some i \<Rightarrow> role_by_id d i \<noteq> None)"

definition create_app :: "sa_app \<Rightarrow> (db, sa_app) eff" where
  "create_app a = (\<lambda>d.
     let a' = a\<lparr>app_id := nextId d AppT\<rparr> in
     if taken app_publicId (saApps d) a' \<or> taken app_name (saApps d) a' then (Inl P2002, d)
     else if \<not> default_refs_ok d a then (Inl P2003, d)
     else (Inr a', d\<lparr>saApps := saApps d @ [a'], nextId := (nextId d)(AppT := nextId d AppT + 1)\<rparr>))"

definition update_app :: "int \<Rightarrow> (sa_app \<Rightarrow> sa_app) \<Rightarrow> (db, sa_app) eff" where
  "update_app i g = (\<lambda>d.
     case app_by_id d i of
       None \<Rightarrow> (Inl P2025, d)
     | Some a \<Rightarrow>
         (let a' = g a; rest = others app_id i (saApps d) in
          if taken app_publicId rest a' \<or> taken app_name rest a' then (Inl P2002, d)
          else if \<not> default_refs_ok d a' then (Inl P2003, d)
          else (Inr a', d\<lparr>saApps := replace_row app_id i a' (saApps d)\<rparr>)))"

text \<open>Redirect URIs and consents cascade; organisations, roles and permissions block the delete.\<close>

definition delete_app :: "int \<Rightarrow> (db, unit) eff" where
  "delete_app i = (\<lambda>d.
     if app_by_id d i = None then (Inl P2025, d)
     else if list_ex (\<lambda>g. org_appId g = i) (saOrgs d) \<or> list_ex (\<lambda>r. role_appId r = i) (saRoles d) \<or>
             list_ex (\<lambda>p. perm_appId p = i) (saPermissions d) then (Inl P2003, d)
     else (Inr (), d\<lparr>saApps := filter (\<lambda>a. app_id a \<noteq> i) (saApps d),
                     saRedirectUris := filter (\<lambda>r. ru_appId r \<noteq> i) (saRedirectUris d),
                     saUserConsents := filter (\<lambda>c. con_appId c \<noteq> i) (saUserConsents d)\<rparr>))"

definition delete_redirect_uris_of :: "int \<Rightarrow> (db, unit) eff" where
  "delete_redirect_uris_of i =
     modifyE (\<lambda>d. d\<lparr>saRedirectUris := filter (\<lambda>r. ru_appId r \<noteq> i) (saRedirectUris d)\<rparr>)"

definition create_redirect_uris :: "redirect_uri_row list \<Rightarrow> (db, unit) eff" where
  "create_redirect_uris rs = (\<lambda>d.
     if \<not> distinct (map (\<lambda>r. (ru_appId r, ru_uri r, ru_kind r)) (saRedirectUris d @ rs)) then (Inl P2002, d)
     else if list_ex (\<lambda>r. app_by_id d (ru_appId r) = None) rs then (Inl P2003, d)
     else (Inr (), d\<lparr>saRedirectUris := saRedirectUris d @ rs\<rparr>))"

section \<open>Integrity is kept\<close>

lemmas statement_defs = create_user_def update_user_def delete_user_def create_account_def
  create_sa_user_def update_sa_user_def delete_sa_user_def create_user_roles_def
  create_user_permissions_def create_invitation_def create_consents_def create_role_def
  update_role_def delete_role_def create_role_permissions_def create_permission_def
  update_permission_def delete_permission_def create_org_def update_org_def delete_org_def
  create_app_def update_app_def delete_app_def create_redirect_uris_def

lemma absent_lookup:
  "user_by_id d i = None \<longleftrightarrow> i \<notin> usr_id ` set (users d)"
  "sau_by_betterAuthUserId d q = None \<longleftrightarrow> q \<notin> sau_betterAuthUserId ` set (saUsers d)"
  "app_by_id d n = None \<longleftrightarrow> n \<notin> app_id ` set (saApps d)"
  "org_by_id d n = None \<longleftrightarrow> n \<notin> org_id ` set (saOrgs d)"
  "sau_by_id d n = None \<longleftrightarrow> n \<notin> sau_id ` set (saUsers d)"
  "role_by_id d n = None \<longleftrightarrow> n \<notin> role_id ` set (saRoles d)"
  "perm_by_id d n = None \<longleftrightarrow> n \<notin> perm_id ` set (saPermissions d)"
  by (auto simp: lookup_defs find_None_all)

lemma image_key_filter: "f ` {x \<in> S. f x \<noteq> k} = f ` S - {k}"
  by auto

lemma image_subset_filter: "f ` S \<subseteq> T \<Longrightarrow> f ` {x \<in> S. P x} \<subseteq> T"
  by auto

lemma diff_subset: "A \<subseteq> B \<Longrightarrow> A - C \<subseteq> B"
  by auto

lemma some_values_filter_subset:
  "set (some_values (map f xs)) \<subseteq> B \<Longrightarrow> set (some_values (map f (filter P xs))) \<subseteq> B"
  by (auto simp: subset_iff)

lemmas cascade = image_key_filter image_subset_filter diff_subset subset_Diff_insert
  some_values_filter_subset

lemmas integrity = db_ok_def keys_ok_def fks_ok_def seqs_ok_def

lemma keeps_create_user [keeps_intros]: "keeps db_ok (create_user u)"
  by (rule keepsI)
    (auto simp: create_user_def taken_def db_ok_def keys_ok_def fks_ok_def seqs_ok_def split: if_splits)

lemma keeps_delete_user [keeps_intros]: "keeps db_ok (delete_user i)"
proof (rule keepsI)
  fix d r t assume ok: "db_ok d" and run: "delete_user i d = (r, t)"
  show "db_ok t"
  proof (cases "t = d")
    case False
    then have t: "t = d\<lparr>users := filter (\<lambda>u. usr_id u \<noteq> i) (users d),
                     sessions := filter (\<lambda>s. ses_userId s \<noteq> i) (sessions d),
                     accounts := filter (\<lambda>a. acc_userId a \<noteq> i) (accounts d),
                     twoFactors := filter (\<lambda>t. tf_userId t \<noteq> i) (twoFactors d)\<rparr>"
      and free: "i \<notin> sau_betterAuthUserId ` set (saUsers d)"
      using run by (auto simp: delete_user_def absent_lookup split: if_splits)
    have "keys_ok t" "seqs_ok t"
      using ok by (simp_all add: t integrity distinct_map_filter_keys)
    moreover have "fks_ok t"
      using ok free by (simp add: t integrity cascade)
    ultimately show ?thesis by (simp add: db_ok_def)
  qed (simp add: ok)
qed

lemma keeps_simple_deletes [keeps_intros]:
  "keeps db_ok (delete_sessions_of i)" "keeps db_ok (delete_two_factor_of i)"
  "keeps db_ok (delete_user_roles_of n)" "keeps db_ok (delete_user_permissions_of n)"
  "keeps db_ok (delete_role_permissions_of n)" "keeps db_ok (delete_redirect_uris_of n)"
  by (simp_all add: keeps_def delete_sessions_of_def delete_two_factor_of_def delete_user_roles_of_def
      delete_user_permissions_of_def delete_role_permissions_of_def delete_redirect_uris_of_def
      integrity cascade distinct_map_filter_keys)

lemma keeps_create_account [keeps_intros]: "keeps db_ok (create_account a)"
  by (rule keepsI)
    (auto simp: create_account_def taken_def integrity absent_lookup split: if_splits)

text \<open>The next number of a sequence is fresh, and the sequence only grows.\<close>

lemma next_id_fresh:
  assumes "seqs_ok d"
  shows "nextId d AppT \<notin> app_id ` set (saApps d)" "nextId d OrgT \<notin> org_id ` set (saOrgs d)"
    "nextId d SaUserT \<notin> sau_id ` set (saUsers d)" "nextId d PermissionT \<notin> perm_id ` set (saPermissions d)"
    "nextId d RoleT \<notin> role_id ` set (saRoles d)" "nextId d InvitationT \<notin> inv_id ` set (saInvitations d)"
  using assms by (fastforce simp: seqs_ok_def)+

lemma db_ok_parts: "db_ok d \<Longrightarrow> keys_ok d" "db_ok d \<Longrightarrow> fks_ok d" "db_ok d \<Longrightarrow> seqs_ok d"
  by (simp_all add: db_ok_def)

lemma db_okI: "keys_ok d \<Longrightarrow> fks_ok d \<Longrightarrow> seqs_ok d \<Longrightarrow> db_ok d"
  by (simp add: db_ok_def)

lemma keeps_create_sa_user [keeps_intros]: "keeps db_ok (create_sa_user u)"
proof (rule keepsI)
  fix d r t assume ok: "db_ok d" and run: "create_sa_user u d = (r, t)"
  show "db_ok t"
  proof (cases "t = d")
    case False
    let ?u = "u\<lparr>sau_id := nextId d SaUserT\<rparr>"
    have t: "t = d\<lparr>saUsers := saUsers d @ [?u], nextId := (nextId d)(SaUserT := nextId d SaUserT + 1)\<rparr>"
      and free: "\<not> taken sau_publicId (saUsers d) ?u" "\<not> taken sau_betterAuthUserId (saUsers d) ?u"
        "\<not> taken_opt sau_phoneNumber (saUsers d) ?u" "\<not> taken_opt sau_username (saUsers d) ?u"
      and refs: "sau_betterAuthUserId u \<in> usr_id ` set (users d)" "sau_orgId u \<in> org_id ` set (saOrgs d)"
      using run False by (auto simp: create_sa_user_def Let_def absent_lookup split: if_splits)
    note parts = db_ok_parts[OF ok]
    have "keys_ok t"
      using parts(1) free distinct_snoc_opt[OF _ free(3)] distinct_snoc_opt[OF _ free(4)]
        next_id_fresh(3)[OF parts(3)]
      by (simp add: t keys_ok_def taken_def)
    moreover have "fks_ok t" using parts(2) refs by (auto simp: t fks_ok_def)
    moreover have "seqs_ok t" using parts(3) by (auto simp: t seqs_ok_def)
    ultimately show ?thesis by (rule db_okI)
  qed (simp add: ok)
qed

lemma keeps_db_okI:
  assumes "\<And>d t. keys_ok d \<Longrightarrow> fks_ok d \<Longrightarrow> seqs_ok d \<Longrightarrow> t \<noteq> d \<Longrightarrow> snd (m d) = t \<Longrightarrow>
     keys_ok t \<and> fks_ok t \<and> seqs_ok t"
  shows "keeps db_ok m"
proof (rule keepsI)
  fix d r t assume ok: "db_ok d" and run: "m d = (r, t)"
  show "db_ok t"
  proof (cases "t = d")
    case False
    then have "keys_ok t \<and> fks_ok t \<and> seqs_ok t"
      using run by (intro assms[OF db_ok_parts[OF ok]]) simp_all
    then show ?thesis by (simp add: db_ok_def)
  qed (simp add: ok)
qed

lemma keeps_create_user_roles [keeps_intros]: "keeps db_ok (create_user_roles n ks)"
proof (rule keeps_db_okI)
  fix d t assume ok: "keys_ok d" "fks_ok d" "seqs_ok d" and run: "t \<noteq> d" "snd (create_user_roles n ks d) = t"
  then have t: "t = d\<lparr>saUserRoles := saUserRoles d @ map (Pair n) ks\<rparr>"
    and new: "distinct (saUserRoles d @ map (Pair n) ks)"
    and refs: "ks = [] \<or> n \<in> sau_id ` set (saUsers d) \<and> set ks \<subseteq> role_id ` set (saRoles d)"
    by (auto simp: create_user_roles_def Let_def absent_lookup list_ex_iff split: if_splits option.splits)
  have "keys_ok t" using ok(1) new by (simp add: t keys_ok_def)
  moreover have "fks_ok t" using ok(2) refs by (auto simp: t fks_ok_def image_subset_iff)
  moreover have "seqs_ok t" using ok(3) by (auto simp: t seqs_ok_def)
  ultimately show "keys_ok t \<and> fks_ok t \<and> seqs_ok t" by simp
qed

lemma keeps_create_user_permissions [keeps_intros]: "keeps db_ok (create_user_permissions n ks)"
proof (rule keeps_db_okI)
  fix d t assume ok: "keys_ok d" "fks_ok d" "seqs_ok d" and run: "t \<noteq> d" "snd (create_user_permissions n ks d) = t"
  then have t: "t = d\<lparr>saUserPermissions := saUserPermissions d @ map (Pair n) ks\<rparr>"
    and new: "distinct (saUserPermissions d @ map (Pair n) ks)"
    and refs: "ks = [] \<or> n \<in> sau_id ` set (saUsers d) \<and> set ks \<subseteq> perm_id ` set (saPermissions d)"
    by (auto simp: create_user_permissions_def Let_def absent_lookup list_ex_iff split: if_splits option.splits)
  have "keys_ok t" using ok(1) new by (simp add: t keys_ok_def)
  moreover have "fks_ok t" using ok(2) refs by (auto simp: t fks_ok_def image_subset_iff)
  moreover have "seqs_ok t" using ok(3) by (auto simp: t seqs_ok_def)
  ultimately show "keys_ok t \<and> fks_ok t \<and> seqs_ok t" by simp
qed

lemma keeps_create_role_permissions [keeps_intros]: "keeps db_ok (create_role_permissions n ks)"
proof (rule keeps_db_okI)
  fix d t assume ok: "keys_ok d" "fks_ok d" "seqs_ok d" and run: "t \<noteq> d" "snd (create_role_permissions n ks d) = t"
  then have t: "t = d\<lparr>saRolePermissions := saRolePermissions d @ map (Pair n) ks\<rparr>"
    and new: "distinct (saRolePermissions d @ map (Pair n) ks)"
    and refs: "ks = [] \<or> n \<in> role_id ` set (saRoles d) \<and> set ks \<subseteq> perm_id ` set (saPermissions d)"
    by (auto simp: create_role_permissions_def Let_def absent_lookup list_ex_iff split: if_splits option.splits)
  have "keys_ok t" using ok(1) new by (simp add: t keys_ok_def)
  moreover have "fks_ok t" using ok(2) refs by (auto simp: t fks_ok_def image_subset_iff)
  moreover have "seqs_ok t" using ok(3) by (auto simp: t seqs_ok_def)
  ultimately show "keys_ok t \<and> fks_ok t \<and> seqs_ok t" by simp
qed

lemma keeps_create_invitation [keeps_intros]: "keeps db_ok (create_invitation x)"
proof (rule keeps_db_okI)
  fix d t assume ok: "keys_ok d" "fks_ok d" "seqs_ok d" and run: "t \<noteq> d" "snd (create_invitation x d) = t"
  then have t: "t = d\<lparr>saInvitations := saInvitations d @ [x\<lparr>inv_id := nextId d InvitationT\<rparr>], nextId := (nextId d)(InvitationT := nextId d InvitationT + 1)\<rparr>"
    and free: "\<not> taken inv_publicId (saInvitations d) (x\<lparr>inv_id := nextId d InvitationT\<rparr>)" "\<not> taken inv_token (saInvitations d) (x\<lparr>inv_id := nextId d InvitationT\<rparr>)"
    and refs: "inv_userId x \<in> sau_id ` set (saUsers d)"
    by (auto simp: create_invitation_def Let_def absent_lookup list_ex_iff split: if_splits option.splits)
  have "keys_ok t" using ok(1) free next_id_fresh[OF ok(3)] by (simp add: t keys_ok_def taken_def)
  moreover have "fks_ok t" using ok(2) refs by (auto simp: t fks_ok_def)
  moreover have "seqs_ok t" using ok(3) by (auto simp: t seqs_ok_def)
  ultimately show "keys_ok t \<and> fks_ok t \<and> seqs_ok t" by simp
qed

lemma keeps_create_role [keeps_intros]: "keeps db_ok (create_role x)"
proof (rule keeps_db_okI)
  fix d t assume ok: "keys_ok d" "fks_ok d" "seqs_ok d" and run: "t \<noteq> d" "snd (create_role x d) = t"
  then have t: "t = d\<lparr>saRoles := saRoles d @ [x\<lparr>role_id := nextId d RoleT\<rparr>], nextId := (nextId d)(RoleT := nextId d RoleT + 1)\<rparr>"
    and free: "\<not> taken role_publicId (saRoles d) (x\<lparr>role_id := nextId d RoleT\<rparr>)" "\<not> taken (\<lambda>r. (role_appId r, role_name r)) (saRoles d) (x\<lparr>role_id := nextId d RoleT\<rparr>)"
    and refs: "role_appId x \<in> app_id ` set (saApps d)"
    by (auto simp: create_role_def Let_def absent_lookup list_ex_iff split: if_splits option.splits)
  have "keys_ok t" using ok(1) free next_id_fresh[OF ok(3)] by (simp add: t keys_ok_def taken_def)
  moreover have "fks_ok t" using ok(2) refs by (auto simp: t fks_ok_def)
  moreover have "seqs_ok t" using ok(3) by (auto simp: t seqs_ok_def)
  ultimately show "keys_ok t \<and> fks_ok t \<and> seqs_ok t" by simp
qed

lemma keeps_create_permission [keeps_intros]: "keeps db_ok (create_permission x)"
proof (rule keeps_db_okI)
  fix d t assume ok: "keys_ok d" "fks_ok d" "seqs_ok d" and run: "t \<noteq> d" "snd (create_permission x d) = t"
  then have t: "t = d\<lparr>saPermissions := saPermissions d @ [x\<lparr>perm_id := nextId d PermissionT\<rparr>], nextId := (nextId d)(PermissionT := nextId d PermissionT + 1)\<rparr>"
    and free: "\<not> taken perm_publicId (saPermissions d) (x\<lparr>perm_id := nextId d PermissionT\<rparr>)" "\<not> taken perm_name (saPermissions d) (x\<lparr>perm_id := nextId d PermissionT\<rparr>)"
    and refs: "perm_appId x \<in> app_id ` set (saApps d)"
    by (auto simp: create_permission_def Let_def absent_lookup list_ex_iff split: if_splits option.splits)
  have "keys_ok t" using ok(1) free next_id_fresh[OF ok(3)] by (simp add: t keys_ok_def taken_def)
  moreover have "fks_ok t" using ok(2) refs by (auto simp: t fks_ok_def)
  moreover have "seqs_ok t" using ok(3) by (auto simp: t seqs_ok_def)
  ultimately show "keys_ok t \<and> fks_ok t \<and> seqs_ok t" by simp
qed

lemma keeps_create_org [keeps_intros]: "keeps db_ok (create_org x)"
proof (rule keeps_db_okI)
  fix d t assume ok: "keys_ok d" "fks_ok d" "seqs_ok d" and run: "t \<noteq> d" "snd (create_org x d) = t"
  then have t: "t = d\<lparr>saOrgs := saOrgs d @ [x\<lparr>org_id := nextId d OrgT\<rparr>], nextId := (nextId d)(OrgT := nextId d OrgT + 1)\<rparr>"
    and free: "\<not> taken org_publicId (saOrgs d) (x\<lparr>org_id := nextId d OrgT\<rparr>)" "\<not> taken (\<lambda>r. (org_appId r, org_name r)) (saOrgs d) (x\<lparr>org_id := nextId d OrgT\<rparr>)"
    and refs: "org_appId x \<in> app_id ` set (saApps d)"
    by (auto simp: create_org_def Let_def absent_lookup list_ex_iff split: if_splits option.splits)
  have "keys_ok t" using ok(1) free next_id_fresh[OF ok(3)] by (simp add: t keys_ok_def taken_def)
  moreover have "fks_ok t" using ok(2) refs by (auto simp: t fks_ok_def)
  moreover have "seqs_ok t" using ok(3) by (auto simp: t seqs_ok_def)
  ultimately show "keys_ok t \<and> fks_ok t \<and> seqs_ok t" by simp
qed

lemma keeps_create_consents [keeps_intros]: "keeps db_ok (create_consents cs)"
proof (rule keeps_db_okI)
  fix d t assume ok: "keys_ok d" "fks_ok d" "seqs_ok d" and run: "t \<noteq> d" "snd (create_consents cs d) = t"
  then have t: "t = d\<lparr>saUserConsents := saUserConsents d @ cs\<rparr>"
    and new: "distinct (map (\<lambda>c. (con_saUserId c, con_appId c, con_documentType c)) (saUserConsents d @ cs))"
    and refs: "con_saUserId ` set cs \<subseteq> sau_id ` set (saUsers d)" "con_appId ` set cs \<subseteq> app_id ` set (saApps d)"
    by (auto simp: create_consents_def Let_def absent_lookup list_ex_iff split: if_splits option.splits)
  have "keys_ok t" using ok(1) new by (simp add: t keys_ok_def)
  moreover have "fks_ok t" using ok(2) refs by (simp add: t fks_ok_def image_Un)
  moreover have "seqs_ok t" using ok(3) by (auto simp: t seqs_ok_def)
  ultimately show "keys_ok t \<and> fks_ok t \<and> seqs_ok t" by simp
qed

lemma keeps_create_redirect_uris [keeps_intros]: "keeps db_ok (create_redirect_uris rs)"
proof (rule keeps_db_okI)
  fix d t assume ok: "keys_ok d" "fks_ok d" "seqs_ok d" and run: "t \<noteq> d" "snd (create_redirect_uris rs d) = t"
  then have t: "t = d\<lparr>saRedirectUris := saRedirectUris d @ rs\<rparr>"
    and new: "distinct (map (\<lambda>r. (ru_appId r, ru_uri r, ru_kind r)) (saRedirectUris d @ rs))"
    and refs: "ru_appId ` set rs \<subseteq> app_id ` set (saApps d)"
    by (auto simp: create_redirect_uris_def Let_def absent_lookup list_ex_iff split: if_splits option.splits)
  have "keys_ok t" using ok(1) new by (simp add: t keys_ok_def)
  moreover have "fks_ok t" using ok(2) refs by (simp add: t fks_ok_def image_Un)
  moreover have "seqs_ok t" using ok(3) by (auto simp: t seqs_ok_def)
  ultimately show "keys_ok t \<and> fks_ok t \<and> seqs_ok t" by simp
qed

lemma keeps_delete_role [keeps_intros]: "keeps db_ok (delete_role i)"
proof (rule keeps_db_okI)
  fix d t assume ok: "keys_ok d" "fks_ok d" "seqs_ok d" and run: "t \<noteq> d" "snd (delete_role i d) = t"
  then have t: "t = d\<lparr>saRoles := filter (\<lambda>r. role_id r \<noteq> i) (saRoles d), saRolePermissions := filter (\<lambda>x. fst x \<noteq> i) (saRolePermissions d), saUserRoles := filter (\<lambda>x. snd x \<noteq> i) (saUserRoles d)\<rparr>"
    and free: "Some i \<notin> app_defaultRoleId ` set (saApps d)"
    by (auto simp: delete_role_def Let_def absent_lookup list_ex_iff split: if_splits option.splits)
  have "keys_ok t" using ok(1) by (simp add: t keys_ok_def distinct_map_filter_keys distinct_some_filter)
  moreover have "fks_ok t" using ok(2) free by (simp add: t fks_ok_def cascade)
  moreover have "seqs_ok t" using ok(3) by (simp add: t seqs_ok_def)
  ultimately show "keys_ok t \<and> fks_ok t \<and> seqs_ok t" by simp
qed

lemma keeps_delete_permission [keeps_intros]: "keeps db_ok (delete_permission i)"
proof (rule keeps_db_okI)
  fix d t assume ok: "keys_ok d" "fks_ok d" "seqs_ok d" and run: "t \<noteq> d" "snd (delete_permission i d) = t"
  then have t: "t = d\<lparr>saPermissions := filter (\<lambda>p. perm_id p \<noteq> i) (saPermissions d), saRolePermissions := filter (\<lambda>x. snd x \<noteq> i) (saRolePermissions d), saUserPermissions := filter (\<lambda>x. snd x \<noteq> i) (saUserPermissions d)\<rparr>"
    by (auto simp: delete_permission_def Let_def absent_lookup list_ex_iff split: if_splits option.splits)
  have "keys_ok t" using ok(1) by (simp add: t keys_ok_def distinct_map_filter_keys distinct_some_filter)
  moreover have "fks_ok t" using ok(2)  by (simp add: t fks_ok_def cascade)
  moreover have "seqs_ok t" using ok(3) by (simp add: t seqs_ok_def)
  ultimately show "keys_ok t \<and> fks_ok t \<and> seqs_ok t" by simp
qed

lemma keeps_delete_org [keeps_intros]: "keeps db_ok (delete_org i)"
proof (rule keeps_db_okI)
  fix d t assume ok: "keys_ok d" "fks_ok d" "seqs_ok d" and run: "t \<noteq> d" "snd (delete_org i d) = t"
  then have t: "t = d\<lparr>saOrgs := filter (\<lambda>g. org_id g \<noteq> i) (saOrgs d)\<rparr>"
    and free: "i \<notin> sau_orgId ` set (saUsers d)" "Some i \<notin> app_defaultOrgId ` set (saApps d)"
    by (auto simp: delete_org_def Let_def absent_lookup list_ex_iff split: if_splits option.splits)
  have "keys_ok t" using ok(1) by (simp add: t keys_ok_def distinct_map_filter_keys distinct_some_filter)
  moreover have "fks_ok t" using ok(2) free by (simp add: t fks_ok_def cascade)
  moreover have "seqs_ok t" using ok(3) by (simp add: t seqs_ok_def)
  ultimately show "keys_ok t \<and> fks_ok t \<and> seqs_ok t" by simp
qed

lemma keeps_delete_app [keeps_intros]: "keeps db_ok (delete_app i)"
proof (rule keeps_db_okI)
  fix d t assume ok: "keys_ok d" "fks_ok d" "seqs_ok d" and run: "t \<noteq> d" "snd (delete_app i d) = t"
  then have t: "t = d\<lparr>saApps := filter (\<lambda>a. app_id a \<noteq> i) (saApps d), saRedirectUris := filter (\<lambda>r. ru_appId r \<noteq> i) (saRedirectUris d), saUserConsents := filter (\<lambda>c. con_appId c \<noteq> i) (saUserConsents d)\<rparr>"
    and free: "i \<notin> org_appId ` set (saOrgs d)" "i \<notin> role_appId ` set (saRoles d)" "i \<notin> perm_appId ` set (saPermissions d)"
    by (auto simp: delete_app_def Let_def absent_lookup list_ex_iff split: if_splits option.splits)
  have "keys_ok t" using ok(1) by (simp add: t keys_ok_def distinct_map_filter_keys distinct_some_filter)
  moreover have "fks_ok t" using ok(2) free by (simp add: t fks_ok_def cascade)
  moreover have "seqs_ok t" using ok(3) by (simp add: t seqs_ok_def)
  ultimately show "keys_ok t \<and> fks_ok t \<and> seqs_ok t" by simp
qed

lemma keeps_delete_sa_user [keeps_intros]: "keeps db_ok (delete_sa_user pid)"
proof (rule keeps_db_okI)
  fix d t assume ok: "keys_ok d" "fks_ok d" "seqs_ok d" and run: "t \<noteq> d" "snd (delete_sa_user pid d) = t"
  then obtain u where u: "sau_by_publicId d pid = Some u"
    and t: "t = d\<lparr>saUsers := filter (\<lambda>r. sau_publicId r \<noteq> pid) (saUsers d),
                    saInvitations := filter (\<lambda>i. inv_userId i \<noteq> sau_id u) (saInvitations d),
                    saUserRoles := filter (\<lambda>x. fst x \<noteq> sau_id u) (saUserRoles d),
                    saUserPermissions := filter (\<lambda>x. fst x \<noteq> sau_id u) (saUserPermissions d),
                    saUserConsents := filter (\<lambda>c. con_saUserId c \<noteq> sau_id u) (saUserConsents d)\<rparr>"
    by (auto simp: delete_sa_user_def split: option.splits)
  have mem: "u \<in> set (saUsers d)" "sau_publicId u = pid" using lookup_sound(8)[OF u] by auto
  then have same: "r \<in> set (saUsers d) \<Longrightarrow> sau_publicId r = pid \<longleftrightarrow> sau_id r = sau_id u" for r
    using ok(1) by (auto simp: keys_ok_def dest: distinct_map_eq)
  then have rows: "{r \<in> set (saUsers d). sau_publicId r \<noteq> pid} = {r \<in> set (saUsers d). sau_id r \<noteq> sau_id u}"
    by auto
  have "keys_ok t" using ok(1) by (simp add: t keys_ok_def distinct_map_filter_keys distinct_some_filter)
  moreover have "fks_ok t" using ok(2) by (simp add: t fks_ok_def rows cascade)
  moreover have "seqs_ok t" using ok(3) by (simp add: t seqs_ok_def)
  ultimately show "keys_ok t \<and> fks_ok t \<and> seqs_ok t" by simp
qed

lemma keeps_update_user: "(\<And>x. usr_id (g x) = usr_id x \<and> usr_email (g x) = usr_email x) \<Longrightarrow> keeps db_ok (update_user i g)"
proof (rule keeps_db_okI)
  fix d t assume same: "\<And>x. usr_id (g x) = usr_id x \<and> usr_email (g x) = usr_email x"
    and ok: "keys_ok d" "fks_ok d" "seqs_ok d" and run: "t \<noteq> d" "snd (update_user i g d) = t"
  then obtain x where x: "user_by_id d i = Some x"
      and t: "t = d\<lparr>users := replace_row usr_id i (g x) (users d)\<rparr>"
    by (auto simp: update_user_def Let_def split: option.splits if_splits)
  have mem: "x \<in> set (users d)" "usr_id x = i" using lookup_sound(1)[OF x] by auto
  have uniq: "distinct (map usr_id (users d))" using ok(1) by (simp add: keys_ok_def)
  note column = replace_row_column[OF uniq mem] and image = replace_row_image[OF uniq mem]
  have "keys_ok t" using ok(1) uniq
    by (simp add: t keys_ok_def column same distinct_replace distinct_replace_opt)
  moreover have "fks_ok t" using ok(2) by (simp add: t fks_ok_def image column same)
  moreover have "seqs_ok t" using ok(3) mem by (auto simp: t seqs_ok_def set_replace_row same)
  ultimately show "keys_ok t \<and> fks_ok t \<and> seqs_ok t" by simp
qed

lemma keeps_update_sa_user: "(\<And>x. sau_id (g x) = sau_id x \<and> sau_publicId (g x) = sau_publicId x \<and> sau_betterAuthUserId (g x) = sau_betterAuthUserId x \<and> sau_orgId (g x) = sau_orgId x) \<Longrightarrow> keeps db_ok (update_sa_user i g)"
proof (rule keeps_db_okI)
  fix d t assume same: "\<And>x. sau_id (g x) = sau_id x \<and> sau_publicId (g x) = sau_publicId x \<and> sau_betterAuthUserId (g x) = sau_betterAuthUserId x \<and> sau_orgId (g x) = sau_orgId x"
    and ok: "keys_ok d" "fks_ok d" "seqs_ok d" and run: "t \<noteq> d" "snd (update_sa_user i g d) = t"
  then obtain x where x: "sau_by_publicId d i = Some x"
      and t: "t = d\<lparr>saUsers := replace_row sau_publicId i (g x) (saUsers d)\<rparr>"
      and free: "\<not> taken_opt sau_phoneNumber (others sau_publicId i (saUsers d)) (g x)" "\<not> taken_opt sau_username (others sau_publicId i (saUsers d)) (g x)"
    by (auto simp: update_sa_user_def Let_def split: option.splits if_splits)
  have mem: "x \<in> set (saUsers d)" "sau_publicId x = i" using lookup_sound(8)[OF x] by auto
  have uniq: "distinct (map sau_publicId (saUsers d))" using ok(1) by (simp add: keys_ok_def)
  note column = replace_row_column[OF uniq mem] and image = replace_row_image[OF uniq mem]
  have "keys_ok t" using ok(1) free uniq
    by (simp add: t keys_ok_def column same distinct_replace distinct_replace_opt)
  moreover have "fks_ok t" using ok(2) by (simp add: t fks_ok_def image column same)
  moreover have "seqs_ok t" using ok(3) mem by (auto simp: t seqs_ok_def set_replace_row same)
  ultimately show "keys_ok t \<and> fks_ok t \<and> seqs_ok t" by simp
qed

lemma keeps_update_role: "(\<And>x. role_id (g x) = role_id x \<and> role_appId (g x) = role_appId x) \<Longrightarrow> keeps db_ok (update_role i g)"
proof (rule keeps_db_okI)
  fix d t assume same: "\<And>x. role_id (g x) = role_id x \<and> role_appId (g x) = role_appId x"
    and ok: "keys_ok d" "fks_ok d" "seqs_ok d" and run: "t \<noteq> d" "snd (update_role i g d) = t"
  then obtain x where x: "role_by_id d i = Some x"
      and t: "t = d\<lparr>saRoles := replace_row role_id i (g x) (saRoles d)\<rparr>"
      and free: "\<not> taken role_publicId (others role_id i (saRoles d)) (g x)" "\<not> taken (\<lambda>r. (role_appId r, role_name r)) (others role_id i (saRoles d)) (g x)"
    by (auto simp: update_role_def Let_def split: option.splits if_splits)
  have mem: "x \<in> set (saRoles d)" "role_id x = i" using lookup_sound(10)[OF x] by auto
  have uniq: "distinct (map role_id (saRoles d))" using ok(1) by (simp add: keys_ok_def)
  note column = replace_row_column[OF uniq mem] and image = replace_row_image[OF uniq mem]
  have "keys_ok t" using ok(1) free uniq
    by (simp add: t keys_ok_def column same distinct_replace distinct_replace_opt)
  moreover have "fks_ok t" using ok(2) by (simp add: t fks_ok_def image column same)
  moreover have "seqs_ok t" using ok(3) mem by (auto simp: t seqs_ok_def set_replace_row same)
  ultimately show "keys_ok t \<and> fks_ok t \<and> seqs_ok t" by simp
qed

lemma keeps_update_permission: "(\<And>x. perm_id (g x) = perm_id x \<and> perm_appId (g x) = perm_appId x) \<Longrightarrow> keeps db_ok (update_permission i g)"
proof (rule keeps_db_okI)
  fix d t assume same: "\<And>x. perm_id (g x) = perm_id x \<and> perm_appId (g x) = perm_appId x"
    and ok: "keys_ok d" "fks_ok d" "seqs_ok d" and run: "t \<noteq> d" "snd (update_permission i g d) = t"
  then obtain x where x: "perm_by_id d i = Some x"
      and t: "t = d\<lparr>saPermissions := replace_row perm_id i (g x) (saPermissions d)\<rparr>"
      and free: "\<not> taken perm_publicId (others perm_id i (saPermissions d)) (g x)" "\<not> taken perm_name (others perm_id i (saPermissions d)) (g x)"
    by (auto simp: update_permission_def Let_def split: option.splits if_splits)
  have mem: "x \<in> set (saPermissions d)" "perm_id x = i" using lookup_sound(12)[OF x] by auto
  have uniq: "distinct (map perm_id (saPermissions d))" using ok(1) by (simp add: keys_ok_def)
  note column = replace_row_column[OF uniq mem] and image = replace_row_image[OF uniq mem]
  have "keys_ok t" using ok(1) free uniq
    by (simp add: t keys_ok_def column same distinct_replace distinct_replace_opt)
  moreover have "fks_ok t" using ok(2) by (simp add: t fks_ok_def image column same)
  moreover have "seqs_ok t" using ok(3) mem by (auto simp: t seqs_ok_def set_replace_row same)
  ultimately show "keys_ok t \<and> fks_ok t \<and> seqs_ok t" by simp
qed

lemma keeps_update_org: "(\<And>x. org_id (g x) = org_id x \<and> org_appId (g x) = org_appId x) \<Longrightarrow> keeps db_ok (update_org i g)"
proof (rule keeps_db_okI)
  fix d t assume same: "\<And>x. org_id (g x) = org_id x \<and> org_appId (g x) = org_appId x"
    and ok: "keys_ok d" "fks_ok d" "seqs_ok d" and run: "t \<noteq> d" "snd (update_org i g d) = t"
  then obtain x where x: "org_by_id d i = Some x"
      and t: "t = d\<lparr>saOrgs := replace_row org_id i (g x) (saOrgs d)\<rparr>"
      and free: "\<not> taken org_publicId (others org_id i (saOrgs d)) (g x)" "\<not> taken (\<lambda>r. (org_appId r, org_name r)) (others org_id i (saOrgs d)) (g x)"
    by (auto simp: update_org_def Let_def split: option.splits if_splits)
  have mem: "x \<in> set (saOrgs d)" "org_id x = i" using lookup_sound(5)[OF x] by auto
  have uniq: "distinct (map org_id (saOrgs d))" using ok(1) by (simp add: keys_ok_def)
  note column = replace_row_column[OF uniq mem] and image = replace_row_image[OF uniq mem]
  have "keys_ok t" using ok(1) free uniq
    by (simp add: t keys_ok_def column same distinct_replace distinct_replace_opt)
  moreover have "fks_ok t" using ok(2) by (simp add: t fks_ok_def image column same)
  moreover have "seqs_ok t" using ok(3) mem by (auto simp: t seqs_ok_def set_replace_row same)
  ultimately show "keys_ok t \<and> fks_ok t \<and> seqs_ok t" by simp
qed

lemma default_refs:
  "default_refs_ok d a \<longleftrightarrow>
     (\<forall>i. app_defaultOrgId a = Some i \<longrightarrow> i \<in> org_id ` set (saOrgs d)) \<and>
     (\<forall>i. app_defaultRoleId a = Some i \<longrightarrow> i \<in> role_id ` set (saRoles d))"
  by (auto simp: default_refs_ok_def absent_lookup split: option.splits)

lemma keeps_create_app [keeps_intros]: "keeps db_ok (create_app x)"
proof (rule keeps_db_okI)
  fix d t assume ok: "keys_ok d" "fks_ok d" "seqs_ok d" and run: "t \<noteq> d" "snd (create_app x d) = t"
  then have t: "t = d\<lparr>saApps := saApps d @ [x\<lparr>app_id := nextId d AppT\<rparr>], nextId := (nextId d)(AppT := nextId d AppT + 1)\<rparr>"
    and free: "\<not> taken app_publicId (saApps d) (x\<lparr>app_id := nextId d AppT\<rparr>)" "\<not> taken app_name (saApps d) (x\<lparr>app_id := nextId d AppT\<rparr>)"
    and refs: "default_refs_ok d x"
    by (auto simp: create_app_def Let_def split: if_splits)
  have "keys_ok t" using ok(1) free next_id_fresh[OF ok(3)] by (simp add: t keys_ok_def taken_def)
  moreover have "fks_ok t"
    using ok(2) refs by (auto simp: t fks_ok_def default_refs image_subset_iff split: option.splits)
  moreover have "seqs_ok t" using ok(3) by (auto simp: t seqs_ok_def)
  ultimately show "keys_ok t \<and> fks_ok t \<and> seqs_ok t" by simp
qed

lemma keeps_update_app: "(\<And>x. app_id (g x) = app_id x) \<Longrightarrow> keeps db_ok (update_app i g)"
proof (rule keeps_db_okI)
  fix d t assume same: "\<And>x. app_id (g x) = app_id x"
    and ok: "keys_ok d" "fks_ok d" "seqs_ok d" and run: "t \<noteq> d" "snd (update_app i g d) = t"
  then obtain x where x: "app_by_id d i = Some x"
      and t: "t = d\<lparr>saApps := replace_row app_id i (g x) (saApps d)\<rparr>"
      and free: "\<not> taken app_publicId (others app_id i (saApps d)) (g x)"
        "\<not> taken app_name (others app_id i (saApps d)) (g x)"
      and refs: "default_refs_ok d (g x)"
    by (auto simp: update_app_def Let_def split: option.splits if_splits)
  have mem: "x \<in> set (saApps d)" "app_id x = i" using lookup_sound(3)[OF x] by auto
  have uniq: "distinct (map app_id (saApps d))" using ok(1) by (simp add: keys_ok_def)
  note column = replace_row_column[OF uniq mem] and image = replace_row_image[OF uniq mem]
  have defaults: "v \<in> set (some_values (map f (saApps d))) \<or> f (g x) = Some v"
    if "v \<in> set (some_values (map f (replace_row app_id i (g x) (saApps d))))" for f :: "sa_app \<Rightarrow> int option" and v
    using that by (auto simp: set_replace_row split: if_splits)
  have "keys_ok t" using ok(1) free uniq by (simp add: t keys_ok_def column same distinct_replace)
  moreover have "fks_ok t"
    using ok(2) refs defaults[of _ app_defaultOrgId] defaults[of _ app_defaultRoleId]
    by (simp add: t fks_ok_def image column same default_refs subset_iff) metis
  moreover have "seqs_ok t" using ok(3) mem by (auto simp: t seqs_ok_def set_replace_row same)
  ultimately show "keys_ok t \<and> fks_ok t \<and> seqs_ok t" by simp
qed

section \<open>Updates that cannot clash\<close>

lemma nullable_unique:
  "distinct (some_values (map f xs)) \<Longrightarrow> x \<in> set xs \<Longrightarrow> y \<in> set xs \<Longrightarrow> f x = f y \<Longrightarrow> f x \<noteq> None \<Longrightarrow> x = y"
proof (induction xs)
  case (Cons a xs)
  then show ?case by (auto split: option.splits) (metis image_eqI)+
qed simp

text \<open>An update that leaves the unique columns alone cannot clash.\<close>

lemma update_sa_user_same:
  assumes "keys_ok d" "sau_by_publicId d pid = Some u" "sau_phoneNumber (g u) = sau_phoneNumber u"
    "sau_username (g u) = sau_username u"
  shows "update_sa_user pid g d = (Inr (g u), d\<lparr>saUsers := replace_row sau_publicId pid (g u) (saUsers d)\<rparr>)"
proof -
  have u: "u \<in> set (saUsers d)" "sau_publicId u = pid" using lookup_sound(8)[OF assms(2)] by auto
  have "\<not> taken_opt sau_phoneNumber (others sau_publicId pid (saUsers d)) (g u)"
    and "\<not> taken_opt sau_username (others sau_publicId pid (saUsers d)) (g u)"
    using assms(1,3,4) u unfolding keys_ok_def taken_opt_def
    by (auto dest: nullable_unique[where f = sau_phoneNumber] nullable_unique[where f = sau_username])
  then show ?thesis using assms(2) by (simp add: update_sa_user_def Let_def)
qed

end
