(* ===== verification/Listing.thy ===== *)
theory Listing
  imports Authz Example_Data "HOL-Library.Sublist"
begin

text \<open>
  What the list endpoints of the apps, organisations, roles and permissions services share: the
  query object, paging, newest first, and the search box, which the services turn into a
  case-insensitive \<open>contains\<close> filter after escaping the wildcards. Prisma passes that text on to
  \<open>ILIKE\<close> unescaped, so the pattern language of PostgreSQL is modelled here.
\<close>

section \<open>Queries and pages\<close>

text \<open>The validation pipe bounds \<open>page\<close> and \<open>pageSize\<close> from below by 1.\<close>

record list_query =
  q_page :: "int option"
  q_pageSize :: "int option"
  q_text :: "string option"
  q_appId :: "string option"

record 'a listing =
  ls_items :: "'a list"
  ls_total :: nat
  ls_page :: int
  ls_pageSize :: int

definition page_number :: "list_query \<Rightarrow> int" where
  "page_number q = (case q_page q of None \<Rightarrow> 1 | Some p \<Rightarrow> p)"

definition page_size :: "list_query \<Rightarrow> int" where
  "page_size q = (case q_pageSize q of None \<Rightarrow> 25 | Some n \<Rightarrow> n)"

definition page_rows :: "list_query \<Rightarrow> ('r \<Rightarrow> int) \<Rightarrow> 'r list \<Rightarrow> 'r list" where
  "page_rows q key rows =
     take (nat (page_size q)) (drop (nat ((page_number q - 1) * page_size q)) (rev (sort_key key rows)))"

definition listing_of :: "list_query \<Rightarrow> 'r list \<Rightarrow> 'a list \<Rightarrow> 'a listing" where
  "listing_of q rows xs =
     \<lparr>ls_items = xs, ls_total = length rows, ls_page = page_number q, ls_pageSize = page_size q\<rparr>"

fun all_ok :: "(err + 'a) list \<Rightarrow> err + 'a list" where
  "all_ok [] = Inr []"
| "all_ok (Inl e # rs) = Inl e"
| "all_ok (Inr a # rs) = (case all_ok rs of Inl e \<Rightarrow> Inl e | Inr as \<Rightarrow> Inr (a # as))"

definition inconsistent :: err where
  "inconsistent = JsError ''Inconsistent query result''"

text \<open>The app a row belongs to, as the views show it.\<close>

record app_ref =
  ar_publicId :: string
  ar_name :: string

definition app_ref_of :: "db \<Rightarrow> int \<Rightarrow> err + app_ref" where
  "app_ref_of d i =
     (case app_by_id d i of
        None \<Rightarrow> Inl inconsistent
      | Some a \<Rightarrow> Inr \<lparr>ar_publicId = app_publicId a, ar_name = app_name a\<rparr>)"

text \<open>A count inside a message.\<close>

fun number_text :: "nat \<Rightarrow> string" where
  "number_text n = (if n < 10 then [char_of (48 + n)] else number_text (n div 10) @ [char_of (48 + n mod 10)])"

lemma all_ok_member: "all_ok rs = Inr xs \<Longrightarrow> x \<in> set xs \<Longrightarrow> Inr x \<in> set rs"
  by (induction rs arbitrary: xs rule: all_ok.induct) (auto split: sum.splits)

lemma page_rows_subset: "set (page_rows q key rows) \<subseteq> set rows"
  using set_take_subset set_drop_subset by (fastforce simp: page_rows_def)

text \<open>The optional restriction of a list to one app.\<close>

definition app_filter :: "list_query \<Rightarrow> (db, int option) eff" where
  "app_filter q =
     (if truthy (q_appId q)
      then bindE (findE (\<lambda>d. app_by_publicId d (the (q_appId q))) (NotFoundE ''App not found''))
             (\<lambda>a. ret (Some (app_id a)))
      else ret None)"

lemma app_filter_state: "app_filter q d = (r, t) \<Longrightarrow> t = d"
  by (auto simp: app_filter_def bindE_def findE_def split: if_splits option.splits)

declare number_text.simps [simp del]

section \<open>Search\<close>

definition BACKSLASH :: char where "BACKSLASH = CHR 0x5C"

text \<open>\<open>q.replace(/%/g, '\\%').replace(/_/g, '\\_')\<close>\<close>

definition escape_like :: "string \<Rightarrow> string" where
  "escape_like q =
     concat (map (\<lambda>c. if c = CHR ''%'' \<or> c = CHR ''_'' then [BACKSLASH, c] else [c]) q)"

datatype like_token = AnyRun | AnyOne | Exactly char

fun like_tokens :: "string \<Rightarrow> like_token list" where
  "like_tokens [] = []"
| "like_tokens (c # cs) =
     (if c = BACKSLASH then (case cs of [] \<Rightarrow> [Exactly c] | e # es \<Rightarrow> Exactly e # like_tokens es)
      else (if c = CHR ''%'' then AnyRun else if c = CHR ''_'' then AnyOne else Exactly c) # like_tokens cs)"

fun like_match :: "like_token list \<Rightarrow> string \<Rightarrow> bool" where
  "like_match [] s = (s = [])"
| "like_match (AnyRun # ts) s = (like_match ts s \<or> (case s of [] \<Rightarrow> False | c # cs \<Rightarrow> like_match (AnyRun # ts) cs))"
| "like_match (AnyOne # ts) s = (case s of [] \<Rightarrow> False | c # cs \<Rightarrow> like_match ts cs)"
| "like_match (Exactly x # ts) s = (case s of [] \<Rightarrow> False | c # cs \<Rightarrow> c = x \<and> like_match ts cs)"

text \<open>\<open>name ILIKE '%' || text || '%'\<close>\<close>

definition contains_insensitive :: "string \<Rightarrow> string \<Rightarrow> bool" where
  "contains_insensitive pat name =
     like_match (like_tokens (to_lower (''%'' @ pat @ ''%''))) (to_lower name)"

definition matches_search :: "string option \<Rightarrow> string \<Rightarrow> bool" where
  "matches_search q name = (if truthy q then contains_insensitive (escape_like (the q)) name else True)"

section \<open>The search is a substring search\<close>

lemma like_run: "like_match (AnyRun # ts) s \<longleftrightarrow> (\<exists>a b. s = a @ b \<and> like_match ts b)"
proof (induction s)
  case (Cons c s)
  show ?case
  proof
    assume "like_match (AnyRun # ts) (c # s)"
    then consider "like_match ts (c # s)" | "like_match (AnyRun # ts) s" by auto
    then show "\<exists>a b. c # s = a @ b \<and> like_match ts b"
    proof cases
      case 2
      then show ?thesis using Cons.IH by (metis append_Cons)
    qed (metis append_Nil)
  next
    assume "\<exists>a b. c # s = a @ b \<and> like_match ts b"
    then obtain a b where ab: "c # s = a @ b" "like_match ts b" by blast
    show "like_match (AnyRun # ts) (c # s)"
      using ab Cons.IH by (cases a) auto
  qed
qed auto

lemma like_exact: "like_match (map Exactly w @ ts) s \<longleftrightarrow> (\<exists>b. s = w @ b \<and> like_match ts b)"
  by (induction w arbitrary: s) (auto split: list.splits)

lemma like_substring: "like_match (AnyRun # map Exactly w @ [AnyRun]) s \<longleftrightarrow> sublist w s"
proof -
  have "like_match [AnyRun] b" for b by (induction b) auto
  then show ?thesis unfolding like_run[where ts = "map Exactly w @ [AnyRun]"] like_exact sublist_def by auto
qed

lemma lower_special [simp]:
  "lower_char CHR ''%'' = CHR ''%''" "lower_char CHR ''_'' = CHR ''_''" "lower_char BACKSLASH = BACKSLASH"
  "BACKSLASH \<noteq> CHR ''%''" "BACKSLASH \<noteq> CHR ''_''" "CHR ''%'' \<noteq> BACKSLASH" "CHR ''_'' \<noteq> BACKSLASH"
  by code_simp+

lemma special_codes: "char_code CHR ''%'' = 37" "char_code CHR ''_'' = 95" "char_code BACKSLASH = 92"
  by (simp_all add: char_code_def BACKSLASH_def)

lemma lower_char_fixed:
  assumes "lower_char c = x" "x = CHR ''%'' \<or> x = CHR ''_'' \<or> x = BACKSLASH"
  shows "c = x"
proof (rule ccontr)
  assume "c \<noteq> x"
  then have "char_code x = char_code c + 32" "65 \<le> char_code c" "char_code c \<le> 90 \<or> 192 \<le> char_code c"
    using assms(1) by (auto simp: lower_char_def is_upper_az_def split: if_splits)
  then show False using assms(2) by (auto simp: special_codes)
qed

lemma like_tokens_escaped:
  "BACKSLASH \<notin> set q \<Longrightarrow>
     like_tokens (to_lower (escape_like q) @ ''%'') = map Exactly (to_lower q) @ [AnyRun]"
proof (induction q)
  case (Cons c q)
  have "lower_char c \<noteq> BACKSLASH" using Cons.prems lower_char_fixed by force
  moreover have "lower_char c = CHR ''%'' \<Longrightarrow> c = CHR ''%''" "lower_char c = CHR ''_'' \<Longrightarrow> c = CHR ''_''"
    using lower_char_fixed by blast+
  ultimately show ?case
    using Cons by (auto simp: escape_like_def to_lower_def)
qed (simp add: escape_like_def to_lower_def)

lemma search_for_backslash:
  "contains_insensitive (escape_like [BACKSLASH]) name \<longleftrightarrow> (\<exists>w. name = w @ ''%'')"
proof -
  have "like_tokens (to_lower (''%'' @ escape_like [BACKSLASH] @ ''%'')) = AnyRun # map Exactly ''%'' @ []"
    by (simp add: to_lower_def escape_like_def)
  then have "contains_insensitive (escape_like [BACKSLASH]) name \<longleftrightarrow> (\<exists>w. map lower_char name = w @ ''%'')"
    by (simp only: contains_insensitive_def like_run like_exact to_lower_def) auto
  also have "\<dots> \<longleftrightarrow> (\<exists>w. name = w @ ''%'')"
  proof
    assume "\<exists>w. map lower_char name = w @ ''%''"
    then obtain w where w: "map lower_char name = w @ ''%''" by blast
    then have ne: "name \<noteq> []" and "last (map lower_char name) = CHR ''%''" by auto
    then have "last name = CHR ''%''" using lower_char_fixed by (metis last_map)
    then show "\<exists>w. name = w @ ''%''" using ne by (metis append_butlast_last_id)
  qed auto
  finally show ?thesis .
qed

text \<open>Searching is a case-insensitive substring search: \<open>%\<close> and \<open>_\<close> in the text stand for
  themselves. It is so only for a text without backslash, which is not escaped: searching for a
  single backslash finds exactly the names that end in a percent sign.\<close>

theorem search_is_substring:
  assumes "BACKSLASH \<notin> set q"
  shows "(matches_search (Some q) name \<longleftrightarrow> sublist (to_lower q) (to_lower name)) \<and>
     (matches_search (Some [BACKSLASH]) name \<longleftrightarrow> (\<exists>w. name = w @ ''%''))"
proof (rule conjI)
  have "like_tokens (to_lower (''%'' @ escape_like q @ ''%'')) = AnyRun # map Exactly (to_lower q) @ [AnyRun]"
    using like_tokens_escaped[OF assms] by (simp add: to_lower_def)
  then have "contains_insensitive (escape_like q) name \<longleftrightarrow> sublist (to_lower q) (to_lower name)"
    by (simp only: contains_insensitive_def like_substring)
  then show "matches_search (Some q) name \<longleftrightarrow> sublist (to_lower q) (to_lower name)"
    by (cases "q = []") (simp_all add: matches_search_def to_lower_def)
  show "matches_search (Some [BACKSLASH]) name \<longleftrightarrow> (\<exists>w. name = w @ ''%'')"
    by (simp add: matches_search_def search_for_backslash)
qed

lemma search_is_substring_witness:
  "matches_search (Some ''50%'') ''Save 50% Now'' \<and> \<not> matches_search (Some ''50%'') ''Save 500''"
  using search_is_substring[of "''50%''" "''Save 50% Now''"] search_is_substring[of "''50%''" "''Save 500''"]
  by (simp add: BACKSLASH_def) code_simp

end
