(* ===== verification/Users.thy ===== *)
theory Users
  imports Tables Listing Service_Users Refresh_Tokens
begin

text \<open>
  User administration, \<open>apps/auth-server/src/users/users.service.ts\<close>: reading, creating, changing,
  deleting users, granting roles and permissions, invitations, and resetting credentials. Mail and
  the activation webhook are outputs of the operations; BetterAuth's mail and reset calls are
  parameters.
\<close>

section \<open>Views and helpers\<close>

record user_view =
  uv_id :: string
  uv_firstName :: string
  uv_lastName :: string
  uv_email :: string
  uv_phoneNumber :: "string option"
  uv_username :: "string option"
  uv_orgId :: string
  uv_status :: user_status
  uv_createdAt :: int
  uv_lastLoginAt :: "int option"

definition formatUser :: "sa_user \<Rightarrow> db \<Rightarrow> err + user_view" where
  "formatUser u d =
     (case (org_by_id d (sau_orgId u), user_by_id d (sau_betterAuthUserId u)) of
        (Some g, Some b) \<Rightarrow>
          Inr \<lparr>uv_id = sau_publicId u, uv_firstName = sau_firstName u, uv_lastName = sau_lastName u,
               uv_email = usr_email b, uv_phoneNumber = sau_phoneNumber u, uv_username = sau_username u,
               uv_orgId = org_publicId g, uv_status = sau_status u, uv_createdAt = sau_createdAt u,
               uv_lastLoginAt = sau_lastLoginAt u\<rparr>
      | _ \<Rightarrow> Inl inconsistent)"

definition manage_users :: "string list" where
  "manage_users = [''platform.users.manage'', ''org.users.manage'']"

text \<open>The gate in front of every operation on a user: platform-wide, or for the user's organisation.\<close>

definition user_gate :: "string \<Rightarrow> int \<Rightarrow> (db, unit) eff" where
  "user_gate caller orgId = liftR (\<lambda>d. checkPermission d caller manage_users (Some orgId))"

definition find_user :: "string \<Rightarrow> string \<Rightarrow> (db, sa_user) eff" where
  "find_user pid msg = findE (\<lambda>d. sau_by_publicId d pid) (NotFoundE msg)"

text \<open>\<open>Array.from(new Set(xs))\<close>: first occurrences, in order.\<close>

definition js_unique :: "'a list \<Rightarrow> 'a list" where
  "js_unique xs = rev (remdups (rev xs))"

definition system_perm_names :: "sa_permission list \<Rightarrow> string list" where
  "system_perm_names ps = map perm_name (filter perm_isSystem ps)"

definition perms_of_roles :: "db \<Rightarrow> string list \<Rightarrow> sa_permission list" where
  "perms_of_roles d rids =
     concat (map (\<lambda>r. permissions_of_role d (role_id r))
       (filter (\<lambda>r. role_publicId r \<in> set rids) (saRoles d)))"

definition perms_by_publicIds :: "db \<Rightarrow> string list \<Rightarrow> sa_permission list" where
  "perms_by_publicIds d pids = filter (\<lambda>p. perm_publicId p \<in> set pids) (saPermissions d)"

definition admin_base :: "host \<Rightarrow> string" where
  "admin_base h = (case h_env h ''ADMIN_URL'' of None \<Rightarrow> ''http://localhost:3001'' | Some u \<Rightarrow> u)"

definition invite_url :: "host \<Rightarrow> string \<Rightarrow> string" where
  "invite_url h token = admin_base h @ ''/accept-invite?token='' @ token"

definition INVITATION_TTL_MS :: int where
  "INVITATION_TTL_MS = 7 * 24 * 60 * 60 * 1000"

section \<open>Reading\<close>

definition listUsers :: "string \<Rightarrow> string option \<Rightarrow> db \<Rightarrow> err + user_view list" where
  "listUsers caller orgFilter d =
     (let target = (if truthy orgFilter
                    then (case org_by_publicId d (the orgFilter) of
                            None \<Rightarrow> Inl (NotFoundE ''Org not found'') | Some g \<Rightarrow> Inr (org_id g))
                    else Inr (- 1)) in
      case target of
        Inl e \<Rightarrow> Inl e
      | Inr i \<Rightarrow>
          (case checkPermission d caller manage_users (Some i) of
             Inl e \<Rightarrow> Inl e
           | Inr _ \<Rightarrow>
               (let rows = (if truthy orgFilter then filter (\<lambda>u. map_option org_publicId (org_by_id d (sau_orgId u)) = orgFilter)
                                   (saUsers d)
                            else saUsers d) in
                all_ok (map (\<lambda>u. formatUser u d) (take 500 (rev (sort_key sau_id rows)))))))"

definition getUser :: "string \<Rightarrow> string \<Rightarrow> (db, user_view) eff" where
  "getUser caller pid =
     bindE (find_user pid ''Not Found'') (\<lambda>u.
     thenE (user_gate caller (sau_orgId u)) (liftR (formatUser u)))"

record permission_view =
  pv_publicId :: string
  pv_name :: string
  pv_appId :: string

record role_view =
  rv_publicId :: string
  rv_name :: string
  rv_appId :: string
  rv_permissions :: "permission_view list"

definition view_role :: "db \<Rightarrow> sa_role \<Rightarrow> err + role_view" where
  "view_role d r =
     (case app_by_id d (role_appId r) of
        None \<Rightarrow> Inl inconsistent
      | Some a \<Rightarrow>
          Inr \<lparr>rv_publicId = role_publicId r, rv_name = role_name r, rv_appId = app_publicId a,
               rv_permissions = map (\<lambda>p. \<lparr>pv_publicId = perm_publicId p, pv_name = perm_name p,
                 pv_appId = app_publicId a\<rparr>) (permissions_of_role d (role_id r))\<rparr>)"

definition getUserRoles :: "string \<Rightarrow> string \<Rightarrow> (db, role_view list) eff" where
  "getUserRoles caller pid =
     bindE (find_user pid ''Not Found'') (\<lambda>u.
     thenE (user_gate caller (sau_orgId u))
       (liftR (\<lambda>d. all_ok (map (view_role d) (roles_of d (sau_id u))))))"

definition getEffectivePermissions :: "string \<Rightarrow> string \<Rightarrow> (db, string \<times> string list) eff" where
  "getEffectivePermissions caller pid =
     bindE (find_user pid ''Not Found'') (\<lambda>u.
     thenE (user_gate caller (sau_orgId u))
       (readE (\<lambda>d. (pid, sort_unique (map perm_name (held_permissions d (sau_id u)))))))"

definition getUserDirectPermissions :: "string \<Rightarrow> string \<Rightarrow> (db, permission_view list) eff" where
  "getUserDirectPermissions caller pid =
     bindE (find_user pid ''User not found'') (\<lambda>u.
     thenE (user_gate caller (sau_orgId u))
       (readE (\<lambda>d. map (\<lambda>p. \<lparr>pv_publicId = perm_publicId p, pv_name = perm_name p, pv_appId = []\<rparr>)
                 (direct_permissions_of d (sau_id u)))))"

section \<open>Creating\<close>

record create_user_dto =
  cd_firstName :: string
  cd_lastName :: string
  cd_email :: string
  cd_orgId :: string
  cd_username :: "string option"
  cd_phoneNumber :: "string option"
  cd_roleIds :: "string list option"
  cd_directPermissionIds :: "string list option"

record created_user =
  cu_user :: user_view
  cu_inviteUrl :: string
  cu_mailTo :: string

definition ids_of :: "string list option \<Rightarrow> string list" where
  "ids_of xs = (case xs of None \<Rightarrow> [] | Some l \<Rightarrow> l)"

definition new_user_row :: "string \<Rightarrow> int \<Rightarrow> create_user_dto \<Rightarrow> user_row" where
  "new_user_row uuid now dto =
     \<lparr>usr_id = uuid, usr_name = cd_firstName dto @ '' '' @ cd_lastName dto, usr_email = cd_email dto,
      usr_emailVerified = False, usr_twoFactorEnabled = False, usr_createdAt = now\<rparr>"

definition new_sa_user :: "string \<Rightarrow> int \<Rightarrow> int \<Rightarrow> create_user_dto \<Rightarrow> sa_user" where
  "new_sa_user uuid now orgId dto =
     \<lparr>sau_id = 0, sau_publicId = take 12 uuid, sau_betterAuthUserId = uuid, sau_orgId = orgId,
      sau_firstName = cd_firstName dto, sau_lastName = cd_lastName dto, sau_marketingOptIn = False,
      sau_phoneNumber = cd_phoneNumber dto, sau_username = cd_username dto, sau_status = Pending,
      sau_createdAt = now, sau_lastLoginAt = None, sau_twoFactorPromptedAt = None\<rparr>"

definition new_invitation :: "string \<Rightarrow> string \<Rightarrow> int \<Rightarrow> int \<Rightarrow> sa_invitation" where
  "new_invitation pid token uid now =
     \<lparr>inv_id = 0, inv_publicId = pid, inv_token = token, inv_userId = uid,
      inv_expiresAt = now + INVITATION_TTL_MS, inv_usedAt = None, inv_createdAt = now\<rparr>"

text \<open>The escalation guard of \<open>createUser\<close>: the system permissions among the initial grants.\<close>

definition initial_system_perms :: "create_user_dto \<Rightarrow> db \<Rightarrow> string list" where
  "initial_system_perms dto d =
     js_unique (system_perm_names (perms_by_publicIds d (ids_of (cd_directPermissionIds dto))) @
                js_unique (system_perm_names (perms_of_roles d (ids_of (cd_roleIds dto)))))"

definition createUser_rows ::
    "string \<Rightarrow> string \<Rightarrow> int \<Rightarrow> create_user_dto \<Rightarrow> int \<Rightarrow> int list \<Rightarrow> int list \<Rightarrow>
     (db, sa_user \<times> sa_invitation) eff" where
  "createUser_rows uuid token now dto orgId rids pids =
     thenE (create_user (new_user_row uuid now dto))
     (bindE (create_sa_user (new_sa_user uuid now orgId dto)) (\<lambda>u.
      thenE (if rids \<noteq> [] then create_user_roles (sau_id u) rids else ret ())
      (thenE (if pids \<noteq> [] then create_user_permissions (sau_id u) pids else ret ())
      (bindE (create_invitation (new_invitation (take 12 (drop 12 uuid)) token (sau_id u) now)) (\<lambda>i.
       ret (u, i))))))"

definition conflict_on_P2002 :: "string \<Rightarrow> ('s, 'a) eff \<Rightarrow> ('s, 'a) eff" where
  "conflict_on_P2002 msg m = catchE m (\<lambda>e. raise (if e = P2002 then ConflictE msg else e))"

definition createUser ::
    "host \<Rightarrow> string \<Rightarrow> string \<Rightarrow> int \<Rightarrow> string \<Rightarrow> create_user_dto \<Rightarrow> (db, created_user) eff" where
  "createUser h uuid token now caller dto =
     bindE (findE (\<lambda>d. org_by_publicId d (cd_orgId dto)) (NotFoundE ''Org not found'')) (\<lambda>org.
     thenE (user_gate caller (org_id org))
     (thenE (liftR (\<lambda>d. assertCallerCanGrantSystemPerms d caller (initial_system_perms dto d)))
     (bindE (liftR (\<lambda>d. resolveRoleIdsForApp d (org_appId org) (ids_of (cd_roleIds dto)))) (\<lambda>rids.
      bindE (liftR (\<lambda>d. resolvePermissionIdsForApp d (org_appId org)
                          (ids_of (cd_directPermissionIds dto)))) (\<lambda>pids.
      bindE (conflict_on_P2002 ''A user with that email or username already exists.''
               (transaction (createUser_rows uuid token now dto (org_id org) rids pids))) (\<lambda>(u, i).
      bindE (liftR (formatUser u)) (\<lambda>view.
       ret \<lparr>cu_user = view, cu_inviteUrl = invite_url h (inv_token i), cu_mailTo = cd_email dto\<rparr>)))))))"

section \<open>Changing and deleting\<close>

record update_user_dto =
  ud_firstName :: "string option"
  ud_lastName :: "string option"
  ud_phoneNumber :: "string option"
  ud_username :: "string option"
  ud_status :: "user_status option"

definition given :: "'a option \<Rightarrow> 'a \<Rightarrow> 'a" where
  "given v old = (case v of None \<Rightarrow> old | Some x \<Rightarrow> x)"

definition patch_user :: "update_user_dto \<Rightarrow> sa_user \<Rightarrow> sa_user" where
  "patch_user dto u =
     u\<lparr>sau_firstName := given (ud_firstName dto) (sau_firstName u),
       sau_lastName := given (ud_lastName dto) (sau_lastName u),
       sau_phoneNumber := (case ud_phoneNumber dto of None \<Rightarrow> sau_phoneNumber u | Some p \<Rightarrow> Some p),
       sau_username := (case ud_username dto of None \<Rightarrow> sau_username u | Some n \<Rightarrow> Some n),
       sau_status := given (ud_status dto) (sau_status u)\<rparr>"

text \<open>The result carries the user the activation webhook is told about, if any.\<close>

definition updateUser ::
    "int \<Rightarrow> string \<Rightarrow> string \<Rightarrow> update_user_dto \<Rightarrow> (db, user_view \<times> sa_user option) eff" where
  "updateUser now caller pid dto =
     bindE (find_user pid ''Not Found'') (\<lambda>existing.
     thenE (user_gate caller (sau_orgId existing))
     (if ud_status dto = Some Active \<and> sau_status existing = Pending then
        raise (BadRequestE ''A pending user becomes active only by accepting their invitation. Use /resend-invitation instead.'')
      else if ud_status dto = Some Inactive \<and> sau_betterAuthUserId existing = caller then
        raise (ForbiddenE ''You cannot deactivate your own account'')
      else
        bindE (update_sa_user pid (patch_user dto)) (\<lambda>updated.
        thenE (if ud_status dto = Some Inactive then
                 thenE (delete_sessions_of (sau_betterAuthUserId existing))
                       (revokeForUser now (sau_id existing))
               else ret ())
        (bindE (liftR (formatUser updated)) (\<lambda>view.
         ret (view, if ud_status dto = Some Active \<and> sau_status existing \<noteq> Active
                    then Some updated else None))))))"

definition deleteUser :: "string \<Rightarrow> string \<Rightarrow> (db, unit) eff" where
  "deleteUser caller pid =
     bindE (find_user pid ''Not Found'') (\<lambda>existing.
       if sau_betterAuthUserId existing = caller then raise (ForbiddenE ''You cannot delete your own account'')
       else
         thenE (liftR (\<lambda>d. checkPermission d caller [''platform.users.manage''] (Some (sau_orgId existing))))
           (transaction (thenE (delete_sa_user pid) (delete_user (sau_betterAuthUserId existing)))))"

section \<open>Roles and direct permissions\<close>

definition role_grant_guard :: "string \<Rightarrow> sa_role \<Rightarrow> (db, unit) eff" where
  "role_grant_guard caller r =
     liftR (\<lambda>d. assertCallerCanGrantSystemPerms d caller
                  (system_perm_names (permissions_of_role d (role_id r))))"

definition assignRole :: "string \<Rightarrow> string \<Rightarrow> string \<Rightarrow> (db, unit) eff" where
  "assignRole caller userPublicId roleId =
     bindE (find_user userPublicId ''User not found'') (\<lambda>u.
     thenE (user_gate caller (sau_orgId u))
     (bindE (findE (\<lambda>d. role_by_publicId d roleId) (NotFoundE ''Role not found'')) (\<lambda>r.
      thenE (role_grant_guard caller r)
        (swallow ''P2002'' (create_user_role (sau_id u) (role_id r))))))"

definition removeRole :: "string \<Rightarrow> string \<Rightarrow> string \<Rightarrow> (db, unit) eff" where
  "removeRole caller userPublicId rolePublicId =
     bindE (find_user userPublicId ''User not found'') (\<lambda>u.
     thenE (user_gate caller (sau_orgId u))
     (bindE (findE (\<lambda>d. role_by_publicId d rolePublicId) (NotFoundE ''Role not found'')) (\<lambda>r.
      thenE (role_grant_guard caller r)
        (swallow ''P2025'' (delete_user_role (sau_id u) (role_id r))))))"

definition setUserRoles :: "string \<Rightarrow> string \<Rightarrow> string list \<Rightarrow> (db, unit) eff" where
  "setUserRoles caller userPublicId roleIds =
     bindE (find_user userPublicId ''User not found'') (\<lambda>u.
       if sau_betterAuthUserId u = caller then raise (ForbiddenE ''You cannot edit your own access'')
       else
         thenE (user_gate caller (sau_orgId u))
         (bindE (findE (\<lambda>d. org_by_id d (sau_orgId u)) (NotFoundE ''User org not found'')) (\<lambda>org.
          thenE (liftR (\<lambda>d. assertCallerCanGrantSystemPerms d caller
                              (js_unique (system_perm_names (perms_of_roles d roleIds)))))
          (bindE (liftR (\<lambda>d. resolveRoleIdsForApp d (org_appId org) roleIds)) (\<lambda>ids.
           transaction (thenE (delete_user_roles_of (sau_id u))
             (if ids \<noteq> [] then create_user_roles (sau_id u) ids else ret ())))))))"

definition setUserDirectPermissions :: "string \<Rightarrow> string \<Rightarrow> string list \<Rightarrow> (db, unit) eff" where
  "setUserDirectPermissions caller userPublicId permissionIds =
     bindE (find_user userPublicId ''User not found'') (\<lambda>u.
       if sau_betterAuthUserId u = caller then raise (ForbiddenE ''You cannot edit your own access'')
       else
         thenE (user_gate caller (sau_orgId u))
         (bindE (findE (\<lambda>d. org_by_id d (sau_orgId u)) (NotFoundE ''User org not found'')) (\<lambda>org.
          thenE (liftR (\<lambda>d. assertCallerCanGrantSystemPerms d caller
                              (system_perm_names (perms_by_publicIds d permissionIds))))
          (bindE (liftR (\<lambda>d. resolvePermissionIdsForApp d (org_appId org) permissionIds)) (\<lambda>ids.
           transaction (thenE (delete_user_permissions_of (sau_id u))
             (if ids \<noteq> [] then create_user_permissions (sau_id u) ids else ret ())))))))"

section \<open>Invitations, activation mail, second factor, password\<close>

definition expire_invitations_of :: "int \<Rightarrow> db \<Rightarrow> db" where
  "expire_invitations_of uid d =
     d\<lparr>saInvitations := map (\<lambda>i. if inv_userId i = uid \<and> inv_usedAt i = None
                                 then i\<lparr>inv_expiresAt := 0\<rparr> else i) (saInvitations d)\<rparr>"

text \<open>The invitation link and the address it is mailed to.\<close>

definition resendInvitation ::
    "host \<Rightarrow> string \<Rightarrow> string \<Rightarrow> int \<Rightarrow> string \<Rightarrow> string \<Rightarrow> (db, string \<times> string) eff" where
  "resendInvitation h uuid token now caller userPublicId =
     bindE (find_user userPublicId ''User not found'') (\<lambda>u.
     bindE (findE (\<lambda>d. user_by_id d (sau_betterAuthUserId u)) (NotFoundE ''User account not found'')) (\<lambda>b.
     thenE (user_gate caller (sau_orgId u))
     (if sau_status u \<noteq> Pending then raise (BadRequestE ''User is not pending'')
      else
        bindE (transaction (thenE (modifyE (expire_invitations_of (sau_id u)))
                 (create_invitation (new_invitation (take 12 uuid) token (sau_id u) now)))) (\<lambda>i.
        ret (invite_url h (inv_token i), usr_email b)))))"

definition resendActivationEmail ::
    "host \<Rightarrow> (string \<Rightarrow> string \<Rightarrow> err + unit) \<Rightarrow> string \<Rightarrow> string \<Rightarrow> (db, unit) eff" where
  "resendActivationEmail h sendVerificationEmail caller userPublicId =
     bindE (find_user userPublicId ''User not found'') (\<lambda>u.
     bindE (findE (\<lambda>d. user_by_id d (sau_betterAuthUserId u)) (NotFoundE ''User account not found'')) (\<lambda>b.
     thenE (user_gate caller (sau_orgId u))
     (if sau_status u \<noteq> Unverified then raise (BadRequestE ''User is not unverified'')
      else
        bindE (findE (\<lambda>d. Option.bind (org_by_id d (sau_orgId u)) (\<lambda>g. app_by_id d (org_appId g)))
                 inconsistent) (\<lambda>app.
        liftR (\<lambda>_. sendVerificationEmail (usr_email b)
          (admin_base h @ ''/signup/verified?email='' @ encode_uri_component (usr_email b) @
           ''&client_id='' @ encode_uri_component (app_publicId app)))))))"

definition reset2fa :: "string \<Rightarrow> string \<Rightarrow> (db, unit) eff" where
  "reset2fa caller userPublicId =
     bindE (find_user userPublicId ''User not found'') (\<lambda>u.
     thenE (user_gate caller (sau_orgId u))
     (transaction (thenE (delete_two_factor_of (sau_betterAuthUserId u))
        (bindE (update_user (sau_betterAuthUserId u) (\<lambda>b. b\<lparr>usr_twoFactorEnabled := False\<rparr>))
           (\<lambda>_. ret ())))))"

definition resetPassword ::
    "host \<Rightarrow> (string \<Rightarrow> string \<Rightarrow> err + string option) \<Rightarrow> string \<Rightarrow> string \<Rightarrow> (db, string option) eff" where
  "resetPassword h requestPasswordReset caller userPublicId =
     bindE (find_user userPublicId ''User not found'') (\<lambda>u.
     bindE (findE (\<lambda>d. user_by_id d (sau_betterAuthUserId u)) (NotFoundE ''User account not found'')) (\<lambda>b.
     thenE (user_gate caller (sau_orgId u))
     (bindE (findE (\<lambda>d. find (\<lambda>a. acc_userId a = sau_betterAuthUserId u \<and> acc_providerId a = ''credential'')
                     (accounts d)) (BadRequestE ''User has no password to reset'')) (\<lambda>_.
      liftR (\<lambda>_. requestPasswordReset (usr_email b) (admin_base h @ ''/reset-password''))))))"

section \<open>What an operation may touch\<close>

text \<open>
  \<open>only_rows_of i b d t\<close>: the two databases agree except on the rows of the organisation user
  number \<open>i\<close> and of the credential account \<open>b\<close> behind it.
\<close>

definition only_rows_of :: "int \<Rightarrow> string \<Rightarrow> db \<Rightarrow> db \<Rightarrow> bool" where
  "only_rows_of i b d t \<longleftrightarrow>
     filter (\<lambda>u. sau_id u \<noteq> i) (saUsers t) = filter (\<lambda>u. sau_id u \<noteq> i) (saUsers d) \<and>
     filter (\<lambda>x. fst x \<noteq> i) (saUserRoles t) = filter (\<lambda>x. fst x \<noteq> i) (saUserRoles d) \<and>
     filter (\<lambda>x. fst x \<noteq> i) (saUserPermissions t) = filter (\<lambda>x. fst x \<noteq> i) (saUserPermissions d) \<and>
     filter (\<lambda>v. inv_userId v \<noteq> i) (saInvitations t) = filter (\<lambda>v. inv_userId v \<noteq> i) (saInvitations d) \<and>
     filter (\<lambda>c. con_saUserId c \<noteq> i) (saUserConsents t) = filter (\<lambda>c. con_saUserId c \<noteq> i) (saUserConsents d) \<and>
     filter (\<lambda>r. rt_saUserId r \<noteq> i) (saRefreshTokens t) = filter (\<lambda>r. rt_saUserId r \<noteq> i) (saRefreshTokens d) \<and>
     filter (\<lambda>u. usr_id u \<noteq> b) (users t) = filter (\<lambda>u. usr_id u \<noteq> b) (users d) \<and>
     filter (\<lambda>s. ses_userId s \<noteq> b) (sessions t) = filter (\<lambda>s. ses_userId s \<noteq> b) (sessions d) \<and>
     filter (\<lambda>a. acc_userId a \<noteq> b) (accounts t) = filter (\<lambda>a. acc_userId a \<noteq> b) (accounts d) \<and>
     filter (\<lambda>f. tf_userId f \<noteq> b) (twoFactors t) = filter (\<lambda>f. tf_userId f \<noteq> b) (twoFactors d) \<and>
     saApps t = saApps d \<and> saRedirectUris t = saRedirectUris d \<and> saOrgs t = saOrgs d \<and>
     saPermissions t = saPermissions d \<and> saRoles t = saRoles d \<and>
     saRolePermissions t = saRolePermissions d \<and> saOauthCodes t = saOauthCodes d"

lemma only_rows_refl [simp]: "only_rows_of i b d d"
  by (simp add: only_rows_of_def)

lemma only_rows_trans: "only_rows_of i b d t \<Longrightarrow> only_rows_of i b t v \<Longrightarrow> only_rows_of i b d v"
  by (simp add: only_rows_of_def)

text \<open>An effect that touches nothing but those rows, from any state satisfying \<open>P\<close>.\<close>

definition touches :: "int \<Rightarrow> string \<Rightarrow> (db, 'a) eff \<Rightarrow> bool" where
  "touches i b m \<longleftrightarrow> (\<forall>d. only_rows_of i b d (snd (m d)))"

named_theorems touches_intros \<open>effects confined to one user\<close>

lemma touchesD: "touches i b m \<Longrightarrow> m d = (r, t) \<Longrightarrow> only_rows_of i b d t"
  by (metis snd_conv touches_def)

lemma touches_pure [touches_intros]:
  "touches i b (ret x)" "touches i b (raise e)" "touches i b (readE f)" "touches i b (liftR g)"
  "touches i b (findE k e)"
  by (auto simp: touches_def findE_def split: option.splits)

lemma touches_bindE [touches_intros]:
  "touches i b m \<Longrightarrow> (\<And>a. touches i b (k a)) \<Longrightarrow> touches i b (bindE m k)"
  unfolding touches_def bindE_def
  by (fastforce split: prod.splits sum.splits intro: only_rows_trans)

lemma touches_thenE [touches_intros]: "touches i b m \<Longrightarrow> touches i b n \<Longrightarrow> touches i b (thenE m n)"
  by (simp add: thenE_def touches_bindE)

lemma touches_catchE [touches_intros]:
  "touches i b m \<Longrightarrow> (\<And>e. touches i b (h e)) \<Longrightarrow> touches i b (catchE m h)"
  unfolding touches_def catchE_def
  by (fastforce split: prod.splits sum.splits intro: only_rows_trans)

lemma touches_transaction [touches_intros]: "touches i b m \<Longrightarrow> touches i b (transaction m)"
  unfolding touches_def transaction_def
  by (auto split: prod.splits sum.splits) (metis snd_conv)

lemma touches_if [touches_intros]:
  "(c \<Longrightarrow> touches i b m) \<Longrightarrow> (\<not> c \<Longrightarrow> touches i b n) \<Longrightarrow> touches i b (if c then m else n)"
  by simp

lemma other_rows_kept:
  "filter (\<lambda>x. x \<noteq> (i, k) \<and> fst x \<noteq> i) ps = filter (\<lambda>x. fst x \<noteq> i) ps"
  "filter (\<lambda>v. inv_userId v \<noteq> i)
     (map (\<lambda>v. if inv_userId v = i \<and> inv_usedAt v = None then v\<lparr>inv_expiresAt := 0\<rparr> else v) vs) =
   filter (\<lambda>v. inv_userId v \<noteq> i) vs"
  "filter (\<lambda>r. rt_saUserId r \<noteq> i) (map (revoke_row (\<lambda>r. rt_saUserId r = i) now) rs) =
   filter (\<lambda>r. rt_saUserId r \<noteq> i) rs"
  subgoal by (induction ps) auto
  subgoal by (induction vs) auto
  subgoal by (induction rs) (auto simp: revoke_row_def)
  done

lemma touches_statements [touches_intros]:
  "touches i b (delete_sessions_of b)" "touches i b (delete_two_factor_of b)"
  "touches i b (delete_user_roles_of i)" "touches i b (delete_user_permissions_of i)"
  "touches i b (create_user_roles i ks)" "touches i b (create_user_permissions i ks)"
  "touches i b (create_user_role i k)" "touches i b (delete_user_role i k)"
  "inv_userId v = i \<Longrightarrow> touches i b (create_invitation v)"
  "touches i b (modifyE (expire_invitations_of i))"
  "touches i b (revokeForUser now i)"
  by (auto simp: touches_def only_rows_of_def delete_sessions_of_def delete_two_factor_of_def
      delete_user_roles_of_def delete_user_permissions_of_def create_user_roles_def Let_def
      create_user_permissions_def create_user_role_def delete_user_role_def create_invitation_def
      expire_invitations_of_def revokeForUser_def revoke_where_def filter_empty_conv
      other_rows_kept)

lemma filter_map_keep:
  "(\<And>x. x \<in> set xs \<Longrightarrow> P x \<Longrightarrow> \<not> Q x) \<Longrightarrow> \<not> Q y \<Longrightarrow>
     filter Q (map (\<lambda>x. if P x then y else x) xs) = filter Q xs"
  by (induction xs) auto

lemma touches_credential [touches_intros]:
  "(\<And>u. usr_id (g u) = usr_id u) \<Longrightarrow> touches i b (update_user b g)"
  "touches i b (delete_user b)"
  "usr_id u = b \<Longrightarrow> touches i b (create_user u)"
  by (auto simp: touches_def only_rows_of_def update_user_def delete_user_def create_user_def replace_row_def
      filter_map_keep dest: lookup_sound(1) split: option.splits)

text \<open>Rows found by public id are the rows of one user.\<close>

lemma public_id_row:
  assumes "keys_ok d" "sau_by_publicId d pid = Some u" "r \<in> set (saUsers d)"
  shows "sau_publicId r = pid \<longleftrightarrow> sau_id r = sau_id u"
  using assms lookup_sound(8)[OF assms(2)] unfolding keys_ok_def by (metis distinct_map_eq)

lemma update_sa_user_touches:
  assumes "keys_ok d" "sau_by_publicId d pid = Some u" "sau_id (g u) = sau_id u"
  shows "only_rows_of (sau_id u) b d (snd (update_sa_user pid g d))"
proof -
  have "filter (\<lambda>r. sau_id r \<noteq> sau_id u) (replace_row sau_publicId pid (g u) (saUsers d)) =
      filter (\<lambda>r. sau_id r \<noteq> sau_id u) (saUsers d)"
    unfolding replace_row_def using public_id_row[OF assms(1,2)] assms(3) by (intro filter_map_keep) auto
  then show ?thesis using assms(2) by (simp add: update_sa_user_def Let_def only_rows_of_def)
qed

lemma delete_sa_user_touches:
  assumes "keys_ok d" "sau_by_publicId d pid = Some u"
  shows "only_rows_of (sau_id u) b d (snd (delete_sa_user pid d))"
proof -
  have "filter (\<lambda>r. sau_publicId r \<noteq> pid \<and> sau_id r \<noteq> sau_id u) (saUsers d) =
      filter (\<lambda>r. sau_id r \<noteq> sau_id u) (saUsers d)"
    using public_id_row[OF assms] by (intro filter_cong) auto
  then show ?thesis using assms(2) by (simp add: delete_sa_user_def only_rows_of_def)
qed

lemma create_sa_user_result:
  assumes "create_sa_user u d = (Inr u', t)"
  shows "u' = u\<lparr>sau_id := nextId d SaUserT\<rparr>" "only_rows_of (nextId d SaUserT) b d t" "u' \<in> set (saUsers t)"
  using assms by (auto simp: create_sa_user_def Let_def only_rows_of_def split: if_splits)

lemma find_user_split:
  "bindE (find_user pid msg) k d = (r, t) \<Longrightarrow>
     t = d \<or> (\<exists>u. sau_by_publicId d pid = Some u \<and> k u d = (r, t))"
  by (auto simp: find_user_def bindE_def findE_def split: option.splits)

lemma gate_split:
  "thenE (user_gate caller og) m d = (r, t) \<Longrightarrow>
     t = d \<or> checkPermission d caller manage_users (Some og) = Inr () \<and> m d = (r, t)"
  by (auto simp: user_gate_def thenE_def bindE_def split: sum.splits)

lemma findE_split: "bindE (findE f e) k d = (r, t) \<Longrightarrow> t = d \<or> (\<exists>a. f d = Some a \<and> k a d = (r, t))"
  by (auto simp: bindE_def findE_def split: option.splits)

lemma liftR_split: "bindE (liftR f) k d = (r, t) \<Longrightarrow> t = d \<or> (\<exists>a. f d = Inr a \<and> k a d = (r, t))"
  by (auto simp: bindE_def split: sum.splits)

lemma swallow_touches [touches_intros]: "touches i b m \<Longrightarrow> touches i b (swallow c m)"
  by (auto simp: swallow_def intro: touches_intros)

section \<open>The operations as one family\<close>

datatype user_op =
    CreateUser string string int create_user_dto
  | UpdateUser int string update_user_dto
  | DeleteUser string
  | AssignRole string string
  | RemoveRole string string
  | SetUserRoles string "string list"
  | SetUserDirectPermissions string "string list"
  | ResendInvitation string string int string
  | ResendActivationEmail "string \<Rightarrow> string \<Rightarrow> err + unit" string
  | Reset2fa string
  | ResetPassword "string \<Rightarrow> string \<Rightarrow> err + string option" string

definition discard :: "('s, 'a) eff \<Rightarrow> ('s, unit) eff" where
  "discard m = bindE m (\<lambda>_. ret ())"

fun run_user_op :: "host \<Rightarrow> string \<Rightarrow> user_op \<Rightarrow> (db, unit) eff" where
  "run_user_op h c (CreateUser uuid token now dto) = discard (createUser h uuid token now c dto)"
| "run_user_op h c (UpdateUser now pid dto) = discard (updateUser now c pid dto)"
| "run_user_op h c (DeleteUser pid) = deleteUser c pid"
| "run_user_op h c (AssignRole pid r) = assignRole c pid r"
| "run_user_op h c (RemoveRole pid r) = removeRole c pid r"
| "run_user_op h c (SetUserRoles pid rs) = setUserRoles c pid rs"
| "run_user_op h c (SetUserDirectPermissions pid ps) = setUserDirectPermissions c pid ps"
| "run_user_op h c (ResendInvitation uuid token now pid) = discard (resendInvitation h uuid token now c pid)"
| "run_user_op h c (ResendActivationEmail send pid) = resendActivationEmail h send c pid"
| "run_user_op h c (Reset2fa pid) = reset2fa c pid"
| "run_user_op h c (ResetPassword req pid) = discard (resetPassword h req c pid)"

lemma discard_state: "discard m d = (r, t) \<Longrightarrow> \<exists>r'. m d = (r', t)"
  by (cases "m d") (auto simp: discard_def bindE_def split: sum.splits)

section \<open>Every operation stays within one user the gate admits\<close>

text \<open>An operation on user \<open>pid\<close> by \<open>caller\<close> changed nothing, or the gate admitted it and only rows
  of that user changed.\<close>

definition confined_to :: "string \<Rightarrow> string \<Rightarrow> db \<Rightarrow> db \<Rightarrow> bool" where
  "confined_to caller pid d t \<longleftrightarrow>
     t = d \<or> (\<exists>u. sau_by_publicId d pid = Some u \<and>
        checkPermission d caller manage_users (Some (sau_orgId u)) = Inr () \<and>
        only_rows_of (sau_id u) (sau_betterAuthUserId u) d t)"

lemma confinedI:
  assumes "bindE (find_user pid msg) k d = (r, t)"
    and "\<And>u. k u d = (r, t) \<Longrightarrow> sau_by_publicId d pid = Some u \<Longrightarrow>
      t = d \<or> checkPermission d caller manage_users (Some (sau_orgId u)) = Inr () \<and>
        only_rows_of (sau_id u) (sau_betterAuthUserId u) d t"
  shows "confined_to caller pid d t"
  using find_user_split[OF assms(1)] assms(2) unfolding confined_to_def by blast

lemma gated_touches:
  "thenE (user_gate caller og) m d = (r, t) \<Longrightarrow> touches i b m \<Longrightarrow>
     t = d \<or> checkPermission d caller manage_users (Some og) = Inr () \<and> only_rows_of i b d t"
  by (auto dest!: gate_split intro: touchesD)

lemma assignRole_confined: "assignRole c pid x d = (r, t) \<Longrightarrow> confined_to c pid d t"
  unfolding assignRole_def
  by (erule confinedI, erule gated_touches) (auto simp: role_grant_guard_def intro!: touches_intros)

lemma removeRole_confined: "removeRole c pid x d = (r, t) \<Longrightarrow> confined_to c pid d t"
  unfolding removeRole_def
  by (erule confinedI, erule gated_touches) (auto simp: role_grant_guard_def intro!: touches_intros)

lemma self_guard: "(if b then raise e else m) d = (r, t) \<Longrightarrow> t = d \<or> \<not> b \<and> m d = (r, t)"
  by (auto split: if_splits)

lemma setUserRoles_confined: "setUserRoles c pid xs d = (r, t) \<Longrightarrow> confined_to c pid d t"
  unfolding setUserRoles_def
  by (erule confinedI, drule self_guard, erule disjE, simp, erule conjE, erule gated_touches)
    (auto intro!: touches_intros)

lemma setUserDirectPermissions_confined:
  "setUserDirectPermissions c pid xs d = (r, t) \<Longrightarrow> confined_to c pid d t"
  unfolding setUserDirectPermissions_def
  by (erule confinedI, drule self_guard, erule disjE, simp, erule conjE, erule gated_touches)
    (auto intro!: touches_intros)

lemma resendInvitation_confined:
  "resendInvitation h uuid token now c pid d = (r, t) \<Longrightarrow> confined_to c pid d t"
  unfolding resendInvitation_def
  by (erule confinedI, drule findE_split, erule disjE, simp, elim exE conjE, erule gated_touches)
    (auto simp: new_invitation_def intro!: touches_intros)

lemma resendActivationEmail_confined:
  "resendActivationEmail h send c pid d = (r, t) \<Longrightarrow> confined_to c pid d t"
  unfolding resendActivationEmail_def
  by (erule confinedI, drule findE_split, erule disjE, simp, elim exE conjE, erule gated_touches)
    (auto intro!: touches_intros)

lemma reset2fa_confined: "reset2fa c pid d = (r, t) \<Longrightarrow> confined_to c pid d t"
  unfolding reset2fa_def
  by (erule confinedI, erule gated_touches) (auto intro!: touches_intros)

lemma resetPassword_confined: "resetPassword h req c pid d = (r, t) \<Longrightarrow> confined_to c pid d t"
  unfolding resetPassword_def
  by (erule confinedI, drule findE_split, erule disjE, simp, elim exE conjE, erule gated_touches)
    (auto intro!: touches_intros)

lemma bindE_only_rows:
  assumes "bindE m k d = (r, t)" "only_rows_of i b d (snd (m d))" "\<And>a. touches i b (k a)"
  shows "only_rows_of i b d t"
proof (cases "m d")
  case (Pair x s)
  have "only_rows_of i b d s" using assms(2) Pair by simp
  then show ?thesis
    using assms(1) Pair touchesD[OF assms(3)]
    by (cases x) (auto intro: only_rows_trans)
qed

lemma updateUser_confined:
  assumes "keys_ok d" "updateUser now c pid dto d = (r, t)"
  shows "confined_to c pid d t"
  using assms(2) unfolding updateUser_def
proof (rule confinedI)
  fix u assume run: "thenE (user_gate c (sau_orgId u)) (if ud_status dto = Some Active \<and> sau_status u = Pending then
        raise (BadRequestE ''A pending user becomes active only by accepting their invitation. Use /resend-invitation instead.'')
      else if ud_status dto = Some Inactive \<and> sau_betterAuthUserId u = c then
        raise (ForbiddenE ''You cannot deactivate your own account'')
      else bindE (update_sa_user pid (patch_user dto)) (\<lambda>updated.
        thenE (if ud_status dto = Some Inactive then
                 thenE (delete_sessions_of (sau_betterAuthUserId u)) (revokeForUser now (sau_id u))
               else ret ())
        (bindE (liftR (formatUser updated)) (\<lambda>view.
         ret (view, if ud_status dto = Some Active \<and> sau_status u \<noteq> Active then Some updated else None))))) d = (r, t)"
    and u: "sau_by_publicId d pid = Some u"
  have upd: "only_rows_of (sau_id u) (sau_betterAuthUserId u) d (snd (update_sa_user pid (patch_user dto) d))"
    by (rule update_sa_user_touches[OF assms(1) u]) (simp add: patch_user_def)
  show "t = d \<or> checkPermission d c manage_users (Some (sau_orgId u)) = Inr () \<and>
      only_rows_of (sau_id u) (sau_betterAuthUserId u) d t"
    using gate_split[OF run]
    by (auto split: if_splits
        elim!: bindE_only_rows[where m = "update_sa_user pid (patch_user dto)", OF _ upd] intro!: touches_intros)
qed

lemma deleteUser_confined:
  assumes "keys_ok d" "deleteUser c pid d = (r, t)"
  shows "t = d \<or> (\<exists>u. sau_by_publicId d pid = Some u \<and>
     checkPermission d c [''platform.users.manage''] (Some (sau_orgId u)) = Inr () \<and>
     only_rows_of (sau_id u) (sau_betterAuthUserId u) d t)"
  using find_user_split[OF assms(2)[unfolded deleteUser_def]]
proof (elim disjE exE conjE)
  fix u assume u: "sau_by_publicId d pid = Some u"
    and run: "(if sau_betterAuthUserId u = c then raise (ForbiddenE ''You cannot delete your own account'')
       else thenE (liftR (\<lambda>d. checkPermission d c [''platform.users.manage''] (Some (sau_orgId u))))
           (transaction (thenE (delete_sa_user pid) (delete_user (sau_betterAuthUserId u))))) d = (r, t)"
  show ?thesis
  proof (cases "t = d")
    case False
    then have gate: "checkPermission d c [''platform.users.manage''] (Some (sau_orgId u)) = Inr ()"
      and del: "transaction (thenE (delete_sa_user pid) (delete_user (sau_betterAuthUserId u))) d = (r, t)"
      using run by (auto simp: thenE_def bindE_def split: if_splits sum.splits)
    have "thenE (delete_sa_user pid) (delete_user (sau_betterAuthUserId u)) d = (r, t)"
      using del False by (auto simp: transaction_def split: prod.splits sum.splits)
    from bindE_only_rows[where m = "delete_sa_user pid", OF this[unfolded thenE_def] delete_sa_user_touches[OF assms(1) u]]
    show ?thesis using u gate by (auto intro: touches_intros)
  qed simp
qed simp

text \<open>Creating a user writes the rows of the new user only.\<close>

lemma createUser_rows_touches:
  assumes "createUser_rows uuid token now dto og rids pids d = (Inr x, t)"
  shows "only_rows_of (nextId d SaUserT) uuid d t \<and> fst x \<in> set (saUsers t) \<and> sau_orgId (fst x) = og \<and>
    sau_id (fst x) = nextId d SaUserT \<and> sau_betterAuthUserId (fst x) = uuid"
proof -
  obtain b s u s2 where b: "create_user (new_user_row uuid now dto) d = (Inr b, s)"
    and u: "create_sa_user (new_sa_user uuid now og dto) s = (Inr u, s2)"
    and rest: "thenE (if rids \<noteq> [] then create_user_roles (sau_id u) rids else ret ())
      (thenE (if pids \<noteq> [] then create_user_permissions (sau_id u) pids else ret ())
      (bindE (create_invitation (new_invitation (take 12 (drop 12 uuid)) token (sau_id u) now)) (\<lambda>i.
       ret (u, i)))) s2 = (Inr x, t)"
    using assms unfolding createUser_rows_def by (auto simp: thenE_ok bindE_ok)
  have seq: "nextId s = nextId d" using b by (auto simp: create_user_def split: if_splits)
  have id: "sau_id u = nextId d SaUserT" "sau_orgId u = og" "sau_betterAuthUserId u = uuid"
    using create_sa_user_result(1)[OF u] seq by (simp_all add: new_sa_user_def)
  have 1: "only_rows_of (nextId d SaUserT) uuid d s"
    using touchesD[OF touches_credential(3) b] by (simp add: new_user_row_def)
  have 2: "only_rows_of (nextId d SaUserT) uuid s s2"
    using create_sa_user_result(2)[OF u] seq by simp
  have "only_rows_of (nextId d SaUserT) uuid s2 t"
    by (rule touchesD[rotated], rule rest, unfold id(1), intro touches_intros)
      (simp add: new_invitation_def)
  moreover have "saUsers t = saUsers s2" "fst x = u"
    using rest by (auto simp: thenE_ok bindE_ok create_user_roles_def create_user_permissions_def
        create_invitation_def Let_def split: if_splits)
  ultimately show ?thesis
    using 1 2 create_sa_user_result(3)[OF u] id by (auto intro: only_rows_trans)
qed

lemma createUser_confined:
  assumes "createUser h uuid token now c dto d = (r, t)" "t \<noteq> d"
  shows "\<exists>g u. org_by_publicId d (cd_orgId dto) = Some g \<and>
     checkPermission d c manage_users (Some (org_id g)) = Inr () \<and>
     u \<in> set (saUsers t) \<and> sau_orgId u = org_id g \<and> sau_id u = nextId d SaUserT \<and>
     only_rows_of (sau_id u) (sau_betterAuthUserId u) d t"
proof -
  obtain g where g: "org_by_publicId d (cd_orgId dto) = Some g"
    and k: "thenE (user_gate c (org_id g))
     (thenE (liftR (\<lambda>d. assertCallerCanGrantSystemPerms d c (initial_system_perms dto d)))
     (bindE (liftR (\<lambda>d. resolveRoleIdsForApp d (org_appId g) (ids_of (cd_roleIds dto)))) (\<lambda>rids.
      bindE (liftR (\<lambda>d. resolvePermissionIdsForApp d (org_appId g)
                          (ids_of (cd_directPermissionIds dto)))) (\<lambda>pids.
      bindE (conflict_on_P2002 ''A user with that email or username already exists.''
               (transaction (createUser_rows uuid token now dto (org_id g) rids pids))) (\<lambda>(u, i).
      bindE (liftR (formatUser u)) (\<lambda>view.
       ret \<lparr>cu_user = view, cu_inviteUrl = invite_url h (inv_token i), cu_mailTo = cd_email dto\<rparr>)))))) d = (r, t)"
    using findE_split[OF assms(1)[unfolded createUser_def]] assms(2) by blast
  from gate_split[OF k] assms(2) obtain rids pids where gate: "checkPermission d c manage_users (Some (org_id g)) = Inr ()"
    and rows: "bindE (conflict_on_P2002 ''A user with that email or username already exists.''
               (transaction (createUser_rows uuid token now dto (org_id g) rids pids))) (\<lambda>(u, i).
      bindE (liftR (formatUser u)) (\<lambda>view.
       ret \<lparr>cu_user = view, cu_inviteUrl = invite_url h (inv_token i), cu_mailTo = cd_email dto\<rparr>)) d = (r, t)"
    by (auto simp: thenE_def dest!: liftR_split)
  have "\<exists>x. createUser_rows uuid token now dto (org_id g) rids pids d = (Inr x, t)"
    using rows assms(2)
    by (auto simp: bindE_def conflict_on_P2002_def catchE_def transaction_def split: prod.splits sum.splits)
  then obtain x where "createUser_rows uuid token now dto (org_id g) rids pids d = (Inr x, t)" by blast
  from createUser_rows_touches[OF this] g gate show ?thesis by (metis (no_types, lifting))
qed

text \<open>A gate that admits under \<open>manage_users\<close> is the platform permission, or the organisation
  permission within the caller's own organisation.\<close>

lemma manage_users_gate:
  "checkPermission d c manage_users (Some og) = Inr () \<longleftrightarrow>
     (\<exists>a. sau_by_betterAuthUserId d c = Some a \<and>
        (holds d a ''platform.users.manage'' \<or> holds d a ''org.users.manage'' \<and> og = sau_orgId a))"
proof -
  have "is_platform_perm ''platform.users.manage''" "\<not> is_platform_perm ''org.users.manage''"
    by (simp_all add: is_platform_perm_def starts_with_def)
  then show ?thesis by (auto simp: checkPermission_ok manage_users_def)
qed

lemma platform_only_gate:
  "checkPermission d c [''platform.users.manage''] tgt = Inr () \<longleftrightarrow>
     (\<exists>a. sau_by_betterAuthUserId d c = Some a \<and> holds d a ''platform.users.manage'')"
  by (auto simp: checkPermission_ok is_platform_perm_def starts_with_def)

fun op_target :: "user_op \<Rightarrow> string option" where
  "op_target (UpdateUser now pid dto) = Some pid"
| "op_target (AssignRole pid r) = Some pid"
| "op_target (RemoveRole pid r) = Some pid"
| "op_target (SetUserRoles pid rs) = Some pid"
| "op_target (SetUserDirectPermissions pid ps) = Some pid"
| "op_target (ResendInvitation uuid token now pid) = Some pid"
| "op_target (ResendActivationEmail send pid) = Some pid"
| "op_target (Reset2fa pid) = Some pid"
| "op_target (ResetPassword req pid) = Some pid"
| "op_target _ = None"

lemma run_user_op_confined:
  "keys_ok d \<Longrightarrow> run_user_op h c op d = (r, t) \<Longrightarrow> op_target op = Some pid \<Longrightarrow> confined_to c pid d t"
  by (cases op)
    (auto dest!: discard_state intro: updateUser_confined assignRole_confined removeRole_confined
      setUserRoles_confined setUserDirectPermissions_confined resendInvitation_confined
      resendActivationEmail_confined reset2fa_confined resetPassword_confined)

section \<open>Integrity\<close>

lemma keeps_case_prod [keeps_intros]: "(\<And>a b. keeps I (k a b)) \<Longrightarrow> keeps I (case x of (a, b) \<Rightarrow> k a b)"
  by (cases x) simp

lemma keeps_swallow [keeps_intros]: "keeps I m \<Longrightarrow> keeps I (swallow c m)"
  by (auto simp: swallow_def intro: keeps_intros)

lemma keeps_user_gate [keeps_intros]: "keeps I (user_gate c og)"
  and keeps_find_user [keeps_intros]: "keeps I (find_user pid msg)"
  and keeps_role_grant_guard [keeps_intros]: "keeps I (role_grant_guard c r)"
  by (auto simp: user_gate_def find_user_def role_grant_guard_def intro: keeps_intros)

lemma map_tokenHash_revoke: "map rt_tokenHash (map (revoke_row P now) rs) = map rt_tokenHash rs"
  by (induction rs) (auto simp: revoke_row_def)

lemma expire_columns:
  "map (inv_id \<circ> (\<lambda>v. if P v then v\<lparr>inv_expiresAt := 0\<rparr> else v)) vs = map inv_id vs"
  "map (inv_publicId \<circ> (\<lambda>v. if P v then v\<lparr>inv_expiresAt := 0\<rparr> else v)) vs = map inv_publicId vs"
  "map (inv_token \<circ> (\<lambda>v. if P v then v\<lparr>inv_expiresAt := 0\<rparr> else v)) vs = map inv_token vs"
  by (induction vs) auto

lemma keeps_user_writes [keeps_intros]:
  "keeps db_ok (modifyE (expire_invitations_of i))" "keeps db_ok (revokeForUser now i)"
  "keeps db_ok (update_sa_user pid (patch_user dto))"
  "keeps db_ok (update_user b (\<lambda>x. x\<lparr>usr_twoFactorEnabled := False\<rparr>))"
proof -
  show "keeps db_ok (modifyE (expire_invitations_of i))"
    by (rule keeps_modifyE)
      (simp add: integrity expire_invitations_of_def expire_columns image_subset_iff, auto)
  show "keeps db_ok (revokeForUser now i)"
    unfolding revokeForUser_def revoke_where_def
    by (rule keeps_modifyE) (simp add: integrity map_tokenHash_revoke del: map_map)
  show "keeps db_ok (update_sa_user pid (patch_user dto))"
    by (rule keeps_update_sa_user) (simp add: patch_user_def)
  show "keeps db_ok (update_user b (\<lambda>x. x\<lparr>usr_twoFactorEnabled := False\<rparr>))"
    by (rule keeps_update_user) simp
qed

lemma keeps_delete_user_role [keeps_intros]: "keeps db_ok (delete_user_role i k)"
  by (auto simp: keeps_def delete_user_role_def integrity image_subset_filter)

lemma create_user_role_ok:
  assumes "db_ok d" "sau_by_publicId d pid = Some u" "role_by_publicId d q = Some l"
  shows "db_ok (snd (swallow ''P2002'' (create_user_role (sau_id u) (role_id l)) d))"
  using assms(1) lookup_sound(8)[OF assms(2)] lookup_sound(11)[OF assms(3)]
  by (auto simp: create_user_role_cases integrity)

lemma keeps_assignRole [keeps_intros]: "keeps db_ok (assignRole c pid x)"
proof (rule keepsI)
  fix d r t assume ok: "db_ok d" and run: "assignRole c pid x d = (r, t)"
  show "db_ok t"
  proof (cases "t = d")
    case False
    from find_user_split[OF run[unfolded assignRole_def]] False obtain u where u: "sau_by_publicId d pid = Some u"
      and k: "thenE (user_gate c (sau_orgId u))
     (bindE (findE (\<lambda>d. role_by_publicId d x) (NotFoundE ''Role not found'')) (\<lambda>r.
      thenE (role_grant_guard c r)
        (swallow ''P2002'' (create_user_role (sau_id u) (role_id r))))) d = (r, t)"
      by blast
    from gate_split[OF k] False obtain l where l: "role_by_publicId d x = Some l"
      and w: "thenE (role_grant_guard c l) (swallow ''P2002'' (create_user_role (sau_id u) (role_id l))) d = (r, t)"
      by (blast dest: findE_split)
    have "swallow ''P2002'' (create_user_role (sau_id u) (role_id l)) d = (r, t)"
      using w False by (auto simp: role_grant_guard_def thenE_def dest: liftR_split)
    then show ?thesis using create_user_role_ok[OF ok u l] by simp
  qed (simp add: ok)
qed

lemma keeps_conflict [keeps_intros]: "keeps I m \<Longrightarrow> keeps I (conflict_on_P2002 msg m)"
  by (auto simp: conflict_on_P2002_def intro: keeps_intros)

lemma keeps_discard [keeps_intros]: "keeps I m \<Longrightarrow> keeps I (discard m)"
  by (simp add: discard_def keeps_intros del: ret_apply)

lemma keeps_run_user_op: "keeps db_ok (run_user_op h c op)"
  by (cases op)
    (auto simp: discard_def createUser_def createUser_rows_def updateUser_def deleteUser_def removeRole_def
      setUserRoles_def setUserDirectPermissions_def resendInvitation_def resendActivationEmail_def
      reset2fa_def resetPassword_def simp del: ret_apply intro!: keeps_intros)

end
