(* ===== verification/User_Access.thy ===== *)
theory User_Access
  imports Users Example_Data
begin

text \<open>
  What user administration (\<open>users/users.service.ts\<close>) guarantees: tenant isolation, the integrity
  of the database, complete deactivation, the limits of role grants, and where they end.
\<close>

section \<open>Properties\<close>

section \<open>Evaluation at the example\<close>

lemma example_gate: "checkPermission example_db ''b2'' manage_users (Some 2) = Inr ()"
  by code_simp

lemma example_b2:
  "sau_by_betterAuthUserId example_db ''b2'' = Some (example_sa_user 2 ''b2'' 2)"
  "holds example_db (example_sa_user 2 ''b2'' 2) ''org.users.manage''"
  by code_simp+

definition status_only :: "user_status \<Rightarrow> update_user_dto" where
  "status_only s = \<lparr>ud_firstName = None, ud_lastName = None, ud_phoneNumber = None, ud_username = None,
     ud_status = Some s\<rparr>"

lemma example_deactivated:
  "\<exists>x t. updateUser 5 ''b2'' ''xxx'' (status_only Inactive) example_db = (Inr (x, None), t) \<and> t \<noteq> example_db"
proof -
  have "map sau_status (saUsers (snd (updateUser 5 ''b2'' ''xxx'' (status_only Inactive) example_db))) \<noteq>
      map sau_status (saUsers example_db)"
    by code_simp
  moreover have "(case fst (updateUser 5 ''b2'' ''xxx'' (status_only Inactive) example_db) of
      Inr (x, None) \<Rightarrow> True | _ \<Rightarrow> False)"
    by code_simp
  ultimately show ?thesis
    by (cases "updateUser 5 ''b2'' ''xxx'' (status_only Inactive) example_db") (auto split: sum.splits option.splits)
qed

section \<open>Isolation and deactivation\<close>

text \<open>C17 Tenant isolation of user administration. Whatever an operation changes belongs to one user:
  an existing one, or the one it creates. The caller is a known user who holds
  \<open>platform.users.manage\<close>, or \<open>org.users.manage\<close> in the very organisation of that user; every other
  row of every table is left as it was.\<close>

theorem user_administration_confined:
  assumes "db_ok d" "run_user_op h caller op d = (r, t)" "t \<noteq> d"
  shows "\<exists>a u. sau_by_betterAuthUserId d caller = Some a \<and>
     (u \<in> set (saUsers d) \<or> u \<in> set (saUsers t) \<and> sau_id u = nextId d SaUserT) \<and>
     (holds d a ''platform.users.manage'' \<or> holds d a ''org.users.manage'' \<and> sau_orgId u = sau_orgId a) \<and>
     only_rows_of (sau_id u) (sau_betterAuthUserId u) d t"
proof -
  have keys: "keys_ok d" using assms(1) by (rule db_ok_parts)
  have by_row: ?thesis if "confined_to caller pid d t" for pid
    using that assms(3) unfolding confined_to_def manage_users_gate by (blast dest: lookup_sound(8))
  show ?thesis
  proof (cases op)
    case (CreateUser uuid token now dto)
    from discard_state[OF assms(2)[unfolded CreateUser run_user_op.simps]]
    obtain r' where "createUser h uuid token now caller dto d = (r', t)" by blast
    from createUser_confined[OF this assms(3)] show ?thesis unfolding manage_users_gate by metis
  next
    case (DeleteUser pid)
    from deleteUser_confined[OF keys assms(2)[unfolded DeleteUser run_user_op.simps]] assms(3)
    show ?thesis unfolding platform_only_gate by (blast dest: lookup_sound(8))
  qed (use by_row[OF run_user_op_confined[OF keys assms(2)]] in simp_all)
qed

lemma user_administration_confined_witness:
  "\<exists>a (u :: sa_user) t. sau_by_betterAuthUserId example_db ''b2'' = Some a \<and> sau_orgId u = sau_orgId a \<and> t \<noteq> example_db \<and>
     only_rows_of (sau_id u) (sau_betterAuthUserId u) example_db t"
proof -
  obtain x t where run: "updateUser 5 ''b2'' ''xxx'' (status_only Inactive) example_db = (Inr (x, None), t)"
    and changed: "t \<noteq> example_db"
    using example_deactivated by blast
  then have "run_user_op example_host ''b2'' (UpdateUser 5 ''xxx'' (status_only Inactive)) example_db = (Inr (), t)"
    by (simp add: discard_def bindE_def)
  from user_administration_confined[OF example_db_ok this changed] obtain a and u :: sa_user where
    a: "sau_by_betterAuthUserId example_db ''b2'' = Some a"
    and u: "holds example_db a ''platform.users.manage'' \<or> holds example_db a ''org.users.manage'' \<and> sau_orgId u = sau_orgId a"
      "only_rows_of (sau_id u) (sau_betterAuthUserId u) example_db t"
    by blast
  have "\<not> holds example_db (example_sa_user 2 ''b2'' 2) ''platform.users.manage''" by code_simp
  with a u changed show ?thesis by (auto simp: example_b2)
qed

text \<open>C18 Deactivation is complete and never self-inflicted: when an administrator's update sets a user
  inactive, the caller is someone else, the user is inactive afterwards, has no session left and no
  live refresh token, and the activation webhook is not called.\<close>

theorem deactivation_is_complete:
  assumes "db_ok d" "updateUser now caller pid dto d = (Inr (view, activated), t)" "ud_status dto = Some Inactive"
  shows "\<exists>u v. sau_by_publicId d pid = Some u \<and> sau_betterAuthUserId u \<noteq> caller \<and>
     sau_by_publicId t pid = Some v \<and> sau_id v = sau_id u \<and> sau_status v = Inactive \<and> uv_status view = Inactive \<and>
     activated = None \<and>
     (\<nexists>s. s \<in> set (sessions t) \<and> ses_userId s = sau_betterAuthUserId u) \<and>
     (\<nexists>r. r \<in> set (saRefreshTokens t) \<and> rt_saUserId r = sau_id u \<and> rt_revokedAt r = None)"
proof -
  obtain u where u: "sau_by_publicId d pid = Some u" and other: "sau_betterAuthUserId u \<noteq> caller"
    and run: "bindE (update_sa_user pid (patch_user dto)) (\<lambda>updated.
        thenE (thenE (delete_sessions_of (sau_betterAuthUserId u)) (revokeForUser now (sau_id u)))
        (bindE (liftR (formatUser updated)) (\<lambda>view. ret (view, None)))) d = (Inr (view, activated), t)"
    using assms(2,3)
    by (auto simp: updateUser_def find_user_def bindE_ok thenE_ok findE_ok user_gate_def split: if_splits)
  then obtain v s where v: "update_sa_user pid (patch_user dto) d = (Inr v, s)"
    and t: "t = revoke_where (\<lambda>r. rt_saUserId r = sau_id u) now
        (s\<lparr>sessions := filter (\<lambda>x. ses_userId x \<noteq> sau_betterAuthUserId u) (sessions s)\<rparr>)"
    and view: "formatUser v t = Inr view" "activated = None"
    by (auto simp: bindE_ok thenE_ok delete_sessions_of_def revokeForUser_def)
  have row: "v = patch_user dto u" "saUsers s = replace_row sau_publicId pid v (saUsers d)"
    using v u by (auto simp: update_sa_user_def Let_def split: if_splits)
  have users: "saUsers t = replace_row sau_publicId pid v (saUsers d)"
    by (simp add: t row revoke_where_def)
  have pid: "sau_publicId v = pid" "sau_id v = sau_id u" "sau_status v = Inactive"
    using lookup_sound(8)[OF u] assms(3) by (simp_all add: row patch_user_def given_def)
  have "find (\<lambda>x. sau_publicId x = pid) (replace_row sau_publicId pid v rows) = Some v"
    if "\<exists>x \<in> set rows. sau_publicId x = pid" for rows
    using that by (induction rows) (auto simp: replace_row_def pid)
  then have found: "sau_by_publicId t pid = Some v"
    using lookup_sound(8)[OF u] by (auto simp: sau_by_publicId_def users)
  have "uv_status view = Inactive" using view pid by (auto simp: formatUser_def split: option.splits)
  moreover have "\<nexists>x. x \<in> set (sessions t) \<and> ses_userId x = sau_betterAuthUserId u"
    by (simp add: t revoke_where_def)
  moreover have "\<nexists>r. r \<in> set (saRefreshTokens t) \<and> rt_saUserId r = sau_id u \<and> rt_revokedAt r = None"
    by (auto simp: t revoke_where_def revoke_row_def split: if_splits)
  ultimately show ?thesis using u other found pid view(2) by blast
qed

lemma deactivation_is_complete_witness:
  "\<exists>u (t :: db). sau_by_publicId example_db ''xxx'' = Some u \<and>
     (\<nexists>s. s \<in> set (sessions t) \<and> ses_userId s = sau_betterAuthUserId u)"
proof -
  obtain x t where "updateUser 5 ''b2'' ''xxx'' (status_only Inactive) example_db = (Inr (x, None), t)"
    using example_deactivated by blast
  from deactivation_is_complete[OF example_db_ok this] show ?thesis by (auto simp: status_only_def)
qed

section \<open>Grants\<close>

lemma create_user_roles_ok:
  "create_user_roles uid ks d = (Inr x, t) \<Longrightarrow> t = d\<lparr>saUserRoles := saUserRoles d @ map (Pair uid) ks\<rparr>"
  by (auto simp: create_user_roles_def Let_def split: if_splits)

lemma same_role_permissions:
  assumes "saPermissions t = saPermissions d" "saRolePermissions t = saRolePermissions d"
  shows "permissions_of_role t = permissions_of_role d"
  by (rule ext) (simp only: permissions_of_role_def assms)

lemma set_system_perm_names:
  "n \<in> set (system_perm_names ps) \<longleftrightarrow> (\<exists>p \<in> set ps. perm_isSystem p \<and> perm_name p = n)"
  by (auto simp: system_perm_names_def)

lemma set_js_unique [simp]: "set (js_unique xs) = set xs"
  by (simp add: js_unique_def)

lemma js_unique_empty [simp]: "js_unique xs = [] \<longleftrightarrow> xs = []"
  using set_js_unique[of xs] by (metis set_empty)

lemma set_perms_of_roles:
  "p \<in> set (perms_of_roles d rids) \<longleftrightarrow>
     (\<exists>l \<in> set (saRoles d). role_publicId l \<in> set rids \<and> p \<in> set (permissions_of_role d (role_id l)))"
  by (auto simp: perms_of_roles_def)

lemma setUserRoles_ok:
  assumes "setUserRoles caller pid rids d = (Inr x, t)"
  obtains u g ids where "sau_by_publicId d pid = Some u" "sau_betterAuthUserId u \<noteq> caller"
    "checkPermission d caller manage_users (Some (sau_orgId u)) = Inr ()" "org_by_id d (sau_orgId u) = Some g"
    "assertCallerCanGrantSystemPerms d caller (js_unique (system_perm_names (perms_of_roles d rids))) = Inr ()"
    "resolveRoleIdsForApp d (org_appId g) rids = Inr ids"
    "t = d\<lparr>saUserRoles := filter (\<lambda>y. fst y \<noteq> sau_id u) (saUserRoles d) @ map (Pair (sau_id u)) ids\<rparr>"
proof -
  from assms obtain u where u: "sau_by_publicId d pid = Some u" and other: "sau_betterAuthUserId u \<noteq> caller"
    and k: "thenE (user_gate caller (sau_orgId u))
         (bindE (findE (\<lambda>d. org_by_id d (sau_orgId u)) (NotFoundE ''User org not found'')) (\<lambda>org.
          thenE (liftR (\<lambda>d. assertCallerCanGrantSystemPerms d caller
                              (js_unique (system_perm_names (perms_of_roles d rids)))))
          (bindE (liftR (\<lambda>d. resolveRoleIdsForApp d (org_appId org) rids)) (\<lambda>ids.
           transaction (thenE (delete_user_roles_of (sau_id u))
             (if ids \<noteq> [] then create_user_roles (sau_id u) ids else ret ())))))) d = (Inr x, t)"
    unfolding setUserRoles_def find_user_def bindE_ok findE_ok by (auto split: if_splits)
  from k obtain g ids where gate: "checkPermission d caller manage_users (Some (sau_orgId u)) = Inr ()"
    and g: "org_by_id d (sau_orgId u) = Some g"
    and guard: "assertCallerCanGrantSystemPerms d caller (js_unique (system_perm_names (perms_of_roles d rids))) = Inr ()"
    and ids: "resolveRoleIdsForApp d (org_appId g) rids = Inr ids"
    and w: "thenE (delete_user_roles_of (sau_id u))
             (if ids \<noteq> [] then create_user_roles (sau_id u) ids else ret ()) d = (Inr x, t)"
    by (fastforce simp: thenE_ok bindE_ok findE_ok user_gate_def transaction_ok)
  have "t = d\<lparr>saUserRoles := filter (\<lambda>y. fst y \<noteq> sau_id u) (saUserRoles d) @ map (Pair (sau_id u)) ids\<rparr>"
    using w by (cases "ids = []") (auto simp: thenE_ok delete_user_roles_of_def dest!: create_user_roles_ok)
  from that[OF u other gate g guard ids this] show thesis .
qed

lemma setUserRoles_err:
  assumes "setUserRoles caller pid rids d = (Inl e, t)"
  shows "t = d"
  using assms
  by (auto simp: setUserRoles_def find_user_def bindE_err thenE_err bindE_ok thenE_ok findE_ok findE_err user_gate_def
      transaction_err split: if_splits)



text \<open>Assigning a single role knows neither of these limits. A caller with \<open>org.users.manage\<close> can
  assign a role of any other app to any user of the own organisation, including the caller, as long
  as the permissions of the role are not flagged as system permissions; replacing the role list with
  the same role is refused. The user then holds every permission of the foreign role.\<close>

theorem assign_role_ignores_the_app:
  assumes "db_ok d" "sau_by_betterAuthUserId d caller = Some a" "holds d a ''org.users.manage''"
    and "sau_by_publicId d pid = Some u" "sau_orgId u = sau_orgId a" "org_by_id d (sau_orgId u) = Some g"
    and "role_by_publicId d rid = Some l" "role_appId l \<noteq> org_appId g"
    and "\<forall>p \<in> set (permissions_of_role d (role_id l)). \<not> perm_isSystem p"
  shows "\<exists>t e. assignRole caller pid rid d = (Inr (), t) \<and> l \<in> set (roles_of t (sau_id u)) \<and>
     (\<forall>p \<in> set (permissions_of_role d (role_id l)). holds t u (perm_name p)) \<and>
     setUserRoles caller pid [rid] d = (Inl e, d)"
proof -
  have gate: "checkPermission d caller manage_users (Some (sau_orgId u)) = Inr ()"
    unfolding manage_users_gate using assms(2,3,5) by auto
  have none: "system_perm_names (permissions_of_role d (role_id l)) = []"
    using assms(9) by (auto simp: system_perm_names_def filter_empty_conv)
  define t where "t = (if (sau_id u, role_id l) \<in> set (saUserRoles d) then d
     else d\<lparr>saUserRoles := saUserRoles d @ [(sau_id u, role_id l)]\<rparr>)"
  have run: "assignRole caller pid rid d = (Inr (), t)"
    using assms(4,7) gate none
    by (simp add: assignRole_def find_user_def bindE_def thenE_def findE_def user_gate_def role_grant_guard_def
        assertCallerCanGrantSystemPerms_def create_user_role_cases t_def)
  have l: "l \<in> set (saRoles d)" "role_publicId l = rid" using lookup_sound(11)[OF assms(7)] by auto
  have has: "l \<in> set (roles_of t (sau_id u))" using l(1) by (auto simp: mem_roles_of t_def)
  have tables: "saRoles t = saRoles d" "saPermissions t = saPermissions d" "saRolePermissions t = saRolePermissions d"
    by (simp_all add: t_def)
  have "holds t u (perm_name p)" if "p \<in> set (permissions_of_role d (role_id l))" for p
    using that has unfolding holds_def mem_permissions_of_role mem_roles_of tables by blast
  moreover have "\<exists>e. setUserRoles caller pid [rid] d = (Inl e, d)"
  proof -
    obtain r s where r: "setUserRoles caller pid [rid] d = (r, s)" by fastforce
    show ?thesis
    proof (cases r)
      case (Inl e)
      then show ?thesis using setUserRoles_err[of caller pid "[rid]" d e s] r by simp
    next
      case (Inr y)
      with r have "setUserRoles caller pid [rid] d = (Inr y, s)" by simp
      then obtain ids where "resolveRoleIdsForApp d (org_appId g) [rid] = Inr ids"
        by (rule setUserRoles_ok) (use assms(4,6) in simp)
      from resolveRoleIdsForApp_ok(2)[OF this l(1)] l(2) assms(8) show ?thesis by simp
    qed
  qed
  ultimately show ?thesis using run has by blast
qed

text \<open>The organisation administrator of the example takes the platform's own administrator role.\<close>

lemma assign_role_ignores_the_app_witness:
  "\<exists>t. assignRole ''b2'' ''xx'' ''x'' example_db = (Inr (), t) \<and>
     holds t (example_sa_user 2 ''b2'' 2) ''platform.users.manage''"
proof -
  let ?l = "example_role 1 ''Platform Super Admin'' 1" and ?u = "example_sa_user 2 ''b2'' 2"
  have u: "sau_by_publicId example_db ''xx'' = Some ?u" by code_simp
  obtain g where g: "org_by_id example_db (sau_orgId ?u) = Some g" "org_appId g = 2"
    by (simp add: org_by_id_def example_db_def empty_db_def example_sa_user_def)
  have l: "role_by_publicId example_db ''x'' = Some ?l" by code_simp
  have app: "role_appId ?l \<noteq> org_appId g" by (simp add: g example_role_def)
  have perms: "permissions_of_role example_db (role_id ?l) = [example_perm 1 ''platform.users.manage'' 1 False]"
    by code_simp
  then have "\<forall>p \<in> set (permissions_of_role example_db (role_id ?l)). \<not> perm_isSystem p"
    by (simp add: example_perm_def)
  from assign_role_ignores_the_app[OF example_db_ok example_b2 u refl g(1) l app this] perms
  show ?thesis by (auto simp: example_perm_def)
qed

section \<open>Changing nothing but the status\<close>

lemma status_update:
  assumes "keys_ok d" "fks_ok d" "sau_by_publicId d pid = Some u"
  shows "update_sa_user pid (patch_user (status_only s)) d =
     (Inr (u\<lparr>sau_status := s\<rparr>), d\<lparr>saUsers := replace_row sau_publicId pid (u\<lparr>sau_status := s\<rparr>) (saUsers d)\<rparr>)"
proof -
  have patch: "patch_user (status_only s) u = u\<lparr>sau_status := s\<rparr>"
    by (simp add: patch_user_def status_only_def given_def)
  then show ?thesis using update_sa_user_same[OF assms(1,3), of "patch_user (status_only s)"] by simp
qed

lemma lookup_after_replace:
  assumes "u \<in> set rows" "key u = k" "key v = k"
  shows "find (\<lambda>r. key r = k) (replace_row key k v rows) = Some v"
  using assms(1,2) by (induction rows) (auto simp: replace_row_def assms(3))

lemma other_lookup_after_replace:
  assumes "\<forall>r \<in> set rows. key r = k \<longrightarrow> \<not> P r" "\<not> P v"
  shows "find P (replace_row key k v rows) = find P rows"
  using assms(1) by (induction rows) (auto simp: replace_row_def assms(2))

lemma formatUser_status:
  assumes "fks_ok d" "u \<in> set (saUsers d)" "saOrgs t = saOrgs d" "users t = users d"
  shows "\<exists>view. formatUser (u\<lparr>sau_status := s\<rparr>) t = Inr view"
  using user_relations[OF assms(1,2)]
  by (auto simp: formatUser_def org_by_id_def user_by_id_def assms(3,4))

definition pending_db :: db where
  "pending_db = example_db\<lparr>saUsers := [example_sa_user 1 ''b1'' 1, example_sa_user 2 ''b2'' 2,
     (example_sa_user 3 ''b3'' 2)\<lparr>sau_status := Pending\<rparr>]\<rparr>"

lemma pending_db_ok: "db_ok pending_db"
  by (simp add: db_ok_def keys_ok_def fks_ok_def seqs_ok_def some_values_def example_defs pending_db_def
      numeral_2_eq_2 numeral_3_eq_3)

text \<open>A pending user becomes active without accepting an invitation in two steps. Setting the user
  active is refused, but setting the user inactive and then active succeeds: the guard looks at the
  current status only. The user ends up active with the accounts untouched, so without a password if
  there was none, which is what the guard is there to prevent.\<close>

theorem pending_detour_through_inactive:
  assumes ok: "db_ok d" and u: "sau_by_publicId d pid = Some u" "sau_status u = Pending"
    and other: "sau_betterAuthUserId u \<noteq> caller"
    and gate: "checkPermission d caller manage_users (Some (sau_orgId u)) = Inr ()"
  shows "(\<exists>m. updateUser n caller pid (status_only Active) d = (Inl (BadRequestE m), d)) \<and>
     (\<exists>x t y t2 w. updateUser n caller pid (status_only Inactive) d = (Inr x, t) \<and>
        updateUser k caller pid (status_only Active) t = (Inr y, t2) \<and>
        sau_by_publicId t2 pid = Some w \<and> sau_id w = sau_id u \<and> sau_status w = Active \<and> accounts t2 = accounts d)"
proof -
  note keys = db_ok_parts(1)[OF ok] and fks = db_ok_parts(2)[OF ok]
  have mem: "u \<in> set (saUsers d)" "sau_publicId u = pid" using lookup_sound(8)[OF u(1)] by auto
  define v where "v = u\<lparr>sau_status := Inactive\<rparr>"
  define s where "s = d\<lparr>saUsers := replace_row sau_publicId pid v (saUsers d)\<rparr>"
  define t where "t = revoke_where (\<lambda>r. rt_saUserId r = sau_id u) n
      (s\<lparr>sessions := filter (\<lambda>x. ses_userId x \<noteq> sau_betterAuthUserId u) (sessions s)\<rparr>)"
  have refused: "updateUser n caller pid (status_only Active) d =
      (Inl (BadRequestE ''A pending user becomes active only by accepting their invitation. Use /resend-invitation instead.''), d)"
    using u gate by (simp add: updateUser_def find_user_def bindE_def findE_def thenE_def user_gate_def status_only_def)
  have same: "saOrgs t = saOrgs d" "users t = users d" "accounts t = accounts d" "saRoles t = saRoles d"
    "saPermissions t = saPermissions d" "saUserRoles t = saUserRoles d" "saUserPermissions t = saUserPermissions d"
    "saRolePermissions t = saRolePermissions d" "saUsers t = replace_row sau_publicId pid v (saUsers d)"
    by (simp_all add: t_def s_def revoke_where_def)
  obtain view where view: "formatUser v t = Inr view"
    using formatUser_status[OF fks mem(1) same(1,2)] unfolding v_def by blast
  have first: "updateUser n caller pid (status_only Inactive) d = (Inr (view, None), t)"
  proof -
    have "update_sa_user pid (patch_user (status_only Inactive)) d = (Inr v, s)"
      unfolding v_def s_def by (rule status_update[OF keys fks u(1)])
    then show ?thesis
      using u other gate view
      by (simp add: updateUser_def find_user_def bindE_def findE_def thenE_def user_gate_def
          delete_sessions_of_def revokeForUser_def t_def) (simp add: status_only_def)
  qed
  have ok_t: "db_ok t"
  proof (rule keepsD[OF keeps_run_user_op[where op = "UpdateUser n pid (status_only Inactive)"] ok])
    show "run_user_op h caller (UpdateUser n pid (status_only Inactive)) d = (Inr (), t)" for h
      using first by (simp add: discard_def bindE_def)
  qed
  note keys_t = db_ok_parts(1)[OF ok_t] and fks_t = db_ok_parts(2)[OF ok_t]
  have v: "sau_by_publicId t pid = Some v"
    unfolding sau_by_publicId_def same
    by (rule lookup_after_replace[OF mem(1)]) (simp_all add: mem v_def)
  have caller: "sau_by_betterAuthUserId t caller = sau_by_betterAuthUserId d caller"
    unfolding sau_by_betterAuthUserId_def same
    by (rule other_lookup_after_replace)
      (use public_id_row[OF keys u(1)] other keys mem in \<open>auto simp: v_def keys_ok_def dest: distinct_map_eq\<close>)
  have gate_t: "checkPermission t caller manage_users (Some (sau_orgId v)) = Inr ()"
    using gate unfolding manage_users_gate caller holds_def same by (simp add: v_def)
  define w where "w = v\<lparr>sau_status := Active\<rparr>"
  define t2 where "t2 = t\<lparr>saUsers := replace_row sau_publicId pid w (saUsers t)\<rparr>"
  have v_mem: "v \<in> set (saUsers t)" using lookup_sound(8)[OF v] by simp
  obtain view2 where view2: "formatUser w t2 = Inr view2"
    using formatUser_status[OF fks_t v_mem, of t2 Active] unfolding w_def t2_def by auto
  have "update_sa_user pid (patch_user (status_only Active)) t = (Inr w, t2)"
    unfolding w_def t2_def by (rule status_update[OF keys_t fks_t v])
  then have second: "updateUser k caller pid (status_only Active) t = (Inr (view2, Some w), t2)"
    using v gate_t view2
    by (simp add: updateUser_def find_user_def bindE_def findE_def thenE_def user_gate_def)
      (simp add: status_only_def v_def)
  have "sau_by_publicId t2 pid = Some w"
    unfolding sau_by_publicId_def t2_def
    by (simp, rule lookup_after_replace[OF v_mem]) (simp_all add: w_def v_def mem)
  then show ?thesis
    using refused first second same(3) by (auto simp: w_def v_def t2_def)
qed

lemma pending_detour_through_inactive_witness:
  "\<exists>x t y t2 w. updateUser 5 ''b2'' ''xxx'' (status_only Inactive) pending_db = (Inr x, t) \<and>
     updateUser 6 ''b2'' ''xxx'' (status_only Active) t = (Inr y, t2) \<and>
     sau_by_publicId t2 ''xxx'' = Some w \<and> sau_status w = Active"
proof -
  let ?u = "(example_sa_user 3 ''b3'' 2)\<lparr>sau_status := Pending\<rparr>"
  have u: "sau_by_publicId pending_db ''xxx'' = Some ?u" by code_simp
  have "checkPermission pending_db ''b2'' manage_users (Some (sau_orgId ?u)) = Inr ()" by code_simp
  from pending_detour_through_inactive[OF pending_db_ok u _ _ this, of 5 6] show ?thesis
    by (auto simp: example_sa_user_def)
qed

end
