(* ===== verification/Passwords.thy ===== *)
theory Passwords
  imports Host
begin

text \<open>
  Password policies: the rules (\<open>evaluatePasswordPolicy\<close> of \<open>packages/types/index.ts\<close>), the policy in
  force and its enforcement (\<open>auth/password-policy.ts\<close>), and the bounds an app's override must keep
  (\<open>assertValidPasswordPolicyOverride\<close> of \<open>apps/apps.service.ts\<close>, on policies whose fields have
  their declared types and integral values).
\<close>

section \<open>The rules\<close>

datatype rule_key =
    MinLengthRule | RequireUppercaseRule | RequireLowercaseRule | RequireNumberRule
  | RequireSpecialRule | MinNumbersRule | MinSpecialRule | MaxLengthRule

text \<open>The punctuation of \<open>SPECIAL_CHAR_PATTERN\<close> is all of it, by code unit.\<close>

definition is_special :: "char \<Rightarrow> bool" where
  "is_special c \<longleftrightarrow> (33 \<le> char_code c \<and> char_code c \<le> 47) \<or> (58 \<le> char_code c \<and> char_code c \<le> 64) \<or>
     (91 \<le> char_code c \<and> char_code c \<le> 96) \<or> (123 \<le> char_code c \<and> char_code c \<le> 126)"

definition countMatches :: "(char \<Rightarrow> bool) \<Rightarrow> string \<Rightarrow> int" where
  "countMatches P password = int (length (filter P password))"

definition evaluatePasswordPolicy :: "string \<Rightarrow> password_policy \<Rightarrow> (rule_key \<times> bool) list" where
  "evaluatePasswordPolicy password policy =
     (let numberCount = countMatches is_digit password; specialCount = countMatches is_special password in
      [(MinLengthRule, int (length password) \<ge> minLength policy)] @
      (if requireUppercase policy then [(RequireUppercaseRule, list_ex is_upper_az password)] else []) @
      (if requireLowercase policy then [(RequireLowercaseRule, list_ex is_lower_az password)] else []) @
      (if requireNumber policy then
         [(RequireNumberRule, numberCount \<ge> 1)] @
         (if minNumbers policy > 1 then [(MinNumbersRule, numberCount \<ge> minNumbers policy)] else [])
       else []) @
      (if requireSpecial policy then
         [(RequireSpecialRule, specialCount \<ge> 1)] @
         (if minSpecial policy > 1 then [(MinSpecialRule, specialCount \<ge> minSpecial policy)] else [])
       else []))"

section \<open>The policy in force\<close>

definition MAX_PASSWORD_LENGTH :: nat where
  "MAX_PASSWORD_LENGTH = 256"

definition parseBool :: "string option \<Rightarrow> bool \<Rightarrow> bool" where
  "parseBool v fallback = (case v of None \<Rightarrow> fallback | Some s \<Rightarrow> to_lower s = ''true'')"

text \<open>\<open>Number.parseInt(s, 10)\<close>: leading blanks, a sign, the longest run of digits; none is NaN.\<close>

definition js_parse_int :: "string \<Rightarrow> int option" where
  "js_parse_int s =
     (case split_sign (drop_ws s) of
        (neg, r) \<Rightarrow>
          (let ds = fst (take_digits r) in
           if ds = [] then None else Some (if neg then - dec_value ds else dec_value ds)))"

definition parseInt10 :: "string option \<Rightarrow> int \<Rightarrow> int" where
  "parseInt10 v fallback =
     (case v of None \<Rightarrow> fallback
      | Some s \<Rightarrow> (case js_parse_int s of None \<Rightarrow> fallback | Some n \<Rightarrow> n))"

definition getGlobalPasswordPolicy :: "host \<Rightarrow> password_policy" where
  "getGlobalPasswordPolicy h =
     \<lparr>minLength = parseInt10 (h_env h ''PASSWORD_MIN_LENGTH'') 12,
      requireUppercase = parseBool (h_env h ''PASSWORD_REQUIRE_UPPERCASE'') True,
      requireLowercase = parseBool (h_env h ''PASSWORD_REQUIRE_LOWERCASE'') True,
      requireNumber = parseBool (h_env h ''PASSWORD_REQUIRE_NUMBER'') True,
      requireSpecial = parseBool (h_env h ''PASSWORD_REQUIRE_SPECIAL'') False,
      minNumbers = parseInt10 (h_env h ''PASSWORD_MIN_NUMBERS'') 1,
      minSpecial = parseInt10 (h_env h ''PASSWORD_MIN_SPECIAL'') 0\<rparr>"

definition resolvePasswordPolicy :: "host \<Rightarrow> password_policy option \<Rightarrow> password_policy" where
  "resolvePasswordPolicy h override =
     (case override of Some p \<Rightarrow> p | None \<Rightarrow> getGlobalPasswordPolicy h)"

definition getFailedPasswordRules :: "string \<Rightarrow> password_policy \<Rightarrow> rule_key list" where
  "getFailedPasswordRules password policy =
     map fst (filter (\<lambda>r. \<not> snd r) (evaluatePasswordPolicy password policy)) @
     (if length password > MAX_PASSWORD_LENGTH then [MaxLengthRule] else [])"

definition validatePasswordOrThrow :: "string \<Rightarrow> password_policy \<Rightarrow> err + unit" where
  "validatePasswordOrThrow password policy =
     (if getFailedPasswordRules password policy \<noteq> [] then Inl (BadRequestE ''password.policyViolation'')
      else Inr ())"

definition assertValidPasswordPolicyOverride :: "password_policy \<Rightarrow> err + unit" where
  "assertValidPasswordPolicyOverride p =
     (if minLength p < 8 \<or> minLength p > 128 then
        Inl (BadRequestE ''passwordPolicyOverride.minLength must be between 8 and 128'')
      else if minNumbers p < 0 \<or> minNumbers p > minLength p then
        Inl (BadRequestE ''passwordPolicyOverride.minNumbers must be between 0 and minLength'')
      else if minSpecial p < 0 \<or> minSpecial p > minLength p then
        Inl (BadRequestE ''passwordPolicyOverride.minSpecial must be between 0 and minLength'')
      else Inr ())"

section \<open>What a policy asks for\<close>

definition numbers_needed :: "password_policy \<Rightarrow> int" where
  "numbers_needed p = (if requireNumber p then max 1 (minNumbers p) else 0)"

definition specials_needed :: "password_policy \<Rightarrow> int" where
  "specials_needed p = (if requireSpecial p then max 1 (minSpecial p) else 0)"

definition uppers_needed :: "password_policy \<Rightarrow> int" where
  "uppers_needed p = (if requireUppercase p then 1 else 0)"

definition lowers_needed :: "password_policy \<Rightarrow> int" where
  "lowers_needed p = (if requireLowercase p then 1 else 0)"

text \<open>The reference: a password meets a policy when its length and its character counts do.\<close>

definition meets_policy :: "string \<Rightarrow> password_policy \<Rightarrow> bool" where
  "meets_policy s p \<longleftrightarrow>
     minLength p \<le> int (length s) \<and> length s \<le> MAX_PASSWORD_LENGTH \<and>
     numbers_needed p \<le> countMatches is_digit s \<and> specials_needed p \<le> countMatches is_special s \<and>
     uppers_needed p \<le> countMatches is_upper_az s \<and> lowers_needed p \<le> countMatches is_lower_az s"

lemma list_ex_count: "list_ex P s \<longleftrightarrow> 1 \<le> countMatches P s"
  by (induction s) (auto simp: countMatches_def)

lemma count_nonneg [simp]: "0 \<le> countMatches P s"
  by (simp add: countMatches_def)

lemma validate_iff: "validatePasswordOrThrow s p = Inr () \<longleftrightarrow> meets_policy s p"
  by (auto simp: validatePasswordOrThrow_def getFailedPasswordRules_def evaluatePasswordPolicy_def Let_def
      meets_policy_def numbers_needed_def specials_needed_def uppers_needed_def lowers_needed_def list_ex_count)

lemma classes_disjoint:
  "countMatches is_digit s + countMatches is_special s + countMatches is_upper_az s +
     countMatches is_lower_az s \<le> int (length s)"
  by (induction s)
    (auto simp: countMatches_def is_digit_def is_special_def is_upper_az_def is_lower_az_def)

lemma count_append [simp]: "countMatches P (s @ t) = countMatches P s + countMatches P t"
  by (simp add: countMatches_def)

lemma count_replicate [simp]: "countMatches P (replicate n c) = (if P c then int n else 0)"
  by (simp add: countMatches_def)

text \<open>A password with exactly the characters a policy needs, filled up with letters.\<close>

definition fitting_password :: "password_policy \<Rightarrow> string" where
  "fitting_password p =
     (let core = replicate (nat (numbers_needed p)) CHR ''0'' @ replicate (nat (specials_needed p)) CHR ''!'' @
                 replicate (nat (uppers_needed p)) CHR ''A'' @ replicate (nat (lowers_needed p)) CHR ''a'' in
      core @ replicate (nat (minLength p - int (length core))) CHR ''a'')"

definition characters_needed :: "password_policy \<Rightarrow> int" where
  "characters_needed p = numbers_needed p + specials_needed p + uppers_needed p + lowers_needed p"

lemma needed_nonneg:
  "0 \<le> numbers_needed p" "0 \<le> specials_needed p" "0 \<le> uppers_needed p" "0 \<le> lowers_needed p"
  by (auto simp: numbers_needed_def specials_needed_def uppers_needed_def lowers_needed_def)

lemma example_classes:
  "is_digit CHR ''0''" "\<not> is_digit CHR ''!''" "\<not> is_digit CHR ''A''" "\<not> is_digit CHR ''a''"
  "\<not> is_special CHR ''0''" "is_special CHR ''!''" "\<not> is_special CHR ''A''" "\<not> is_special CHR ''a''"
  "\<not> is_upper_az CHR ''0''" "\<not> is_upper_az CHR ''!''" "is_upper_az CHR ''A''" "\<not> is_upper_az CHR ''a''"
  "\<not> is_lower_az CHR ''0''" "\<not> is_lower_az CHR ''!''" "\<not> is_lower_az CHR ''A''" "is_lower_az CHR ''a''"
  by code_simp+

lemma fitting_length: "int (length (fitting_password p)) = max (minLength p) (characters_needed p)"
  using needed_nonneg[of p] by (simp add: fitting_password_def Let_def characters_needed_def)

lemma fitting_meets:
  assumes "minLength p \<le> 256" "characters_needed p \<le> 256"
  shows "meets_policy (fitting_password p) p"
proof -
  have "int (length (fitting_password p)) \<le> 256" using assms by (simp add: fitting_length)
  then have len: "length (fitting_password p) \<le> MAX_PASSWORD_LENGTH" by (simp add: MAX_PASSWORD_LENGTH_def)
  have "minLength p \<le> int (length (fitting_password p))" by (simp add: fitting_length)
  then show ?thesis
    using len needed_nonneg[of p]
    by (simp add: meets_policy_def) (simp add: fitting_password_def Let_def example_classes)
qed

section \<open>Properties\<close>

text \<open>C20 Enforcement agrees with the reference: a password passes exactly when its length lies between
  the minimum and 256 and it has the digits, special characters, upper and lower case letters the
  policy in force asks for, the app's override if there is one and the server's policy otherwise.\<close>

theorem password_enforcement_is_the_policy:
  "validatePasswordOrThrow s (resolvePasswordPolicy h override) = Inr () \<longleftrightarrow>
     meets_policy s (case override of Some p \<Rightarrow> p | None \<Rightarrow> getGlobalPasswordPolicy h)"
  by (auto simp: validate_iff resolvePasswordPolicy_def split: option.splits)

text \<open>An override the server accepts can be met by some password exactly when the characters it
  asks for fit into 256; the bounds of the check allow up to 258, so there are accepted overrides
  under which nobody can set a password.\<close>

theorem accepted_override_satisfiable_iff:
  assumes "assertValidPasswordPolicyOverride p = Inr ()"
  shows "((\<exists>s. validatePasswordOrThrow s p = Inr ()) \<longleftrightarrow> characters_needed p \<le> 256) \<and> characters_needed p \<le> 258"
proof -
  have bounds: "minLength p \<le> 128" "minNumbers p \<le> 128" "minSpecial p \<le> 128"
    using assms by (auto simp: assertValidPasswordPolicyOverride_def split: if_splits)
  have "characters_needed p \<le> 256" if "meets_policy s p" for s
    using that classes_disjoint[of s]
    by (simp add: meets_policy_def characters_needed_def MAX_PASSWORD_LENGTH_def)
  moreover have "\<exists>s. meets_policy s p" if "characters_needed p \<le> 256"
    using fitting_meets[OF _ that] bounds(1) by auto
  moreover have "numbers_needed p \<le> 128" "specials_needed p \<le> 128" "uppers_needed p \<le> 1" "lowers_needed p \<le> 1"
    using bounds by (simp_all add: numbers_needed_def specials_needed_def uppers_needed_def lowers_needed_def)
  then have "characters_needed p \<le> 258" by (simp add: characters_needed_def)
  ultimately show ?thesis unfolding validate_iff by blast
qed

lemma accepted_override_satisfiable_iff_witness:
  "\<exists>p. assertValidPasswordPolicyOverride p = Inr () \<and> (\<nexists>s. validatePasswordOrThrow s p = Inr ())"
proof -
  let ?p = "\<lparr>minLength = 128, requireUppercase = True, requireLowercase = True, requireNumber = True,
    requireSpecial = True, minNumbers = 128, minSpecial = 128\<rparr>"
  have ok: "assertValidPasswordPolicyOverride ?p = Inr ()"
    by (simp add: assertValidPasswordPolicyOverride_def)
  have "characters_needed ?p = 258"
    by (simp add: characters_needed_def numbers_needed_def specials_needed_def uppers_needed_def lowers_needed_def)
  with accepted_override_satisfiable_iff[OF ok] have "\<nexists>s. validatePasswordOrThrow s ?p = Inr ()" by simp
  with ok show ?thesis by blast
qed

end
