(* ===== verification/Rate_Limits.thy ===== *)
theory Rate_Limits
  imports Complex_Main Host Passwords Example_Data "HOL-Library.Mapping"
begin

text \<open>
  The two in-memory rate limiters of the server: the Nest guard of the registration endpoints,
  \<open>registration/rate-limit.guard.ts\<close>, and the Express middleware in front of BetterAuth,
  \<open>auth/auth-rate-limit.ts\<close>, with their configuration, \<open>common/config/rate-limit-config.ts\<close>, and the
  identity of a client, \<open>common/net/resolve-client-ip.ts\<close>. Both count in fixed windows; the locale
  below is the contract they share, a private counter for every client.
\<close>

section \<open>Clients, buckets and configuration\<close>

record client_request =
  req_ips :: "string list"
  req_ip :: "string option"

definition resolveClientIp :: "client_request \<Rightarrow> string" where
  "resolveClientIp r =
     (case req_ips r of
        forwarded # _ \<Rightarrow> forwarded
      | [] \<Rightarrow> (case req_ip r of Some ip \<Rightarrow> ip | None \<Rightarrow> ''unknown''))"

record bucket =
  bucket_count :: nat
  windowStart :: int

type_synonym buckets = "(string, bucket) mapping"

text \<open>The value of a finite JavaScript number; \<open>Dec m e\<close> is \<open>m\<close> times ten to the \<open>e\<close>.\<close>

fun rat_of_number :: "js_number \<Rightarrow> rat option" where
  "rat_of_number (Dec m e) = Some (if 0 \<le> e then of_int (m * 10 ^ nat e) else of_int m / 10 ^ nat (- e))"
| "rat_of_number _ = None"

definition envInt :: "host \<Rightarrow> string \<Rightarrow> rat \<Rightarrow> rat" where
  "envInt h name fallback =
     (case h_env h name of
        None \<Rightarrow> fallback
      | Some raw \<Rightarrow>
          if raw = [] then fallback
          else (case rat_of_number (to_number raw) of
                  None \<Rightarrow> fallback
                | Some parsed \<Rightarrow> if parsed > 0 then parsed else fallback))"

record limiter_options =
  lo_windowMs :: rat
  lo_max :: rat

definition AUTH_THROTTLE :: "host \<Rightarrow> limiter_options" where
  "AUTH_THROTTLE h =
     (if h_env h ''NODE_ENV'' = Some ''test'' then \<lparr>lo_windowMs = 60000, lo_max = 10000\<rparr>
      else \<lparr>lo_windowMs = envInt h ''AUTH_RATE_WINDOW_MS'' 60000, lo_max = envInt h ''AUTH_RATE_LIMIT'' 10\<rparr>)"

definition DEFAULT_THROTTLE :: "host \<Rightarrow> limiter_options" where
  "DEFAULT_THROTTLE h =
     (if h_env h ''NODE_ENV'' = Some ''test'' then \<lparr>lo_windowMs = 60000, lo_max = 10000\<rparr>
      else \<lparr>lo_windowMs = envInt h ''DEFAULT_RATE_WINDOW_MS'' 60000,
            lo_max = envInt h ''DEFAULT_RATE_LIMIT'' 120\<rparr>)"

lemma envInt_pos: "0 < fallback \<Longrightarrow> 0 < envInt h name fallback"
  by (simp add: envInt_def split: option.splits)

lemma throttle_pos [simp]: "0 < lo_windowMs (AUTH_THROTTLE h)" "0 < lo_max (AUTH_THROTTLE h)"
  by (simp_all add: AUTH_THROTTLE_def envInt_pos)

section \<open>The guard of the registration endpoints\<close>

text \<open>\<open>parseInt\<close> of the two variables; \<open>None\<close> is NaN.\<close>

definition guard_limit :: "host \<Rightarrow> int option" where
  "guard_limit h =
     (case h_env h ''REGISTER_RATE_LIMIT'' of
        None \<Rightarrow> Some 0
      | Some raw \<Rightarrow> if raw = [] then Some 0 else js_parse_int raw)"

definition guard_windowMs :: "host \<Rightarrow> int option" where
  "guard_windowMs h =
     (case h_env h ''REGISTER_RATE_WINDOW_MS'' of
        None \<Rightarrow> Some 3600000
      | Some raw \<Rightarrow> if raw = [] then Some 3600000 else js_parse_int raw)"

text \<open>\<open>elapsed >= windowMs\<close>, false for NaN.\<close>

definition window_over :: "host \<Rightarrow> int \<Rightarrow> bool" where
  "window_over h elapsed = (case guard_windowMs h of None \<Rightarrow> False | Some w \<Rightarrow> w \<le> elapsed)"

definition canActivate :: "host \<Rightarrow> int \<Rightarrow> client_request \<Rightarrow> (buckets, bool) eff" where
  "canActivate h now r =
     (case guard_limit h of
        None \<Rightarrow> ret True
      | Some limit \<Rightarrow>
          if limit = 0 then ret True
          else (\<lambda>store.
            let ip = resolveClientIp r;
                fresh = (Inr True, Mapping.update ip \<lparr>bucket_count = 1, windowStart = now\<rparr> store)
            in case Mapping.lookup store ip of
                 None \<Rightarrow> fresh
               | Some entry \<Rightarrow>
                   if window_over h (now - windowStart entry) then fresh
                   else if int (bucket_count entry) < limit then
                     (Inr True, Mapping.update ip (entry\<lparr>bucket_count := bucket_count entry + 1\<rparr>) store)
                   else (Inl (TooManyE ''Too many requests''), store)))"

section \<open>The middleware in front of BetterAuth\<close>

definition SENSITIVE_PREFIXES :: "string list" where
  "SENSITIVE_PREFIXES = [''/sign-in'', ''/sign-up'', ''/forget-password'', ''/reset-password'', ''/change-password'',
     ''/change-email'', ''/magic-link'', ''/email-otp'', ''/two-factor'', ''/send-verification-email'']"

definition MOUNT_PREFIX :: string where
  "MOUNT_PREFIX = ''/api/auth''"

definition isSensitiveAuthPath :: "string \<Rightarrow> bool" where
  "isSensitiveAuthPath path =
     (let withoutQuery = hd (split_on CHR ''?'' path);
          relative = (if starts_with MOUNT_PREFIX withoutQuery then drop (length MOUNT_PREFIX) withoutQuery
                      else withoutQuery)
      in starts_with ''/'' relative \<and>
         list_ex (\<lambda>prefix. relative = prefix \<or> starts_with (prefix @ ''/'') relative) SENSITIVE_PREFIXES)"

definition evictExpired :: "limiter_options \<Rightarrow> int \<Rightarrow> buckets \<Rightarrow> buckets" where
  "evictExpired opts currentTime buckets =
     Mapping.filter (\<lambda>key b. \<not> of_int (currentTime - windowStart b) \<ge> lo_windowMs opts * 2) buckets"

text \<open>What the middleware does with a request: pass it on, or answer 429 with a \<open>Retry-After\<close>.\<close>

datatype limiter_reply = PassOn | RetryAfter int

definition auth_limiter ::
    "limiter_options \<Rightarrow> int \<Rightarrow> string \<times> client_request \<Rightarrow> buckets \<Rightarrow> limiter_reply \<times> buckets" where
  "auth_limiter opts now req store =
     (if \<not> isSensitiveAuthPath (fst req) then (PassOn, store)
      else
        let buckets = evictExpired opts now store;
            key = resolveClientIp (snd req);
            fresh = (PassOn, Mapping.update key \<lparr>bucket_count = 1, windowStart = now\<rparr> buckets)
        in case Mapping.lookup buckets key of
             None \<Rightarrow> fresh
           | Some b \<Rightarrow>
               if of_int (now - windowStart b) \<ge> lo_windowMs opts then fresh
               else if of_nat (bucket_count b) < lo_max opts then
                 (PassOn, Mapping.update key (b\<lparr>bucket_count := bucket_count b + 1\<rparr>) buckets)
               else (RetryAfter (max 1 \<lceil>(of_int (windowStart b) + lo_windowMs opts - of_int now) / 1000\<rceil>), buckets))"

definition createDefaultAuthRateLimiter ::
    "host \<Rightarrow> int \<Rightarrow> string \<times> client_request \<Rightarrow> buckets \<Rightarrow> limiter_reply \<times> buckets" where
  "createDefaultAuthRateLimiter h = auth_limiter (AUTH_THROTTLE h)"

section \<open>The contract: one counter per client\<close>

definition unexpired :: "(int \<Rightarrow> bool) \<Rightarrow> int \<Rightarrow> bucket option \<Rightarrow> bucket option" where
  "unexpired over now ob =
     (case ob of None \<Rightarrow> None | Some b \<Rightarrow> if over (now - windowStart b) then None else Some b)"

definition counter_step :: "(nat \<Rightarrow> bool) \<Rightarrow> int \<Rightarrow> bucket option \<Rightarrow> bool \<times> bucket option" where
  "counter_step full now ob =
     (case ob of
        None \<Rightarrow> (True, Some \<lparr>bucket_count = 1, windowStart = now\<rparr>)
      | Some b \<Rightarrow>
          if full (bucket_count b) then (False, ob)
          else (True, Some (b\<lparr>bucket_count := bucket_count b + 1\<rparr>)))"

text \<open>The verdicts of one counter on the times of its requests.\<close>

fun counter_log :: "(int \<Rightarrow> bool) \<Rightarrow> (nat \<Rightarrow> bool) \<Rightarrow> int list \<Rightarrow> bucket option \<Rightarrow> (int \<times> bool) list" where
  "counter_log over full [] ob = []"
| "counter_log over full (t # ts) ob =
     (case counter_step full t (unexpired over t ob) of
        (ok, ob') \<Rightarrow> (t, ok) # counter_log over full ts ob')"

text \<open>A limiter at work: every request with its time and whether it passed.\<close>

fun serve :: "(int \<Rightarrow> 'r \<Rightarrow> 's \<Rightarrow> bool \<times> 's) \<Rightarrow> (int \<times> 'r) list \<Rightarrow> 's \<Rightarrow> (int \<times> 'r \<times> bool) list" where
  "serve request [] s = []"
| "serve request ((t, r) # rs) s =
     (case request t r s of (ok, s') \<Rightarrow> (t, r, ok) # serve request rs s')"

fun serve_state :: "(int \<Rightarrow> 'r \<Rightarrow> 's \<Rightarrow> bool \<times> 's) \<Rightarrow> (int \<times> 'r) list \<Rightarrow> 's \<Rightarrow> 's" where
  "serve_state request [] s = s"
| "serve_state request ((t, r) # rs) s = serve_state request rs (snd (request t r s))"

text \<open>What one client sees of it.\<close>

definition seen_by :: "('r \<Rightarrow> 'k option) \<Rightarrow> 'k \<Rightarrow> (int \<times> 'r \<times> bool) list \<Rightarrow> (int \<times> bool) list" where
  "seen_by who k hist = map (\<lambda>(t, r, ok). (t, ok)) (filter (\<lambda>(t, r, ok). who r = Some k) hist)"

definition times_of :: "('r \<Rightarrow> 'k option) \<Rightarrow> 'k \<Rightarrow> (int \<times> 'r) list \<Rightarrow> int list" where
  "times_of who k rs = map fst (filter (\<lambda>(t, r). who r = Some k) rs)"

lemma unexpired_simps [simp]:
  "unexpired over now None = None"
  "unexpired over now (Some b) = (if over (now - windowStart b) then None else Some b)"
  by (simp_all add: unexpired_def)

lemma seen_by_simps [simp]:
  "seen_by who k [] = []"
  "seen_by who k ((t, r, ok) # hist) = (if who r = Some k then (t, ok) # seen_by who k hist else seen_by who k hist)"
  by (simp_all add: seen_by_def)

lemma times_of_simps [simp]:
  "times_of who k [] = []"
  "times_of who k ((t, r) # rs) = (if who r = Some k then t # times_of who k rs else times_of who k rs)"
  by (simp_all add: times_of_def)

text \<open>The bucket a client holds at a time, as the store shows it.\<close>

locale request_limiter =
  fixes request :: "int \<Rightarrow> 'r \<Rightarrow> 's \<Rightarrow> bool \<times> 's"
    and who :: "'r \<Rightarrow> 'k option"
    and live :: "int \<Rightarrow> 's \<Rightarrow> 'k \<Rightarrow> bucket option"
    and over :: "int \<Rightarrow> bool"
    and full :: "nat \<Rightarrow> bool"
  assumes unlimited: "who r = None \<Longrightarrow> request now r s = (True, s)"
    and decides: "who r = Some k \<Longrightarrow> fst (request now r s) = fst (counter_step full now (live now s k))"
    and counts: "who r = Some k \<Longrightarrow> now \<le> now' \<Longrightarrow>
      live now' (snd (request now r s)) k = unexpired over now' (snd (counter_step full now (live now s k)))"
    and separate: "who r \<noteq> Some k \<Longrightarrow> now \<le> now' \<Longrightarrow> live now' (snd (request now r s)) k = live now' s k"
    and ageing: "now \<le> now' \<Longrightarrow> unexpired over now' (live now s k) = live now' s k"
begin

text \<open>The limiter refines the private counters: a client sees what its own counter decides.\<close>

lemma per_client:
  assumes "sorted (t0 # map fst rs)"
  shows "seen_by who k (serve request rs s) = counter_log over full (times_of who k rs) (live t0 s k)"
  using assms
proof (induction rs arbitrary: s t0)
  case (Cons x rs)
  obtain t r where x: "x = (t, r)" by fastforce
  obtain ok s' where run: "request t r s = (ok, s')" by fastforce
  have le: "t0 \<le> t" and sorted: "sorted (t # map fst rs)" using Cons.prems x by auto
  have IH: "seen_by who k (serve request rs s') = counter_log over full (times_of who k rs) (live t s' k)"
    by (rule Cons.IH[OF sorted])
  have same: "counter_log over full ts (unexpired over t' ob) = counter_log over full ts ob" if "\<forall>t \<in> set ts. t' \<le> t"
      "\<forall>t \<in> set ts. unexpired over t (unexpired over t' ob) = unexpired over t ob" for ts t' ob
    using that by (cases ts) simp_all
  have later: "unexpired over u (live t0 s k) = unexpired over u (live t s k)" if "t \<le> u" for u
    using that le by (simp add: ageing)
  show ?case
  proof (cases "who r = Some k")
    case True
    define ob where "ob = snd (counter_step full t (live t s k))"
    have live: "live u s' k = unexpired over u ob" if "t \<le> u" for u
      using counts[OF True that, of s] run by (simp add: ob_def)
    have "\<forall>u \<in> set (times_of who k rs). t \<le> u" using sorted by (auto simp: times_of_def)
    then have "counter_log over full (times_of who k rs) (live t s' k) = counter_log over full (times_of who k rs) ob"
      using live ageing[of t _ s' k] by (subst live) (auto intro!: same)
    moreover have "counter_step full t (unexpired over t (live t0 s k)) = (ok, ob)"
      using decides[OF True, of t s] run le by (simp add: ob_def ageing prod_eq_iff)
    ultimately show ?thesis using True x run IH by simp
  next
    case False
    have live: "live u s' k = live u s k" if "t \<le> u" for u
      using separate[OF False that, of s] run by simp
    have "counter_log over full ts (live t s k) = counter_log over full ts (live t0 s k)" if "\<forall>u \<in> set ts. t \<le> u" for ts
      using that later by (cases ts) simp_all
    moreover have "\<forall>u \<in> set (times_of who k rs). t \<le> u" using sorted by (auto simp: times_of_def)
    ultimately show ?thesis using False x run IH live by simp
  qed
qed simp

end

section \<open>How much a window lets through\<close>

definition passed_in :: "int \<Rightarrow> int \<Rightarrow> (int \<times> bool) list \<Rightarrow> nat" where
  "passed_in a b hist = length (filter (\<lambda>(t, ok). ok \<and> a \<le> t \<and> t < b) hist)"

lemma passed_in_simps [simp]:
  "passed_in a b [] = 0"
  "passed_in a b ((t, ok) # hist) = (if ok \<and> a \<le> t \<and> t < b then 1 else 0) + passed_in a b hist"
  by (simp_all add: passed_in_def)

lemma passed_in_empty [simp]: "b \<le> a \<Longrightarrow> passed_in a b hist = 0"
  by (auto simp: passed_in_def filter_empty_conv)

lemma counter_times: "map fst (counter_log over full ts ob) = ts"
  by (induction ts arbitrary: ob) (auto split: prod.splits)

text \<open>A window of \<open>window\<close> milliseconds that lets \<open>cap\<close> requests pass.\<close>

locale capped_limiter = request_limiter request who live over full
  for request :: "int \<Rightarrow> 'r \<Rightarrow> 's \<Rightarrow> bool \<times> 's" and who :: "'r \<Rightarrow> 'k option"
    and live :: "int \<Rightarrow> 's \<Rightarrow> 'k \<Rightarrow> bucket option" and over :: "int \<Rightarrow> bool" and full :: "nat \<Rightarrow> bool" +
  fixes window :: int and cap :: nat
  assumes over_iff: "over e \<longleftrightarrow> window \<le> e"
    and full_iff: "1 \<le> c \<Longrightarrow> full c \<longleftrightarrow> cap \<le> c"
    and cap_pos: "1 \<le> cap"
    and window_pos: "0 < window"
begin

definition valid :: "int \<Rightarrow> bucket option \<Rightarrow> bool" where
  "valid t ob = (case ob of None \<Rightarrow> True | Some b \<Rightarrow> 1 \<le> bucket_count b \<and> bucket_count b \<le> cap \<and> windowStart b \<le> t)"

lemma step_cases [consumes 3, case_names fresh counted refused]:
  assumes "valid t0 ob" "t0 \<le> t" "counter_step full t (unexpired over t ob) = (ok, ob')"
  obtains (fresh) "ok" "ob' = Some \<lparr>bucket_count = 1, windowStart = t\<rparr>"
      "\<And>b. ob = Some b \<Longrightarrow> windowStart b + window \<le> t"
    | (counted) b where "ob = Some b" "ok" "ob' = Some (b\<lparr>bucket_count := bucket_count b + 1\<rparr>)"
      "t < windowStart b + window" "bucket_count b < cap"
    | (refused) b where "ob = Some b" "\<not> ok" "ob' = ob" "t < windowStart b + window" "bucket_count b = cap"
  using assms
  by (auto simp: counter_step_def unexpired_def valid_def over_iff full_iff split: option.splits if_splits)

lemma step_valid:
  assumes "valid t0 ob" "t0 \<le> t" "counter_step full t (unexpired over t ob) = (ok, ob')"
  shows "valid t ob'"
  by (rule step_cases[OF assms]) (use assms cap_pos in \<open>auto simp: valid_def\<close>)

lemma rest_of_window:
  assumes "sorted (t0 # ts)" "valid t0 (Some b)" "u \<le> windowStart b + window"
  shows "passed_in a u (counter_log over full ts (Some b)) \<le> cap - bucket_count b"
  using assms
proof (induction ts arbitrary: t0 b)
  case (Cons t ts)
  obtain ok ob' where step: "counter_step full t (unexpired over t (Some b)) = (ok, ob')" by fastforce
  from Cons.prems have le: "t0 \<le> t" "sorted (t # ts)" by auto
  have valid: "valid t ob'" by (rule step_valid[OF Cons.prems(2) le(1) step])
  from Cons.prems(2) le(1) step show ?case
  proof (cases rule: step_cases)
    case fresh
    then have "u \<le> t" using Cons.prems(3) by auto
    then have "\<forall>x \<in> set (counter_log over full ts ob'). u \<le> fst x"
      using le(2) counter_times[of over full ts ob'] by (metis image_eqI list.set_map order_trans sorted_simps(2))
    then have "passed_in a u (counter_log over full ts ob') = 0"
      by (auto simp: passed_in_def filter_empty_conv)
    then show ?thesis using step \<open>u \<le> t\<close> by simp
  next
    case (counted c)
    then show ?thesis using Cons.IH[OF le(2), of "b\<lparr>bucket_count := bucket_count b + 1\<rparr>"] Cons.prems(3) valid step by auto
  next
    case (refused c)
    then show ?thesis using Cons.IH[OF le(2), of b] Cons.prems(3) valid step by auto
  qed
qed simp

lemma two_windows:
  assumes "sorted (t0 # ts)" "valid t0 (Some b)" "u \<le> windowStart b + 2 * window"
  shows "passed_in a u (counter_log over full ts (Some b)) \<le> (cap - bucket_count b) + cap"
  using assms
proof (induction ts arbitrary: t0 b)
  case (Cons t ts)
  obtain ok ob' where step: "counter_step full t (unexpired over t (Some b)) = (ok, ob')" by fastforce
  from Cons.prems have le: "t0 \<le> t" "sorted (t # ts)" by auto
  have valid: "valid t ob'" by (rule step_valid[OF Cons.prems(2) le(1) step])
  from Cons.prems(2) le(1) step show ?case
  proof (cases rule: step_cases)
    case fresh
    then have "windowStart b + window \<le> t" by auto
    with Cons.prems(3) have "u \<le> t + window" by simp
    have "passed_in a u (counter_log over full ts ob') \<le> cap - 1"
      using rest_of_window[OF le(2), of "\<lparr>bucket_count = 1, windowStart = t\<rparr>"] fresh valid \<open>u \<le> t + window\<close> by auto
    then show ?thesis using step cap_pos by auto
  next
    case (counted c)
    then show ?thesis using Cons.IH[OF le(2), of "b\<lparr>bucket_count := bucket_count b + 1\<rparr>"] Cons.prems(3) valid step by auto
  next
    case (refused c)
    then show ?thesis using Cons.IH[OF le(2), of b] Cons.prems(3) valid step by auto
  qed
qed simp

lemma any_window:
  assumes "sorted (t0 # ts)" "valid t0 ob"
  shows "passed_in a (a + window) (counter_log over full ts ob) \<le> 2 * cap"
  using assms
proof (induction ts arbitrary: t0 ob)
  case (Cons t ts)
  obtain ok ob' where step: "counter_step full t (unexpired over t ob) = (ok, ob')" by fastforce
  from Cons.prems have le: "t0 \<le> t" "sorted (t # ts)" by auto
  have valid: "valid t ob'" by (rule step_valid[OF Cons.prems(2) le(1) step])
  have rest: "passed_in a (a + window) (counter_log over full ts ob') \<le> 2 * cap" by (rule Cons.IH[OF le(2) valid])
  from Cons.prems(2) le(1) step show ?case
  proof (cases rule: step_cases)
    case fresh
    have "passed_in a (a + window) (counter_log over full ts ob') \<le> cap - 1" if "a \<le> t"
      using rest_of_window[OF le(2), of "\<lparr>bucket_count = 1, windowStart = t\<rparr>"] fresh valid that by auto
    then show ?thesis using step rest cap_pos by (cases "a \<le> t") auto
  next
    case (counted b)
    have "passed_in a (a + window) (counter_log over full ts ob') \<le> 2 * cap - 1" if "a \<le> t"
      using two_windows[OF le(2), of "b\<lparr>bucket_count := bucket_count b + 1\<rparr>" "a + window" a] counted valid that
      by (auto simp: valid_def)
    then show ?thesis using step rest cap_pos by (cases "a \<le> t") auto
  next
    case (refused b)
    then show ?thesis using step rest by simp
  qed
qed simp

text \<open>A refusal has its reason in the window that precedes it.\<close>

lemma refused_after_cap:
  assumes "sorted (t0 # ts)" "valid t0 ob" "counter_log over full ts ob = pre @ (t, False) # post"
  shows "cap \<le> passed_in (t - window + 1) (t + 1) pre +
    (case ob of Some b \<Rightarrow> if t - window < windowStart b then bucket_count b else 0 | None \<Rightarrow> 0)"
  using assms
proof (induction ts arbitrary: t0 ob pre)
  case (Cons t1 ts)
  obtain ok ob' where step: "counter_step full t1 (unexpired over t1 ob) = (ok, ob')" by fastforce
  from Cons.prems have le: "t0 \<le> t1" "sorted (t1 # ts)" by auto
  have valid: "valid t1 ob'" by (rule step_valid[OF Cons.prems(2) le(1) step])
  show ?case
  proof (cases pre)
    case Nil
    then have "t1 = t" "\<not> ok" using Cons.prems(3) step by auto
    from Cons.prems(2) le(1) step show ?thesis
      by (cases rule: step_cases) (use Nil \<open>t1 = t\<close> \<open>\<not> ok\<close> in auto)
  next
    case (Cons x pre')
    then have x: "x = (t1, ok)" and log: "counter_log over full ts ob' = pre' @ (t, False) # post"
      using Cons.prems(3) step by auto
    from log counter_times[of over full ts ob'] le(2) have "t1 \<le> t" by auto
    from Cons.prems(2) le(1) step show ?thesis
      by (cases rule: step_cases)
        (use Cons.IH[OF le(2) valid log] Cons.prems(2) le(1) \<open>t1 \<le> t\<close> in
          \<open>auto simp: valid_def Cons x split: if_splits\<close>)
  qed
qed simp

end

section \<open>Both limiters keep the contract\<close>

definition live_in :: "(int \<Rightarrow> bool) \<Rightarrow> int \<Rightarrow> buckets \<Rightarrow> string \<Rightarrow> bucket option" where
  "live_in over now store k = unexpired over now (Mapping.lookup store k)"

lemma unexpired_mono:
  assumes "\<And>e e'. e \<le> e' \<Longrightarrow> over e \<Longrightarrow> over e'" "now \<le> now'"
  shows "unexpired over now' (unexpired over now ob) = unexpired over now' ob"
  using assms(2) assms(1)[of "now - windowStart (the ob)" "now' - windowStart (the ob)"]
  by (auto simp: unexpired_def split: option.splits)

lemma counter_refused: "\<not> fst (counter_step full now ob) \<Longrightarrow> snd (counter_step full now ob) = ob"
  by (auto simp: counter_step_def split: option.splits if_splits)

subsection \<open>The guard\<close>

definition guard_client :: "host \<Rightarrow> client_request \<Rightarrow> string option" where
  "guard_client h r =
     (case guard_limit h of
        None \<Rightarrow> None
      | Some limit \<Rightarrow> if limit = 0 then None else Some (resolveClientIp r))"

definition guard_full :: "host \<Rightarrow> nat \<Rightarrow> bool" where
  "guard_full h c = (case guard_limit h of None \<Rightarrow> False | Some limit \<Rightarrow> \<not> int c < limit)"

definition guard_request :: "host \<Rightarrow> int \<Rightarrow> client_request \<Rightarrow> buckets \<Rightarrow> bool \<times> buckets" where
  "guard_request h now r s = (case canActivate h now r s of (res, s') \<Rightarrow> (res = Inr True, s'))"

lemma window_over_mono: "e \<le> e' \<Longrightarrow> window_over h e \<Longrightarrow> window_over h e'"
  by (auto simp: window_over_def split: option.splits)

lemma window_over_again:
  "now \<le> now' \<Longrightarrow> unexpired (window_over h) now' (unexpired (window_over h) now ob) = unexpired (window_over h) now' ob"
  by (rule unexpired_mono) (rule window_over_mono)

lemma guard_request_counts:
  assumes "guard_client h r = Some k"
  shows "fst (guard_request h now r s) =
      fst (counter_step (guard_full h) now (unexpired (window_over h) now (Mapping.lookup s k)))"
    "unexpired (window_over h) now (Mapping.lookup s k) = None \<or> fst (guard_request h now r s) \<Longrightarrow>
      Mapping.lookup (snd (guard_request h now r s)) k =
        snd (counter_step (guard_full h) now (unexpired (window_over h) now (Mapping.lookup s k)))"
    "\<not> fst (guard_request h now r s) \<Longrightarrow> snd (guard_request h now r s) = s"
    "j \<noteq> k \<Longrightarrow> Mapping.lookup (snd (guard_request h now r s)) j = Mapping.lookup s j"
  using assms
  by (auto simp: guard_request_def canActivate_def guard_client_def guard_full_def counter_step_def unexpired_def
      Let_def ret_def Mapping.lookup_update' split: option.splits if_splits)

interpretation guard: request_limiter "guard_request h" "guard_client h" "live_in (window_over h)" "window_over h"
  "guard_full h" for h
proof
  fix r now s assume "guard_client h r = None"
  then show "guard_request h now r s = (True, s)"
    by (auto simp: guard_request_def canActivate_def guard_client_def ret_def split: option.splits if_splits)
next
  fix r k now s assume "guard_client h r = Some k"
  then show "fst (guard_request h now r s) = fst (counter_step (guard_full h) now (live_in (window_over h) now s k))"
    unfolding live_in_def by (rule guard_request_counts(1))
next
  fix r k and now now' :: int and s assume r: "guard_client h r = Some k" and le: "now \<le> now'"
  show "live_in (window_over h) now' (snd (guard_request h now r s)) k =
      unexpired (window_over h) now' (snd (counter_step (guard_full h) now (live_in (window_over h) now s k)))"
  proof (cases "fst (guard_request h now r s)")
    case True
    then show ?thesis using guard_request_counts(2)[OF r, of now s] by (simp add: live_in_def)
  next
    case False
    then show ?thesis
      using guard_request_counts(1,3)[OF r, of now s]
      by (simp add: live_in_def counter_refused window_over_again[OF le])
  qed
next
  fix r k and now now' :: int and s assume "guard_client h r \<noteq> Some k"
  then show "live_in (window_over h) now' (snd (guard_request h now r s)) k = live_in (window_over h) now' s k"
    by (auto simp: guard_request_def canActivate_def guard_client_def ret_def live_in_def Let_def
        Mapping.lookup_update' split: option.splits if_splits)
next
  fix now now' :: int and s k assume "now \<le> now'"
  then show "unexpired (window_over h) now' (live_in (window_over h) now s k) = live_in (window_over h) now' s k"
    unfolding live_in_def by (rule window_over_again)
qed

subsection \<open>The middleware\<close>

definition auth_client :: "string \<times> client_request \<Rightarrow> string option" where
  "auth_client req = (if isSensitiveAuthPath (fst req) then Some (resolveClientIp (snd req)) else None)"

definition auth_over :: "host \<Rightarrow> int \<Rightarrow> bool" where
  "auth_over h e \<longleftrightarrow> of_int e \<ge> lo_windowMs (AUTH_THROTTLE h)"

definition auth_full :: "host \<Rightarrow> nat \<Rightarrow> bool" where
  "auth_full h c \<longleftrightarrow> \<not> of_nat c < lo_max (AUTH_THROTTLE h)"

definition auth_request :: "host \<Rightarrow> int \<Rightarrow> string \<times> client_request \<Rightarrow> buckets \<Rightarrow> bool \<times> buckets" where
  "auth_request h now req s = (case createDefaultAuthRateLimiter h now req s of (reply, s') \<Rightarrow> (reply = PassOn, s'))"

definition auth_window :: "host \<Rightarrow> int" where
  "auth_window h = \<lceil>lo_windowMs (AUTH_THROTTLE h)\<rceil>"

definition auth_cap :: "host \<Rightarrow> nat" where
  "auth_cap h = nat \<lceil>lo_max (AUTH_THROTTLE h)\<rceil>"

lemmas auth_limiter_defs = auth_request_def createDefaultAuthRateLimiter_def auth_limiter_def auth_client_def

lemma auth_over_mono: "e \<le> e' \<Longrightarrow> auth_over h e \<Longrightarrow> auth_over h e'"
  by (auto simp: auth_over_def intro: order_trans)

lemma auth_over_again:
  "now \<le> now' \<Longrightarrow> unexpired (auth_over h) now' (unexpired (auth_over h) now ob) = unexpired (auth_over h) now' ob"
  by (rule unexpired_mono) (rule auth_over_mono)

text \<open>Eviction takes only buckets whose window is over.\<close>

lemma live_evict:
  assumes "now \<le> now'"
  shows "unexpired (auth_over h) now' (Mapping.lookup (evictExpired (AUTH_THROTTLE h) now s) k) =
    unexpired (auth_over h) now' (Mapping.lookup s k)"
proof (cases "Mapping.lookup s k")
  case (Some b)
  have "auth_over h (now' - windowStart b)" if "lo_windowMs (AUTH_THROTTLE h) * 2 \<le> of_int (now - windowStart b)"
  proof -
    have "lo_windowMs (AUTH_THROTTLE h) \<le> lo_windowMs (AUTH_THROTTLE h) * 2" using throttle_pos(1)[of h] by linarith
    also have "\<dots> \<le> of_int (now' - windowStart b)" using that assms by (auto intro: order_trans)
    finally show ?thesis by (simp add: auth_over_def)
  qed
  then show ?thesis using Some by (simp add: evictExpired_def lookup_filter)
qed (simp add: evictExpired_def lookup_filter)

lemma auth_request_counts:
  fixes h now s
  defines "t \<equiv> evictExpired (AUTH_THROTTLE h) now s"
  assumes "auth_client req = Some k"
  shows "fst (auth_request h now req s) =
      fst (counter_step (auth_full h) now (unexpired (auth_over h) now (Mapping.lookup t k)))"
    "fst (auth_request h now req s) \<Longrightarrow> Mapping.lookup (snd (auth_request h now req s)) k =
        snd (counter_step (auth_full h) now (unexpired (auth_over h) now (Mapping.lookup t k)))"
    "\<not> fst (auth_request h now req s) \<Longrightarrow> snd (auth_request h now req s) = t"
    "j \<noteq> k \<Longrightarrow> Mapping.lookup (snd (auth_request h now req s)) j = Mapping.lookup t j"
  using assms(2) unfolding t_def
  by (auto simp: auth_limiter_defs auth_full_def auth_over_def counter_step_def unexpired_def
      Let_def Mapping.lookup_update' split: option.splits if_splits)

interpretation auth: capped_limiter "auth_request h" auth_client "live_in (auth_over h)" "auth_over h" "auth_full h"
  "auth_window h" "auth_cap h" for h
proof
  fix r now s assume "auth_client r = None"
  then show "auth_request h now r s = (True, s)" by (auto simp: auth_limiter_defs split: if_splits)
next
  fix r k now s assume "auth_client r = Some k"
  then show "fst (auth_request h now r s) = fst (counter_step (auth_full h) now (live_in (auth_over h) now s k))"
    unfolding live_in_def by (simp add: auth_request_counts(1) live_evict)
next
  fix r k and now now' :: int and s assume r: "auth_client r = Some k" and le: "now \<le> now'"
  show "live_in (auth_over h) now' (snd (auth_request h now r s)) k =
      unexpired (auth_over h) now' (snd (counter_step (auth_full h) now (live_in (auth_over h) now s k)))"
  proof (cases "fst (auth_request h now r s)")
    case True
    then show ?thesis using auth_request_counts(2)[OF r, of h now s] by (simp add: live_in_def live_evict)
  next
    case False
    then show ?thesis
      using auth_request_counts(1,3)[OF r, of h now s]
      by (simp add: live_in_def counter_refused auth_over_again[OF le] live_evict le)
  qed
next
  fix r k and now now' :: int and s assume r: "auth_client r \<noteq> Some k" and le: "now \<le> now'"
  show "live_in (auth_over h) now' (snd (auth_request h now r s)) k = live_in (auth_over h) now' s k"
  proof (cases "auth_client r")
    case None
    then show ?thesis by (auto simp: auth_limiter_defs live_in_def split: if_splits)
  next
    case (Some j)
    then show ?thesis using r auth_request_counts(4)[OF Some, of k h now s] live_evict[OF le] by (simp add: live_in_def)
  qed
next
  fix now now' :: int and s k assume "now \<le> now'"
  then show "unexpired (auth_over h) now' (live_in (auth_over h) now s k) = live_in (auth_over h) now' s k"
    unfolding live_in_def by (rule auth_over_again)
next
  fix e show "auth_over h e = (auth_window h \<le> e)"
    by (simp add: auth_over_def auth_window_def ceiling_le_iff)
next
  fix c :: nat show "auth_full h c = (auth_cap h \<le> c)"
    by (simp add: auth_full_def auth_cap_def nat_le_iff ceiling_le_iff not_less)
next
  have "1 \<le> \<lceil>lo_max (AUTH_THROTTLE h)\<rceil>" using throttle_pos(2)[of h] by (simp add: one_le_ceiling)
  then show "1 \<le> auth_cap h" unfolding auth_cap_def by linarith
next
  show "0 < auth_window h" using throttle_pos(1)[of h] by (simp add: auth_window_def)
qed

lemma live_in_empty [simp]: "live_in over now Mapping.empty k = None"
  by (simp add: live_in_def)

text \<open>The guard with usable numbers is capped as well.\<close>

lemma guard_capped:
  assumes "guard_limit h = Some (int cap)" "1 \<le> cap" "guard_windowMs h = Some w" "0 < w"
  shows "capped_limiter (guard_request h) (guard_client h) (live_in (window_over h)) (window_over h) (guard_full h) w cap"
  by (intro capped_limiter.intro guard.request_limiter_axioms capped_limiter_axioms.intro)
    (use assms in \<open>auto simp: window_over_def guard_full_def\<close>)

section \<open>What the limiters promise\<close>

lemma sorted_start: "sorted (map fst rs) \<Longrightarrow> \<exists>t0 :: int. sorted (t0 # map fst rs)"
  by (cases rs) auto

text \<open>C25 Both limiters refine a private fixed-window counter for every client: whatever the other
  clients do, in whatever interleaving, and although the middleware drops stale buckets, the
  verdicts a client sees are those of a counter fed with its own limited requests alone.\<close>

theorem limiters_count_every_client_alone:
  assumes "sorted (map fst rs)" "sorted (map fst gs)"
  shows "seen_by auth_client k (serve (auth_request h) rs Mapping.empty) =
      counter_log (auth_over h) (auth_full h) (times_of auth_client k rs) None \<and>
    seen_by (guard_client h) k (serve (guard_request h) gs Mapping.empty) =
      counter_log (window_over h) (guard_full h) (times_of (guard_client h) k gs) None"
proof -
  from sorted_start[OF assms(1)] sorted_start[OF assms(2)]
  obtain t0 t1 where "sorted (t0 # map fst rs)" "sorted (t1 # map fst gs)" by blast
  from auth.per_client[OF this(1)] guard.per_client[OF this(2)] show ?thesis by simp
qed

text \<open>C26 The middleware lets a client pass at most twice the limit in any span of one window,
  wherever the span begins, over all credential paths together; and it refuses a request only when
  the limit was used up by requests that passed less than a window before.\<close>

theorem credential_requests_are_bounded:
  assumes "sorted (map fst rs)"
  shows "passed_in a (a + auth_window h) (seen_by auth_client k (serve (auth_request h) rs Mapping.empty)) \<le> 2 * auth_cap h \<and>
    (\<forall>pre t post. seen_by auth_client k (serve (auth_request h) rs Mapping.empty) = pre @ (t, False) # post \<longrightarrow>
       auth_cap h \<le> passed_in (t - auth_window h + 1) (t + 1) pre)"
proof -
  obtain t0 where sorted: "sorted (t0 # map fst rs)" using sorted_start[OF assms] ..
  have own: "sorted (t0 # times_of auth_client k rs)"
    using sorted by (auto simp: times_of_def intro: sorted_filter)
  have fresh: "auth.valid h t0 None" by (simp add: auth.valid_def)
  show ?thesis
    unfolding auth.per_client[OF sorted] live_in_empty
    using auth.any_window[OF own fresh] auth.refused_after_cap[OF own fresh] by simp
qed

text \<open>The store after requests of other clients.\<close>

lemma others_leave_the_bucket:
  assumes "sorted (t0 # map fst rs @ [t])" "\<forall>(u, r) \<in> set rs. auth_client r \<noteq> Some k"
  shows "live_in (auth_over h) t (serve_state (auth_request h) rs s) k = live_in (auth_over h) t s k"
  using assms
proof (induction rs arbitrary: s t0)
  case (Cons x rs)
  obtain u r where x: "x = (u, r)" by (cases x)
  have "sorted (u # map fst rs @ [t])" "u \<le> t" using Cons.prems(1) x by (auto simp: sorted_append)
  then show ?case using Cons.IH[of u] Cons.prems(2) x by (simp add: auth.separate)
qed simp

text \<open>C27 A client that is refused with \<open>Retry-After: n\<close> and stays silent for \<open>n\<close> seconds is let
  through, whatever other clients send in the meantime: the announced wait is long enough.\<close>

theorem retry_after_is_enough:
  assumes "auth_client req = Some k" "auth_client req' = Some k"
    and "createDefaultAuthRateLimiter h now req s = (RetryAfter n, s')"
    and "sorted (now # map fst rs @ [t])" "\<forall>(u, r) \<in> set rs. auth_client r \<noteq> Some k" "now + 1000 * n \<le> t"
  shows "fst (createDefaultAuthRateLimiter h t req' (serve_state (auth_request h) rs s')) = PassOn"
proof -
  have le: "now \<le> t" using assms(4) by (auto simp: sorted_append)
  obtain b where b: "live_in (auth_over h) now s k = Some b"
    and n: "n = max 1 \<lceil>(of_int (windowStart b) + lo_windowMs (AUTH_THROTTLE h) - of_int now) / 1000\<rceil>"
    using assms(1,3) live_evict[of now now h s k]
    by (auto simp: auth_limiter_defs auth_over_def live_in_def unexpired_def Let_def split: if_splits option.splits)
  have "(of_int (windowStart b) + lo_windowMs (AUTH_THROTTLE h) - of_int now) / 1000 \<le> of_int n"
    unfolding n by (meson le_of_int_ceiling max.cobounded2 of_int_le_iff order_trans)
  then have "lo_windowMs (AUTH_THROTTLE h) \<le> of_int (now + 1000 * n - windowStart b)" by (simp add: field_simps)
  also have "\<dots> \<le> of_int (t - windowStart b)" using assms(6) by (simp add: of_int_le_iff)
  finally have over: "auth_over h (t - windowStart b)" by (simp add: auth_over_def)
  have "auth_request h now req s = (False, s')" using assms(3) by (simp add: auth_request_def)
  then have "live_in (auth_over h) t s' k = None"
    using auth.counts[OF assms(1) le, of h s] auth.decides[OF assms(1), of h now s] b over
    by (simp add: counter_refused)
  then have "live_in (auth_over h) t (serve_state (auth_request h) rs s') k = None"
    using others_leave_the_bucket[OF assms(4,5)] by simp
  then have "fst (auth_request h t req' (serve_state (auth_request h) rs s'))"
    by (simp add: auth.decides[OF assms(2)] counter_step_def)
  then show ?thesis by (simp add: auth_request_def split: prod.splits)
qed

section \<open>Variables that are no numbers\<close>

text \<open>A registration window that does not parse never ends: a client that was refused once is
  refused for the life of the process. A limit that does not parse refuses nobody.\<close>

lemma unparsable_window_locks_out:
  assumes "guard_windowMs h = None" "guard_client h r = Some k"
    and "fst (guard_request h now r s) = False" "guard_client h r' = Some k"
  shows "fst (guard_request h t r' (serve_state (guard_request h) rs s)) = False"
proof -
  define locked where "locked s = (\<exists>b. Mapping.lookup s k = Some b \<and> guard_full h (bucket_count b))"
    for s :: buckets
  have never: "\<not> window_over h e" for e using assms(1) by (simp add: window_over_def)
  have refused: "fst (guard_request h u x s) = False" if "locked s" "guard_client h x = Some k" for u x s
    using that guard_request_counts(1)[OF that(2), of u s] never by (auto simp: locked_def counter_step_def)
  have "locked (snd (guard_request h u x s))" if "locked s" for u x s
  proof (cases "guard_client h x")
    case None
    then show ?thesis using that by (simp add: guard.unlimited)
  next
    case (Some j)
    then show ?thesis
      using that refused[OF that, of x u] guard_request_counts(3)[OF Some, of u s]
        guard_request_counts(4)[OF Some, of k u s] by (cases "j = k") (auto simp: locked_def Some)
  qed
  then have "locked s \<Longrightarrow> locked (serve_state (guard_request h) rs s)" for s
    by (induction "guard_request h" rs s rule: serve_state.induct) auto
  moreover have "locked s"
    using assms(3) guard_request_counts(1)[OF assms(2), of now s] never
    by (auto simp: locked_def counter_step_def unexpired_def split: option.splits if_splits)
  ultimately show ?thesis using refused assms(4) by blast
qed

lemma unparsable_limit_refuses_nobody: "guard_limit h = None \<Longrightarrow> canActivate h now r s = (Inr True, s)"
  by (simp add: canActivate_def ret_def)

section \<open>Instances\<close>

definition sign_in_from :: "string \<Rightarrow> string \<times> client_request" where
  "sign_in_from ip = (''/api/auth/sign-in/email'', \<lparr>req_ips = [], req_ip = Some ip\<rparr>)"

lemma sign_in_client: "auth_client (sign_in_from ip) = Some ip"
  by (simp add: sign_in_from_def auth_client_def isSensitiveAuthPath_def MOUNT_PREFIX_def SENSITIVE_PREFIXES_def
      starts_with_def resolveClientIp_def)

lemma example_throttle: "AUTH_THROTTLE example_host = \<lparr>lo_windowMs = 60000, lo_max = 10\<rparr>"
  by (simp add: AUTH_THROTTLE_def envInt_def example_host_def)

lemma limiters_count_every_client_alone_witness:
  "seen_by auth_client ''a'' (serve (auth_request example_host)
      [(0, sign_in_from ''a''), (1, sign_in_from ''b''), (2, sign_in_from ''a'')] Mapping.empty) =
     [(0, True), (2, True)]"
proof -
  have "sorted (map fst [(0 :: int, sign_in_from ''a''), (1, sign_in_from ''b''), (2, sign_in_from ''a'')])" by simp
  from limiters_count_every_client_alone[OF this, of "[]" "''a''" example_host] show ?thesis
    by (simp add: sign_in_client counter_step_def auth_over_def auth_full_def example_throttle)
qed

lemma credential_requests_are_bounded_witness:
  "passed_in 0 60000 (seen_by auth_client ''a'' (serve (auth_request example_host)
      (replicate 30 (0, sign_in_from ''a'')) Mapping.empty)) \<le> 20"
proof -
  have "sorted (map fst (replicate 30 (0 :: int, sign_in_from ''a'')))" by simp
  from credential_requests_are_bounded[OF this, of 0 example_host "''a''"] show ?thesis
    by (simp add: auth_window_def auth_cap_def example_throttle)
qed

lemma retry_after_is_enough_witness:
  "\<exists>s'. createDefaultAuthRateLimiter example_host 5 (sign_in_from ''a'')
      (Mapping.update ''a'' \<lparr>bucket_count = 10, windowStart = 0\<rparr> Mapping.empty) = (RetryAfter 60, s') \<and>
    fst (createDefaultAuthRateLimiter example_host 60005 (sign_in_from ''a'')
      (serve_state (auth_request example_host) [(7, sign_in_from ''b'')] s')) = PassOn"
proof -
  let ?s = "Mapping.update ''a'' \<lparr>bucket_count = 10, windowStart = 0\<rparr> Mapping.empty"
  have "\<lceil>59995 / 1000 :: rat\<rceil> = 60" by (simp add: ceiling_eq_iff)
  then have "fst (createDefaultAuthRateLimiter example_host 5 (sign_in_from ''a'') ?s) = RetryAfter 60"
    by (simp add: auth_limiter_defs sign_in_from_def isSensitiveAuthPath_def MOUNT_PREFIX_def SENSITIVE_PREFIXES_def
        starts_with_def resolveClientIp_def example_throttle evictExpired_def lookup_filter)
  then obtain s' where run: "createDefaultAuthRateLimiter example_host 5 (sign_in_from ''a'') ?s = (RetryAfter 60, s')"
    by (metis prod.collapse)
  from retry_after_is_enough[OF sign_in_client sign_in_client run, of "[(7, sign_in_from ''b'')]" 60005] run
  show ?thesis by (auto simp: sign_in_client)
qed

end
