(* ===== verification/Roles.thy ===== *)
theory Roles
  imports Users
begin

text \<open>
  Role administration, \<open>apps/auth-server/src/roles/roles.service.ts\<close>: listing, reading, creating,
  changing and deleting roles and the permissions they carry. A row is created under a pending
  public id and renamed to the sqid of its number in the same transaction
  (\<open>common/pending-public-id.ts\<close>).
\<close>

definition generatePendingPublicId :: "string \<Rightarrow> string" where
  "generatePendingPublicId uuid = ''pending-'' @ uuid"

section \<open>Views\<close>

record role_summary =
  rs_publicId :: string
  rs_name :: string
  rs_app :: app_ref
  rs_permissionCount :: nat
  rs_userCount :: nat

record role_detail =
  rd_summary :: role_summary
  rd_permissions :: "(string \<times> string) list"

definition role_user_count :: "db \<Rightarrow> int \<Rightarrow> nat" where
  "role_user_count d i = length (filter (\<lambda>x. snd x = i) (saUserRoles d))"

definition role_permission_count :: "db \<Rightarrow> int \<Rightarrow> nat" where
  "role_permission_count d i = length (filter (\<lambda>x. fst x = i) (saRolePermissions d))"

definition role_summary_of :: "db \<Rightarrow> sa_role \<Rightarrow> err + role_summary" where
  "role_summary_of d r =
     (case app_ref_of d (role_appId r) of
        Inl e \<Rightarrow> Inl e
      | Inr a \<Rightarrow> Inr \<lparr>rs_publicId = role_publicId r, rs_name = role_name r, rs_app = a,
                     rs_permissionCount = role_permission_count d (role_id r),
                     rs_userCount = role_user_count d (role_id r)\<rparr>)"

definition role_detail_of :: "db \<Rightarrow> sa_role \<Rightarrow> err + role_detail" where
  "role_detail_of d r =
     (case role_summary_of d r of
        Inl e \<Rightarrow> Inl e
      | Inr v \<Rightarrow>
          (let ps = sort_key perm_name (permissions_of_role d (role_id r)) in
           Inr \<lparr>rd_summary = v\<lparr>rs_permissionCount := length ps\<rparr>,
                rd_permissions = map (\<lambda>p. (perm_publicId p, perm_name p)) ps\<rparr>))"

section \<open>Reading\<close>

definition read_roles :: "string list" where
  "read_roles = [''platform.roles.manage'', ''platform.users.manage'', ''org.roles.manage'']"

definition caller_app :: "db \<Rightarrow> string \<Rightarrow> err + int" where
  "caller_app d caller =
     (case sau_by_betterAuthUserId d caller of
        None \<Rightarrow> Inl forbidden
      | Some u \<Rightarrow> (case org_by_id d (sau_orgId u) of None \<Rightarrow> Inl inconsistent | Some g \<Rightarrow> Inr (org_appId g)))"

definition listRoles :: "string \<Rightarrow> list_query \<Rightarrow> (db, role_summary listing) eff" where
  "listRoles caller q =
     bindE (liftR (\<lambda>d. caller_app d caller)) (\<lambda>callerAppId.
     bindE (if truthy (q_appId q)
            then bindE (findE (\<lambda>d. app_by_publicId d (the (q_appId q))) (NotFoundE ''App not found''))
                   (\<lambda>a. ret (app_id a))
            else ret (- 1)) (\<lambda>targetAppId.
     thenE (liftR (\<lambda>d. checkPermissionForApp d caller read_roles (Some targetAppId) (Some callerAppId)))
       (liftR (\<lambda>d.
          let rows = filter (\<lambda>r. (truthy (q_appId q) \<longrightarrow> role_appId r = targetAppId) \<and>
                                 matches_search (q_text q) (role_name r)) (saRoles d) in
          case all_ok (map (role_summary_of d) (page_rows q role_id rows)) of
            Inl e \<Rightarrow> Inl e
          | Inr xs \<Rightarrow> Inr (listing_of q rows xs)))))"

definition getRole :: "string \<Rightarrow> string \<Rightarrow> (db, role_detail) eff" where
  "getRole caller pid =
     bindE (findE (\<lambda>d. role_by_publicId d pid) (NotFoundE ''Not Found'')) (\<lambda>r.
     bindE (liftR (\<lambda>d. caller_app d caller)) (\<lambda>callerAppId.
     thenE (liftR (\<lambda>d. checkPermissionForApp d caller read_roles (Some (role_appId r)) (Some callerAppId)))
       (liftR (\<lambda>d. role_detail_of d r))))"

section \<open>Changing\<close>

record create_role_dto =
  cr_name :: string
  cr_appId :: string
  cr_permissionIds :: "string list option"

record update_role_dto =
  ur_name :: "string option"
  ur_permissionIds :: "string list option"

definition manage_roles_gate :: "string \<Rightarrow> (db, unit) eff" where
  "manage_roles_gate caller = liftR (\<lambda>d. checkPermission d caller [''platform.roles.manage''] None)"

definition createRole_rows :: "host \<Rightarrow> string \<Rightarrow> string \<Rightarrow> int \<Rightarrow> int list \<Rightarrow> (db, sa_role) eff" where
  "createRole_rows h uuid nm appId pids =
     bindE (create_role \<lparr>role_id = 0, role_publicId = generatePendingPublicId uuid, role_name = nm,
                         role_appId = appId\<rparr>) (\<lambda>draft.
     thenE (if pids \<noteq> [] then create_role_permissions (role_id draft) pids else ret ())
       (update_role (role_id draft) (\<lambda>r. r\<lparr>role_publicId := h_sqid_encode h (role_id draft)\<rparr>)))"

definition createRole :: "host \<Rightarrow> string \<Rightarrow> string \<Rightarrow> create_role_dto \<Rightarrow> (db, role_detail) eff" where
  "createRole h uuid caller dto =
     thenE (manage_roles_gate caller)
     (bindE (findE (\<lambda>d. app_by_publicId d (cr_appId dto)) (NotFoundE ''App not found'')) (\<lambda>app.
      bindE (liftR (\<lambda>d. resolvePermissionIdsForApp d (app_id app) (ids_of (cr_permissionIds dto)))) (\<lambda>pids.
      bindE (conflict_on_P2002 ''Role with this name already exists in this app''
               (transaction (createRole_rows h uuid (cr_name dto) (app_id app) pids))) (\<lambda>r.
      bindE (liftR (\<lambda>d. role_detail_of d r)) (\<lambda>v.
      ret (v\<lparr>rd_summary := (rd_summary v)\<lparr>rs_userCount := 0\<rparr>\<rparr>))))))"

definition updateRole_rows :: "sa_role \<Rightarrow> string option \<Rightarrow> int list option \<Rightarrow> (db, unit) eff" where
  "updateRole_rows existing nm pids =
     thenE (case nm of
              None \<Rightarrow> ret ()
            | Some n \<Rightarrow> discard (update_role (role_id existing) (\<lambda>r. r\<lparr>role_name := n\<rparr>)))
       (case pids of
          None \<Rightarrow> ret ()
        | Some ps \<Rightarrow>
            thenE (delete_role_permissions_of (role_id existing))
              (if ps \<noteq> [] then create_role_permissions (role_id existing) ps else ret ()))"

definition updateRole :: "string \<Rightarrow> string \<Rightarrow> update_role_dto \<Rightarrow> (db, role_detail) eff" where
  "updateRole caller pid dto =
     thenE (manage_roles_gate caller)
     (if ur_name dto = None \<and> ur_permissionIds dto = None then
        raise (BadRequestE ''At least one of name or permissionIds must be provided'')
      else
        bindE (findE (\<lambda>d. role_by_publicId d pid) (NotFoundE ''Not Found'')) (\<lambda>existing.
        bindE (case ur_permissionIds dto of
                 None \<Rightarrow> ret None
               | Some ps \<Rightarrow> bindE (liftR (\<lambda>d. resolvePermissionIdsForApp d (role_appId existing) ps))
                             (\<lambda>ids. ret (Some ids))) (\<lambda>pids.
        thenE (conflict_on_P2002 ''Role with this name already exists in this app''
                 (transaction (updateRole_rows existing (ur_name dto) pids)))
        (bindE (findE (\<lambda>d. role_by_publicId d pid) inconsistent) (\<lambda>r. liftR (\<lambda>d. role_detail_of d r))))))"

definition deleteRole :: "string \<Rightarrow> string \<Rightarrow> (db, unit) eff" where
  "deleteRole caller pid =
     thenE (manage_roles_gate caller)
     (bindE (findE (\<lambda>d. role_by_publicId d pid) (NotFoundE ''Not Found'')) (\<lambda>existing.
      catchE (transaction (thenE (delete_role_permissions_of (role_id existing))
                                 (delete_role (role_id existing))))
        (\<lambda>e. if e = P2003 then
                liftR (\<lambda>d. case find (\<lambda>a. app_defaultRoleId a = Some (role_id existing)) (saApps d) of
                  Some a \<Rightarrow> Inl (ConflictE (''Role is the default role for app \"'' @ app_name a @ ''\"''))
                | None \<Rightarrow> Inl (ConflictE (''Role is assigned to '' @
                            number_text (role_user_count d (role_id existing)) @ '' users'')))
              else raise e)))"

section \<open>Integrity and deletion\<close>

lemma keeps_manage_roles_gate [keeps_intros]: "keeps I (manage_roles_gate c)"
  by (simp add: manage_roles_gate_def keeps_intros)

lemma keeps_role_writes [keeps_intros]:
  "keeps db_ok (update_role i (\<lambda>r. r\<lparr>role_publicId := q\<rparr>))"
  "keeps db_ok (update_role i (\<lambda>r. r\<lparr>role_name := q\<rparr>))"
  by (auto intro: keeps_update_role)

lemma keeps_role_ops:
  "keeps db_ok (createRole h uuid c cdto)" "keeps db_ok (updateRole c pid udto)" "keeps db_ok (deleteRole c pid)"
  by (auto simp: createRole_def createRole_rows_def updateRole_def updateRole_rows_def deleteRole_def
      simp del: ret_apply intro!: keeps_intros)

datatype role_op =
    CreateRole string string create_role_dto
  | UpdateRole string string update_role_dto
  | DeleteRole string string

fun run_role_op :: "host \<Rightarrow> role_op \<Rightarrow> (db, unit) eff" where
  "run_role_op h (CreateRole uuid c dto) = discard (createRole h uuid c dto)"
| "run_role_op h (UpdateRole c pid dto) = discard (updateRole c pid dto)"
| "run_role_op h (DeleteRole c pid) = deleteRole c pid"

lemma keeps_run_role_op: "keeps db_ok (run_role_op h op)"
  by (cases op) (auto intro: keeps_role_ops keeps_intros)

lemma find_default_role:
  "list_ex (\<lambda>a. app_defaultRoleId a = Some i) as \<longleftrightarrow> find (\<lambda>a. app_defaultRoleId a = Some i) as \<noteq> None"
  by (auto simp: find_None_all list_ex_iff)

lemma filter_idle: "filter (\<lambda>x. fst x \<noteq> i) (filter (\<lambda>x. fst x \<noteq> i) xs) = filter (\<lambda>x. fst x \<noteq> i) xs"
  by simp

text \<open>Deleting a role that is no app's default always succeeds for a caller who may manage roles,
  however many users hold it: the assignments disappear with it. The refusal the code prepares for
  a role that is still assigned is never reached, because the foreign key cascades.\<close>

theorem role_deletion_takes_assignments:
  assumes "checkPermission d c [''platform.roles.manage''] None = Inr ()" "role_by_publicId d pid = Some r"
  shows "deleteRole c pid d =
     (case find (\<lambda>a. app_defaultRoleId a = Some (role_id r)) (saApps d) of
        Some a \<Rightarrow> (Inl (ConflictE (''Role is the default role for app \"'' @ app_name a @ ''\"'')), d)
      | None \<Rightarrow> (Inr (), d\<lparr>saRoles := filter (\<lambda>x. role_id x \<noteq> role_id r) (saRoles d),
                           saRolePermissions := filter (\<lambda>x. fst x \<noteq> role_id r) (saRolePermissions d),
                           saUserRoles := filter (\<lambda>x. snd x \<noteq> role_id r) (saUserRoles d)\<rparr>))"
proof -
  have row: "role_by_id d (role_id r) \<noteq> None"
    using lookup_sound(11)[OF assms(2)] by (auto simp: absent_lookup)
  have lookup: "role_by_id (saRolePermissions_update g d) i = role_by_id d i" for g i
    by (simp add: role_by_id_def)
  show ?thesis
  proof (cases "find (\<lambda>a. app_defaultRoleId a = Some (role_id r)) (saApps d)")
    case None
    then have free: "\<not> list_ex (\<lambda>a. app_defaultRoleId a = Some (role_id r)) (saApps d)"
      by (simp add: find_default_role)
    show ?thesis
      using row free assms None
      by (simp add: deleteRole_def manage_roles_gate_def thenE_def bindE_def findE_def catchE_def transaction_def
          delete_role_permissions_of_def delete_role_def lookup)
  next
    case (Some a)
    then have taken: "list_ex (\<lambda>a. app_defaultRoleId a = Some (role_id r)) (saApps d)"
      by (simp add: find_default_role)
    show ?thesis
      using row taken assms Some
      by (simp add: deleteRole_def manage_roles_gate_def thenE_def bindE_def findE_def catchE_def transaction_def
          delete_role_permissions_of_def delete_role_def lookup)
  qed
qed

lemma role_deletion_takes_assignments_witness:
  "saUserRoles admin_db = [(1, 1), (2, 2), (3, 3)] \<and> fst (deleteRole ''b1'' ''xxx'' admin_db) = Inr () \<and>
   saUserRoles (snd (deleteRole ''b1'' ''xxx'' admin_db)) = [(1, 1), (2, 2)]"
proof -
  have "checkPermission admin_db ''b1'' [''platform.roles.manage''] None = Inr ()"
    "role_by_publicId admin_db ''xxx'' = Some (example_role 3 ''Reader'' 2)"
    "find (\<lambda>a. app_defaultRoleId a = Some (role_id (example_role 3 ''Reader'' 2))) (saApps admin_db) = None"
    "saUserRoles admin_db = [(1, 1), (2, 2), (3, 3)]" "role_id (example_role 3 ''Reader'' 2) = 3"
    by code_simp+
  then show ?thesis
    using role_deletion_takes_assignments[of admin_db "''b1''" "''xxx''" "example_role 3 ''Reader'' 2"] by simp
qed

end
