(* ===== verification/Guarded_Tables.thy ===== *)
theory Guarded_Tables
  imports Single_Use Tables
begin

text \<open>
  The contract of a part of the database that no request of a service may change, however many
  requests follow: the reserved permissions and who holds them, the platform organisation, the
  platform app. \<open>view\<close> is that part; one step that leaves it alone is enough for every history.
\<close>

locale stable_view =
  fixes step :: "'e \<Rightarrow> 's \<Rightarrow> 's"
    and healthy :: "'s \<Rightarrow> bool"
    and view :: "'s \<Rightarrow> 'v"
  assumes step_healthy: "healthy s \<Longrightarrow> healthy (step e s)"
    and step_view: "healthy s \<Longrightarrow> view (step e s) = view s"
begin

lemma run_healthy: "healthy s \<Longrightarrow> healthy (run_events step es s)"
  by (induction es arbitrary: s) (auto intro: step_healthy)

lemma run_view: "healthy s \<Longrightarrow> view (run_events step es s) = view s"
  by (induction es arbitrary: s) (auto simp: step_healthy step_view)

end

section \<open>Rows that are not guarded may go\<close>

lemma filter_replace_unguarded:
  "\<forall>r \<in> set rows. key r = k \<longrightarrow> \<not> G r \<Longrightarrow> \<not> G y \<Longrightarrow> filter G (replace_row key k y rows) = filter G rows"
  by (induction rows) (auto simp: replace_row_def)

lemma filter_remove_unguarded:
  "\<forall>r \<in> set rows. key r = k \<longrightarrow> \<not> G r \<Longrightarrow> filter G (filter (\<lambda>r. key r \<noteq> k) rows) = filter G rows"
  by (induction rows) auto

lemma row_with_key:
  "distinct (map key rows) \<Longrightarrow> x \<in> set rows \<Longrightarrow> key x = k \<Longrightarrow> \<not> G x \<Longrightarrow> \<forall>r \<in> set rows. key r = k \<longrightarrow> \<not> G r"
  by (auto dest: distinct_map_eq)

section \<open>Which writes an effect can have made\<close>

lemma transaction_split: "transaction m d = (r, t) \<Longrightarrow> t = d \<or> (\<exists>a. m d = (Inr a, t))"
  by (auto simp: transaction_def split: prod.splits sum.splits)

lemma gate_first_split: "thenE (liftR f) m d = (r, t) \<Longrightarrow> t = d \<or> (\<exists>x. f d = Inr x \<and> m d = (r, t))"
  by (auto simp: thenE_def bindE_def split: sum.splits)

lemma pure_tail_split:
  "bindE m (\<lambda>a. liftR (f a)) d = (r, t) \<Longrightarrow> \<exists>r'. m d = (r', t)"
  "bindE m (\<lambda>a. bindE (liftR (f a)) (\<lambda>b. ret (g a b))) d = (r, t) \<Longrightarrow> \<exists>r'. m d = (r', t)"
  by (cases "m d"; cases "fst (m d)"; auto simp: bindE_def split: prod.splits sum.splits)+

end
