(* ===== verification/Permissions.thy ===== *)
theory Permissions
  imports Roles Guarded_Tables
begin

text \<open>
  Permission administration, \<open>apps/auth-server/src/permissions/permissions.service.ts\<close>: listing,
  reading, creating, renaming and deleting permissions. The names below \<open>platform.\<close>, in any casing,
  and the system permissions are reserved: they are what the gates look for, and the history
  invariant at the end says no sequence of these operations touches one.
\<close>

section \<open>Views\<close>

record permission_summary =
  ps_publicId :: string
  ps_name :: string
  ps_isSystem :: bool
  ps_app :: app_ref
  ps_roleCount :: nat
  ps_userCount :: nat

record permission_detail =
  pd_summary :: permission_summary
  pd_roles :: "(string \<times> string \<times> string) list"
  pd_users :: "(string \<times> string \<times> string \<times> string) list"

definition perm_role_count :: "db \<Rightarrow> int \<Rightarrow> nat" where
  "perm_role_count d i = length (filter (\<lambda>x. snd x = i) (saRolePermissions d))"

definition perm_user_count :: "db \<Rightarrow> int \<Rightarrow> nat" where
  "perm_user_count d i = length (filter (\<lambda>x. snd x = i) (saUserPermissions d))"

definition permission_summary_of :: "db \<Rightarrow> sa_permission \<Rightarrow> err + permission_summary" where
  "permission_summary_of d p =
     (case app_ref_of d (perm_appId p) of
        Inl e \<Rightarrow> Inl e
      | Inr a \<Rightarrow> Inr \<lparr>ps_publicId = perm_publicId p, ps_name = perm_name p, ps_isSystem = perm_isSystem p,
                     ps_app = a, ps_roleCount = perm_role_count d (perm_id p),
                     ps_userCount = perm_user_count d (perm_id p)\<rparr>)"

text \<open>At most fifty roles by name and fifty users by e-mail address are shown.\<close>

definition roles_with :: "db \<Rightarrow> int \<Rightarrow> sa_role list" where
  "roles_with d i =
     take 50 (sort_key role_name [r. (k, p) \<leftarrow> saRolePermissions d, p = i, r \<leftarrow> saRoles d, role_id r = k])"

definition users_with :: "db \<Rightarrow> int \<Rightarrow> (sa_user \<times> user_row) list" where
  "users_with d i =
     take 50 (sort_key (\<lambda>x. usr_email (snd x))
       [(u, b). (k, p) \<leftarrow> saUserPermissions d, p = i, u \<leftarrow> saUsers d, sau_id u = k,
                b \<leftarrow> users d, usr_id b = sau_betterAuthUserId u])"

definition permission_detail_of :: "db \<Rightarrow> sa_permission \<Rightarrow> err + permission_detail" where
  "permission_detail_of d p =
     (case permission_summary_of d p of
        Inl e \<Rightarrow> Inl e
      | Inr v \<Rightarrow>
          (case all_ok (map (\<lambda>r. case app_ref_of d (role_appId r) of
                                   Inl e \<Rightarrow> Inl e
                                 | Inr a \<Rightarrow> Inr (role_publicId r, role_name r, ar_name a))
                        (roles_with d (perm_id p))) of
             Inl e \<Rightarrow> Inl e
           | Inr rs \<Rightarrow>
               Inr \<lparr>pd_summary = v, pd_roles = rs,
                    pd_users = map (\<lambda>(u, b). (sau_publicId u, usr_email b, sau_firstName u, sau_lastName u))
                                 (users_with d (perm_id p))\<rparr>))"

section \<open>Operations\<close>

definition isPlatform :: "string \<Rightarrow> bool" where
  "isPlatform name = starts_with ''platform.'' (to_lower name)"

definition read_permissions_gate :: "string \<Rightarrow> (db, unit) eff" where
  "read_permissions_gate caller =
     liftR (\<lambda>d. checkPermission d caller [''platform.permissions.manage'', ''platform.users.manage''] None)"

definition manage_permissions_gate :: "string \<Rightarrow> (db, unit) eff" where
  "manage_permissions_gate caller =
     liftR (\<lambda>d. checkPermission d caller [''platform.permissions.manage''] None)"

definition listPermissions :: "string \<Rightarrow> list_query \<Rightarrow> (db, permission_summary listing) eff" where
  "listPermissions caller q =
     thenE (read_permissions_gate caller)
     (bindE (app_filter q) (\<lambda>appFilter.
      liftR (\<lambda>d.
        let rows = filter (\<lambda>p. (appFilter \<noteq> None \<longrightarrow> Some (perm_appId p) = appFilter) \<and>
                               matches_search (q_text q) (perm_name p)) (saPermissions d) in
        case all_ok (map (permission_summary_of d) (page_rows q perm_id rows)) of
          Inl e \<Rightarrow> Inl e
        | Inr xs \<Rightarrow> Inr (listing_of q rows xs))))"

definition getPermission :: "string \<Rightarrow> string \<Rightarrow> (db, permission_detail) eff" where
  "getPermission caller pid =
     thenE (read_permissions_gate caller)
     (bindE (findE (\<lambda>d. perm_by_publicId d pid) (NotFoundE ''Not Found'')) (\<lambda>p.
      liftR (\<lambda>d. permission_detail_of d p)))"

definition reserved_prefix :: err where
  "reserved_prefix = ForbiddenE (''Permissions with the '' @ [CHR 0x60] @ ''platform.'' @ [CHR 0x60] @ '' prefix are reserved'')"

definition createPermission_rows :: "host \<Rightarrow> string \<Rightarrow> string \<Rightarrow> int \<Rightarrow> (db, sa_permission) eff" where
  "createPermission_rows h uuid nm appId =
     bindE (create_permission \<lparr>perm_id = 0, perm_publicId = generatePendingPublicId uuid, perm_name = nm,
                               perm_appId = appId, perm_isSystem = False\<rparr>) (\<lambda>draft.
     update_permission (perm_id draft) (\<lambda>p. p\<lparr>perm_publicId := h_sqid_encode h (perm_id draft)\<rparr>))"

definition createPermission ::
    "host \<Rightarrow> string \<Rightarrow> string \<Rightarrow> string \<Rightarrow> string \<Rightarrow> (db, permission_summary) eff" where
  "createPermission h uuid caller nm appPublicId =
     thenE (manage_permissions_gate caller)
     (if isPlatform nm then raise reserved_prefix
      else
        bindE (findE (\<lambda>d. app_by_publicId d appPublicId) (NotFoundE ''App not found'')) (\<lambda>app.
        bindE (conflict_on_P2002 ''Permission with this name already exists''
                 (transaction (createPermission_rows h uuid nm (app_id app)))) (\<lambda>p.
        bindE (liftR (\<lambda>d. permission_summary_of d p)) (\<lambda>v.
        ret (v\<lparr>ps_roleCount := 0, ps_userCount := 0\<rparr>)))))"

definition protected_permission :: "sa_permission \<Rightarrow> bool" where
  "protected_permission p \<longleftrightarrow> isPlatform (perm_name p) \<or> perm_isSystem p"

definition updatePermission :: "string \<Rightarrow> string \<Rightarrow> string option \<Rightarrow> (db, permission_summary) eff" where
  "updatePermission caller pid nm =
     thenE (manage_permissions_gate caller)
     (case nm of
        None \<Rightarrow> raise (BadRequestE ''At least one of name must be provided'')
      | Some n \<Rightarrow>
          bindE (findE (\<lambda>d. perm_by_publicId d pid) (NotFoundE ''Not Found'')) (\<lambda>existing.
            if protected_permission existing then
              raise (ForbiddenE ''Platform-system permissions cannot be modified'')
            else if isPlatform n then raise reserved_prefix
            else
              bindE (conflict_on_P2002 ''Permission with this name already exists''
                       (update_permission (perm_id existing) (\<lambda>p. p\<lparr>perm_name := n\<rparr>))) (\<lambda>p.
              liftR (\<lambda>d. permission_summary_of d p))))"

definition deletePermission :: "string \<Rightarrow> string \<Rightarrow> (db, unit) eff" where
  "deletePermission caller pid =
     thenE (manage_permissions_gate caller)
     (bindE (findE (\<lambda>d. perm_by_publicId d pid) (NotFoundE ''Not Found'')) (\<lambda>existing.
        if protected_permission existing then
          raise (ForbiddenE ''Platform-system permissions cannot be modified'')
        else
          catchE (delete_permission (perm_id existing))
            (\<lambda>e. if e = P2003 then
                    liftR (\<lambda>d. Inl (ConflictE (''Permission is in use by '' @
                      number_text (perm_role_count d (perm_id existing)) @ '' roles and '' @
                      number_text (perm_user_count d (perm_id existing)) @ '' users'')))
                  else raise e)))"

section \<open>Histories\<close>

datatype permission_op =
    CreatePermission string string string string
  | UpdatePermission string string "string option"
  | DeletePermission string string

fun run_permission_op :: "host \<Rightarrow> permission_op \<Rightarrow> (db, unit) eff" where
  "run_permission_op h (CreatePermission uuid c nm app) = discard (createPermission h uuid c nm app)"
| "run_permission_op h (UpdatePermission c pid nm) = discard (updatePermission c pid nm)"
| "run_permission_op h (DeletePermission c pid) = deletePermission c pid"

definition permission_step :: "host \<Rightarrow> permission_op \<Rightarrow> db \<Rightarrow> db" where
  "permission_step h op d = snd (run_permission_op h op d)"

lemma keeps_permission_writes [keeps_intros]:
  "keeps db_ok (update_permission i (\<lambda>p. p\<lparr>perm_publicId := q\<rparr>))"
  "keeps db_ok (update_permission i (\<lambda>p. p\<lparr>perm_name := q\<rparr>))"
  "keeps I (read_permissions_gate c)" "keeps I (manage_permissions_gate c)"
  by (auto simp: read_permissions_gate_def manage_permissions_gate_def intro: keeps_update_permission keeps_intros)

lemma keeps_run_permission_op: "keeps db_ok (run_permission_op h op)"
  by (cases op)
    (auto simp: createPermission_def createPermission_rows_def updatePermission_def deletePermission_def
      simp del: ret_apply intro!: keeps_intros)

abbreviation reserved_permissions :: "db \<Rightarrow> sa_permission list" where
  "reserved_permissions d \<equiv> filter protected_permission (saPermissions d)"

text \<open>The reserved permissions and everything that decides who holds one.\<close>

definition reserved_part ::
    "db \<Rightarrow> sa_permission list \<times> (int \<times> int) list \<times> (int \<times> int) list \<times> sa_role list \<times> (int \<times> int) list" where
  "reserved_part d =
     (let ids = perm_id ` set (reserved_permissions d) in
      (reserved_permissions d, filter (\<lambda>x. snd x \<in> ids) (saRolePermissions d),
       filter (\<lambda>x. snd x \<in> ids) (saUserPermissions d), saRoles d, saUserRoles d))"

lemma conflict_split: "conflict_on_P2002 msg m d = (r, t) \<Longrightarrow> \<exists>r'. m d = (r', t)"
  by (auto simp: conflict_on_P2002_def catchE_def split: prod.splits sum.splits if_splits)

lemma update_unreserved:
  assumes "keys_ok d" "perm_by_id d i = Some p" "\<not> protected_permission p" "\<not> protected_permission (g p)"
  shows "reserved_permissions (snd (update_permission i g d)) = reserved_permissions d"
proof -
  have "\<forall>r \<in> set (saPermissions d). perm_id r = i \<longrightarrow> \<not> protected_permission r"
    using assms(1-3) lookup_sound(12)[OF assms(2)] unfolding keys_ok_def
    by (intro row_with_key[of perm_id _ p]) auto
  then show ?thesis
    using assms(2,4) by (simp add: update_permission_def Let_def filter_replace_unguarded)
qed

lemma create_unreserved:
  assumes "db_ok d" "\<not> isPlatform nm" "createPermission_rows h uuid nm a d = (Inr p, t)"
  shows "reserved_permissions t = reserved_permissions d"
proof -
  let ?row = "\<lparr>perm_id = 0, perm_publicId = generatePendingPublicId uuid, perm_name = nm, perm_appId = a,
      perm_isSystem = False\<rparr>"
  obtain draft s where c: "create_permission ?row d = (Inr draft, s)"
    and u: "update_permission (perm_id draft) (\<lambda>p. p\<lparr>perm_publicId := h_sqid_encode h (perm_id draft)\<rparr>) s = (Inr p, t)"
    using assms(3) unfolding createPermission_rows_def bindE_ok by blast
  have s: "saPermissions s = saPermissions d @ [draft]" and plain: "\<not> protected_permission draft"
    using c assms(2) by (auto simp: create_permission_def Let_def protected_permission_def split: if_splits)
  have ok: "db_ok s" using keepsD[OF keeps_create_permission assms(1) c] .
  have "perm_by_id s (perm_id draft) = Some draft"
    using find_unique[of perm_id "saPermissions s" draft] db_ok_parts(1)[OF ok] s
    by (simp add: perm_by_id_def keys_ok_def)
  from update_unreserved[OF db_ok_parts(1)[OF ok] this plain, of "\<lambda>p. p\<lparr>perm_publicId := h_sqid_encode h (perm_id draft)\<rparr>"] u plain
  show ?thesis by (simp add: s protected_permission_def)
qed


lemma reserved_partI:
  "reserved_permissions t = reserved_permissions d \<Longrightarrow> saRolePermissions t = saRolePermissions d \<Longrightarrow>
     saUserPermissions t = saUserPermissions d \<Longrightarrow> saRoles t = saRoles d \<Longrightarrow> saUserRoles t = saUserRoles d \<Longrightarrow>
     reserved_part t = reserved_part d"
  by (simp add: reserved_part_def)

lemma permission_write_tables:
  "snd (update_permission i g d) = t \<Longrightarrow>
     saRolePermissions t = saRolePermissions d \<and> saUserPermissions t = saUserPermissions d \<and>
     saRoles t = saRoles d \<and> saUserRoles t = saUserRoles d"
  "snd (create_permission p d) = t \<Longrightarrow>
     saRolePermissions t = saRolePermissions d \<and> saUserPermissions t = saUserPermissions d \<and>
     saRoles t = saRoles d \<and> saUserRoles t = saUserRoles d"
  by (auto simp: update_permission_def create_permission_def Let_def split: option.splits)

lemma createPermission_view:
  assumes "db_ok d" "createPermission h uuid c nm app d = (r, t)"
  shows "reserved_part t = reserved_part d"
proof (cases "t = d")
  case False
  then obtain a :: sa_app where plain: "\<not> isPlatform nm"
    and "bindE (conflict_on_P2002 ''Permission with this name already exists''
           (transaction (createPermission_rows h uuid nm (app_id a))))
         (\<lambda>p. bindE (liftR (\<lambda>d. permission_summary_of d p))
            (\<lambda>v. ret (v\<lparr>ps_roleCount := 0, ps_userCount := 0\<rparr>))) d = (r, t)"
    using assms(2) unfolding createPermission_def manage_permissions_gate_def
    by (auto dest!: gate_first_split findE_split split: if_splits)
  from pure_tail_split(2)[OF this(2)] False
  obtain p where rows: "createPermission_rows h uuid nm (app_id a) d = (Inr p, t)"
    by (auto dest!: conflict_split transaction_split)
  then have "saRolePermissions t = saRolePermissions d \<and> saUserPermissions t = saUserPermissions d \<and>
      saRoles t = saRoles d \<and> saUserRoles t = saUserRoles d"
    unfolding createPermission_rows_def bindE_ok by (metis permission_write_tables snd_conv)
  with create_unreserved[OF assms(1) plain rows] show ?thesis by (intro reserved_partI) simp_all
qed simp

lemma updatePermission_view:
  assumes "db_ok d" "updatePermission c pid nm d = (r, t)"
  shows "reserved_part t = reserved_part d"
proof (cases "t = d")
  case False
  then obtain n p where p: "perm_by_publicId d pid = Some p" "\<not> protected_permission p" "\<not> isPlatform n"
    and "bindE (conflict_on_P2002 ''Permission with this name already exists''
           (update_permission (perm_id p) (\<lambda>p. p\<lparr>perm_name := n\<rparr>)))
         (\<lambda>p. liftR (\<lambda>d. permission_summary_of d p)) d = (r, t)"
    using assms(2) unfolding updatePermission_def manage_permissions_gate_def
    by (auto dest!: gate_first_split findE_split split: if_splits option.splits)
  from pure_tail_split(1)[OF this(4)]
  have t: "snd (update_permission (perm_id p) (\<lambda>p. p\<lparr>perm_name := n\<rparr>) d) = t"
    by (auto dest!: conflict_split)
  have row: "perm_by_id d (perm_id p) = Some p"
    using lookup_complete(9)[OF db_ok_parts(1)[OF assms(1)]] lookup_sound(13)[OF p(1)] by blast
  have "reserved_permissions t = reserved_permissions d"
    unfolding t[symmetric] using db_ok_parts(1)[OF assms(1)] row p(2,3)
    by (intro update_unreserved) (auto simp: protected_permission_def)
  with permission_write_tables(1)[OF t] show ?thesis by (intro reserved_partI) simp_all
qed simp

lemma deletePermission_view:
  assumes "db_ok d" "deletePermission c pid d = (r, t)"
  shows "reserved_part t = reserved_part d"
proof (cases "t = d")
  case False
  then obtain p where p: "perm_by_publicId d pid = Some p" "\<not> protected_permission p"
    and t: "t = d\<lparr>saPermissions := filter (\<lambda>q. perm_id q \<noteq> perm_id p) (saPermissions d),
                 saRolePermissions := filter (\<lambda>x. snd x \<noteq> perm_id p) (saRolePermissions d),
                 saUserPermissions := filter (\<lambda>x. snd x \<noteq> perm_id p) (saUserPermissions d)\<rparr>"
    using assms(2) unfolding deletePermission_def manage_permissions_gate_def
    by (auto dest!: gate_first_split findE_split split: if_splits simp: catchE_def delete_permission_def)
  have only: "\<forall>q \<in> set (saPermissions d). perm_id q = perm_id p \<longrightarrow> \<not> protected_permission q"
    using db_ok_parts(1)[OF assms(1)] p(2) lookup_sound(13)[OF p(1)] unfolding keys_ok_def
    by (intro row_with_key[of perm_id _ p]) auto
  then have same: "reserved_permissions t = reserved_permissions d"
    unfolding t by (simp add: filter_remove_unguarded del: filter_filter)
  have "perm_id p \<notin> perm_id ` set (reserved_permissions d)" using only by auto
  then have "filter (\<lambda>x. snd x \<in> perm_id ` set (reserved_permissions d)) (filter (\<lambda>x. snd x \<noteq> perm_id p) xs) =
      filter (\<lambda>x. snd x \<in> perm_id ` set (reserved_permissions d)) xs" for xs :: "(int \<times> int) list"
    by (induction xs) auto
  then show ?thesis unfolding reserved_part_def same by (simp add: t Let_def del: filter_filter)
qed simp

interpretation reserved_view: stable_view "permission_step h" db_ok reserved_part for h
proof (unfold_locales, goal_cases)
  case (1 s e)
  then show ?case using keeps_run_permission_op unfolding permission_step_def keeps_def by blast
next
  case (2 s e)
  then show ?case
    by (cases e; cases "run_permission_op h e s")
      (auto simp: permission_step_def dest!: discard_state
        intro: createPermission_view updatePermission_view deletePermission_view)
qed

lemma holds_reserved:
  assumes "isPlatform n" "reserved_part t = reserved_part d"
  shows "holds t u n = holds d u n"
proof -
  let ?rs = "\<lambda>d. perm_id ` set (reserved_permissions d)"
  have shape: "holds e u n \<longleftrightarrow> (\<exists>p \<in> set (reserved_permissions e). perm_name p = n \<and>
      ((sau_id u, perm_id p) \<in> set (filter (\<lambda>x. snd x \<in> ?rs e) (saUserPermissions e)) \<or>
       (\<exists>r \<in> set (saRoles e). (sau_id u, role_id r) \<in> set (saUserRoles e) \<and>
          (role_id r, perm_id p) \<in> set (filter (\<lambda>x. snd x \<in> ?rs e) (saRolePermissions e)))))" for e
    using assms(1) unfolding holds_def by (auto simp: protected_permission_def)
  show ?thesis using assms(2) unfolding shape reserved_part_def Let_def prod.inject by metis
qed

text \<open>C21 No sequence of permission operations, by whomever, creates, renames or deletes a reserved
  permission, and none gives a \<open>platform.\<close> permission to anybody or takes it away.\<close>

theorem reserved_permissions_untouchable:
  assumes "db_ok d"
  shows "reserved_permissions (run_events (permission_step h) ops d) = reserved_permissions d \<and>
     (isPlatform n \<longrightarrow> holds (run_events (permission_step h) ops d) u n = holds d u n)"
proof -
  have same: "reserved_part (run_events (permission_step h) ops d) = reserved_part d"
    using reserved_view.run_view[OF assms] .
  then have "reserved_permissions (run_events (permission_step h) ops d) = reserved_permissions d"
    unfolding reserved_part_def Let_def prod.inject by (rule conjunct1)
  with holds_reserved[OF _ same] show ?thesis by blast
qed

lemma reserved_permissions_untouchable_witness:
  "let d = run_events (permission_step example_host)
       [CreatePermission ''u'' ''b1'' ''Platform.Super'' ''xx'', CreatePermission ''u'' ''b1'' ''doc.edit'' ''xx'',
        UpdatePermission ''b1'' ''xxx'' (Some ''doc.view''), DeletePermission ''b1'' ''x''] admin_db in
   holds d (example_sa_user 1 ''b1'' 1) ''platform.users.manage'' \<and>
   map perm_name (filter (\<lambda>p. \<not> protected_permission p) (saPermissions d)) = [''doc.view'', ''doc.edit'']"
proof -
  have "isPlatform ''platform.users.manage''" "holds admin_db (example_sa_user 1 ''b1'' 1) ''platform.users.manage''"
    by code_simp+
  with reserved_permissions_untouchable[OF admin_db_ok, of example_host
      "[CreatePermission ''u'' ''b1'' ''Platform.Super'' ''xx'', CreatePermission ''u'' ''b1'' ''doc.edit'' ''xx'',
        UpdatePermission ''b1'' ''xxx'' (Some ''doc.view''), DeletePermission ''b1'' ''x'']"
      "''platform.users.manage''" "example_sa_user 1 ''b1'' 1"]
  have "holds (run_events (permission_step example_host)
       [CreatePermission ''u'' ''b1'' ''Platform.Super'' ''xx'', CreatePermission ''u'' ''b1'' ''doc.edit'' ''xx'',
        UpdatePermission ''b1'' ''xxx'' (Some ''doc.view''), DeletePermission ''b1'' ''x''] admin_db)
      (example_sa_user 1 ''b1'' 1) ''platform.users.manage''" by blast
  then show ?thesis unfolding Let_def by (rule conjI) code_simp
qed

end
