(* ===== verification/Orgs.thy ===== *)
theory Orgs
  imports Permissions
begin

text \<open>
  Organisation administration, \<open>apps/auth-server/src/orgs/orgs.service.ts\<close>: listing within the scope
  of the caller, reading, creating, renaming and deleting organisations. The platform organisation
  is untouchable, and an organisation administrator sees the own organisation only.
\<close>

section \<open>Operations\<close>

record org_view =
  ov_publicId :: string
  ov_name :: string
  ov_isPlatform :: bool
  ov_userCount :: nat
  ov_app :: app_ref

definition formatOrg :: "db \<Rightarrow> sa_org \<Rightarrow> err + org_view" where
  "formatOrg d g =
     (case app_ref_of d (org_appId g) of
        Inl e \<Rightarrow> Inl e
      | Inr a \<Rightarrow> Inr \<lparr>ov_publicId = org_publicId g, ov_name = org_name g, ov_isPlatform = org_isPlatform g,
                     ov_userCount = length (filter (\<lambda>u. sau_orgId u = org_id g) (saUsers d)), ov_app = a\<rparr>)"

definition read_orgs :: "string list" where
  "read_orgs = [''platform.orgs.manage'', ''platform.users.manage'', ''org.users.manage'']"

fun in_scope :: "list_scope \<Rightarrow> sa_org \<Rightarrow> bool" where
  "in_scope PlatformScope g = True"
| "in_scope (OrgScope i) g = (org_id g = i)"

definition listOrgs :: "string \<Rightarrow> list_query \<Rightarrow> (db, org_view listing) eff" where
  "listOrgs caller q =
     bindE (liftR (\<lambda>d. resolveListScope d caller read_orgs)) (\<lambda>scope.
     bindE (app_filter q) (\<lambda>appFilter.
     liftR (\<lambda>d.
       let rows = filter (\<lambda>g. in_scope scope g \<and> (appFilter \<noteq> None \<longrightarrow> Some (org_appId g) = appFilter) \<and>
                              matches_search (q_text q) (org_name g)) (saOrgs d) in
       case all_ok (map (formatOrg d) (page_rows q org_id rows)) of
         Inl e \<Rightarrow> Inl e
       | Inr xs \<Rightarrow> Inr (listing_of q rows xs))))"

definition getOrg :: "string \<Rightarrow> string \<Rightarrow> (db, org_view) eff" where
  "getOrg caller pid =
     bindE (findE (\<lambda>d. org_by_publicId d pid) (NotFoundE ''Not Found'')) (\<lambda>g.
     thenE (liftR (\<lambda>d. checkPermission d caller read_orgs (Some (org_id g)))) (liftR (\<lambda>d. formatOrg d g)))"

definition manage_orgs_gate :: "string \<Rightarrow> (db, unit) eff" where
  "manage_orgs_gate caller = liftR (\<lambda>d. checkPermission d caller [''platform.orgs.manage''] None)"

definition org_name_taken :: string where
  "org_name_taken = ''Org with this name already exists in this app''"

definition platform_org_fixed :: err where
  "platform_org_fixed = ForbiddenE ''Platform org cannot be modified''"

definition createOrg_rows :: "host \<Rightarrow> string \<Rightarrow> string \<Rightarrow> int \<Rightarrow> (db, sa_org) eff" where
  "createOrg_rows h uuid nm appId =
     bindE (create_org \<lparr>org_id = 0, org_publicId = generatePendingPublicId uuid, org_name = nm,
                        org_appId = appId, org_isPlatform = False\<rparr>) (\<lambda>draft.
     update_org (org_id draft) (\<lambda>g. g\<lparr>org_publicId := h_sqid_encode h (org_id draft)\<rparr>))"

definition createOrg :: "host \<Rightarrow> string \<Rightarrow> string \<Rightarrow> string \<Rightarrow> string \<Rightarrow> (db, org_view) eff" where
  "createOrg h uuid caller nm appPublicId =
     thenE (manage_orgs_gate caller)
     (bindE (findE (\<lambda>d. app_by_publicId d appPublicId) (NotFoundE ''App not found'')) (\<lambda>app.
        if app_isPlatform app then raise (ForbiddenE ''Cannot create orgs under a platform app'')
        else
          bindE (conflict_on_P2002 org_name_taken
                   (transaction (createOrg_rows h uuid nm (app_id app)))) (\<lambda>g.
          liftR (\<lambda>d. formatOrg d g))))"

definition updateOrg :: "string \<Rightarrow> string \<Rightarrow> string option \<Rightarrow> (db, org_view) eff" where
  "updateOrg caller pid nm =
     (case nm of
        None \<Rightarrow> raise (BadRequestE ''At least one of name must be provided'')
      | Some n \<Rightarrow>
          thenE (manage_orgs_gate caller)
          (bindE (findE (\<lambda>d. org_by_publicId d pid) (NotFoundE ''Not Found'')) (\<lambda>existing.
             if org_isPlatform existing then raise platform_org_fixed
             else
               bindE (conflict_on_P2002 org_name_taken
                        (update_org (org_id existing) (\<lambda>g. g\<lparr>org_name := n\<rparr>))) (\<lambda>g.
               liftR (\<lambda>d. formatOrg d g)))))"

definition deleteOrg :: "string \<Rightarrow> string \<Rightarrow> (db, unit) eff" where
  "deleteOrg caller pid =
     thenE (manage_orgs_gate caller)
     (bindE (findE (\<lambda>d. org_by_publicId d pid) (NotFoundE ''Not Found'')) (\<lambda>existing.
        if org_isPlatform existing then raise platform_org_fixed
        else
          catchE (delete_org (org_id existing))
            (\<lambda>e. if e = P2003 then
                    liftR (\<lambda>d. case find (\<lambda>a. app_defaultOrgId a = Some (org_id existing)) (saApps d) of
                      Some a \<Rightarrow> Inl (ConflictE (''Org is the default org for app \"'' @ app_name a @ ''\"''))
                    | None \<Rightarrow> Inl (ConflictE ''Org has dependent users''))
                  else raise e)))"

section \<open>Histories\<close>

datatype org_op =
    CreateOrg string string string string
  | UpdateOrg string string "string option"
  | DeleteOrg string string

fun run_org_op :: "host \<Rightarrow> org_op \<Rightarrow> (db, unit) eff" where
  "run_org_op h (CreateOrg uuid c nm app) = discard (createOrg h uuid c nm app)"
| "run_org_op h (UpdateOrg c pid nm) = discard (updateOrg c pid nm)"
| "run_org_op h (DeleteOrg c pid) = deleteOrg c pid"

definition org_step :: "host \<Rightarrow> org_op \<Rightarrow> db \<Rightarrow> db" where
  "org_step h op d = snd (run_org_op h op d)"

lemma keeps_org_writes [keeps_intros]:
  "keeps db_ok (update_org i (\<lambda>p. p\<lparr>org_publicId := q\<rparr>))"
  "keeps db_ok (update_org i (\<lambda>p. p\<lparr>org_name := q\<rparr>))"
  "keeps I (manage_orgs_gate c)"
  by (auto simp: manage_orgs_gate_def intro: keeps_update_org keeps_intros)

lemma keeps_run_org_op: "keeps db_ok (run_org_op h op)"
  by (cases op)
    (auto simp: createOrg_def createOrg_rows_def updateOrg_def deleteOrg_def
      simp del: ret_apply intro!: keeps_intros)

abbreviation platform_orgs :: "db \<Rightarrow> sa_org list" where
  "platform_orgs d \<equiv> filter org_isPlatform (saOrgs d)"

text \<open>The platform organisation, and which users belong to which organisation.\<close>

definition tenancy :: "db \<Rightarrow> sa_org list \<times> sa_user list" where
  "tenancy d = (platform_orgs d, saUsers d)"

lemma update_tenant_org:
  assumes "keys_ok d" "org_by_id d i = Some p" "\<not> org_isPlatform p" "\<not> org_isPlatform (g p)"
  shows "tenancy (snd (update_org i g d)) = tenancy d"
proof -
  have "\<forall>r \<in> set (saOrgs d). org_id r = i \<longrightarrow> \<not> org_isPlatform r"
    using assms(1-3) lookup_sound(5)[OF assms(2)] unfolding keys_ok_def
    by (intro row_with_key[of org_id _ p]) auto
  then show ?thesis
    using assms(2,4) by (simp add: tenancy_def update_org_def Let_def filter_replace_unguarded)
qed

lemma create_tenant_org:
  assumes "db_ok d" "createOrg_rows h uuid nm a d = (Inr p, t)"
  shows "tenancy t = tenancy d"
proof -
  let ?row = "\<lparr>org_id = 0, org_publicId = generatePendingPublicId uuid, org_name = nm, org_appId = a,
      org_isPlatform = False\<rparr>"
  obtain draft s where c: "create_org ?row d = (Inr draft, s)"
    and u: "update_org (org_id draft) (\<lambda>p. p\<lparr>org_publicId := h_sqid_encode h (org_id draft)\<rparr>) s = (Inr p, t)"
    using assms(2) unfolding createOrg_rows_def bindE_ok by blast
  have s: "saOrgs s = saOrgs d @ [draft]" "saUsers s = saUsers d" and plain: "\<not> org_isPlatform draft"
    using c by (auto simp: create_org_def Let_def split: if_splits)
  have ok: "db_ok s" using keepsD[OF keeps_create_org assms(1) c] .
  have "org_by_id s (org_id draft) = Some draft"
    using lookup_complete(4)[OF db_ok_parts(1)[OF ok]] s(1) by simp
  from update_tenant_org[OF db_ok_parts(1)[OF ok] this plain, of "\<lambda>p. p\<lparr>org_publicId := h_sqid_encode h (org_id draft)\<rparr>"] u plain
  show ?thesis by (simp add: s tenancy_def)
qed

lemma createOrg_view:
  assumes "db_ok d" "createOrg h uuid c nm app d = (r, t)"
  shows "tenancy t = tenancy d"
proof (cases "t = d")
  case False
  then obtain a :: sa_app where
    "bindE (conflict_on_P2002 org_name_taken (transaction (createOrg_rows h uuid nm (app_id a))))
       (\<lambda>g. liftR (\<lambda>d. formatOrg d g)) d = (r, t)"
    using assms(2) unfolding createOrg_def manage_orgs_gate_def
    by (auto dest!: gate_first_split findE_split split: if_splits)
  from pure_tail_split(1)[OF this] False
  obtain p where "createOrg_rows h uuid nm (app_id a) d = (Inr p, t)"
    by (auto dest!: conflict_split transaction_split)
  with assms(1) show ?thesis by (rule create_tenant_org)
qed simp

lemma updateOrg_view:
  assumes "db_ok d" "updateOrg c pid nm d = (r, t)"
  shows "tenancy t = tenancy d"
proof (cases "t = d")
  case False
  then obtain n p where p: "org_by_publicId d pid = Some p" "\<not> org_isPlatform p"
    and "bindE (conflict_on_P2002 org_name_taken (update_org (org_id p) (\<lambda>g. g\<lparr>org_name := n\<rparr>)))
         (\<lambda>g. liftR (\<lambda>d. formatOrg d g)) d = (r, t)"
    using assms(2) unfolding updateOrg_def manage_orgs_gate_def
    by (auto dest!: gate_first_split findE_split split: if_splits option.splits)
  from pure_tail_split(1)[OF this(3)]
  have t: "snd (update_org (org_id p) (\<lambda>g. g\<lparr>org_name := n\<rparr>) d) = t"
    by (auto dest!: conflict_split)
  have "org_by_id d (org_id p) = Some p"
    using lookup_complete(4)[OF db_ok_parts(1)[OF assms(1)]] lookup_sound(6)[OF p(1)] by blast
  then show ?thesis
    unfolding t[symmetric] using db_ok_parts(1)[OF assms(1)] p(2) by (intro update_tenant_org) auto
qed simp

lemma deleteOrg_view:
  assumes "db_ok d" "deleteOrg c pid d = (r, t)"
  shows "tenancy t = tenancy d"
proof (cases "t = d")
  case False
  then obtain p where p: "org_by_publicId d pid = Some p" "\<not> org_isPlatform p"
    and t: "t = d\<lparr>saOrgs := filter (\<lambda>q. org_id q \<noteq> org_id p) (saOrgs d)\<rparr>"
    using assms(2) unfolding deleteOrg_def manage_orgs_gate_def
    by (auto dest!: gate_first_split findE_split split: if_splits simp: catchE_def delete_org_def)
  have "\<forall>q \<in> set (saOrgs d). org_id q = org_id p \<longrightarrow> \<not> org_isPlatform q"
    using db_ok_parts(1)[OF assms(1)] p(2) lookup_sound(6)[OF p(1)] unfolding keys_ok_def
    by (intro row_with_key[of org_id _ p]) auto
  then show ?thesis unfolding t by (simp add: tenancy_def filter_remove_unguarded del: filter_filter)
qed simp

interpretation tenant_view: stable_view "org_step h" db_ok tenancy for h
proof (unfold_locales, goal_cases)
  case (1 s e)
  then show ?case using keeps_run_org_op unfolding org_step_def keeps_def by blast
next
  case (2 s e)
  then show ?case
    by (cases e; cases "run_org_op h e s")
      (auto simp: org_step_def dest!: discard_state intro: createOrg_view updateOrg_view deleteOrg_view)
qed

text \<open>No sequence of organisation requests changes or deletes the platform organisation or adds a
  second one, and none leaves a user without an organisation: the users keep theirs, and the
  database stays consistent.\<close>

theorem platform_org_untouchable:
  assumes "db_ok d"
  shows "platform_orgs (run_events (org_step h) ops d) = platform_orgs d \<and>
     saUsers (run_events (org_step h) ops d) = saUsers d \<and>
     (\<forall>u \<in> set (saUsers d). org_by_id (run_events (org_step h) ops d) (sau_orgId u) \<noteq> None)"
proof -
  have same: "platform_orgs (run_events (org_step h) ops d) = platform_orgs d"
    "saUsers (run_events (org_step h) ops d) = saUsers d"
    using tenant_view.run_view[OF assms, of h ops] by (simp_all add: tenancy_def)
  have "db_ok (run_events (org_step h) ops d)" by (rule tenant_view.run_healthy[OF assms])
  then have "fks_ok (run_events (org_step h) ops d)" by (rule db_ok_parts)
  then have "\<forall>u \<in> set (saUsers d). sau_orgId u \<in> org_id ` set (saOrgs (run_events (org_step h) ops d))"
    unfolding same(2)[symmetric] by (auto simp: fks_ok_def)
  with same show ?thesis by (simp add: absent_lookup)
qed

lemma platform_org_untouchable_witness:
  "platform_orgs (run_events (org_step example_host)
      [CreateOrg ''u'' ''b1'' ''Branch'' ''xx'', DeleteOrg ''b1'' ''x'', DeleteOrg ''b1'' ''xx'',
       UpdateOrg ''b2'' ''xx'' (Some ''Mine'')] admin_db) = platform_orgs admin_db \<and>
   fst (deleteOrg ''b1'' ''xx'' admin_db) = Inl (ConflictE ''Org has dependent users'') \<and>
   length (saOrgs (org_step example_host (CreateOrg ''u'' ''b1'' ''Branch'' ''xx'') admin_db)) = 3"
  using platform_org_untouchable[OF admin_db_ok, of example_host
      "[CreateOrg ''u'' ''b1'' ''Branch'' ''xx'', DeleteOrg ''b1'' ''x'', DeleteOrg ''b1'' ''xx'',
       UpdateOrg ''b2'' ''xx'' (Some ''Mine'')]"]
  by (intro conjI, blast) code_simp+

lemma listOrgs_ok:
  assumes "listOrgs c q d = (Inr v, t)"
  obtains scope where "resolveListScope d c read_orgs = Inr scope" "t = d"
    "\<forall>x \<in> set (ls_items v). \<exists>g \<in> set (saOrgs d). in_scope scope g \<and> formatOrg d g = Inr x"
proof -
  from assms obtain scope s f where scope: "resolveListScope d c read_orgs = Inr scope" "s = d"
    and rest: "(let rows = filter (\<lambda>g. in_scope scope g \<and> (f \<noteq> None \<longrightarrow> Some (org_appId g) = f) \<and>
                              matches_search (q_text q) (org_name g)) (saOrgs d) in
       case all_ok (map (formatOrg d) (page_rows q org_id rows)) of
         Inl e \<Rightarrow> Inl e
       | Inr xs \<Rightarrow> Inr (listing_of q rows xs)) = Inr v" and t: "t = d"
    unfolding listOrgs_def bindE_ok by (auto dest!: app_filter_state)
  from rest obtain xs where xs: "all_ok (map (formatOrg d) (page_rows q org_id (filter (\<lambda>g. in_scope scope g \<and>
      (f \<noteq> None \<longrightarrow> Some (org_appId g) = f) \<and> matches_search (q_text q) (org_name g)) (saOrgs d)))) = Inr xs"
    and v: "ls_items v = xs"
    by (auto simp: Let_def listing_of_def split: sum.splits)
  have "\<exists>g \<in> set (saOrgs d). in_scope scope g \<and> formatOrg d g = Inr x" if "x \<in> set xs" for x
    using all_ok_member[OF xs that] page_rows_subset by fastforce
  with scope t v show ?thesis by (intro that) auto
qed

text \<open>The list of organisations shows a caller without a platform permission the own organisation at
  most, and reading one organisation admits exactly the callers the list admits to it.\<close>

theorem org_reads_stay_in_scope:
  assumes "sau_by_betterAuthUserId d c = Some u" "\<not> holds d u ''platform.orgs.manage''"
    and "\<not> holds d u ''platform.users.manage''" "listOrgs c q d = (Inr v, t)"
  shows "t = d \<and> holds d u ''org.users.manage'' \<and>
     (\<forall>x \<in> set (ls_items v). \<exists>g \<in> set (saOrgs d). org_id g = sau_orgId u \<and> formatOrg d g = Inr x) \<and>
     (\<forall>pid g x s. org_by_publicId d pid = Some g \<and> getOrg c pid d = (Inr x, s) \<longrightarrow> org_id g = sau_orgId u)"
proof -
  have platform: "is_platform_perm ''platform.orgs.manage''" "is_platform_perm ''platform.users.manage''"
    "\<not> is_platform_perm ''org.users.manage''"
    by code_simp+
  from assms(4) obtain scope where scope: "resolveListScope d c read_orgs = Inr scope" and t: "t = d"
    and items: "\<forall>x \<in> set (ls_items v). \<exists>g \<in> set (saOrgs d). in_scope scope g \<and> formatOrg d g = Inr x"
    by (rule listOrgs_ok)
  have "scope = OrgScope (sau_orgId u) \<and> holds d u ''org.users.manage''"
  proof (cases scope)
    case PlatformScope
    then show ?thesis using scope assms(1-3) platform
      by (auto simp: resolveListScope_platform read_orgs_def)
  next
    case (OrgScope i)
    then show ?thesis using scope assms(1-3)
      by (auto simp: resolveListScope_org read_orgs_def)
  qed
  moreover have "org_id g = sau_orgId u"
    if "org_by_publicId d pid = Some g" "getOrg c pid d = (Inr x, s)" for pid g x s
  proof -
    have "checkPermission d c read_orgs (Some (org_id g)) = Inr ()"
      using that by (auto simp: getOrg_def eff_simps)
    then show ?thesis using assms(1-3) platform by (auto simp: checkPermission_ok read_orgs_def)
  qed
  ultimately show ?thesis using t items by fastforce
qed

lemma org_reads_stay_in_scope_witness:
  "case listOrgs ''b2'' \<lparr>q_page = None, q_pageSize = None, q_text = None, q_appId = None\<rparr> admin_db of
     (Inr v, t) \<Rightarrow> t = admin_db \<and> map ov_publicId (ls_items v) = [''xx''] |
     _ \<Rightarrow> False"
proof -
  let ?q = "\<lparr>q_page = None, q_pageSize = None, q_text = None, q_appId = None\<rparr>"
  let ?v = "\<lparr>ls_items = [\<lparr>ov_publicId = ''xx'', ov_name = ''C'', ov_isPlatform = False, ov_userCount = 2,
      ov_app = \<lparr>ar_publicId = ''xx'', ar_name = ''Customer''\<rparr>\<rparr>], ls_total = 1, ls_page = 1, ls_pageSize = 25\<rparr>"
  have run: "fst (listOrgs ''b2'' ?q admin_db) = Inr ?v" by code_simp
  then obtain t where t: "listOrgs ''b2'' ?q admin_db = (Inr ?v, t)" by (metis prod.collapse)
  have u: "sau_by_betterAuthUserId admin_db ''b2'' = Some (example_sa_user 2 ''b2'' 2)"
    "\<not> holds admin_db (example_sa_user 2 ''b2'' 2) ''platform.orgs.manage''"
    "\<not> holds admin_db (example_sa_user 2 ''b2'' 2) ''platform.users.manage''"
    by code_simp+
  from org_reads_stay_in_scope[OF u t] t show ?thesis by simp
qed

end
