(* ===== verification/Apps.thy ===== *)
theory Apps
  imports Orgs Passwords
begin

text \<open>
  App administration, \<open>apps/auth-server/src/apps/apps.service.ts\<close>: the view sent to the console,
  the validation of redirect URIs, e-mail branding and default organisation and role, listing,
  reading, creating, changing and deleting apps, and the rotation of the two secrets. A field of an
  update is absent, null or a value; \<open>null\<close> is a value only of a nullable column.
\<close>

section \<open>Validation\<close>

fun assertValidRedirectUris :: "host \<Rightarrow> (string \<times> string) list \<Rightarrow> (string \<times> string) list \<Rightarrow> err + unit" where
  "assertValidRedirectUris h seen [] = Inr ()"
| "assertValidRedirectUris h seen ((uri, kind) # rs) =
     (case h_parse_url h uri of
        None \<Rightarrow> Inl (BadRequestE (''Invalid redirect URI: '' @ uri))
      | Some u \<Rightarrow>
          (if u_protocol u \<noteq> ''http:'' \<and> u_protocol u \<noteq> ''https:'' then
             Inl (BadRequestE (''Redirect URI must be http(s): '' @ uri))
           else if kind \<noteq> ''login'' \<and> kind \<noteq> ''post_logout'' then
             Inl (BadRequestE (''Invalid redirect URI kind: '' @ kind))
           else if (uri, kind) \<in> set seen then
             Inl (BadRequestE (''Duplicate redirect URI: '' @ uri @ '' ('' @ kind @ '')''))
           else assertValidRedirectUris h ((uri, kind) # seen) rs))"

definition has_line_break :: "string \<Rightarrow> bool" where
  "has_line_break s \<longleftrightarrow> list_ex (\<lambda>c. char_code c = 13 \<or> char_code c = 10) s"

text \<open>\<open>/^[^\s@]+@[^\s@]+\.[^\s@]+$/\<close>: one at sign, text before it, a dot inside the rest, no blanks.\<close>

definition looks_like_email :: "string \<Rightarrow> bool" where
  "looks_like_email s \<longleftrightarrow>
     \<not> list_ex is_ws s \<and>
     (case split_on CHR ''@'' s of
        [a, b] \<Rightarrow> a \<noteq> [] \<and> list_ex (\<lambda>i. b ! i = CHR ''.'') [1 ..< length b - 1]
      | _ \<Rightarrow> False)"

definition assertValidActivationEmailOverride :: "email_branding \<Rightarrow> err + unit" where
  "assertValidActivationEmailOverride ov =
     (let breaks = (\<lambda>v. case v of None \<Rightarrow> False | Some s \<Rightarrow> has_line_break s);
          refuse = (\<lambda>f. Inl (BadRequestE (''activationEmailOverride.'' @ f @ '' must not contain line breaks''))) in
      if breaks (fromName ov) then refuse ''fromName''
      else if breaks (fromAddress ov) then refuse ''fromAddress''
      else if breaks (subject ov) then refuse ''subject''
      else if (case fromAddress ov of None \<Rightarrow> False | Some a \<Rightarrow> \<not> looks_like_email a) then
        Inl (BadRequestE ''activationEmailOverride.fromAddress must be a valid email address'')
      else Inr ())"

definition assertValidEmailVerificationMethod :: "string \<Rightarrow> err + unit" where
  "assertValidEmailVerificationMethod v =
     (if v \<noteq> ''link'' \<and> v \<noteq> ''code'' then
        Inl (BadRequestE ''emailVerificationMethod must be \"link\" or \"code\"'')
      else Inr ())"

definition email_method_of :: "string \<Rightarrow> email_method" where
  "email_method_of v = (if v = ''code'' then CodeMethod else LinkMethod)"

text \<open>Absent, null, or a public id that must belong to the app.\<close>

definition resolveDefaultOrgId :: "int \<Rightarrow> string option option \<Rightarrow> db \<Rightarrow> err + int option option" where
  "resolveDefaultOrgId appId v d =
     (case v of
        None \<Rightarrow> Inr None
      | Some None \<Rightarrow> Inr (Some None)
      | Some (Some pid) \<Rightarrow>
          (case org_by_publicId d pid of
             None \<Rightarrow> Inl (NotFoundE ''Default org not found'')
           | Some g \<Rightarrow>
               (if org_appId g \<noteq> appId then Inl (BadRequestE ''Default org must belong to this app'')
                else Inr (Some (Some (org_id g))))))"

definition resolveDefaultRoleId :: "int \<Rightarrow> string option option \<Rightarrow> db \<Rightarrow> err + int option option" where
  "resolveDefaultRoleId appId v d =
     (case v of
        None \<Rightarrow> Inr None
      | Some None \<Rightarrow> Inr (Some None)
      | Some (Some pid) \<Rightarrow>
          (case role_by_publicId d pid of
             None \<Rightarrow> Inl (NotFoundE ''Default role not found'')
           | Some l \<Rightarrow>
               (if role_appId l \<noteq> appId then Inl (BadRequestE ''Default role must belong to this app'')
                else Inr (Some (Some (role_id l))))))"

section \<open>The view\<close>

record app_view =
  av_publicId :: string
  av_name :: string
  av_url :: string
  av_branding :: app_branding
  av_isPlatform :: bool
  av_twoFactorTrustDays :: "int option"
  av_twoFactorPromptEnabled :: "bool option"
  av_requireTwoFactor :: bool
  av_allowOfflineAccess :: bool
  av_redirectUris :: "(string \<times> string) list"
  av_isConfidential :: bool
  av_clientSecretUpdatedAt :: "int option"
  av_defaultOrgId :: "string option"
  av_defaultRoleId :: "string option"
  av_passwordPolicyOverride :: "password_policy option"
  av_effectivePasswordPolicy :: password_policy
  av_activationWebhookUrl :: "string option"
  av_hasActivationWebhookSecret :: bool
  av_activationEmailOverride :: "email_branding option"
  av_privacyPolicyUrl :: "string option"
  av_termsUrl :: "string option"
  av_gdprUrl :: "string option"
  av_emailVerificationMethod :: email_method

definition formatApp :: "host \<Rightarrow> db \<Rightarrow> sa_app \<Rightarrow> (string \<times> string) list \<Rightarrow> app_view" where
  "formatApp h d a uris =
     \<lparr>av_publicId = app_publicId a, av_name = app_name a, av_url = app_url a, av_branding = app_branding a,
      av_isPlatform = app_isPlatform a, av_twoFactorTrustDays = app_twoFactorTrustDays a,
      av_twoFactorPromptEnabled = app_twoFactorPromptEnabled a,
      av_requireTwoFactor = app_requireTwoFactor a, av_allowOfflineAccess = app_allowOfflineAccess a,
      av_redirectUris = uris, av_isConfidential = truthy (app_clientSecretHash a),
      av_clientSecretUpdatedAt = app_clientSecretUpdatedAt a,
      av_defaultOrgId = map_option org_publicId (Option.bind (app_defaultOrgId a) (org_by_id d)),
      av_defaultRoleId = map_option role_publicId (Option.bind (app_defaultRoleId a) (role_by_id d)),
      av_passwordPolicyOverride = app_passwordPolicyOverride a,
      av_effectivePasswordPolicy = resolvePasswordPolicy h (app_passwordPolicyOverride a),
      av_activationWebhookUrl = app_activationWebhookUrl a,
      av_hasActivationWebhookSecret = truthy (app_activationWebhookSecret a),
      av_activationEmailOverride = app_activationEmailOverride a,
      av_privacyPolicyUrl = app_privacyPolicyUrl a, av_termsUrl = app_termsUrl a, av_gdprUrl = app_gdprUrl a,
      av_emailVerificationMethod = app_emailVerificationMethod a\<rparr>"

definition stored_uris :: "db \<Rightarrow> int \<Rightarrow> (string \<times> string) list" where
  "stored_uris d i = map (\<lambda>r. (ru_uri r, ru_kind r)) (app_redirect_uris d i)"

text \<open>The list selects its columns: no logo, no favicon, and \<open>emailVerificationMethod\<close> is missing from
  the selection, so that \<open>formatApp\<close> falls back to \<open>link\<close>.\<close>

definition list_view :: "host \<Rightarrow> db \<Rightarrow> sa_app \<Rightarrow> app_view" where
  "list_view h d a =
     (formatApp h d a (stored_uris d (app_id a)))
       \<lparr>av_branding := (app_branding a)\<lparr>logo := None, favicon := None\<rparr>,
        av_emailVerificationMethod := LinkMethod\<rparr>"

section \<open>Operations\<close>

definition read_apps_gate :: "string \<Rightarrow> (db, unit) eff" where
  "read_apps_gate caller =
     liftR (\<lambda>d. checkPermission d caller
       [''platform.apps.manage'', ''platform.orgs.manage'', ''platform.permissions.manage'',
        ''platform.roles.manage''] None)"

definition manage_apps_gate :: "string \<Rightarrow> (db, unit) eff" where
  "manage_apps_gate caller = liftR (\<lambda>d. checkPermission d caller [''platform.apps.manage''] None)"

definition listApps :: "host \<Rightarrow> string \<Rightarrow> list_query \<Rightarrow> (db, app_view listing) eff" where
  "listApps h caller q =
     thenE (read_apps_gate caller)
       (readE (\<lambda>d.
          let rows = filter (\<lambda>a. matches_search (q_text q) (app_name a) \<or> matches_search (q_text q) (app_url a))
                       (saApps d) in
          listing_of q rows (map (list_view h d) (page_rows q app_id rows))))"

definition getApp :: "host \<Rightarrow> string \<Rightarrow> string \<Rightarrow> (db, app_view) eff" where
  "getApp h caller pid =
     thenE (read_apps_gate caller)
     (bindE (findE (\<lambda>d. app_by_publicId d pid) (NotFoundE ''Not Found'')) (\<lambda>a.
      readE (\<lambda>d. formatApp h d a (stored_uris d (app_id a)))))"

record create_app_dto =
  ca_name :: string
  ca_url :: string
  ca_branding :: app_branding
  ca_twoFactorTrustDays :: "int option"
  ca_twoFactorPromptEnabled :: "bool option"
  ca_requireTwoFactor :: "bool option"
  ca_allowOfflineAccess :: "bool option"
  ca_redirectUris :: "(string \<times> string) list option"

definition new_app :: "string \<Rightarrow> create_app_dto \<Rightarrow> sa_app" where
  "new_app uuid dto =
     \<lparr>app_id = 0, app_publicId = generatePendingPublicId uuid, app_name = ca_name dto, app_url = ca_url dto,
      app_branding = ca_branding dto, app_twoFactorTrustDays = ca_twoFactorTrustDays dto,
      app_twoFactorPromptEnabled = ca_twoFactorPromptEnabled dto,
      app_requireTwoFactor = given (ca_requireTwoFactor dto) False,
      app_allowOfflineAccess = given (ca_allowOfflineAccess dto) False, app_isPlatform = False,
      app_canManageOwnRoles = False, app_passwordPolicyOverride = None, app_clientSecretHash = None,
      app_clientSecretUpdatedAt = None, app_activationWebhookUrl = None, app_activationWebhookSecret = None,
      app_activationEmailOverride = None, app_emailVerificationMethod = LinkMethod,
      app_privacyPolicyUrl = None, app_termsUrl = None, app_gdprUrl = None, app_defaultOrgId = None,
      app_defaultRoleId = None\<rparr>"

definition replace_redirect_uris :: "int \<Rightarrow> (string \<times> string) list option \<Rightarrow> (db, unit) eff" where
  "replace_redirect_uris i uris =
     (case uris of
        None \<Rightarrow> ret ()
      | Some us \<Rightarrow>
          thenE (delete_redirect_uris_of i)
            (create_redirect_uris (map (\<lambda>(uri, kind). \<lparr>ru_appId = i, ru_uri = uri, ru_kind = kind\<rparr>) us)))"

definition createApp_rows :: "host \<Rightarrow> string \<Rightarrow> create_app_dto \<Rightarrow> (db, sa_app) eff" where
  "createApp_rows h uuid dto =
     bindE (create_app (new_app uuid dto)) (\<lambda>draft.
     bindE (update_app (app_id draft) (\<lambda>a. a\<lparr>app_publicId := h_sqid_encode h (app_id draft)\<rparr>)) (\<lambda>updated.
     thenE (replace_redirect_uris (app_id draft) (ca_redirectUris dto)) (ret updated)))"

definition check_uris :: "host \<Rightarrow> (string \<times> string) list option \<Rightarrow> (db, unit) eff" where
  "check_uris h uris = liftR (\<lambda>_. case uris of None \<Rightarrow> Inr () | Some us \<Rightarrow> assertValidRedirectUris h [] us)"

definition createApp :: "host \<Rightarrow> string \<Rightarrow> string \<Rightarrow> create_app_dto \<Rightarrow> (db, app_view) eff" where
  "createApp h uuid caller dto =
     thenE (manage_apps_gate caller)
     (thenE (check_uris h (ca_redirectUris dto))
     (bindE (conflict_on_P2002 ''App with this name already exists''
               (transaction (createApp_rows h uuid dto))) (\<lambda>a.
      readE (\<lambda>d. formatApp h d a (given (ca_redirectUris dto) [])))))"

text \<open>\<open>Some None\<close> is an explicit null; a null \<open>redirectUris\<close> is present and otherwise ignored.\<close>

record update_app_dto =
  ua_name :: "string option"
  ua_url :: "string option"
  ua_logo :: "string option option"
  ua_favicon :: "string option option"
  ua_pageLightBackgroundColor :: "string option option"
  ua_pageDarkBackgroundColor :: "string option option"
  ua_cardLightBackgroundColor :: "string option option"
  ua_cardDarkBackgroundColor :: "string option option"
  ua_twoFactorTrustDays :: "int option option"
  ua_twoFactorPromptEnabled :: "bool option option"
  ua_requireTwoFactor :: "bool option"
  ua_allowOfflineAccess :: "bool option"
  ua_redirectUris :: "(string \<times> string) list option option"
  ua_defaultOrgId :: "string option option"
  ua_defaultRoleId :: "string option option"
  ua_passwordPolicyOverride :: "password_policy option option"
  ua_activationWebhookUrl :: "string option option"
  ua_privacyPolicyUrl :: "string option option"
  ua_termsUrl :: "string option option"
  ua_gdprUrl :: "string option option"
  ua_activationEmailOverride :: "email_branding option option"
  ua_emailVerificationMethod :: "string option"

definition no_update :: update_app_dto where
  "no_update =
     \<lparr>ua_name = None, ua_url = None, ua_logo = None, ua_favicon = None, ua_pageLightBackgroundColor = None,
      ua_pageDarkBackgroundColor = None, ua_cardLightBackgroundColor = None,
      ua_cardDarkBackgroundColor = None, ua_twoFactorTrustDays = None, ua_twoFactorPromptEnabled = None,
      ua_requireTwoFactor = None, ua_allowOfflineAccess = None, ua_redirectUris = None,
      ua_defaultOrgId = None, ua_defaultRoleId = None, ua_passwordPolicyOverride = None,
      ua_activationWebhookUrl = None, ua_privacyPolicyUrl = None, ua_termsUrl = None, ua_gdprUrl = None,
      ua_activationEmailOverride = None, ua_emailVerificationMethod = None\<rparr>"

definition patch_app :: "update_app_dto \<Rightarrow> int option option \<Rightarrow> int option option \<Rightarrow> sa_app \<Rightarrow> sa_app" where
  "patch_app dto orgId roleId a =
     a\<lparr>app_name := given (ua_name dto) (app_name a), app_url := given (ua_url dto) (app_url a),
       app_branding := (app_branding a)
         \<lparr>logo := given (ua_logo dto) (logo (app_branding a)),
          favicon := given (ua_favicon dto) (favicon (app_branding a)),
          pageLightBackgroundColor :=
            given (ua_pageLightBackgroundColor dto) (pageLightBackgroundColor (app_branding a)),
          pageDarkBackgroundColor :=
            given (ua_pageDarkBackgroundColor dto) (pageDarkBackgroundColor (app_branding a)),
          cardLightBackgroundColor :=
            given (ua_cardLightBackgroundColor dto) (cardLightBackgroundColor (app_branding a)),
          cardDarkBackgroundColor :=
            given (ua_cardDarkBackgroundColor dto) (cardDarkBackgroundColor (app_branding a))\<rparr>,
       app_twoFactorTrustDays := given (ua_twoFactorTrustDays dto) (app_twoFactorTrustDays a),
       app_twoFactorPromptEnabled := given (ua_twoFactorPromptEnabled dto) (app_twoFactorPromptEnabled a),
       app_requireTwoFactor := given (ua_requireTwoFactor dto) (app_requireTwoFactor a),
       app_allowOfflineAccess := given (ua_allowOfflineAccess dto) (app_allowOfflineAccess a),
       app_defaultOrgId := given orgId (app_defaultOrgId a),
       app_defaultRoleId := given roleId (app_defaultRoleId a),
       app_passwordPolicyOverride := given (ua_passwordPolicyOverride dto) (app_passwordPolicyOverride a),
       app_activationWebhookUrl := given (ua_activationWebhookUrl dto) (app_activationWebhookUrl a),
       app_activationWebhookSecret :=
         (if ua_activationWebhookUrl dto = Some None then None else app_activationWebhookSecret a),
       app_privacyPolicyUrl := given (ua_privacyPolicyUrl dto) (app_privacyPolicyUrl a),
       app_termsUrl := given (ua_termsUrl dto) (app_termsUrl a),
       app_gdprUrl := given (ua_gdprUrl dto) (app_gdprUrl a),
       app_activationEmailOverride := given (ua_activationEmailOverride dto) (app_activationEmailOverride a),
       app_emailVerificationMethod :=
         (case ua_emailVerificationMethod dto of None \<Rightarrow> app_emailVerificationMethod a
          | Some m \<Rightarrow> email_method_of m)\<rparr>"

definition nothing_to_update :: string where
  "nothing_to_update = ''At least one of name, url, logo, favicon, pageLightBackgroundColor, pageDarkBackgroundColor, cardLightBackgroundColor, cardDarkBackgroundColor, twoFactorTrustDays, twoFactorPromptEnabled, requireTwoFactor, allowOfflineAccess, redirectUris, defaultOrgId, defaultRoleId, passwordPolicyOverride, activationWebhookUrl, privacyPolicyUrl, termsUrl, gdprUrl, activationEmailOverride, or emailVerificationMethod must be provided''"

text \<open>The validations between the lookup and the first write, in their order.\<close>

definition check_update :: "host \<Rightarrow> update_app_dto \<Rightarrow> err + unit" where
  "check_update h dto =
     (case (case ua_redirectUris dto of Some (Some us) \<Rightarrow> assertValidRedirectUris h [] us | _ \<Rightarrow> Inr ()) of
        Inl e \<Rightarrow> Inl e
      | Inr _ \<Rightarrow>
     (case (case ua_passwordPolicyOverride dto of
              Some (Some p) \<Rightarrow> assertValidPasswordPolicyOverride p | _ \<Rightarrow> Inr ()) of
        Inl e \<Rightarrow> Inl e
      | Inr _ \<Rightarrow>
     (case (case ua_activationEmailOverride dto of
              Some (Some b) \<Rightarrow> assertValidActivationEmailOverride b | _ \<Rightarrow> Inr ()) of
        Inl e \<Rightarrow> Inl e
      | Inr _ \<Rightarrow>
          (case ua_emailVerificationMethod dto of
             None \<Rightarrow> Inr () | Some m \<Rightarrow> assertValidEmailVerificationMethod m))))"

definition platform_app_fixed :: err where
  "platform_app_fixed = ForbiddenE ''Platform app cannot be modified''"

definition updateApp :: "host \<Rightarrow> string \<Rightarrow> string \<Rightarrow> update_app_dto \<Rightarrow> (db, app_view) eff" where
  "updateApp h caller pid dto =
     (if dto = no_update then raise (BadRequestE nothing_to_update)
      else
        thenE (manage_apps_gate caller)
        (bindE (findE (\<lambda>d. app_by_publicId d pid) (NotFoundE ''Not Found'')) (\<lambda>existing.
           if app_isPlatform existing then raise platform_app_fixed
           else
             thenE (liftR (\<lambda>_. check_update h dto))
             (bindE (liftR (resolveDefaultOrgId (app_id existing) (ua_defaultOrgId dto))) (\<lambda>orgId.
              bindE (liftR (resolveDefaultRoleId (app_id existing) (ua_defaultRoleId dto))) (\<lambda>roleId.
              bindE (readE (\<lambda>d. stored_uris d (app_id existing))) (\<lambda>olduris.
              let newuris = given (ua_redirectUris dto) None in
              bindE (conflict_on_P2002 ''App with this name already exists''
                (transaction
                  (bindE (update_app (app_id existing) (patch_app dto orgId roleId)) (\<lambda>updated.
                   thenE (replace_redirect_uris (app_id existing) newuris) (ret updated))))) (\<lambda>a.
              readE (\<lambda>d. formatApp h d a (given newuris olduris))))))))))"

definition rotateClientSecret ::
    "(string \<Rightarrow> string) \<Rightarrow> string \<Rightarrow> int \<Rightarrow> string \<Rightarrow> string \<Rightarrow> (db, string) eff" where
  "rotateClientSecret hashPassword secret now caller pid =
     thenE (manage_apps_gate caller)
     (bindE (findE (\<lambda>d. app_by_publicId d pid) (NotFoundE ''Not Found'')) (\<lambda>existing.
      thenE (discard (update_app (app_id existing) (\<lambda>a. a\<lparr>app_clientSecretHash := Some (hashPassword secret),
                                                      app_clientSecretUpdatedAt := Some now\<rparr>)))
        (ret secret)))"

definition rotateWebhookSecret :: "string \<Rightarrow> string \<Rightarrow> string \<Rightarrow> (db, string) eff" where
  "rotateWebhookSecret secret caller pid =
     thenE (manage_apps_gate caller)
     (bindE (findE (\<lambda>d. app_by_publicId d pid) (NotFoundE ''Not Found'')) (\<lambda>existing.
        if \<not> truthy (app_activationWebhookUrl existing) then
          raise (BadRequestE ''Set a webhook URL before generating a webhook secret'')
        else
          thenE (discard (update_app (app_id existing) (\<lambda>a. a\<lparr>app_activationWebhookSecret := Some secret\<rparr>)))
            (ret secret)))"

definition deleteApp :: "string \<Rightarrow> string \<Rightarrow> (db, unit) eff" where
  "deleteApp caller pid =
     thenE (manage_apps_gate caller)
     (bindE (findE (\<lambda>d. app_by_publicId d pid) (NotFoundE ''Not Found'')) (\<lambda>existing.
        if app_isPlatform existing then raise platform_app_fixed
        else
          catchE (delete_app (app_id existing))
            (\<lambda>e. if e = P2003 then raise (ConflictE ''App has dependent organizations, roles, or permissions'')
                  else raise e)))"

section \<open>Integrity\<close>

lemma keeps_app_writes [keeps_intros]:
  "keeps db_ok (update_app i (\<lambda>a. a\<lparr>app_publicId := q\<rparr>))"
  "keeps db_ok (update_app i (patch_app dto orgId roleId))"
  "keeps db_ok (update_app i (\<lambda>a. a\<lparr>app_clientSecretHash := hs, app_clientSecretUpdatedAt := now\<rparr>))"
  "keeps db_ok (update_app i (\<lambda>a. a\<lparr>app_activationWebhookSecret := hs\<rparr>))"
  "keeps I (read_apps_gate c)" "keeps I (manage_apps_gate c)" "keeps I (check_uris h us)"
  "keeps db_ok (replace_redirect_uris i us)"
  by (auto simp: read_apps_gate_def manage_apps_gate_def check_uris_def replace_redirect_uris_def patch_app_def
      simp del: ret_apply intro!: keeps_update_app keeps_intros)

lemma keeps_app_ops:
  "keeps db_ok (createApp h uuid c cdto)" "keeps db_ok (updateApp h c pid udto)"
  "keeps db_ok (rotateClientSecret hp secret now c pid)" "keeps db_ok (rotateWebhookSecret secret c pid)"
  "keeps db_ok (deleteApp c pid)"
  by (auto simp: createApp_def createApp_rows_def updateApp_def rotateClientSecret_def rotateWebhookSecret_def
      deleteApp_def Let_def simp del: ret_apply intro!: keeps_intros)

section \<open>What an update does\<close>

lemma update_app_ok:
  "update_app i g d = (Inr b, t) \<longleftrightarrow>
     (\<exists>a. app_by_id d i = Some a \<and> b = g a \<and> default_refs_ok d b \<and>
        \<not> taken app_publicId (others app_id i (saApps d)) b \<and> \<not> taken app_name (others app_id i (saApps d)) b \<and>
        t = d\<lparr>saApps := replace_row app_id i b (saApps d)\<rparr>)"
  by (auto simp: update_app_def Let_def split: option.splits)

lemma update_app_err: "update_app i g d = (Inl e, t) \<Longrightarrow> t = d"
  by (auto simp: update_app_def Let_def split: option.splits if_splits)

lemma stored_uris_filter:
  "stored_uris (d\<lparr>saRedirectUris := filter (\<lambda>r. ru_appId r \<noteq> i) (saRedirectUris d) @
       map (\<lambda>(uri, kind). \<lparr>ru_appId = i, ru_uri = uri, ru_kind = kind\<rparr>) us\<rparr>) j =
   (if j = i then us else stored_uris d j)"
proof (cases "j = i")
  case True
  have "map (\<lambda>r. (ru_uri r, ru_kind r)) (filter (\<lambda>r. ru_appId r = i)
      (map (\<lambda>(uri, kind). \<lparr>ru_appId = i, ru_uri = uri, ru_kind = kind\<rparr>) us)) = us"
    by (induction us) auto
  with True show ?thesis by (simp add: stored_uris_def app_redirect_uris_def)
next
  case False
  then have "filter (\<lambda>r. ru_appId r = j) (map (\<lambda>(uri, kind). \<lparr>ru_appId = i, ru_uri = uri, ru_kind = kind\<rparr>) us) = []"
    "filter (\<lambda>r. ru_appId r \<noteq> i \<and> ru_appId r = j) (saRedirectUris d) = filter (\<lambda>r. ru_appId r = j) (saRedirectUris d)"
    by (auto simp: filter_empty_conv intro: filter_cong)
  with False show ?thesis by (simp add: stored_uris_def app_redirect_uris_def)
qed

lemma replace_redirect_uris_ok:
  assumes "replace_redirect_uris i us d = (Inr (), t)"
  shows "stored_uris t j = (if j = i then given us (stored_uris d i) else stored_uris d j)"
    and "t = d\<lparr>saRedirectUris := saRedirectUris t\<rparr>"
  using assms stored_uris_filter[of i d _ j]
  by (auto simp: replace_redirect_uris_def given_def thenE_ok delete_redirect_uris_of_def create_redirect_uris_def
      split: option.splits if_splits)

lemma resolveDefault_own:
  "resolveDefaultOrgId i v d = Inr w \<Longrightarrow> w = Some (Some k) \<Longrightarrow>
     \<exists>g \<in> set (saOrgs d). org_id g = k \<and> org_appId g = i"
  "resolveDefaultRoleId i v d = Inr w \<Longrightarrow> w = Some (Some k) \<Longrightarrow>
     \<exists>l \<in> set (saRoles d). role_id l = k \<and> role_appId l = i"
  by (auto simp: resolveDefaultOrgId_def resolveDefaultRoleId_def split: option.splits if_splits
      dest!: lookup_sound(6,11))

text \<open>The default organisation and role of an app are its own.\<close>

definition own_defaults :: "db \<Rightarrow> sa_app \<Rightarrow> bool" where
  "own_defaults d a \<longleftrightarrow>
     (\<forall>i. app_defaultOrgId a = Some i \<longrightarrow> (\<exists>g \<in> set (saOrgs d). org_id g = i \<and> org_appId g = app_id a)) \<and>
     (\<forall>i. app_defaultRoleId a = Some i \<longrightarrow> (\<exists>l \<in> set (saRoles d). role_id l = i \<and> role_appId l = app_id a))"

lemma patched_defaults:
  assumes "own_defaults d a" "resolveDefaultOrgId (app_id a) v d = Inr orgId"
    "resolveDefaultRoleId (app_id a) w d = Inr roleId"
  shows "own_defaults d (patch_app dto orgId roleId a)"
  using assms(1) resolveDefault_own(1)[OF assms(2)] resolveDefault_own(2)[OF assms(3)]
  by (auto simp: own_defaults_def patch_app_def given_def split: option.splits)

lemma updateApp_cases:
  assumes "updateApp h c pid dto d = (r, t)"
  obtains "t = d" "\<exists>e. r = Inl e"
  | a b orgId roleId where "app_by_publicId d pid = Some a" "\<not> app_isPlatform a"
    "checkPermission d c [''platform.apps.manage''] None = Inr ()" "check_update h dto = Inr ()"
    "resolveDefaultOrgId (app_id a) (ua_defaultOrgId dto) d = Inr orgId"
    "resolveDefaultRoleId (app_id a) (ua_defaultRoleId dto) d = Inr roleId"
    "bindE (update_app (app_id a) (patch_app dto orgId roleId)) (\<lambda>updated.
       thenE (replace_redirect_uris (app_id a) (given (ua_redirectUris dto) None)) (ret updated)) d = (Inr b, t)"
    "r = Inr (formatApp h t b (given (given (ua_redirectUris dto) None) (stored_uris d (app_id a))))"
proof (cases r)
  case (Inl e)
  then have "t = d"
    using assms unfolding updateApp_def manage_apps_gate_def Let_def
    by (auto simp: eff_simps conflict_on_P2002_def split: if_splits)
  with Inl that(1) show ?thesis by blast
next
  case (Inr v)
  show ?thesis
    using assms that(2) unfolding Inr updateApp_def manage_apps_gate_def Let_def
    by (auto simp: eff_simps conflict_on_P2002_def split: if_splits)
qed

lemma patched_rest:
  "app_clientSecretHash (patch_app dto orgId roleId a) = app_clientSecretHash a"
  "app_isPlatform (patch_app dto orgId roleId a) = app_isPlatform a"
  "app_canManageOwnRoles (patch_app dto orgId roleId a) = app_canManageOwnRoles a"
  "app_id (patch_app dto orgId roleId a) = app_id a"
  "app_publicId (patch_app dto orgId roleId a) = app_publicId a"
  by (simp_all add: patch_app_def)

definition whole_webhook :: "sa_app \<Rightarrow> bool" where
  "whole_webhook a \<longleftrightarrow> (app_activationWebhookSecret a \<noteq> None \<longrightarrow> app_activationWebhookUrl a \<noteq> None)"

lemma patched_webhook: "whole_webhook a \<Longrightarrow> whole_webhook (patch_app dto orgId roleId a)"
  by (auto simp: whole_webhook_def patch_app_def given_def split: option.splits)

lemma own_defaults_tables:
  "saOrgs t = saOrgs d \<Longrightarrow> saRoles t = saRoles d \<Longrightarrow> own_defaults t a = own_defaults d a"
  by (simp add: own_defaults_def)

text \<open>The writes of an update, and the row they leave.\<close>

lemma update_rows:
  assumes "db_ok d" "app_by_publicId d pid = Some a"
    and "bindE (update_app (app_id a) g) (\<lambda>updated. thenE (replace_redirect_uris (app_id a) us) (ret updated)) d = (Inr b, t)"
  shows "b = g a" "t = d\<lparr>saApps := replace_row app_id (app_id a) (g a) (saApps d), saRedirectUris := saRedirectUris t\<rparr>"
    "stored_uris t i = (if i = app_id a then given us (stored_uris d i) else stored_uris d i)"
proof -
  have row: "app_by_id d (app_id a) = Some a"
    using lookup_complete(2)[OF db_ok_parts(1)[OF assms(1)]] lookup_sound(4)[OF assms(2)] by blast
  from assms(3) obtain s where s: "update_app (app_id a) g d = (Inr b, s)"
    and u: "replace_redirect_uris (app_id a) us s = (Inr (), t)"
    by (auto simp: eff_simps)
  from s row show "b = g a" by (simp add: update_app_ok)
  from s row have s': "s = d\<lparr>saApps := replace_row app_id (app_id a) (g a) (saApps d)\<rparr>" by (simp add: update_app_ok)
  with replace_redirect_uris_ok(2)[OF u]
  show "t = d\<lparr>saApps := replace_row app_id (app_id a) (g a) (saApps d), saRedirectUris := saRedirectUris t\<rparr>" by simp
  have "stored_uris s = stored_uris d" by (simp add: s' stored_uris_def app_redirect_uris_def fun_eq_iff)
  with replace_redirect_uris_ok(1)[OF u, of i]
  show "stored_uris t i = (if i = app_id a then given us (stored_uris d i) else stored_uris d i)" by simp
qed



section \<open>Histories\<close>

datatype app_op =
    CreateApp string string create_app_dto
  | UpdateApp string string update_app_dto
  | RotateClientSecret "string \<Rightarrow> string" string int string string
  | RotateWebhookSecret string string string
  | DeleteApp string string

fun run_app_op :: "host \<Rightarrow> app_op \<Rightarrow> (db, unit) eff" where
  "run_app_op h (CreateApp uuid c dto) = discard (createApp h uuid c dto)"
| "run_app_op h (UpdateApp c pid dto) = discard (updateApp h c pid dto)"
| "run_app_op h (RotateClientSecret hp secret now c pid) = discard (rotateClientSecret hp secret now c pid)"
| "run_app_op h (RotateWebhookSecret secret c pid) = discard (rotateWebhookSecret secret c pid)"
| "run_app_op h (DeleteApp c pid) = deleteApp c pid"

lemma keeps_run_app_op: "keeps db_ok (run_app_op h op)"
  by (cases op) (auto intro: keeps_app_ops keeps_intros)

text \<open>What the server believes about every app: the defaults are its own, a webhook is whole.\<close>

definition apps_sound :: "db \<Rightarrow> bool" where
  "apps_sound d \<longleftrightarrow> (\<forall>a \<in> set (saApps d). own_defaults d a \<and> whole_webhook a)"

lemma apps_sound_replace:
  assumes "apps_sound d" "saOrgs t = saOrgs d" "saRoles t = saRoles d"
    "saApps t = replace_row app_id i b (saApps d)" "own_defaults d b" "whole_webhook b"
  shows "apps_sound t"
  using assms own_defaults_tables[OF assms(2,3)] by (auto simp: apps_sound_def set_replace_row split: if_splits)

lemma apps_sound_updateApp:
  assumes "db_ok d" "apps_sound d" "updateApp h c pid dto d = (r, t)"
  shows "apps_sound t"
proof (cases rule: updateApp_cases[OF assms(3)])
  case (2 a b orgId roleId)
  have t: "t = d\<lparr>saApps := replace_row app_id (app_id a) (patch_app dto orgId roleId a) (saApps d),
      saRedirectUris := saRedirectUris t\<rparr>"
    using update_rows(2)[OF assms(1) 2(1) 2(7)] .
  have a: "own_defaults d a" "whole_webhook a"
    using assms(2) lookup_sound(4)[OF 2(1)] by (auto simp: apps_sound_def)
  show ?thesis
    by (rule apps_sound_replace[OF assms(2), where b = "patch_app dto orgId roleId a" and i = "app_id a"])
      ((subst t, simp)+, (rule patched_defaults[OF a(1) 2(5,6)] patched_webhook[OF a(2)])+)
qed (simp add: assms(2))

lemma apps_sound_createApp:
  assumes "db_ok d" "apps_sound d" "createApp h uuid c dto d = (r, t)"
  shows "apps_sound t"
proof (cases "t = d")
  case False
  then obtain b where rows: "createApp_rows h uuid dto d = (Inr b, t)"
    using assms(3) unfolding createApp_def manage_apps_gate_def check_uris_def
    by (auto simp: thenE_def bindE_def conflict_on_P2002_def catchE_def transaction_def
        split: prod.splits sum.splits if_splits)
  then obtain draft s u v where c: "create_app (new_app uuid dto) d = (Inr draft, s)"
    and w: "update_app (app_id draft) (\<lambda>a. a\<lparr>app_publicId := h_sqid_encode h (app_id draft)\<rparr>) s = (Inr v, u)"
    and ru: "replace_redirect_uris (app_id draft) (ca_redirectUris dto) u = (Inr (), t)"
    unfolding createApp_rows_def by (auto simp: eff_simps)
  have s: "saApps s = saApps d @ [draft]" "saOrgs s = saOrgs d" "saRoles s = saRoles d"
    and blank: "app_defaultOrgId draft = None" "app_defaultRoleId draft = None" "app_activationWebhookSecret draft = None"
    using c by (auto simp: create_app_def Let_def new_app_def split: if_splits)
  have new: "own_defaults e draft" "whole_webhook draft" for e
    using blank by (simp_all add: own_defaults_def whole_webhook_def)
  have sound: "apps_sound s"
    using assms(2) new own_defaults_tables[OF s(2,3)] by (auto simp: apps_sound_def s(1))
  have "app_by_id s (app_id draft) = Some draft"
    using lookup_complete(2)[OF db_ok_parts(1)[OF keepsD[OF keeps_create_app assms(1) c]]] s(1) by simp
  with w have u: "u = s\<lparr>saApps := replace_row app_id (app_id draft)
      (draft\<lparr>app_publicId := h_sqid_encode h (app_id draft)\<rparr>) (saApps s)\<rparr>"
    by (simp add: update_app_ok)
  have "apps_sound u"
    by (rule apps_sound_replace[OF sound, where i = "app_id draft" and
          b = "draft\<lparr>app_publicId := h_sqid_encode h (app_id draft)\<rparr>"])
      (use blank in \<open>simp_all add: u own_defaults_def whole_webhook_def\<close>)
  then show ?thesis
    by (subst replace_redirect_uris_ok(2)[OF ru]) (simp add: apps_sound_def own_defaults_def)
qed (simp add: assms(2))

lemma secret_update_sound:
  assumes "db_ok d" "apps_sound d" "app_by_publicId d pid = Some a" "update_app (app_id a) g d = (r', t)"
    "app_id (g a) = app_id a" "app_defaultOrgId (g a) = app_defaultOrgId a"
    "app_defaultRoleId (g a) = app_defaultRoleId a" "whole_webhook (g a)"
  shows "apps_sound t"
proof (cases "t = d")
  case False
  have row: "app_by_id d (app_id a) = Some a"
    using lookup_complete(2)[OF db_ok_parts(1)[OF assms(1)]] lookup_sound(4)[OF assms(3)] by blast
  note w = assms(4)
  with False obtain b where "r' = Inr b" by (cases r') (auto dest: update_app_err)
  with w row have t: "t = d\<lparr>saApps := replace_row app_id (app_id a) (g a) (saApps d)\<rparr>" by (simp add: update_app_ok)
  have "own_defaults d (g a)"
    using assms(2) lookup_sound(4)[OF assms(3)] assms(5-7) by (auto simp: apps_sound_def own_defaults_def)
  with assms(8) show ?thesis
    by (intro apps_sound_replace[OF assms(2), where b = "g a" and i = "app_id a"]) (simp_all add: t)
qed (simp add: assms(2))

lemma pure_after: "thenE m (ret x) d = (r, t) \<Longrightarrow> \<exists>r'. m d = (r', t)"
  by (auto simp: thenE_def bindE_def split: prod.splits sum.splits)

lemma apps_sound_run_app_op:
  assumes "db_ok d" "apps_sound d" "run_app_op h op d = (r, t)"
  shows "apps_sound t"
proof (cases op)
  case (CreateApp uuid c dto)
  with assms show ?thesis by (auto dest!: discard_state intro: apps_sound_createApp)
next
  case (UpdateApp c pid dto)
  with assms show ?thesis by (auto dest!: discard_state intro: apps_sound_updateApp)
next
  case (RotateClientSecret hp secret now c pid)
  show ?thesis
  proof (cases "t = d")
    case False
    with RotateClientSecret assms(3) obtain a r' where a: "app_by_publicId d pid = Some a"
      and w: "update_app (app_id a) (\<lambda>a. a\<lparr>app_clientSecretHash := Some (hp secret),
                app_clientSecretUpdatedAt := Some now\<rparr>) d = (r', t)"
      by (auto simp: rotateClientSecret_def manage_apps_gate_def
          dest!: discard_state gate_first_split findE_split pure_after)
    have "whole_webhook a" using assms(2) lookup_sound(4)[OF a] by (auto simp: apps_sound_def)
    then show ?thesis by (intro secret_update_sound[OF assms(1,2) a w]) (simp_all add: whole_webhook_def)
  qed (simp add: assms(2))
next
  case (RotateWebhookSecret secret c pid)
  show ?thesis
  proof (cases "t = d")
    case False
    with RotateWebhookSecret assms(3) obtain a r' where a: "app_by_publicId d pid = Some a"
      and url: "truthy (app_activationWebhookUrl a)"
      and w: "update_app (app_id a) (\<lambda>a. a\<lparr>app_activationWebhookSecret := Some secret\<rparr>) d = (r', t)"
      by (auto simp: rotateWebhookSecret_def manage_apps_gate_def
          dest!: discard_state gate_first_split findE_split pure_after split: if_splits)
    then show ?thesis
      by (intro secret_update_sound[OF assms(1,2) a w]) (auto simp: whole_webhook_def truthy_iff)
  qed (simp add: assms(2))
next
  case (DeleteApp c pid)
  then have "t = d \<or> (\<exists>a :: sa_app. t = d\<lparr>saApps := filter (\<lambda>b. app_id b \<noteq> app_id a) (saApps d),
      saRedirectUris := filter (\<lambda>x. ru_appId x \<noteq> app_id a) (saRedirectUris d),
      saUserConsents := filter (\<lambda>x. con_appId x \<noteq> app_id a) (saUserConsents d)\<rparr>)"
    using assms(3)
    by (auto simp: deleteApp_def manage_apps_gate_def catchE_def delete_app_def
        dest!: gate_first_split findE_split split: if_splits)
  with assms(2) show ?thesis by (auto simp: apps_sound_def own_defaults_def)
qed

end
