(* ===== verification/Activation.thy ===== *)
theory Activation
  imports Example_Data Listing
begin

text \<open>
  The activation webhook, \<open>apps/auth-server/src/activation/notify-activation.ts\<close>: told of a user who
  has just become active, it posts a signed event to the app's URL, once more after a network error
  or a 5xx, and records the outcome. The network (\<open>post\<close>, given the number of the attempt) and the
  HMAC are parameters; the result lists what was sent, so that the theorems can speak of it.
\<close>

section \<open>Dates\<close>

text \<open>\<open>new Date(ms).toISOString()\<close> for the years 0 to 9999.\<close>

definition pad :: "nat \<Rightarrow> nat \<Rightarrow> string" where
  "pad w n = (let s = number_text n in replicate (w - length s) CHR ''0'' @ s)"

text \<open>Year, month and day of a day counted from 1970-01-01, in the proleptic Gregorian calendar.\<close>

definition civil_date :: "int \<Rightarrow> int \<times> int \<times> int" where
  "civil_date days =
     (let z = days + 719468;
          era = z div 146097;
          doe = z mod 146097;
          yoe = (doe - doe div 1460 + doe div 36524 - doe div 146096) div 365;
          doy = doe - (365 * yoe + yoe div 4 - yoe div 100);
          mp = (5 * doy + 2) div 153;
          m = (if mp < 10 then mp + 3 else mp - 9) in
      (yoe + era * 400 + (if m \<le> 2 then 1 else 0), m, doy - (153 * mp + 2) div 5 + 1))"

definition iso_date :: "int \<Rightarrow> string" where
  "iso_date ms =
     (case civil_date (ms div 86400000) of
        (y, m, d) \<Rightarrow>
          (let t = ms mod 86400000 in
           pad 4 (nat y) @ ''-'' @ pad 2 (nat m) @ ''-'' @ pad 2 (nat d) @ ''T'' @
           pad 2 (nat (t div 3600000)) @ '':'' @ pad 2 (nat (t div 60000 mod 60)) @ '':'' @
           pad 2 (nat (t div 1000 mod 60)) @ ''.'' @ pad 3 (nat (t mod 1000)) @ ''Z''))"

section \<open>The log line\<close>

definition redactName :: "string \<Rightarrow> string" where
  "redactName v = (case v of [] \<Rightarrow> ''***'' | c # _ \<Rightarrow> c # ''***'')"

definition redactEmail :: "string \<Rightarrow> string" where
  "redactEmail e =
     (case split_on CHR ''@'' e of
        (a # b # _) \<Rightarrow> (if a = [] then ''***'' else hd a # ''***'' @ drop (length a) e)
      | _ \<Rightarrow> ''***'')"

record activated_user =
  au_publicId :: string
  au_orgId :: int
  au_firstName :: string
  au_lastName :: string
  au_email :: string

definition webhook_log :: "string \<Rightarrow> activated_user \<Rightarrow> (string \<times> string) list" where
  "webhook_log appPublicId u =
     [(''activation.event'', ''webhook.called''), (''app.public_id'', appPublicId),
      (''user.public_id'', au_publicId u), (''user.first_name'', redactName (au_firstName u)),
      (''user.last_name'', redactName (au_lastName u)), (''user.email'', redactEmail (au_email u))]"

section \<open>Delivery\<close>

record delivery_config =
  dc_url :: string
  dc_secret :: string
  dc_appPublicId :: string

text \<open>A query that fails is caught and treated as no configuration.\<close>

definition resolveDeliveryConfig :: "db \<Rightarrow> int \<Rightarrow> delivery_config option" where
  "resolveDeliveryConfig d orgId =
     (case Option.bind (org_by_id d orgId) (\<lambda>g. app_by_id d (org_appId g)) of
        None \<Rightarrow> None
      | Some a \<Rightarrow>
          (if \<not> truthy (app_activationWebhookUrl a) \<or> \<not> truthy (app_activationWebhookSecret a) then None
           else Some \<lparr>dc_url = the (app_activationWebhookUrl a), dc_secret = the (app_activationWebhookSecret a),
                      dc_appPublicId = app_publicId a\<rparr>))"

text \<open>What \<open>fetch\<close> gives: an HTTP status, or a rejection with its message (a redirect included).\<close>

datatype fetch_result = Status nat | Rejected string

record webhook_request =
  wr_url :: string
  wr_body :: string
  wr_signature :: string

definition postOnce :: "(webhook_request \<Rightarrow> fetch_result) \<Rightarrow> webhook_request \<Rightarrow> bool \<times> string option" where
  "postOnce fetch rq =
     (case fetch rq of
        Status n \<Rightarrow> if 200 \<le> n \<and> n \<le> 299 then (True, None) else (False, Some (''HTTP '' @ number_text n))
      | Rejected msg \<Rightarrow> (False, Some msg))"

definition isRetryable :: "string \<Rightarrow> bool" where
  "isRetryable e \<longleftrightarrow> \<not> starts_with ''HTTP '' e \<or> starts_with ''HTTP 5'' e"

definition webhook_body :: "activated_user \<Rightarrow> string \<Rightarrow> int \<Rightarrow> int \<Rightarrow> string \<Rightarrow> string" where
  "webhook_body u appPublicId activatedAt timestamp nonce =
     CHR ''{'' # js_join '',''
       [json_quote ''event'' @ '':'' @ json_quote ''account.activated'',
        json_quote ''userId'' @ '':'' @ json_quote (au_publicId u),
        json_quote ''appPublicId'' @ '':'' @ json_quote appPublicId,
        json_quote ''activatedAt'' @ '':'' @ json_quote (iso_date activatedAt),
        json_quote ''timestamp'' @ '':'' @ number_text (nat timestamp),
        json_quote ''nonce'' @ '':'' @ json_quote nonce] @ ''}''"

text \<open>The audit row: which app, delivered or not, and the reason of a failure.\<close>

record webhook_outcome =
  wo_appPublicId :: string
  wo_delivered :: bool
  wo_reason :: "string option"

definition notifyActivation ::
    "(string \<Rightarrow> string \<Rightarrow> string) \<Rightarrow> (nat \<Rightarrow> webhook_request \<Rightarrow> fetch_result) \<Rightarrow> (nat \<Rightarrow> int) \<Rightarrow> string \<Rightarrow>
     activated_user \<Rightarrow> db \<Rightarrow> webhook_request list \<times> webhook_outcome option" where
  "notifyActivation hmac fetch clk nonce u d =
     (case resolveDeliveryConfig d (au_orgId u) of
        None \<Rightarrow> ([], None)
      | Some c \<Rightarrow>
          (let body = webhook_body u (dc_appPublicId c) (clk 0) (clk 1) nonce;
               rq = \<lparr>wr_url = dc_url c, wr_body = body, wr_signature = hmac (dc_secret c) body\<rparr>;
               first = postOnce (fetch 0) rq in
           if \<not> fst first \<and> isRetryable (the (snd first)) then
             (let second = postOnce (fetch 1) rq in
              ([rq, rq], Some \<lparr>wo_appPublicId = dc_appPublicId c, wo_delivered = fst second, wo_reason = snd second\<rparr>))
           else ([rq], Some \<lparr>wo_appPublicId = dc_appPublicId c, wo_delivered = fst first, wo_reason = snd first\<rparr>)))"

section \<open>What a delivery does\<close>

text \<open>The log line depends on the names and the address only through their first letters and the
  domain.\<close>

lemma webhook_log_redacted:
  assumes "au_publicId u = au_publicId v"
    and "take 1 (au_firstName u) = take 1 (au_firstName v)" "take 1 (au_lastName u) = take 1 (au_lastName v)"
    and "redactEmail (au_email u) = redactEmail (au_email v)"
  shows "webhook_log a u = webhook_log a v"
proof -
  have same: "redactName x = redactName y" if "take 1 x = take 1 y" for x y
    using that by (cases x; cases y) (auto simp: redactName_def)
  show ?thesis unfolding webhook_log_def using same[OF assms(2)] same[OF assms(3)] assms(1,4) by simp
qed

lemma number_text_3:
  assumes "100 \<le> n" "n < 1000"
  shows "number_text n = [char_of (48 + n div 100), char_of (48 + n div 10 mod 10), char_of (48 + n mod 10)]"
proof -
  have "number_text (n div 100) = [char_of (48 + n div 100)]"
    using assms by (subst number_text.simps) auto
  moreover have "number_text (n div 10) = number_text (n div 100) @ [char_of (48 + n div 10 mod 10)]"
    using assms by (subst number_text.simps) (simp add: div_mult2_eq[of n 10 10, simplified, symmetric])
  moreover have "number_text n = number_text (n div 10) @ [char_of (48 + n mod 10)]"
    using assms by (subst number_text.simps) auto
  ultimately show ?thesis by simp
qed

lemma code_five: "char_code CHR ''5'' = 53" "(char_of (53 :: nat) :: char) = CHR ''5''"
  by code_simp+

lemma status_retryable:
  assumes "100 \<le> n" "n < 1000"
  shows "isRetryable (''HTTP '' @ number_text n) \<longleftrightarrow> 500 \<le> n \<and> n < 600"
proof -
  have "n div 100 < 10" using assms by auto
  then have "(char_of (48 + n div 100) :: char) = CHR ''5'' \<longleftrightarrow> n div 100 = 5"
    using code_char_of[of "48 + n div 100"] arg_cong[of _ "CHR ''5''" char_code] code_five by fastforce
  then show ?thesis using assms by (auto simp: isRetryable_def number_text_3 starts_with_def)
qed

lemma configured:
  "resolveDeliveryConfig d i = Some c \<Longrightarrow>
     \<exists>g a. org_by_id d i = Some g \<and> app_by_id d (org_appId g) = Some a \<and>
        app_activationWebhookUrl a = Some (dc_url c) \<and> app_activationWebhookSecret a = Some (dc_secret c) \<and>
        app_publicId a = dc_appPublicId c"
  by (auto simp: resolveDeliveryConfig_def truthy_iff split: option.splits if_splits bind_splits)


definition webhook_db :: db where
  "webhook_db = example_db\<lparr>saApps := [platform_app, customer_app\<lparr>app_activationWebhookUrl := Some ''https://hook'',
     app_activationWebhookSecret := Some ''key''\<rparr>]\<rparr>"


end
