(* ===== verification/Invitations.thy ===== *)
theory Invitations
  imports Users Passwords Activation Single_Use
begin

text \<open>
  Invitations, \<open>apps/auth-server/src/invitations/invitations.service.ts\<close>: what the link shows, and
  accepting it with a password. Acceptance reads and validates first and then claims the invitation,
  creates the credential account and activates the user in one transaction; the two halves are
  separate definitions so that other requests can come between them.
\<close>

section \<open>Operations\<close>

definition invitation_by_token :: "db \<Rightarrow> string \<Rightarrow> sa_invitation option" where
  "invitation_by_token d token = find (\<lambda>i. inv_token i = token) (saInvitations d)"

text \<open>The invitation with its user, the credential account behind the user, and the app.\<close>

definition invitee :: "db \<Rightarrow> sa_invitation \<Rightarrow> (sa_user \<times> user_row \<times> sa_org) option" where
  "invitee d i =
     (case sau_by_id d (inv_userId i) of
        None \<Rightarrow> None
      | Some u \<Rightarrow>
          (case (user_by_id d (sau_betterAuthUserId u), org_by_id d (sau_orgId u)) of
             (Some b, Some g) \<Rightarrow> Some (u, b, g)
           | _ \<Rightarrow> None))"

definition policy_for_app :: "host \<Rightarrow> db \<Rightarrow> int \<Rightarrow> password_policy" where
  "policy_for_app h d appId =
     resolvePasswordPolicy h (Option.bind (app_by_id d appId) app_passwordPolicyOverride)"

record invitation_view =
  iv_firstName :: string
  iv_email :: string
  iv_expired :: bool
  iv_passwordPolicy :: password_policy

definition validateToken :: "host \<Rightarrow> int \<Rightarrow> string \<Rightarrow> (db, invitation_view) eff" where
  "validateToken h now token =
     bindE (findE (\<lambda>d. invitation_by_token d token) (NotFoundE ''Invitation not found'')) (\<lambda>i.
     bindE (findE (\<lambda>d. invitee d i) inconsistent) (\<lambda>(u, b, g).
     readE (\<lambda>d. \<lparr>iv_firstName = sau_firstName u, iv_email = usr_email b,
                 iv_expired = (inv_usedAt i \<noteq> None \<or> inv_expiresAt i < now),
                 iv_passwordPolicy = policy_for_app h d (org_appId g)\<rparr>)))"

definition accept_check ::
    "host \<Rightarrow> int \<Rightarrow> string \<Rightarrow> string \<Rightarrow> (db, sa_invitation \<times> sa_user \<times> user_row) eff" where
  "accept_check h now token password =
     bindE (findE (\<lambda>d. invitation_by_token d token) (NotFoundE ''Invitation not found'')) (\<lambda>i.
     bindE (findE (\<lambda>d. invitee d i) inconsistent) (\<lambda>(u, b, g).
       if inv_usedAt i \<noteq> None then raise (BadRequestE ''Invitation already used'')
       else if inv_expiresAt i < now then raise (BadRequestE ''Invitation expired'')
       else
         thenE (liftR (\<lambda>d. validatePasswordOrThrow password (policy_for_app h d (org_appId g))))
           (ret (i, u, b))))"

text \<open>\<open>updateMany\<close> where the id matches, \<open>usedAt\<close> is null and \<open>expiresAt\<close> lies ahead: the count.\<close>

definition claimable :: "int \<Rightarrow> int \<Rightarrow> sa_invitation \<Rightarrow> bool" where
  "claimable n now i \<longleftrightarrow> inv_id i = n \<and> inv_usedAt i = None \<and> inv_expiresAt i > now"

definition claim_invitation :: "int \<Rightarrow> int \<Rightarrow> (db, nat) eff" where
  "claim_invitation n now = (\<lambda>d.
     (Inr (length (filter (claimable n now) (saInvitations d))),
      d\<lparr>saInvitations := map (\<lambda>i. if claimable n now i then i\<lparr>inv_usedAt := Some now\<rparr> else i)
                            (saInvitations d)\<rparr>))"

definition accept_commit ::
    "string \<Rightarrow> string \<Rightarrow> int \<Rightarrow> int \<Rightarrow> sa_user \<Rightarrow> user_row \<Rightarrow> (db, unit) eff" where
  "accept_commit uuid hashed now invId u b =
     transaction
       (bindE (claim_invitation invId now) (\<lambda>n.
          if n \<noteq> 1 then raise (BadRequestE ''Invitation already used or expired'')
          else
            thenE (create_account \<lparr>acc_id = uuid, acc_accountId = usr_id b, acc_providerId = ''credential'',
                                   acc_userId = usr_id b, acc_password = Some hashed\<rparr>)
            (thenE (discard (update_sa_user (sau_publicId u) (\<lambda>x. x\<lparr>sau_status := Active\<rparr>)))
                   (discard (update_user (usr_id b) (\<lambda>x. x\<lparr>usr_emailVerified := True\<rparr>))))))"

text \<open>The result is the user the activation webhook is told about.\<close>

definition acceptInvitation ::
    "host \<Rightarrow> (string \<Rightarrow> string) \<Rightarrow> string \<Rightarrow> (nat \<Rightarrow> int) \<Rightarrow> string \<Rightarrow> string \<Rightarrow> (db, activated_user) eff" where
  "acceptInvitation h hashPassword uuid clk token password =
     bindE (accept_check h (clk 0) token password) (\<lambda>(i, u, b).
     thenE (accept_commit uuid (hashPassword password) (clk 1) (inv_id i) u b)
       (ret \<lparr>au_publicId = sau_publicId u, au_orgId = sau_orgId u, au_firstName = sau_firstName u,
             au_lastName = sau_lastName u, au_email = usr_email b\<rparr>))"

section \<open>Integrity\<close>

lemma claim_columns:
  "map (inv_id \<circ> (\<lambda>i. if P i then i\<lparr>inv_usedAt := v\<rparr> else i)) is = map inv_id is"
  "map (inv_publicId \<circ> (\<lambda>i. if P i then i\<lparr>inv_usedAt := v\<rparr> else i)) is = map inv_publicId is"
  "map (inv_token \<circ> (\<lambda>i. if P i then i\<lparr>inv_usedAt := v\<rparr> else i)) is = map inv_token is"
  by (induction "is") auto

lemma claim_images:
  "inv_id ` (\<lambda>i. if P i then i\<lparr>inv_usedAt := v\<rparr> else i) ` S = inv_id ` S"
  "inv_userId ` (\<lambda>i. if P i then i\<lparr>inv_usedAt := v\<rparr> else i) ` S = inv_userId ` S"
  unfolding image_image by (rule image_cong[OF refl], simp)+

lemma keeps_claim_invitation [keeps_intros]: "keeps db_ok (claim_invitation n now)"
proof (rule keeps_db_okI)
  fix d t assume ok: "keys_ok d" "fks_ok d" "seqs_ok d" and "snd (claim_invitation n now d) = t"
  then have t: "t = d\<lparr>saInvitations := map (\<lambda>i. if claimable n now i then i\<lparr>inv_usedAt := Some now\<rparr> else i)
                            (saInvitations d)\<rparr>"
    by (simp add: claim_invitation_def)
  show "keys_ok t \<and> fks_ok t \<and> seqs_ok t"
    using ok unfolding t by (auto simp: keys_ok_def fks_ok_def seqs_ok_def claim_columns claim_images)
qed

lemma keeps_activation_writes [keeps_intros]:
  "keeps db_ok (update_sa_user pid (\<lambda>x. x\<lparr>sau_status := s\<rparr>))"
  "keeps db_ok (update_user b (\<lambda>x. x\<lparr>usr_emailVerified := v\<rparr>))"
  by (auto intro: keeps_update_sa_user keeps_update_user)

lemma keeps_accept:
  "keeps db_ok (accept_commit uuid hashed now i u b)"
  "keeps db_ok (acceptInvitation h hp uuid clk token password)"
  by (auto simp: accept_commit_def acceptInvitation_def accept_check_def
      simp del: ret_apply intro!: keeps_intros)

section \<open>Single use\<close>

text \<open>An invitation number that was given out and has no unused invitation any more. Numbers come from
  a sequence and are never given out again, so nothing has to be assumed of the random tokens.\<close>

definition invitation_spent :: "db \<Rightarrow> int \<Rightarrow> bool" where
  "invitation_spent d n \<longleftrightarrow>
     n < nextId d InvitationT \<and> (\<forall>i \<in> set (saInvitations d). inv_id i = n \<longrightarrow> inv_usedAt i \<noteq> None)"

lemma keeps_spent_statements [keeps_intros]:
  "keeps (\<lambda>d. invitation_spent d n) (create_user x)" "keeps (\<lambda>d. invitation_spent d n) (update_user b g)"
  "keeps (\<lambda>d. invitation_spent d n) (delete_user b)" "keeps (\<lambda>d. invitation_spent d n) (create_account a)"
  "keeps (\<lambda>d. invitation_spent d n) (create_sa_user u)" "keeps (\<lambda>d. invitation_spent d n) (update_sa_user pid f)"
  "keeps (\<lambda>d. invitation_spent d n) (delete_sa_user pid)"
  "keeps (\<lambda>d. invitation_spent d n) (create_user_roles k ks)"
  "keeps (\<lambda>d. invitation_spent d n) (create_user_permissions k ks)"
  "keeps (\<lambda>d. invitation_spent d n) (delete_user_roles_of k)"
  "keeps (\<lambda>d. invitation_spent d n) (delete_user_permissions_of k)"
  "keeps (\<lambda>d. invitation_spent d n) (create_user_role k l)" "keeps (\<lambda>d. invitation_spent d n) (delete_user_role k l)"
  "keeps (\<lambda>d. invitation_spent d n) (delete_sessions_of b)" "keeps (\<lambda>d. invitation_spent d n) (delete_two_factor_of b)"
  "keeps (\<lambda>d. invitation_spent d n) (revokeForUser now k)" "keeps (\<lambda>d. invitation_spent d n) (create_invitation v)"
  "keeps (\<lambda>d. invitation_spent d n) (modifyE (expire_invitations_of k))"
  "keeps (\<lambda>d. invitation_spent d n) (claim_invitation m now)"
  by (auto simp: keeps_def invitation_spent_def statement_defs Let_def delete_user_roles_of_def
      delete_user_permissions_of_def create_user_role_def delete_user_role_def delete_sessions_of_def
      delete_two_factor_of_def revokeForUser_def revoke_where_def expire_invitations_of_def claim_invitation_def
      split: option.splits)

lemma keeps_spent_user_op: "keeps (\<lambda>d. invitation_spent d n) (run_user_op h c op)"
  by (cases op)
    (auto simp: discard_def createUser_def createUser_rows_def updateUser_def deleteUser_def assignRole_def
      removeRole_def setUserRoles_def setUserDirectPermissions_def resendInvitation_def
      resendActivationEmail_def reset2fa_def resetPassword_def simp del: ret_apply intro!: keeps_intros)

lemma keeps_spent_accept:
  "keeps (\<lambda>d. invitation_spent d n) (accept_commit uuid hashed now m u b)"
  "keeps (\<lambda>d. invitation_spent d n) (acceptInvitation h hp uuid clk token password)"
  by (auto simp: accept_commit_def acceptInvitation_def accept_check_def simp del: ret_apply intro!: keeps_intros)

datatype invitation_event =
    UserRequest host string user_op
  | Acceptance host "string \<Rightarrow> string" string "nat \<Rightarrow> int" string string
  | CommitOnly string string int int sa_user user_row

fun invitation_step :: "invitation_event \<Rightarrow> db \<Rightarrow> db" where
  "invitation_step (UserRequest h c op) d = snd (run_user_op h c op d)"
| "invitation_step (Acceptance h hp uuid clk token pw) d = snd (acceptInvitation h hp uuid clk token pw d)"
| "invitation_step (CommitOnly uuid hashed now n u b) d = snd (accept_commit uuid hashed now n u b d)"

definition redeem_invitation :: "string \<times> string \<times> int \<times> sa_user \<times> user_row \<Rightarrow> int \<Rightarrow> (db, unit) eff" where
  "redeem_invitation x n = (case x of (uuid, hashed, now, u, b) \<Rightarrow> accept_commit uuid hashed now n u b)"

lemma spent_step: "invitation_spent d n \<Longrightarrow> invitation_spent (invitation_step e d) n"
  using keeps_spent_user_op keeps_spent_accept unfolding keeps_def by (cases e) auto

lemma spent_commit:
  assumes "invitation_spent d n"
  shows "accept_commit uuid hashed now n u b d = (Inl (BadRequestE ''Invitation already used or expired''), d)"
proof -
  have "filter (claimable n now) (saInvitations d) = []"
    using assms by (auto simp: filter_empty_conv claimable_def invitation_spent_def)
  then show ?thesis by (simp add: accept_commit_def claim_invitation_def transaction_def bindE_def)
qed

text \<open>A successful commit marked the only row with that number.\<close>

lemma commit_spends:
  assumes "db_ok d" "accept_commit uuid hashed now n u b d = (Inr x, t)"
  shows "invitation_spent t n"
proof -
  define s where "s = d\<lparr>saInvitations := map (\<lambda>i. if claimable n now i then i\<lparr>inv_usedAt := Some now\<rparr> else i)
      (saInvitations d)\<rparr>"
  let ?rest = "thenE (create_account \<lparr>acc_id = uuid, acc_accountId = usr_id b, acc_providerId = ''credential'',
        acc_userId = usr_id b, acc_password = Some hashed\<rparr>)
      (thenE (discard (update_sa_user (sau_publicId u) (\<lambda>x. x\<lparr>sau_status := Active\<rparr>)))
             (discard (update_user (usr_id b) (\<lambda>x. x\<lparr>usr_emailVerified := True\<rparr>))))"
  have one: "length (filter (claimable n now) (saInvitations d)) = 1" and run: "?rest s = (Inr x, t)"
    using assms(2) by (auto simp: accept_commit_def claim_invitation_def eff_simps s_def split: if_splits)
  from one obtain i where i: "i \<in> set (saInvitations d)" "claimable n now i"
    by (metis filter_empty_conv list.size(3) zero_neq_one)
  have only: "j = i" if "j \<in> set (saInvitations d)" "inv_id j = n" for j
    using that i db_ok_parts(1)[OF assms(1)] unfolding keys_ok_def claimable_def by (metis distinct_map_eq)
  have "n < nextId d InvitationT"
    using i db_ok_parts(3)[OF assms(1)] by (auto simp: seqs_ok_def claimable_def)
  then have spent: "invitation_spent s n" using only i(2) by (auto simp: invitation_spent_def s_def)
  have keep: "keeps (\<lambda>d. invitation_spent d n) ?rest"
    by (auto simp: discard_def simp del: ret_apply intro!: keeps_intros)
  show ?thesis by (rule keepsD[OF keep spent run])
qed

interpretation invitation_store: single_use redeem_invitation invitation_step "\<lambda>_ _. True" db_ok invitation_spent
  by unfold_locales
    (auto simp: redeem_invitation_def spent_commit spent_step intro: commit_spends split: prod.splits)

lemma admissible_always: "admissible_events step (\<lambda>_ _. True) es s"
  by (induction es arbitrary: s) auto

text \<open>An invitation is accepted at most once. After a successful acceptance every later attempt to
  commit an acceptance of it, also one that had already passed the check when the first committed,
  is refused and changes nothing, whatever user requests and acceptances came in between.\<close>

theorem invitation_accepted_at_most_once:
  assumes "db_ok d" "accept_check h now token pw d = (Inr (i, u, b), d)"
    and "accept_commit uuid hashed now' (inv_id i) u b d = (Inr x, t)"
  shows "accept_commit uuid2 hashed2 now2 (inv_id i) u2 b2 (run_events invitation_step es t) =
     (Inl (BadRequestE ''Invitation already used or expired''), run_events invitation_step es t)"
proof -
  have "redeem_invitation (uuid, hashed, now', u, b) (inv_id i) d = (Inr x, t)"
    using assms(3) by (simp add: redeem_invitation_def)
  from invitation_store.spent_run[OF invitation_store.success_spends[OF assms(1) this] admissible_always]
  show ?thesis by (rule spent_commit)
qed

section \<open>What acceptance does\<close>

lemma invitee_rows:
  assumes "db_ok d" "invitee d i = Some (u, b, g)"
  shows "sau_by_publicId d (sau_publicId u) = Some u" "user_by_id d (usr_id b) = Some b"
    "usr_id b = sau_betterAuthUserId u"
  using assms(2) lookup_complete(6)[OF db_ok_parts(1)[OF assms(1)], of u]
  by (auto simp: invitee_def dest!: lookup_sound(1,7) split: option.splits)
    (metis lookup_complete(1)[OF db_ok_parts(1)[OF assms(1)]])

definition has_credential :: "db \<Rightarrow> string \<Rightarrow> bool" where
  "has_credential d b \<longleftrightarrow> (\<exists>a \<in> set (accounts d). acc_providerId a = ''credential'' \<and> acc_accountId a = b)"

text \<open>The database after an acceptance at time \<open>now\<close>.\<close>

definition accepted :: "string \<Rightarrow> string \<Rightarrow> int \<Rightarrow> int \<Rightarrow> sa_user \<Rightarrow> user_row \<Rightarrow> db \<Rightarrow> db" where
  "accepted uuid hashed now n u b d =
     d\<lparr>saInvitations := map (\<lambda>i. if claimable n now i then i\<lparr>inv_usedAt := Some now\<rparr> else i) (saInvitations d),
       accounts := accounts d @ [\<lparr>acc_id = uuid, acc_accountId = usr_id b, acc_providerId = ''credential'',
                                  acc_userId = usr_id b, acc_password = Some hashed\<rparr>],
       saUsers := replace_row sau_publicId (sau_publicId u) (u\<lparr>sau_status := Active\<rparr>) (saUsers d),
       users := replace_row usr_id (usr_id b) (b\<lparr>usr_emailVerified := True\<rparr>) (users d)\<rparr>"

lemma commit_exact:
  assumes "db_ok d" "i \<in> set (saInvitations d)" "inv_usedAt i = None" "invitee d i = Some (u, b, g)"
  shows "accept_commit uuid hashed now (inv_id i) u b d =
     (if inv_expiresAt i \<le> now then (Inl (BadRequestE ''Invitation already used or expired''), d)
      else if has_credential d (usr_id b) then (Inl P2002, d)
      else (Inr (), accepted uuid hashed now (inv_id i) u b d))"
proof -
  have only: "j \<in> set (saInvitations d) \<Longrightarrow> inv_id j = inv_id i \<Longrightarrow> j = i" for j
    using assms(2) db_ok_parts(1)[OF assms(1)] unfolding keys_ok_def by (metis distinct_map_eq)
  have count: "length (filter (claimable (inv_id i) now) (saInvitations d)) = (if inv_expiresAt i \<le> now then 0 else 1)"
  proof (cases "inv_expiresAt i \<le> now")
    case True
    have "\<not> claimable (inv_id i) now j" if "j \<in> set (saInvitations d)" for j
      using that True by (auto simp: claimable_def dest: only)
    then show ?thesis using True by (simp add: filter_empty_conv)
  next
    case False
    have "filter (claimable (inv_id i) now) (saInvitations d) = filter (\<lambda>j. inv_id j = inv_id i) (saInvitations d)"
      using False assms(3) by (intro filter_cong) (auto simp: claimable_def dest!: only)
    moreover have "length (filter (\<lambda>j. inv_id j = inv_id i) xs) = 1"
      if "i \<in> set xs" "distinct (map inv_id xs)" for xs
      using that by (induction xs) (auto simp: filter_empty_conv image_iff)
    ultimately show ?thesis using False assms(2) db_ok_parts(1)[OF assms(1)] by (simp add: keys_ok_def)
  qed
  define s where "s = d\<lparr>saInvitations := map (\<lambda>j. if claimable (inv_id i) now j then j\<lparr>inv_usedAt := Some now\<rparr> else j)
      (saInvitations d)\<rparr>"
  note rows = invitee_rows[OF assms(1,4)]
  let ?a = "\<lparr>acc_id = uuid, acc_accountId = usr_id b, acc_providerId = ''credential'', acc_userId = usr_id b,
      acc_password = Some hashed\<rparr>"
  have account: "create_account ?a s =
      (if has_credential d (usr_id b) then (Inl P2002, s) else (Inr (), s\<lparr>accounts := accounts s @ [?a]\<rparr>))"
    using rows(2) by (auto simp: create_account_def taken_def has_credential_def s_def user_by_id_def image_iff)
  have "keys_ok d" using db_ok_parts(1)[OF assms(1)] .
  then have user: "update_sa_user (sau_publicId u) (\<lambda>x. x\<lparr>sau_status := Active\<rparr>) (s\<lparr>accounts := accounts s @ [?a]\<rparr>) =
      (Inr (u\<lparr>sau_status := Active\<rparr>), s\<lparr>accounts := accounts s @ [?a],
         saUsers := replace_row sau_publicId (sau_publicId u) (u\<lparr>sau_status := Active\<rparr>) (saUsers d)\<rparr>)"
    using update_sa_user_same[OF \<open>keys_ok d\<close> rows(1), of "\<lambda>x. x\<lparr>sau_status := Active\<rparr>"] rows(1)
    by (auto simp: update_sa_user_def Let_def s_def sau_by_publicId_def split: if_splits)
  show ?thesis
  proof (cases "inv_expiresAt i \<le> now")
    case True
    then show ?thesis
      using count by (simp add: accept_commit_def claim_invitation_def transaction_def bindE_def)
  next
    case False
    have run: "accept_commit uuid hashed now (inv_id i) u b d =
        transaction (\<lambda>_. thenE (create_account ?a)
          (thenE (discard (update_sa_user (sau_publicId u) (\<lambda>x. x\<lparr>sau_status := Active\<rparr>)))
             (discard (update_user (usr_id b) (\<lambda>x. x\<lparr>usr_emailVerified := True\<rparr>)))) s) d"
      using False count by (simp add: accept_commit_def claim_invitation_def transaction_def bindE_def s_def)
    have last: "user_by_id (s\<lparr>accounts := accounts s @ [?a], saUsers := us\<rparr>) (usr_id b) = Some b" for us
      using rows(2) by (simp add: user_by_id_def s_def)
    show ?thesis
      unfolding run using False account user last
      by (simp add: transaction_def thenE_def bindE_def discard_def update_user_def s_def accepted_def)
  qed
qed

text \<open>C24 What accepting an invitation does in every case. The user's status is not among the conditions:
  a user whom an administrator deactivated while the invitation was open becomes active by
  accepting it.\<close>

theorem invitation_acceptance_exact:
  assumes "db_ok d" "invitation_by_token d token = Some i" "invitee d i = Some (u, b, g)"
  shows "acceptInvitation h hp uuid clk token pw d =
     (if inv_usedAt i \<noteq> None then (Inl (BadRequestE ''Invitation already used''), d)
      else if inv_expiresAt i < clk 0 then (Inl (BadRequestE ''Invitation expired''), d)
      else if \<not> meets_policy pw (policy_for_app h d (org_appId g)) then
        (Inl (BadRequestE ''password.policyViolation''), d)
      else if inv_expiresAt i \<le> clk 1 then (Inl (BadRequestE ''Invitation already used or expired''), d)
      else if has_credential d (usr_id b) then (Inl P2002, d)
      else (Inr \<lparr>au_publicId = sau_publicId u, au_orgId = sau_orgId u, au_firstName = sau_firstName u,
                 au_lastName = sau_lastName u, au_email = usr_email b\<rparr>,
            accepted uuid (hp pw) (clk 1) (inv_id i) u b d))"
proof -
  have i: "i \<in> set (saInvitations d)" using assms(2) by (auto simp: invitation_by_token_def dest: find_Some_iff)
  have policy: "validatePasswordOrThrow pw p =
      (if meets_policy pw p then Inr () else Inl (BadRequestE ''password.policyViolation''))" for p
    using validate_iff[of pw p] by (auto simp: validatePasswordOrThrow_def split: if_splits)
  show ?thesis
  proof (cases "inv_usedAt i")
    case None
    show ?thesis
      using assms(2,3) None policy commit_exact[OF assms(1) i None assms(3), of uuid "hp pw" "clk 1"]
      by (simp add: acceptInvitation_def accept_check_def bindE_def findE_def thenE_def)
  next
    case (Some v)
    then show ?thesis
      using assms(2,3) by (simp add: acceptInvitation_def accept_check_def bindE_def findE_def thenE_def)
  qed
qed

text \<open>A user whom an administrator deactivated, with an open invitation.\<close>

definition open_invitation :: sa_invitation where
  "open_invitation = \<lparr>inv_id = 4, inv_publicId = ''xxxx'', inv_token = ''tok'', inv_userId = 3, inv_expiresAt = 1000,
     inv_usedAt = None, inv_createdAt = 0\<rparr>"

definition deactivated_user :: sa_user where
  "deactivated_user = (example_sa_user 3 ''b3'' 2)\<lparr>sau_status := Inactive\<rparr>"

definition invited_db :: db where
  "invited_db = example_db\<lparr>accounts := [], saInvitations := [open_invitation],
     saUsers := [example_sa_user 1 ''b1'' 1, example_sa_user 2 ''b2'' 2, deactivated_user]\<rparr>"

lemma invited_db_ok: "db_ok invited_db"
  by (simp add: invited_db_def open_invitation_def deactivated_user_def db_ok_def keys_ok_def fks_ok_def seqs_ok_def
      some_values_def example_defs numeral_2_eq_2 numeral_3_eq_3)

lemma invited_rows:
  "invitation_by_token invited_db ''tok'' = Some open_invitation"
  "invitee invited_db open_invitation = Some (deactivated_user, example_user_row ''b3'' ''user@c'',
     \<lparr>org_id = 2, org_publicId = ''xx'', org_name = ''C'', org_appId = 2, org_isPlatform = False\<rparr>)"
  by (simp_all add: invitation_by_token_def invitee_def invited_db_def open_invitation_def deactivated_user_def
      sau_by_id_def user_by_id_def org_by_id_def example_defs)

lemma invited_password: "meets_policy ''Abcdefgh1!xyz'' (policy_for_app example_host invited_db 2)"
  by code_simp

lemma invitation_acceptance_exact_witness:
  "acceptInvitation example_host id ''uuid'' (\<lambda>_. 5) ''tok'' ''Abcdefgh1!xyz'' invited_db =
     (Inr \<lparr>au_publicId = ''xxx'', au_orgId = 2, au_firstName = ''F'', au_lastName = ''L'', au_email = ''user@c''\<rparr>,
      accepted ''uuid'' ''Abcdefgh1!xyz'' 5 4 deactivated_user (example_user_row ''b3'' ''user@c'') invited_db)"
proof -
  have free: "\<not> has_credential invited_db ''b3''" by (simp add: has_credential_def invited_db_def)
  from invitation_acceptance_exact[OF invited_db_ok invited_rows, of example_host id "''uuid''" "\<lambda>_. 5"
      "''Abcdefgh1!xyz''"]
  show ?thesis
    using free invited_password
    by (simp add: open_invitation_def deactivated_user_def example_sa_user_def example_user_row_def)
qed

lemma invitation_accepted_at_most_once_witness:
  "\<exists>t. accept_commit ''uuid'' ''hpw'' 5 4 deactivated_user (example_user_row ''b3'' ''user@c'') invited_db = (Inr (), t) \<and>
     accept_commit ''other'' ''hpw'' 5 4 deactivated_user (example_user_row ''b3'' ''user@c'')
       (run_events invitation_step [Acceptance example_host id ''third'' (\<lambda>_. 6) ''tok'' ''Abcdefgh1!xyz''] t) =
     (Inl (BadRequestE ''Invitation already used or expired''),
      run_events invitation_step [Acceptance example_host id ''third'' (\<lambda>_. 6) ''tok'' ''Abcdefgh1!xyz''] t)"
proof -
  have check: "accept_check example_host 5 ''tok'' ''Abcdefgh1!xyz'' invited_db =
      (Inr (open_invitation, deactivated_user, example_user_row ''b3'' ''user@c''), invited_db)"
    using invited_rows invited_password validate_iff[THEN iffD2, OF invited_password]
    by (simp add: accept_check_def bindE_def findE_def thenE_def liftR_def open_invitation_def)
  have i: "inv_id open_invitation = 4" by (simp add: open_invitation_def)
  have "\<exists>t. accept_commit ''uuid'' ''hpw'' 5 (inv_id open_invitation) deactivated_user (example_user_row ''b3'' ''user@c'')
      invited_db = (Inr (), t)"
    using commit_exact[OF invited_db_ok _ _ invited_rows(2)]
    by (simp add: invited_db_def open_invitation_def has_credential_def)
  then obtain t where run: "accept_commit ''uuid'' ''hpw'' 5 (inv_id open_invitation) deactivated_user
      (example_user_row ''b3'' ''user@c'') invited_db = (Inr (), t)" by blast
  from invitation_accepted_at_most_once[OF invited_db_ok check run, unfolded i] run[unfolded i] show ?thesis by blast
qed

end
