(* ===== verification/Consent.thy ===== *)
theory Consent
  imports Users
begin

text \<open>
  Legal consent, \<open>consent/*.ts\<close> with \<open>common/geoip/*.ts\<close>, and the endpoints of the signed-in user's own
  profile, \<open>me/me.service.ts\<close>, with \<open>auth/should-prompt-two-factor.ts\<close>. The GeoIP reader is a
  parameter.
\<close>

section \<open>Which documents an app requires\<close>

datatype document_type = PrivacyPolicy | Terms | Gdpr

fun document_name :: "document_type \<Rightarrow> string" where
  "document_name PrivacyPolicy = ''privacy_policy''"
| "document_name Terms = ''terms''"
| "document_name Gdpr = ''gdpr''"

record consent_document =
  doc_type :: document_type
  doc_url :: string

definition GDPR_COUNTRIES :: "string list" where
  "GDPR_COUNTRIES =
     [''AT'', ''BE'', ''BG'', ''HR'', ''CY'', ''CZ'', ''DK'', ''EE'', ''FI'', ''FR'', ''DE'', ''GR'',
      ''HU'', ''IE'', ''IT'', ''LV'', ''LT'', ''LU'', ''MT'', ''NL'', ''PL'', ''PT'', ''RO'', ''SK'',
      ''SI'', ''ES'', ''SE'', ''IS'', ''LI'', ''NO'', ''GB'', ''CH'']"

text \<open>\<open>toUpperCase\<close>; the sharp s becomes two letters, and the two letters whose capital lies outside
  Latin-1 stay as they are.\<close>

definition upper_chars :: "char \<Rightarrow> string" where
  "upper_chars c =
     (if char_code c = 223 then ''SS''
      else if is_lower_az c \<or> (224 \<le> char_code c \<and> char_code c \<le> 254 \<and> char_code c \<noteq> 247)
      then [char_of (char_code c - 32)] else [c])"

definition isGdprCountry :: "string \<Rightarrow> bool" where
  "isGdprCountry countryCode \<longleftrightarrow> concat (map upper_chars countryCode) \<in> set GDPR_COUNTRIES"

text \<open>\<open>resolveCountryFromIp\<close>: no reader without a database file; \<open>Inl\<close> is a lookup that throws, and a
  record may lack a country.\<close>

definition resolveCountryFromIp :: "(string \<Rightarrow> err + string option) option \<Rightarrow> string \<Rightarrow> string option" where
  "resolveCountryFromIp reader ip =
     (case reader of
        None \<Rightarrow> None
      | Some get \<Rightarrow> (case get ip of Inl e \<Rightarrow> None | Inr country \<Rightarrow> country))"

definition resolveRequiredConsent :: "sa_app \<Rightarrow> string option \<Rightarrow> consent_document list" where
  "resolveRequiredConsent app countryCode =
     (if truthy (app_privacyPolicyUrl app) then [\<lparr>doc_type = PrivacyPolicy, doc_url = the (app_privacyPolicyUrl app)\<rparr>] else []) @
     (if truthy (app_termsUrl app) then [\<lparr>doc_type = Terms, doc_url = the (app_termsUrl app)\<rparr>] else []) @
     (if truthy (app_gdprUrl app) \<and> (case countryCode of None \<Rightarrow> True | Some c \<Rightarrow> isGdprCountry c)
      then [\<lparr>doc_type = Gdpr, doc_url = the (app_gdprUrl app)\<rparr>] else [])"

section \<open>What is still to be accepted, and recording it\<close>

definition accepted_types :: "db \<Rightarrow> int \<Rightarrow> int \<Rightarrow> string list" where
  "accepted_types d saUserId appId =
     map con_documentType (filter (\<lambda>c. con_saUserId c = saUserId \<and> con_appId c = appId) (saUserConsents d))"

definition resolveOutstandingConsent :: "db \<Rightarrow> int \<Rightarrow> sa_app \<Rightarrow> string option \<Rightarrow> consent_document list" where
  "resolveOutstandingConsent d saUserId app countryCode =
     filter (\<lambda>doc. document_name (doc_type doc) \<notin> set (accepted_types d saUserId (app_id app)))
       (resolveRequiredConsent app countryCode)"

definition consent_row :: "int \<Rightarrow> int \<Rightarrow> int \<Rightarrow> consent_document \<Rightarrow> sa_user_consent" where
  "consent_row now saUserId appId doc =
     \<lparr>con_saUserId = saUserId, con_appId = appId, con_documentType = document_name (doc_type doc),
      con_url = doc_url doc, con_acceptedAt = now\<rparr>"

definition recordConsent :: "int \<Rightarrow> int \<Rightarrow> int \<Rightarrow> consent_document list \<Rightarrow> (db, unit) eff" where
  "recordConsent now saUserId appId documents =
     (if documents = [] then ret () else create_consents (map (consent_row now saUserId appId) documents))"

section \<open>The own profile\<close>

abbreviation find_caller :: "string \<Rightarrow> (db, sa_user) eff" where
  "find_caller callerBaId \<equiv> findE (\<lambda>d. sau_by_betterAuthUserId d callerBaId) forbidden"

definition getMyPermissions :: "string \<Rightarrow> (db, string list) eff" where
  "getMyPermissions callerBaId =
     bindE (find_caller callerBaId) (\<lambda>u. readE (\<lambda>d. sort_unique (map perm_name (held_permissions d (sau_id u)))))"

definition getTwoFactorStatus :: "string \<Rightarrow> (db, int option) eff" where
  "getTwoFactorStatus baId = bindE (find_caller baId) (\<lambda>u. ret (sau_twoFactorPromptedAt u))"

definition recordTwoFactorPrompted :: "int \<Rightarrow> string \<Rightarrow> (db, unit) eff" where
  "recordTwoFactorPrompted now baId =
     modifyE (\<lambda>d. d\<lparr>saUsers := map (\<lambda>u. if sau_betterAuthUserId u = baId then u\<lparr>sau_twoFactorPromptedAt := Some now\<rparr>
                                      else u) (saUsers d)\<rparr>)"

record my_profile =
  mp_userId :: string
  mp_org :: "string \<times> string \<times> bool"
  mp_app :: "string \<times> string \<times> bool"

definition getMyProfile :: "string \<Rightarrow> (db, my_profile) eff" where
  "getMyProfile callerBaId =
     bindE (find_caller callerBaId) (\<lambda>u.
     bindE (findE (\<lambda>d. org_by_id d (sau_orgId u)) inconsistent) (\<lambda>g.
     bindE (findE (\<lambda>d. app_by_id d (org_appId g)) inconsistent) (\<lambda>a.
       ret \<lparr>mp_userId = sau_publicId u, mp_org = (org_publicId g, org_name g, org_isPlatform g),
            mp_app = (app_publicId a, app_name a, app_isPlatform a)\<rparr>)))"

definition getOutstandingConsent ::
    "(string \<Rightarrow> err + string option) option \<Rightarrow> string \<Rightarrow> string \<Rightarrow> string \<Rightarrow> (db, consent_document list) eff" where
  "getOutstandingConsent geo baId appPublicId ip =
     bindE (find_caller baId) (\<lambda>u.
     bindE (findE (\<lambda>d. app_by_publicId d appPublicId) (NotFoundE ''App not found'')) (\<lambda>app.
     readE (\<lambda>d. resolveOutstandingConsent d (sau_id u) app (resolveCountryFromIp geo ip))))"

definition recordMyConsent ::
    "(string \<Rightarrow> err + string option) option \<Rightarrow> int \<Rightarrow> string \<Rightarrow> string \<Rightarrow> string \<Rightarrow> document_type list \<Rightarrow> (db, unit) eff" where
  "recordMyConsent geo now baId appPublicId ip accepted =
     bindE (find_caller baId) (\<lambda>u.
     bindE (findE (\<lambda>d. app_by_publicId d appPublicId) (NotFoundE ''App not found'')) (\<lambda>app.
     bindE (readE (\<lambda>d. resolveOutstandingConsent d (sau_id u) app (resolveCountryFromIp geo ip))) (\<lambda>outstanding.
       (let missing = filter (\<lambda>doc. doc_type doc \<notin> set accepted) outstanding in
        if missing \<noteq> [] then
          raise (BadRequestE (''Missing acceptance for: '' @
            js_join '', '' (map (\<lambda>doc. document_name (doc_type doc)) missing)))
        else recordConsent now (sau_id u) (app_id app) (filter (\<lambda>doc. doc_type doc \<in> set accepted) outstanding)))))"

text \<open>\<open>auth/should-prompt-two-factor.ts\<close>\<close>

definition shouldPromptTwoFactor :: "bool \<Rightarrow> int option \<Rightarrow> int \<Rightarrow> int \<Rightarrow> bool \<Rightarrow> bool" where
  "shouldPromptTwoFactor twoFactorEnabled promptedAt now intervalDays promptEnabled =
     (if \<not> promptEnabled then False
      else if twoFactorEnabled then False
      else (case promptedAt of
              None \<Rightarrow> True
            | Some p \<Rightarrow> now - p > intervalDays * 24 * 60 * 60 * 1000))"

section \<open>Integrity\<close>

lemma keeps_recordConsent [keeps_intros]: "keeps db_ok (recordConsent now u a docs)"
  by (auto simp: recordConsent_def simp del: ret_apply intro!: keeps_intros)

lemma keeps_recordMyConsent: "keeps db_ok (recordMyConsent geo now b p ip ts)"
  by (auto simp: recordMyConsent_def Let_def simp del: ret_apply intro!: keeps_intros)

text \<open>The integrity of the database depends on six columns of the user table only.\<close>

lemma db_ok_user_columns:
  assumes "db_ok d"
    and columns: "map sau_id us = map sau_id (saUsers d)" "map sau_publicId us = map sau_publicId (saUsers d)"
      "map sau_betterAuthUserId us = map sau_betterAuthUserId (saUsers d)" "map sau_orgId us = map sau_orgId (saUsers d)"
      "map sau_phoneNumber us = map sau_phoneNumber (saUsers d)" "map sau_username us = map sau_username (saUsers d)"
  shows "db_ok (d\<lparr>saUsers := us\<rparr>)"
proof (rule db_okI)
  note sets = columns[THEN arg_cong[where f = set], unfolded set_map]
  show "keys_ok (d\<lparr>saUsers := us\<rparr>)"
    using db_ok_parts(1)[OF assms(1)] by (simp add: keys_ok_def columns)
  show "fks_ok (d\<lparr>saUsers := us\<rparr>)"
    using db_ok_parts(2)[OF assms(1)] by (simp add: fks_ok_def sets)
  have "(\<forall>u \<in> set us. sau_id u < n) \<longleftrightarrow> (\<forall>u \<in> set (saUsers d). sau_id u < n)" for n
    using sets(1) by (metis (no_types, lifting) image_iff)
  then show "seqs_ok (d\<lparr>saUsers := us\<rparr>)"
    using db_ok_parts(3)[OF assms(1)] by (simp add: seqs_ok_def)
qed

lemma keeps_recordTwoFactorPrompted: "keeps db_ok (recordTwoFactorPrompted now b)"
  unfolding recordTwoFactorPrompted_def by (intro keeps_modifyE db_ok_user_columns) auto

section \<open>Consent is settled by recording it\<close>

lemma document_name_inj: "document_name x = document_name y \<longleftrightarrow> x = y"
  by (cases x; cases y) auto

lemma required_distinct: "distinct (map (document_name \<circ> doc_type) (resolveRequiredConsent app c))"
  by (auto simp: resolveRequiredConsent_def)

lemma distinct_filter_map: "distinct (map f xs) \<Longrightarrow> distinct (map f (filter P xs))"
  by (rule distinct_map_filter_keys)

text \<open>The unique key of the consent table cannot be hit by documents that are outstanding.\<close>

lemma record_outstanding:
  assumes "db_ok d" "sau_by_betterAuthUserId d ba = Some u" "app_by_publicId d pid = Some a"
    and "docs = resolveOutstandingConsent d (sau_id u) a c"
  shows "recordConsent now (sau_id u) (app_id a) docs d =
    (Inr (), d\<lparr>saUserConsents := saUserConsents d @ map (consent_row now (sau_id u) (app_id a)) docs\<rparr>)"
proof -
  let ?key = "\<lambda>c. (con_saUserId c, con_appId c, con_documentType c)" and ?row = "consent_row now (sau_id u) (app_id a)"
  have "distinct (map (document_name \<circ> doc_type) docs)"
    unfolding assms(4) resolveOutstandingConsent_def by (intro distinct_map_filter_keys required_distinct)
  then have new: "distinct (map ?key (map ?row docs))"
    by (simp add: distinct_map comp_def consent_row_def inj_on_def)
  have "distinct (map ?key (saUserConsents d))"
    using db_ok_parts(1)[OF assms(1)] by (simp add: keys_ok_def)
  moreover have "?key ` set (saUserConsents d) \<inter> ?key ` ?row ` set docs = {}"
    unfolding assms(4) by (force simp: resolveOutstandingConsent_def accepted_types_def consent_row_def)
  ultimately have "distinct (map ?key (saUserConsents d @ map ?row docs))"
    using new by (simp only: map_append distinct_append set_map simp_thms)
  moreover have "sau_by_id d (sau_id u) = Some u" "app_by_id d (app_id a) = Some a"
    using lookup_sound(9)[OF assms(2)] lookup_sound(4)[OF assms(3)] lookup_complete(2,5)[OF db_ok_parts(1)[OF assms(1)]]
    by auto
  ultimately show ?thesis
    by (auto simp: recordConsent_def create_consents_def list_ex_iff consent_row_def)
qed

text \<open>Recording consent, exactly: unless every outstanding document is among the accepted ones
  the request is refused with their names and nothing is written; otherwise exactly the
  outstanding documents are recorded, with the URL in force, nothing that was already accepted or
  not required is written, and from then on nothing is outstanding from that country.\<close>

theorem consent_is_settled_by_recording:
  assumes "db_ok d" "sau_by_betterAuthUserId d ba = Some u" "app_by_publicId d pid = Some a"
  shows "let outstanding = resolveOutstandingConsent d (sau_id u) a (resolveCountryFromIp geo ip);
             missing = filter (\<lambda>doc. doc_type doc \<notin> set ts) outstanding;
             t = d\<lparr>saUserConsents := saUserConsents d @ map (consent_row now (sau_id u) (app_id a)) outstanding\<rparr>
         in getOutstandingConsent geo ba pid ip d = (Inr outstanding, d) \<and>
            recordMyConsent geo now ba pid ip ts d =
              (if missing \<noteq> [] then
                 (Inl (BadRequestE (''Missing acceptance for: '' @
                    js_join '', '' (map (\<lambda>doc. document_name (doc_type doc)) missing))), d)
               else (Inr (), t)) \<and>
            getOutstandingConsent geo ba pid ip t = (Inr [], t)"
proof -
  define out where "out = resolveOutstandingConsent d (sau_id u) a (resolveCountryFromIp geo ip)"
  define t where "t = d\<lparr>saUserConsents := saUserConsents d @ map (consent_row now (sau_id u) (app_id a)) out\<rparr>"
  have read: "getOutstandingConsent geo ba pid ip d = (Inr out, d)"
    using assms(2,3) by (simp add: getOutstandingConsent_def bindE_def findE_def out_def)
  have all: "filter (\<lambda>doc. doc_type doc \<in> set ts) out = out" if "filter (\<lambda>doc. doc_type doc \<notin> set ts) out = []"
    using that by (simp add: filter_empty_conv filter_id_conv)
  have recorded: "recordMyConsent geo now ba pid ip ts d =
      (if filter (\<lambda>doc. doc_type doc \<notin> set ts) out \<noteq> [] then
         (Inl (BadRequestE (''Missing acceptance for: '' @
            js_join '', '' (map (\<lambda>doc. document_name (doc_type doc)) (filter (\<lambda>doc. doc_type doc \<notin> set ts) out)))), d)
       else (Inr (), t))"
    using assms(2,3) record_outstanding[OF assms out_def, of now] all
    by (simp add: recordMyConsent_def bindE_def findE_def Let_def out_def[symmetric] t_def)
  have "resolveOutstandingConsent t (sau_id u) a (resolveCountryFromIp geo ip) = []"
    by (auto simp: resolveOutstandingConsent_def accepted_types_def filter_empty_conv t_def out_def consent_row_def)
  moreover have "sau_by_betterAuthUserId t ba = Some u" "app_by_publicId t pid = Some a"
    using assms(2,3) by (simp_all add: t_def lookup_defs)
  ultimately have "getOutstandingConsent geo ba pid ip t = (Inr [], t)"
    by (simp add: getOutstandingConsent_def bindE_def findE_def)
  with read recorded show ?thesis by (simp add: Let_def out_def t_def)
qed

definition consent_db :: db where
  "consent_db = example_db\<lparr>saApps := [platform_app, customer_app\<lparr>app_termsUrl := Some ''https://c/terms''\<rparr>]\<rparr>"

lemma consent_db_ok: "db_ok consent_db"
  by (simp add: consent_db_def db_ok_def keys_ok_def fks_ok_def seqs_ok_def some_values_def example_defs
      numeral_2_eq_2 numeral_3_eq_3)

lemma consent_is_settled_by_recording_witness:
  "recordMyConsent None 9 ''b3'' ''xx'' ''192.0.2.1'' [Terms, Gdpr] consent_db =
     (Inr (), consent_db\<lparr>saUserConsents := [\<lparr>con_saUserId = 3, con_appId = 2, con_documentType = ''terms'',
        con_url = ''https://c/terms'', con_acceptedAt = 9\<rparr>]\<rparr>) \<and>
   recordMyConsent None 9 ''b3'' ''xx'' ''192.0.2.1'' [] consent_db =
     (Inl (BadRequestE ''Missing acceptance for: terms''), consent_db)"
proof -
  let ?a = "customer_app\<lparr>app_termsUrl := Some ''https://c/terms''\<rparr>"
  have rows: "sau_by_betterAuthUserId consent_db ''b3'' = Some (example_sa_user 3 ''b3'' 2)"
      "app_by_publicId consent_db ''xx'' = Some ?a"
    by (simp_all add: lookup_defs consent_db_def example_defs)
  have out: "resolveOutstandingConsent consent_db 3 ?a None = [\<lparr>doc_type = Terms, doc_url = ''https://c/terms''\<rparr>]"
    by (simp add: resolveOutstandingConsent_def resolveRequiredConsent_def accepted_types_def consent_db_def example_defs)
  note run = consent_is_settled_by_recording[OF consent_db_ok rows, where geo = None and ip = "''192.0.2.1''" and now = 9]
  have ids: "sau_id (example_sa_user 3 ''b3'' 2) = 3" "app_id ?a = 2" "saUserConsents consent_db = []"
    by (simp_all add: consent_db_def example_defs)
  show ?thesis
    using run[where ts = "[Terms, Gdpr]"] run[where ts = "[]"] out ids by (simp add: Let_def resolveCountryFromIp_def consent_row_def)
qed

end
