(* ===== verification/Registration.thy ===== *)
theory Registration
  imports Consent Orgs Activation Passwords Oauth_Codes Client_Auth
begin

text \<open>
  Self-service registration, \<open>registration/registration.service.ts\<close>, with the captcha check,
  \<open>registration/turnstile.service.ts\<close>, and the sweep of abandoned signups,
  \<open>registration/abandoned-signup-cleanup.service.ts\<close>. The BetterAuth calls are a parameter, a record
  of effects on the database; the verification rows the library keeps for itself are not part of
  the database here.
\<close>

section \<open>The library and the captcha service\<close>

text \<open>
  \<open>ba_resetPassword\<close> is \<open>resetPassword\<close> on the one-time token the caller has just stored for a user;
  it takes the user the token stands for. \<open>ba_sendCode\<close> is the mail with the one-time code.
\<close>

record better_auth =
  ba_signUpEmail :: "string \<Rightarrow> string \<Rightarrow> string \<Rightarrow> (db, string) eff"
  ba_sendVerificationEmail :: "string \<Rightarrow> string \<Rightarrow> (db, unit) eff"
  ba_createVerificationOTP :: "string \<Rightarrow> (db, string) eff"
  ba_checkVerificationOTP :: "string \<Rightarrow> string \<Rightarrow> (db, unit) eff"
  ba_verifyEmailOTP :: "string \<Rightarrow> string \<Rightarrow> (db, string) eff"
  ba_resetPassword :: "string \<Rightarrow> string \<Rightarrow> (db, unit) eff"
  ba_sendCode :: "string \<Rightarrow> string \<Rightarrow> (db, unit) eff"

text \<open>\<open>fetch\<close> rejects, or answers with \<open>res.ok\<close> and the \<open>success\<close> member of the JSON body.\<close>

datatype siteverify = NoAnswer | Answer bool "bool option"

definition turnstile_verify :: "host \<Rightarrow> (string \<Rightarrow> string \<Rightarrow> siteverify) \<Rightarrow> string \<Rightarrow> bool" where
  "turnstile_verify h fetch token =
     (case h_env h ''TURNSTILE_SECRET_KEY'' of
        None \<Rightarrow> False
      | Some secret \<Rightarrow>
          if secret = [] then False
          else (case fetch secret token of
                  NoAnswer \<Rightarrow> False
                | Answer ok success \<Rightarrow> if \<not> ok then False else success = Some True))"

fun isDuplicateEmailError :: "err \<Rightarrow> bool" where
  "isDuplicateEmailError (UnprocessableE _) = True"
| "isDuplicateEmailError _ = False"

section \<open>Recovering the authorization request\<close>

record recovered_params =
  rp_redirectUri :: string
  rp_codeChallenge :: "string option"
  rp_codeChallengeMethod :: "string option"
  rp_state :: "string option"
  rp_nonce :: "string option"

definition recoverAuthorizeParams :: "host \<Rightarrow> string option \<Rightarrow> string \<Rightarrow> recovered_params option" where
  "recoverAuthorizeParams h next_url appPublicId =
     (if \<not> truthy next_url then None
      else (case h_parse_url h (the next_url) of
              None \<Rightarrow> None
            | Some url \<Rightarrow>
                (let get = map_of (u_params url) in
                 if u_pathname url \<noteq> OAUTH_AUTHORIZE_PATH then None
                 else if get ''client_id'' \<noteq> Some appPublicId then None
                 else if \<not> truthy (get ''redirect_uri'') then None
                 else Some \<lparr>rp_redirectUri = the (get ''redirect_uri''), rp_codeChallenge = get ''code_challenge'',
                            rp_codeChallengeMethod = get ''code_challenge_method'',
                            rp_state = get ''state'', rp_nonce = get ''nonce''\<rparr>)))"

section \<open>What both ways of registering share\<close>

record signup_dto =
  sd_email :: string
  sd_password :: string
  sd_firstName :: string
  sd_lastName :: string
  sd_companyName :: "string option"
  sd_appPublicId :: string
  sd_acceptedPrivacyPolicy :: bool
  sd_acceptedTerms :: bool
  sd_acceptedGdpr :: bool
  sd_next :: "string option"

fun consent_field :: "document_type \<Rightarrow> string" where
  "consent_field PrivacyPolicy = ''privacyPolicy''"
| "consent_field Terms = ''terms''"
| "consent_field Gdpr = ''gdpr''"

fun accepted_field :: "signup_dto \<Rightarrow> document_type \<Rightarrow> bool" where
  "accepted_field dto PrivacyPolicy = sd_acceptedPrivacyPolicy dto"
| "accepted_field dto Terms = sd_acceptedTerms dto"
| "accepted_field dto Gdpr = sd_acceptedGdpr dto"

fun check_accepted :: "signup_dto \<Rightarrow> consent_document list \<Rightarrow> err + unit" where
  "check_accepted dto [] = Inr ()"
| "check_accepted dto (doc # docs) =
     (if \<not> accepted_field dto (doc_type doc) then
        Inl (BadRequestE (''You must accept the '' @ consent_field (doc_type doc) @ '' before signing up''))
      else check_accepted dto docs)"

definition signup_org :: "sa_app \<Rightarrow> string option \<Rightarrow> (db, sa_org option) eff" where
  "signup_org app companyName =
     (case app_defaultOrgId app of
        Some n \<Rightarrow>
          if n \<noteq> 0 then
            bindE (findE (\<lambda>d. org_by_id d n) (NotFoundE ''Default org not found'')) (\<lambda>g. ret (Some g))
          else if js_trim (case companyName of None \<Rightarrow> [] | Some c \<Rightarrow> c) = [] then
            raise (BadRequestE ''companyName is required'')
          else ret None
      | None \<Rightarrow>
          if js_trim (case companyName of None \<Rightarrow> [] | Some c \<Rightarrow> c) = [] then
            raise (BadRequestE ''companyName is required'')
          else ret None)"

text \<open>The checks before any account is touched: policy, consent, organisation.\<close>

definition signup_checks ::
    "host \<Rightarrow> string option \<Rightarrow> signup_dto \<Rightarrow> sa_app \<Rightarrow> (db, consent_document list \<times> sa_org option) eff" where
  "signup_checks h country dto app =
     (let required = resolveRequiredConsent app country in
      thenE (liftR (\<lambda>_. validatePasswordOrThrow (sd_password dto)
                          (resolvePasswordPolicy h (app_passwordPolicyOverride app))))
      (thenE (liftR (\<lambda>_. check_accepted dto required))
      (bindE (signup_org app (sd_companyName dto)) (\<lambda>g. ret (required, g)))))"

definition full_name :: "signup_dto \<Rightarrow> string" where
  "full_name dto = js_trim (sd_firstName dto @ '' '' @ sd_lastName dto)"

text \<open>The transaction of \<open>finishRegistration\<close>.\<close>

definition founded_org :: "host \<Rightarrow> string \<Rightarrow> signup_dto \<Rightarrow> sa_app \<Rightarrow> (db, sa_org) eff" where
  "founded_org h uuid dto app =
     createOrg_rows h uuid (case sd_companyName dto of None \<Rightarrow> ''undefined'' | Some c \<Rightarrow> c) (app_id app)"

definition registered_user :: "string \<Rightarrow> int \<Rightarrow> int \<Rightarrow> signup_dto \<Rightarrow> bool \<Rightarrow> user_status \<Rightarrow> sa_user" where
  "registered_user baUserId now orgId dto marketing status =
     \<lparr>sau_id = 0, sau_publicId = take 12 baUserId, sau_betterAuthUserId = baUserId, sau_orgId = orgId,
      sau_firstName = sd_firstName dto, sau_lastName = sd_lastName dto, sau_marketingOptIn = marketing,
      sau_phoneNumber = None, sau_username = None, sau_status = status,
      sau_createdAt = now, sau_lastLoginAt = None, sau_twoFactorPromptedAt = None\<rparr>"

definition finish_rows ::
    "host \<Rightarrow> string \<Rightarrow> int \<Rightarrow> sa_app \<Rightarrow> string \<Rightarrow> signup_dto \<Rightarrow> bool \<Rightarrow> sa_org option \<Rightarrow> consent_document list \<Rightarrow>
     user_status \<Rightarrow> (db, sa_org \<times> sa_user) eff" where
  "finish_rows h uuid now app baUserId dto marketing defaultOrg required status =
     transaction
       (bindE (case defaultOrg of Some g \<Rightarrow> ret g | None \<Rightarrow> founded_org h uuid dto app) (\<lambda>org.
        bindE (create_sa_user (registered_user baUserId now (org_id org) dto marketing status)) (\<lambda>u.
        thenE (case app_defaultRoleId app of
                 Some r \<Rightarrow> if r \<noteq> 0 then create_user_roles (sau_id u) [r] else ret ()
               | None \<Rightarrow> ret ())
        (thenE (recordConsent now (sau_id u) (app_id app) required)
          (ret (org, u))))))"

section \<open>The redirect back to the relying party\<close>

record signup_target =
  st_redirectUri :: string
  st_codeChallenge :: "string option"
  st_state :: "string option"
  st_nonce :: "string option"

definition choose_target :: "host \<Rightarrow> db \<Rightarrow> sa_app \<Rightarrow> string option \<Rightarrow> signup_target option" where
  "choose_target h d app next_url =
     (let isConfidential = truthy (app_clientSecretHash app);
          recovered = recoverAuthorizeParams h next_url (app_publicId app);
          loginUris = (if recovered \<noteq> None \<or> isConfidential
                       then filter (\<lambda>r. ru_kind r = ''login'') (app_redirect_uris d (app_id app)) else []);
          valid = (case recovered of
                     None \<Rightarrow> False
                   | Some r \<Rightarrow> assertRedirectUriAllowed h (rp_redirectUri r) (app_url app) loginUris = Inr ())
      in if valid then
           (let r = the recovered in
            Some \<lparr>st_redirectUri = rp_redirectUri r,
                  st_codeChallenge = (if truthy (rp_codeChallenge r) \<and> rp_codeChallengeMethod r = Some ''S256''
                                      then rp_codeChallenge r else None),
                  st_state = rp_state r, st_nonce = rp_nonce r\<rparr>)
         else if isConfidential \<and> loginUris \<noteq> [] then
           Some \<lparr>st_redirectUri = ru_uri (hd loginUris), st_codeChallenge = None, st_state = None, st_nonce = None\<rparr>
         else None)"

definition signup_redirect ::
    "host \<Rightarrow> string \<Rightarrow> (nat \<Rightarrow> int) \<Rightarrow> sa_app \<Rightarrow> sa_user \<Rightarrow> string option \<Rightarrow> (db, string option) eff" where
  "signup_redirect h code clk app u next_url =
     bindE (readE (\<lambda>d. choose_target h d app next_url)) (\<lambda>target.
       case target of
         None \<Rightarrow> ret None
       | Some tg \<Rightarrow>
           if st_redirectUri tg \<noteq> [] \<and> (truthy (st_codeChallenge tg) \<or> truthy (app_clientSecretHash app)) then
             bindE (generateCode code (clk 1) (sau_publicId u) (app_publicId app) (st_redirectUri tg)
                      (st_codeChallenge tg) (if st_codeChallenge tg = None then None else Some ''S256'')
                      [''signup''] (st_nonce tg) ''openid profile email'' (clk 2) None) (\<lambda>code.
               case h_parse_url h (st_redirectUri tg) of
                 None \<Rightarrow> raise (JsError ''Invalid URL'')
               | Some url \<Rightarrow>
                   (let url2 = url_set_param url ''code'' code in
                    ret (Some (url_to_string (if truthy (st_state tg) then url_set_param url2 ''state'' (the (st_state tg))
                                              else url2)))))
           else ret None)"

section \<open>Finishing a registration\<close>

text \<open>The reply, and the user the activation webhook is told about when there is one.\<close>

record registration_reply =
  rr_orgPublicId :: string
  rr_redirectUrl :: "string option"
  rr_activated :: "activated_user option"

definition admin_base_url :: "host \<Rightarrow> string" where
  "admin_base_url h = (case h_env h ''ADMIN_URL'' of None \<Rightarrow> ''http://localhost:3001'' | Some u \<Rightarrow> u)"

definition announce ::
    "host \<Rightarrow> better_auth \<Rightarrow> sa_app \<Rightarrow> signup_dto \<Rightarrow> sa_org \<Rightarrow> sa_user \<Rightarrow> bool \<Rightarrow> (db, activated_user option) eff" where
  "announce h ba app dto org u sendLink =
     (if sendLink then
        thenE (ba_sendVerificationEmail ba (sd_email dto)
                 (admin_base_url h @ ''/signup/verified?email='' @ encode_uri_component (sd_email dto) @
                  ''&client_id='' @ encode_uri_component (app_publicId app)))
          (ret None)
      else
        ret (Some \<lparr>au_publicId = sau_publicId u, au_orgId = org_id org, au_firstName = sd_firstName dto,
                   au_lastName = sd_lastName dto, au_email = sd_email dto\<rparr>))"

text \<open>The compensation: an error of the deletion itself is swallowed.\<close>

definition compensate :: "string \<Rightarrow> (db, 'a) eff \<Rightarrow> (db, 'a) eff" where
  "compensate baUserId m =
     catchE m (\<lambda>e. thenE (catchE (delete_user baUserId) (\<lambda>_. ret ())) (raise e))"

definition finishRegistration ::
    "host \<Rightarrow> better_auth \<Rightarrow> string \<Rightarrow> string \<Rightarrow> (nat \<Rightarrow> int) \<Rightarrow> sa_app \<Rightarrow> string \<Rightarrow> signup_dto \<Rightarrow> bool \<Rightarrow>
     sa_org option \<Rightarrow> consent_document list \<Rightarrow> user_status \<Rightarrow> bool \<Rightarrow> (db, registration_reply) eff" where
  "finishRegistration h ba uuid code clk app baUserId dto marketing defaultOrg required status sendLink =
     compensate baUserId
       (bindE (finish_rows h uuid (clk 0) app baUserId dto marketing defaultOrg required status) (\<lambda>(org, u).
        bindE (announce h ba app dto org u sendLink) (\<lambda>activated.
        bindE (signup_redirect h code clk app u (sd_next dto)) (\<lambda>redirectUrl.
          ret \<lparr>rr_orgPublicId = org_publicId org, rr_redirectUrl = redirectUrl, rr_activated = activated\<rparr>))))"

section \<open>The endpoints\<close>

abbreviation already_registered :: err where
  "already_registered \<equiv> ConflictE ''email already registered''"

definition sign_up_account :: "better_auth \<Rightarrow> string \<Rightarrow> string \<Rightarrow> string \<Rightarrow> (db, string) eff" where
  "sign_up_account ba email password nm =
     bindE (catchE (ba_signUpEmail ba email password nm)
              (\<lambda>e. raise (if isDuplicateEmailError e then already_registered else e))) (\<lambda>baUserId.
     bindE (findE (\<lambda>d. user_by_id d baUserId) already_registered) (\<lambda>_. ret baUserId))"

definition register ::
    "host \<Rightarrow> better_auth \<Rightarrow> (string \<Rightarrow> string \<Rightarrow> siteverify) \<Rightarrow> (string \<Rightarrow> err + string option) option \<Rightarrow> string \<Rightarrow>
     string \<Rightarrow> (nat \<Rightarrow> int) \<Rightarrow> signup_dto \<Rightarrow> string \<Rightarrow> string \<Rightarrow> (db, registration_reply) eff" where
  "register h ba fetch geo uuid code clk dto turnstileToken ip =
     (if \<not> turnstile_verify h fetch turnstileToken then raise (UnprocessableE ''captcha verification failed'')
      else
        bindE (findE (\<lambda>d. app_by_publicId d (sd_appPublicId dto)) (NotFoundE ''App not found'')) (\<lambda>app.
        bindE (signup_checks h (resolveCountryFromIp geo ip) dto app) (\<lambda>(required, defaultOrg).
        bindE (sign_up_account ba (sd_email dto) (sd_password dto) (full_name dto)) (\<lambda>baUserId.
          finishRegistration h ba uuid code clk app baUserId dto False defaultOrg required Unverified True))))"

text \<open>What the compensation does not have to undo: an account left over from a dropped signup is used
  again.\<close>

definition startRegistration ::
    "host \<Rightarrow> better_auth \<Rightarrow> (string \<Rightarrow> string \<Rightarrow> siteverify) \<Rightarrow> string \<Rightarrow> string \<Rightarrow> string \<Rightarrow> string \<Rightarrow> (db, unit) eff" where
  "startRegistration h ba fetch placeholderPassword email appPublicId turnstileToken =
     (if \<not> turnstile_verify h fetch turnstileToken then raise (UnprocessableE ''captcha verification failed'')
      else
        bindE (findE (\<lambda>d. app_by_publicId d appPublicId) (NotFoundE ''App not found'')) (\<lambda>app.
        bindE (readE (\<lambda>d. (user_by_email d email,
                 Option.bind (user_by_email d email) (\<lambda>b. sau_by_betterAuthUserId d (usr_id b))))) (\<lambda>(existing, saUser).
        thenE (case existing of
                 Some b \<Rightarrow>
                   if usr_emailVerified b \<or> saUser \<noteq> None then raise already_registered else ret (usr_id b)
               | None \<Rightarrow> sign_up_account ba email placeholderPassword [])
        (bindE (ba_createVerificationOTP ba email) (\<lambda>otp. ba_sendCode ba email otp)))))"

definition mapOtpError :: "err \<Rightarrow> err" where
  "mapOtpError e =
     (if err_message e = ''OTP_EXPIRED'' then BadRequestE ''OTP_EXPIRED''
      else if err_message e = ''TOO_MANY_ATTEMPTS'' then ForbiddenE ''TOO_MANY_ATTEMPTS''
      else BadRequestE ''INVALID_OTP'')"

definition verifyRegistrationCode :: "better_auth \<Rightarrow> string \<Rightarrow> string \<Rightarrow> (db, unit) eff" where
  "verifyRegistrationCode ba email otp =
     catchE (ba_checkVerificationOTP ba email otp) (\<lambda>e. raise (mapOtpError e))"

definition completeRegistration ::
    "host \<Rightarrow> better_auth \<Rightarrow> (string \<Rightarrow> err + string option) option \<Rightarrow> string \<Rightarrow> string \<Rightarrow> (nat \<Rightarrow> int) \<Rightarrow> signup_dto \<Rightarrow>
     string \<Rightarrow> bool option \<Rightarrow> string \<Rightarrow> (db, registration_reply) eff" where
  "completeRegistration h ba geo uuid code clk dto otp marketingOptIn ip =
     bindE (findE (\<lambda>d. app_by_publicId d (sd_appPublicId dto)) (NotFoundE ''App not found'')) (\<lambda>app.
     bindE (signup_checks h (resolveCountryFromIp geo ip) dto app) (\<lambda>(required, defaultOrg).
     bindE (catchE (ba_verifyEmailOTP ba (sd_email dto) otp) (\<lambda>e. raise (mapOtpError e))) (\<lambda>baUserId.
     thenE (discard (update_user baUserId (\<lambda>b. b\<lparr>usr_name := full_name dto\<rparr>)))
     (thenE (ba_resetPassword ba baUserId (sd_password dto))
       (finishRegistration h ba uuid code clk app baUserId dto (marketingOptIn = Some True) defaultOrg required
          Active False)))))"

record signup_app_view =
  sv_name :: string
  sv_hasDefaultOrg :: bool
  sv_canSocialSignup :: bool
  sv_passwordPolicy :: password_policy
  sv_logo :: "string option"
  sv_favicon :: "string option"
  sv_privacyPolicyUrl :: "string option"
  sv_termsUrl :: "string option"
  sv_gdprUrl :: "string option"
  sv_gdprRequired :: bool
  sv_emailVerificationMethod :: email_method
  sv_colors :: "string option list"

definition resolveSocialSignupEligibility :: "sa_app \<Rightarrow> bool" where
  "resolveSocialSignupEligibility app \<longleftrightarrow> app_defaultOrgId app \<noteq> None \<and> app_defaultRoleId app \<noteq> None"

definition getAppName ::
    "host \<Rightarrow> (string \<Rightarrow> err + string option) option \<Rightarrow> string \<Rightarrow> string \<Rightarrow> (db, signup_app_view) eff" where
  "getAppName h geo appPublicId ip =
     (if appPublicId = [] then raise (NotFoundE ''App not found'')
      else
        bindE (findE (\<lambda>d. app_by_publicId d appPublicId) (NotFoundE ''App not found'')) (\<lambda>app.
          ret \<lparr>sv_name = app_name app, sv_hasDefaultOrg = (app_defaultOrgId app \<noteq> None),
               sv_canSocialSignup = resolveSocialSignupEligibility app,
               sv_passwordPolicy = resolvePasswordPolicy h (app_passwordPolicyOverride app),
               sv_logo = logo (app_branding app), sv_favicon = favicon (app_branding app),
               sv_privacyPolicyUrl = app_privacyPolicyUrl app, sv_termsUrl = app_termsUrl app,
               sv_gdprUrl = app_gdprUrl app,
               sv_gdprRequired = list_ex (\<lambda>doc. doc_type doc = Gdpr)
                  (resolveRequiredConsent app (resolveCountryFromIp geo ip)),
               sv_emailVerificationMethod = app_emailVerificationMethod app,
               sv_colors = [pageLightBackgroundColor (app_branding app), pageDarkBackgroundColor (app_branding app),
                            cardLightBackgroundColor (app_branding app), cardDarkBackgroundColor (app_branding app)]\<rparr>))"

section \<open>Abandoned signups\<close>

definition ABANDONED_SIGNUP_TTL_MS :: int where
  "ABANDONED_SIGNUP_TTL_MS = 24 * 60 * 60 * 1000"

definition abandoned :: "int \<Rightarrow> db \<Rightarrow> user_row \<Rightarrow> bool" where
  "abandoned now d b \<longleftrightarrow>
     \<not> usr_emailVerified b \<and> sau_by_betterAuthUserId d (usr_id b) = None \<and>
     usr_createdAt b < now - ABANDONED_SIGNUP_TTL_MS"

definition sweep_abandoned :: "int \<Rightarrow> db \<Rightarrow> nat \<times> db" where
  "sweep_abandoned now d =
     (let gone = filter (abandoned now d) (users d); stays = (\<lambda>i. i \<notin> usr_id ` set gone) in
      (length gone,
       d\<lparr>users := filter (\<lambda>b. \<not> abandoned now d b) (users d),
         sessions := filter (\<lambda>s. stays (ses_userId s)) (sessions d),
         accounts := filter (\<lambda>a. stays (acc_userId a)) (accounts d),
         twoFactors := filter (\<lambda>t. stays (tf_userId t)) (twoFactors d)\<rparr>))"

section \<open>Integrity\<close>

text \<open>What is expected of the library: none of its calls breaks the keys of the database.\<close>

definition ba_sound :: "better_auth \<Rightarrow> bool" where
  "ba_sound ba \<longleftrightarrow>
     (\<forall>x y z. keeps db_ok (ba_signUpEmail ba x y z)) \<and> (\<forall>x y. keeps db_ok (ba_sendVerificationEmail ba x y)) \<and>
     (\<forall>x. keeps db_ok (ba_createVerificationOTP ba x)) \<and> (\<forall>x y. keeps db_ok (ba_checkVerificationOTP ba x y)) \<and>
     (\<forall>x y. keeps db_ok (ba_verifyEmailOTP ba x y)) \<and> (\<forall>x y. keeps db_ok (ba_resetPassword ba x y)) \<and>
     (\<forall>x y. keeps db_ok (ba_sendCode ba x y))"

lemma keeps_founded_org [keeps_intros]: "keeps db_ok (founded_org h uuid dto app)"
  by (auto simp: founded_org_def createOrg_rows_def simp del: ret_apply intro!: keeps_intros keeps_update_org)

lemma keeps_finish_rows [keeps_intros]:
  "keeps db_ok (finish_rows h uuid now app b dto m g required status)"
  by (auto simp: finish_rows_def simp del: ret_apply intro!: keeps_intros split: option.split)

lemma keeps_create_code [keeps_intros]: "keeps db_ok (create_code row)"
proof (rule keeps_db_okI)
  fix d t assume ok: "keys_ok d" "fks_ok d" "seqs_ok d" and t: "snd (create_code row d) = t"
  show "keys_ok t \<and> fks_ok t \<and> seqs_ok t"
  proof (cases "code_row d (oc_code row)")
    case None
    then have "t = d\<lparr>saOauthCodes := saOauthCodes d @ [row]\<rparr>" using t by (auto simp: create_code_def)
    then show ?thesis
      using ok None by (auto simp: keys_ok_def fks_ok_def seqs_ok_def code_row_def find_None_all image_iff)
  qed (use t ok in \<open>auto simp: create_code_def\<close>)
qed

lemma keeps_generateCode [keeps_intros]: "keeps db_ok (generateCode c now u p r ch m amr n sc tm idp)"
  by (auto simp: generateCode_def simp del: ret_apply intro!: keeps_intros)

lemma keeps_signup_redirect [keeps_intros]: "keeps db_ok (signup_redirect h code clk app u url)"
  by (auto simp: signup_redirect_def Let_def simp del: ret_apply intro!: keeps_intros split: option.split)

lemma keeps_compensate [keeps_intros]: "keeps db_ok m \<Longrightarrow> keeps db_ok (compensate b m)"
  by (auto simp: compensate_def simp del: ret_apply intro!: keeps_intros)

lemma keeps_finishRegistration [keeps_intros]:
  "ba_sound ba \<Longrightarrow> keeps db_ok (finishRegistration h ba uuid code clk app b dto m g required status sendLink)"
  by (auto simp: finishRegistration_def announce_def ba_sound_def simp del: ret_apply intro!: keeps_intros)

lemma keeps_signup_checks [keeps_intros]: "keeps db_ok (signup_checks h c dto app)"
  by (auto simp: signup_checks_def signup_org_def Let_def simp del: ret_apply intro!: keeps_intros split: option.split)

lemma keeps_registration:
  assumes "ba_sound ba"
  shows "keeps db_ok (register h ba fetch geo uuid code clk dto token ip)"
    "keeps db_ok (startRegistration h ba fetch pw email pid token)"
    "keeps db_ok (verifyRegistrationCode ba email otp)"
    "keeps db_ok (completeRegistration h ba geo uuid code clk dto otp m ip)"
  using assms
  by (auto simp: register_def startRegistration_def verifyRegistrationCode_def completeRegistration_def
      sign_up_account_def ba_sound_def discard_def simp del: ret_apply
      intro!: keeps_intros keeps_update_user keeps_finishRegistration split: option.split)

section \<open>What the transaction writes\<close>

lemma founded_org_ok:
  assumes "db_ok d" "founded_org h uuid dto app d = (Inr g, t)" "sd_companyName dto = Some c"
  shows "g = \<lparr>org_id = nextId d OrgT, org_publicId = h_sqid_encode h (nextId d OrgT), org_name = c,
              org_appId = app_id app, org_isPlatform = False\<rparr>"
    and "t = d\<lparr>saOrgs := saOrgs d @ [g], nextId := (nextId d)(OrgT := nextId d OrgT + 1)\<rparr>"
proof -
  have old: "\<forall>r \<in> set (saOrgs d). org_id r \<noteq> nextId d OrgT"
    using db_ok_parts(3)[OF assms(1)] by (auto simp: seqs_ok_def)
  then have rest: "replace_row org_id (nextId d OrgT) y (saOrgs d) = saOrgs d" for y
    by (auto simp: replace_row_def intro: map_idI)
  obtain draft s where c: "create_org \<lparr>org_id = 0, org_publicId = generatePendingPublicId uuid, org_name = c,
        org_appId = app_id app, org_isPlatform = False\<rparr> d = (Inr draft, s)"
    and u: "update_org (org_id draft) (\<lambda>p. p\<lparr>org_publicId := h_sqid_encode h (org_id draft)\<rparr>) s = (Inr g, t)"
    using assms(2,3) unfolding founded_org_def createOrg_rows_def bindE_ok by auto
  have draft: "draft = \<lparr>org_id = nextId d OrgT, org_publicId = generatePendingPublicId uuid, org_name = c,
        org_appId = app_id app, org_isPlatform = False\<rparr>"
    and s: "s = d\<lparr>saOrgs := saOrgs d @ [draft], nextId := (nextId d)(OrgT := nextId d OrgT + 1)\<rparr>"
    using c by (auto simp: create_org_def Let_def split: if_splits)
  have "org_by_id s (nextId d OrgT) = Some draft"
    using old by (auto simp: org_by_id_def s find_snoc draft split: option.split dest: find_Some_iff)
  then show "g = \<lparr>org_id = nextId d OrgT, org_publicId = h_sqid_encode h (nextId d OrgT), org_name = c,
              org_appId = app_id app, org_isPlatform = False\<rparr>"
    and "t = d\<lparr>saOrgs := saOrgs d @ [g], nextId := (nextId d)(OrgT := nextId d OrgT + 1)\<rparr>"
    using u rest by (auto simp: update_org_def Let_def draft s replace_row_def split: if_splits)
qed

definition default_roles :: "sa_app \<Rightarrow> int list" where
  "default_roles app = (case app_defaultRoleId app of Some r \<Rightarrow> if r \<noteq> 0 then [r] else [] | None \<Rightarrow> [])"

lemma finish_rows_ok:
  assumes "db_ok d" "finish_rows h uuid now app b dto m g required status d = (Inr (og, u), t)"
    and "g = None \<longrightarrow> sd_companyName dto \<noteq> None"
  shows "u = (registered_user b now (org_id og) dto m status)\<lparr>sau_id := nextId d SaUserT\<rparr>"
    and "saUsers t = saUsers d @ [u]"
    and "saOrgs t = saOrgs d @ (if g = None then [og] else [])"
    and "saUserRoles t = saUserRoles d @ map (Pair (sau_id u)) (default_roles app)"
    and "saUserConsents t = saUserConsents d @ map (consent_row now (sau_id u) (app_id app)) required"
    and "t\<lparr>saOrgs := saOrgs d, saUsers := saUsers d, saUserRoles := saUserRoles d,
            saUserConsents := saUserConsents d, nextId := nextId d\<rparr> = d"
    and "case g of Some g' \<Rightarrow> og = g'
      | None \<Rightarrow> org_name og = the (sd_companyName dto) \<and> org_appId og = app_id app \<and> \<not> org_isPlatform og"
proof -
  obtain s1 s2 s3 where
    org: "(case g of Some g \<Rightarrow> ret g | None \<Rightarrow> founded_org h uuid dto app) d = (Inr og, s1)"
    and user: "create_sa_user (registered_user b now (org_id og) dto m status) s1 = (Inr u, s2)"
    and role: "(case app_defaultRoleId app of
                 Some r \<Rightarrow> if r \<noteq> 0 then create_user_roles (sau_id u) [r] else ret ()
               | None \<Rightarrow> ret ()) s2 = (Inr (), s3)"
    and consent: "recordConsent now (sau_id u) (app_id app) required s3 = (Inr (), t)"
    using assms(2) by (auto simp: finish_rows_def eff_simps)
  have s1: "s1 = d\<lparr>saOrgs := saOrgs d @ (if g = None then [og] else []),
        nextId := (nextId d)(OrgT := nextId d OrgT + (if g = None then 1 else 0))\<rparr> \<and>
      (case g of Some g' \<Rightarrow> og = g'
       | None \<Rightarrow> org_name og = the (sd_companyName dto) \<and> org_appId og = app_id app \<and> \<not> org_isPlatform og)"
  proof (cases g)
    case None
    then obtain c where c: "sd_companyName dto = Some c" using assms(3) by auto
    have run: "founded_org h uuid dto app d = (Inr og, s1)" using org None by simp
    show ?thesis
      using founded_org_ok(1)[OF assms(1) run c] by (subst founded_org_ok(2)[OF assms(1) run c]) (simp add: None c)
  qed (use org in auto)
  have s2: "u = (registered_user b now (org_id og) dto m status)\<lparr>sau_id := nextId s1 SaUserT\<rparr> \<and>
      s2 = s1\<lparr>saUsers := saUsers s1 @ [u], nextId := (nextId s1)(SaUserT := nextId s1 SaUserT + 1)\<rparr>"
    using user by (auto simp: create_sa_user_def Let_def split: if_splits)
  have s3: "s3 = s2\<lparr>saUserRoles := saUserRoles s2 @ map (Pair (sau_id u)) (default_roles app)\<rparr>"
    using role by (auto simp: create_user_roles_def default_roles_def split: option.splits if_splits)
  have t: "t = s3\<lparr>saUserConsents := saUserConsents s3 @ map (consent_row now (sau_id u) (app_id app)) required\<rparr>"
    using consent by (auto simp: recordConsent_def create_consents_def split: if_splits)
  show "u = (registered_user b now (org_id og) dto m status)\<lparr>sau_id := nextId d SaUserT\<rparr>"
    and "saUsers t = saUsers d @ [u]"
    and "saOrgs t = saOrgs d @ (if g = None then [og] else [])"
    and "saUserRoles t = saUserRoles d @ map (Pair (sau_id u)) (default_roles app)"
    and "saUserConsents t = saUserConsents d @ map (consent_row now (sau_id u) (app_id app)) required"
    and "t\<lparr>saOrgs := saOrgs d, saUsers := saUsers d, saUserRoles := saUserRoles d,
            saUserConsents := saUserConsents d, nextId := nextId d\<rparr> = d"
    and "case g of Some g' \<Rightarrow> og = g'
      | None \<Rightarrow> org_name og = the (sd_companyName dto) \<and> org_appId og = app_id app \<and> \<not> org_isPlatform og"
    using s1 s2 unfolding t s3 by simp_all
qed

section \<open>Nothing is created before the checks\<close>

text \<open>What the checks establish of an app, the organisation to join included.\<close>

definition admitted :: "host \<Rightarrow> string option \<Rightarrow> signup_dto \<Rightarrow> sa_app \<Rightarrow> sa_org option \<Rightarrow> db \<Rightarrow> bool" where
  "admitted h country dto app g d \<longleftrightarrow>
     app_by_publicId d (sd_appPublicId dto) = Some app \<and>
     meets_policy (sd_password dto) (resolvePasswordPolicy h (app_passwordPolicyOverride app)) \<and>
     (\<forall>doc \<in> set (resolveRequiredConsent app country). accepted_field dto (doc_type doc)) \<and>
     (if app_defaultOrgId app \<noteq> None \<and> app_defaultOrgId app \<noteq> Some 0
      then g \<noteq> None \<and> g = org_by_id d (the (app_defaultOrgId app))
      else g = None \<and> (\<exists>c. sd_companyName dto = Some c \<and> js_trim c \<noteq> []))"

lemma check_accepted_ok: "check_accepted dto docs = Inr () \<longleftrightarrow> (\<forall>doc \<in> set docs. accepted_field dto (doc_type doc))"
  by (induction docs) auto

lemma js_trim_Nil [simp]: "js_trim [] = []"
  by (simp add: js_trim_def)

lemma signup_org_ok:
  "signup_org app company d = (Inr g, t) \<longleftrightarrow> t = d \<and>
     (if app_defaultOrgId app \<noteq> None \<and> app_defaultOrgId app \<noteq> Some 0
      then g \<noteq> None \<and> g = org_by_id d (the (app_defaultOrgId app))
      else g = None \<and> (\<exists>c. company = Some c \<and> js_trim c \<noteq> []))"
  by (auto simp: signup_org_def eff_simps split: option.splits if_splits)

lemma validate_ok: "validatePasswordOrThrow s p = Inr x \<longleftrightarrow> meets_policy s p"
  using validate_iff[of s p] by (cases x) auto

lemma liftR_ok [eff_simps]: "liftR f s = (Inr a, t) \<longleftrightarrow> f s = Inr a \<and> t = s"
  by auto

lemma signup_checks_ok:
  "signup_checks h c dto app d = (Inr (required, g), t) \<and> app_by_publicId d (sd_appPublicId dto) = Some app \<longleftrightarrow>
     t = d \<and> required = resolveRequiredConsent app c \<and> admitted h c dto app g d"
  by (auto simp: signup_checks_def admitted_def Let_def eff_simps validate_ok check_accepted_ok signup_org_ok
      simp del: liftR_apply)

lemma finishRegistration_ok:
  assumes "finishRegistration h ba uuid code clk app b dto m g required status sendLink s = (Inr r, t)"
  obtains og u s' where "finish_rows h uuid (clk 0) app b dto m g required status s = (Inr (og, u), s')"
    "rr_orgPublicId r = org_publicId og"
  using assms by (auto simp: finishRegistration_def compensate_def eff_simps split: if_splits)


section \<open>The code of a signup\<close>

lemma choose_target_ok:
  assumes "choose_target h d app next_url = Some tg"
  shows "assertRedirectUriAllowed h (st_redirectUri tg) (app_url app)
       (filter (\<lambda>r. ru_kind r = ''login'') (app_redirect_uris d (app_id app))) = Inr () \<or>
     st_redirectUri tg \<in> ru_uri ` {r \<in> set (app_redirect_uris d (app_id app)). ru_kind r = ''login''}"
    and "st_codeChallenge tg = None \<or> truthy (st_codeChallenge tg)"
proof -
  let ?uris = "filter (\<lambda>r. ru_kind r = ''login'') (app_redirect_uris d (app_id app))"
  have "ru_uri (hd ?uris) \<in> ru_uri ` {r \<in> set (app_redirect_uris d (app_id app)). ru_kind r = ''login''}" if "?uris \<noteq> []"
    using hd_in_set[OF that] by auto
  then show "assertRedirectUriAllowed h (st_redirectUri tg) (app_url app) ?uris = Inr () \<or>
      st_redirectUri tg \<in> ru_uri ` {r \<in> set (app_redirect_uris d (app_id app)). ru_kind r = ''login''}"
    and "st_codeChallenge tg = None \<or> truthy (st_codeChallenge tg)"
    using assms by (auto simp: choose_target_def Let_def split: option.splits if_splits)
qed

text \<open>The code that a registration sends back to the relying party is bound: its redirect URI is one the
  app admits (the one of the recovered request) or the first one it registered, and it carries an
  S256 challenge unless the app is confidential; the redirect goes to that URI and no other.\<close>

theorem signup_code_is_bound:
  assumes "signup_redirect h code clk app u next_url d = (Inr (Some url), t)"
  shows "\<exists>row pu url'. t = d\<lparr>saOauthCodes := saOauthCodes d @ [row]\<rparr> \<and>
    oc_code row = code \<and> oc_userId row = sau_publicId u \<and> oc_appPublicId row = app_publicId app \<and>
    oc_expiresAt row = clk 1 + CODE_TTL_MS \<and>
    (truthy (oc_codeChallenge row) \<and> oc_codeChallengeMethod row = Some ''S256'' \<or> truthy (app_clientSecretHash app)) \<and>
    (assertRedirectUriAllowed h (oc_redirectUri row) (app_url app)
       (filter (\<lambda>r. ru_kind r = ''login'') (app_redirect_uris d (app_id app))) = Inr () \<or>
     oc_redirectUri row \<in> ru_uri ` {r \<in> set (app_redirect_uris d (app_id app)). ru_kind r = ''login''}) \<and>
    h_parse_url h (oc_redirectUri row) = Some pu \<and> url = url_to_string url' \<and>
    u_before_query url' = u_before_query pu \<and> u_hash url' = u_hash pu \<and> map_of (u_params url') ''code'' = Some code"
proof -
  obtain tg where tg: "choose_target h d app next_url = Some tg"
    and guard: "truthy (st_codeChallenge tg) \<or> truthy (app_clientSecretHash app)"
    using assms by (auto simp: signup_redirect_def split: option.splits if_splits)
  let ?row = "\<lparr>oc_code = code, oc_userId = sau_publicId u, oc_appPublicId = app_publicId app,
      oc_redirectUri = st_redirectUri tg, oc_codeChallenge = st_codeChallenge tg,
      oc_codeChallengeMethod = (if st_codeChallenge tg = None then None else Some ''S256''), oc_nonce = st_nonce tg,
      oc_scope = ''openid profile email'', oc_authTime = clk 2, oc_amr = json_stringify [''signup''], oc_idp = None,
      oc_expiresAt = clk 1 + CODE_TTL_MS\<rparr>"
  obtain pu where pu: "h_parse_url h (st_redirectUri tg) = Some pu"
    and t: "t = d\<lparr>saOauthCodes := saOauthCodes d @ [?row]\<rparr>"
    and url: "url = url_to_string (if truthy (st_state tg)
       then url_set_param (url_set_param pu ''code'' code) ''state'' (the (st_state tg)) else url_set_param pu ''code'' code)"
    using assms tg
    by (auto simp: signup_redirect_def generateCode_def create_code_def eff_simps Let_def
        split: option.splits if_splits)
  show ?thesis
    using guard choose_target_ok[OF tg] pu t url
    by (intro exI[of _ ?row] exI[of _ pu] exI[of _ "if truthy (st_state tg)
        then url_set_param (url_set_param pu ''code'' code) ''state'' (the (st_state tg)) else url_set_param pu ''code'' code"])
      (auto simp: params_set_lookup params_set_other)
qed

section \<open>Compensation\<close>

lemma delete_user_ok:
  assumes "user_by_id d b \<noteq> None" "sau_by_betterAuthUserId d b = None"
  shows "delete_user b d = (Inr (), d\<lparr>users := filter (\<lambda>u. usr_id u \<noteq> b) (users d),
     sessions := filter (\<lambda>s. ses_userId s \<noteq> b) (sessions d),
     accounts := filter (\<lambda>a. acc_userId a \<noteq> b) (accounts d),
     twoFactors := filter (\<lambda>t. tf_userId t \<noteq> b) (twoFactors d)\<rparr>)"
  using assms by (simp add: delete_user_def)

text \<open>C29 The compensation of a failed registration works only while the transaction has not committed: an
  error inside it leaves the database as it was, without the account that was just created. Once it
  has committed, a failing mail leaves everything in place, the user, the organisation and the
  account, because the account cannot be deleted while the user refers to it, and the error of that
  deletion is swallowed; the address then counts as registered.\<close>

theorem registration_compensation:
  assumes "db_ok d" "user_by_id d b = Some row" "sau_by_betterAuthUserId d b = None"
    and "g = None \<longrightarrow> sd_companyName dto \<noteq> None"
    and "\<And>url s. ba_sendVerificationEmail ba (sd_email dto) url s = (Inl e, s)"
  shows "finishRegistration h ba uuid code clk app b dto m g required status True d =
    (case finish_rows h uuid (clk 0) app b dto m g required status d of
       (Inl e', s) \<Rightarrow>
         (Inl e', d\<lparr>users := filter (\<lambda>u. usr_id u \<noteq> b) (users d), sessions := filter (\<lambda>s. ses_userId s \<noteq> b) (sessions d),
                    accounts := filter (\<lambda>a. acc_userId a \<noteq> b) (accounts d),
                    twoFactors := filter (\<lambda>t. tf_userId t \<noteq> b) (twoFactors d)\<rparr>)
     | (Inr (og, u), s) \<Rightarrow> (Inl e, s)) \<and>
   (\<forall>og u s. finish_rows h uuid (clk 0) app b dto m g required status d = (Inr (og, u), s) \<longrightarrow>
      user_by_id s b = Some row \<and> sau_by_betterAuthUserId s b = Some u \<and>
      saOrgs s = saOrgs d @ (if g = None then [og] else []))"
proof -
  let ?rows = "finish_rows h uuid (clk 0) app b dto m g required status"
  have committed: "user_by_id s b = Some row" "sau_by_betterAuthUserId s b = Some u"
      "saOrgs s = saOrgs d @ (if g = None then [og] else [])"
    if run: "?rows d = (Inr (og, u), s)" for og u s
  proof -
    note ok = finish_rows_ok[OF assms(1) run assms(4)]
    have "users s = users d" using arg_cong[OF ok(6), of users] by simp
    then show "user_by_id s b = Some row" using assms(2) by (simp add: user_by_id_def)
    have "sau_betterAuthUserId u = b" unfolding ok(1)[THEN arg_cong[where f = sau_betterAuthUserId]]
      by (simp add: registered_user_def)
    then show "sau_by_betterAuthUserId s b = Some u"
      using assms(3) by (simp add: sau_by_betterAuthUserId_def ok(2) find_snoc)
    show "saOrgs s = saOrgs d @ (if g = None then [og] else [])" by (rule ok(3))
  qed
  have failed: "s = d" if "?rows d = (Inl e', s)" for e' s
    using that by (simp add: finish_rows_def transaction_err)
  obtain r s where run: "?rows d = (r, s)" by fastforce
  show ?thesis
  proof (cases r)
    case (Inl e')
    then have "s = d" using run failed by simp
    then show ?thesis
      using run Inl delete_user_ok[of d b] assms(2,3)
      by (simp add: finishRegistration_def compensate_def catchE_def bindE_def thenE_def)
  next
    case (Inr p)
    obtain og u where p: "p = (og, u)" by fastforce
    have blocked: "delete_user b s = (Inl P2003, s)"
      using committed[of og u s] run Inr p by (simp add: delete_user_def)
    have mail: "announce h ba app dto og u True s = (Inl e, s)"
      using assms(5) by (simp add: announce_def thenE_def bindE_def)
    show ?thesis
      using run Inr p committed[of og u s] blocked mail
      by (simp add: finishRegistration_def compensate_def catchE_def bindE_def thenE_def)
  qed
qed

section \<open>Abandoned signups\<close>

lemma orphan_free:
  assumes "f ` R \<subseteq> key ` set rows"
  shows "f ` {r \<in> R. f r \<notin> key ` {b \<in> set rows. P b}} \<subseteq> key ` {b \<in> set rows. \<not> P b}"
  using assms by blast

lemma sweep_integrity:
  assumes "db_ok d" "sweep_abandoned now d = (n, t)"
  shows "db_ok t"
proof (rule db_okI)
  let ?gone = "usr_id ` {b \<in> set (users d). abandoned now d b}"
  have t: "t = d\<lparr>users := filter (\<lambda>b. \<not> abandoned now d b) (users d),
      sessions := filter (\<lambda>s. ses_userId s \<notin> ?gone) (sessions d),
      accounts := filter (\<lambda>a. acc_userId a \<notin> ?gone) (accounts d),
      twoFactors := filter (\<lambda>x. tf_userId x \<notin> ?gone) (twoFactors d)\<rparr>"
    using assms(2) by (auto simp: sweep_abandoned_def Let_def)
  have kept: "{u \<in> set (saUsers d). sau_betterAuthUserId u \<notin> ?gone} = set (saUsers d)"
    using lookup_complete(7)[OF db_ok_parts(1)[OF assms(1)]]
    by (auto simp: abandoned_def) (metis option.distinct(1))
  have fks: "sau_betterAuthUserId ` set (saUsers d) \<subseteq> usr_id ` set (users d)"
    "acc_userId ` set (accounts d) \<subseteq> usr_id ` set (users d)" "ses_userId ` set (sessions d) \<subseteq> usr_id ` set (users d)"
    "tf_userId ` set (twoFactors d) \<subseteq> usr_id ` set (users d)"
    using db_ok_parts(2)[OF assms(1)] by (simp_all add: fks_ok_def)
  show "fks_ok t"
    using db_ok_parts(2)[OF assms(1)] orphan_free[OF fks(1), of "abandoned now d"] orphan_free[OF fks(2), of "abandoned now d"]
      orphan_free[OF fks(3), of "abandoned now d"] orphan_free[OF fks(4), of "abandoned now d"]
    unfolding t kept by (simp add: fks_ok_def)
  show "keys_ok t" "seqs_ok t"
    using db_ok_parts(1,3)[OF assms(1)] unfolding t
    by (simp_all add: keys_ok_def seqs_ok_def distinct_map_filter_keys)
qed

text \<open>The sweep removes exactly the accounts that never got past the first step and are older than a day,
  with what belongs to them; it touches no account that carries a user, keeps the integrity of the
  database, and what it left it leaves again.\<close>

theorem sweep_spares_accounts_in_use:
  assumes "db_ok d" "sweep_abandoned now d = (n, t)"
  shows "db_ok t \<and> n = length (users d) - length (users t) \<and>
    (\<forall>b. b \<in> set (users t) \<longleftrightarrow> b \<in> set (users d) \<and>
       (usr_emailVerified b \<or> sau_by_betterAuthUserId d (usr_id b) \<noteq> None \<or>
        now - 24 * 60 * 60 * 1000 \<le> usr_createdAt b)) \<and>
    saUsers t = saUsers d \<and> sweep_abandoned now t = (0, t)"
proof -
  have run: "users t = filter (\<lambda>b. \<not> abandoned now d b) (users d)" "saUsers t = saUsers d"
      "n = length (filter (abandoned now d) (users d))"
    using assms(2) by (auto simp: sweep_abandoned_def Let_def)
  have count: "n = length (users d) - length (users t)"
    using sum_length_filter_compl[of "abandoned now d" "users d"] by (simp add: run)
  have same: "abandoned now t b = abandoned now d b" for b
    by (simp add: abandoned_def sau_by_betterAuthUserId_def run(2))
  have "filter (abandoned now t) (users t) = []" by (simp add: run(1) same filter_empty_conv)
  then have "sweep_abandoned now t = (0, t)" "filter (\<lambda>b. \<not> abandoned now t b) (users t) = users t"
    by (auto simp: sweep_abandoned_def Let_def filter_id_conv filter_empty_conv)
  moreover have "b \<in> set (users t) \<longleftrightarrow> b \<in> set (users d) \<and>
       (usr_emailVerified b \<or> sau_by_betterAuthUserId d (usr_id b) \<noteq> None \<or>
        now - 24 * 60 * 60 * 1000 \<le> usr_createdAt b)" for b
    by (auto simp: run(1) abandoned_def ABANDONED_SIGNUP_TTL_MS_def)
  ultimately show ?thesis using sweep_integrity[OF assms] count run(2) by blast
qed

section \<open>Instances\<close>

definition signup_host :: host where
  "signup_host = example_host\<lparr>h_env := (\<lambda>k. if k = ''TURNSTILE_SECRET_KEY'' then Some ''s'' else None)\<rparr>"

text \<open>A library that does what it is asked, but for the mail, which fails when \<open>mail\<close> is false.\<close>

definition example_auth :: "bool \<Rightarrow> better_auth" where
  "example_auth mail =
     \<lparr>ba_signUpEmail = (\<lambda>e p n. thenE (create_user (example_user_row ''b4'' e)) (ret ''b4'')),
      ba_sendVerificationEmail = (\<lambda>e u. if mail then ret () else raise (InternalE ''mail'')),
      ba_createVerificationOTP = (\<lambda>e. ret ''123456''), ba_checkVerificationOTP = (\<lambda>e c. ret ()),
      ba_verifyEmailOTP = (\<lambda>e c. ret ''b4''), ba_resetPassword = (\<lambda>b p. ret ()), ba_sendCode = (\<lambda>e c. ret ())\<rparr>"

definition example_signup :: signup_dto where
  "example_signup = \<lparr>sd_email = ''new@c'', sd_password = ''Abcdefgh1!xyz'', sd_firstName = ''Ada'', sd_lastName = ''B'',
     sd_companyName = Some ''Co'', sd_appPublicId = ''xx'', sd_acceptedPrivacyPolicy = False, sd_acceptedTerms = False,
     sd_acceptedGdpr = False, sd_next = None\<rparr>"

definition signup_db :: db where
  "signup_db = example_db\<lparr>users := users example_db @ [(example_user_row ''b4'' ''new@c'')\<lparr>usr_emailVerified := False\<rparr>]\<rparr>"

lemma signup_db_ok: "db_ok signup_db"
  by (simp add: signup_db_def db_ok_def keys_ok_def fks_ok_def seqs_ok_def some_values_def example_defs
      numeral_2_eq_2 numeral_3_eq_3)


lemma registration_compensation_witness:
  "\<exists>og u s. finishRegistration signup_host (example_auth False) ''u'' ''code'' (\<lambda>_. 5) customer_app ''b4'' example_signup
      False None [] Unverified True signup_db = (Inl (InternalE ''mail''), s) \<and>
    sau_by_betterAuthUserId s ''b4'' = Some u \<and> saOrgs s = saOrgs signup_db @ [og]"
proof -
  let ?rows = "finish_rows signup_host ''u'' 5 customer_app ''b4'' example_signup False None [] Unverified signup_db"
  have "map_sum id (\<lambda>(og, u). org_id og) (fst ?rows) = Inr 10" by code_simp
  then obtain og u s where rows: "?rows = (Inr (og, u), s)" by (cases "?rows"; cases "fst ?rows") auto
  have user: "user_by_id signup_db ''b4'' = Some ((example_user_row ''b4'' ''new@c'')\<lparr>usr_emailVerified := False\<rparr>)"
    "sau_by_betterAuthUserId signup_db ''b4'' = None"
    by (simp_all add: lookup_defs signup_db_def example_defs)
  have company: "(None :: sa_org option) = None \<longrightarrow> sd_companyName example_signup \<noteq> None"
    by (simp add: example_signup_def)
  have mail: "ba_sendVerificationEmail (example_auth False) (sd_email example_signup) url s = (Inl (InternalE ''mail''), s)"
    for url s by (simp add: example_auth_def)
  from registration_compensation[OF signup_db_ok user company mail, of signup_host "''u''" "''code''" "\<lambda>_. 5" customer_app
      False "[]" Unverified] rows
  show ?thesis by auto
qed

definition confidential_db :: db where
  "confidential_db = example_db\<lparr>saRedirectUris := [\<lparr>ru_appId = 2, ru_uri = ''https://c/cb'', ru_kind = ''login''\<rparr>]\<rparr>"

lemma signup_code_is_bound_witness:
  "\<exists>t row. signup_redirect example_host ''code'' (\<lambda>_. 5) (customer_app\<lparr>app_clientSecretHash := Some ''hs''\<rparr>)
      (example_sa_user 3 ''b3'' 2) None confidential_db = (Inr (Some ''https://c/cb?code=code''), t) \<and>
    saOauthCodes t = saOauthCodes confidential_db @ [row] \<and> oc_redirectUri row = ''https://c/cb''"
proof -
  let ?app = "customer_app\<lparr>app_clientSecretHash := Some ''hs''\<rparr>"
  let ?run = "signup_redirect example_host ''code'' (\<lambda>_. 5) ?app (example_sa_user 3 ''b3'' 2) None confidential_db"
  have "fst ?run = Inr (Some ''https://c/cb?code=code'')" by code_simp
  then obtain t where run: "?run = (Inr (Some ''https://c/cb?code=code''), t)" by (metis prod.collapse)
  have uris: "filter (\<lambda>r. ru_kind r = ''login'') (app_redirect_uris confidential_db (app_id ?app)) =
      [\<lparr>ru_appId = 2, ru_uri = ''https://c/cb'', ru_kind = ''login''\<rparr>]"
    by (simp add: app_redirect_uris_def confidential_db_def customer_app_def)
  obtain row where row: "t = confidential_db\<lparr>saOauthCodes := saOauthCodes confidential_db @ [row]\<rparr>"
    and "assertRedirectUriAllowed example_host (oc_redirectUri row) (app_url ?app)
       (filter (\<lambda>r. ru_kind r = ''login'') (app_redirect_uris confidential_db (app_id ?app))) = Inr () \<or>
     oc_redirectUri row \<in> ru_uri ` {r \<in> set (app_redirect_uris confidential_db (app_id ?app)). ru_kind r = ''login''}"
    using signup_code_is_bound[OF run] by blast
  then have "oc_redirectUri row = ''https://c/cb''"
    using uris by (auto simp: assertRedirectUriAllowed_def registered_def isExactMatch_def example_host_def example_url_def
        app_redirect_uris_def confidential_db_def Let_def split: if_splits)
  with run row show ?thesis by auto
qed

lemma sweep_spares_accounts_in_use_witness:
  "\<exists>t. sweep_abandoned 86400001 signup_db = (1, t) \<and> db_ok t \<and> sweep_abandoned 86400001 t = (0, t)"
proof -
  obtain n t where run: "sweep_abandoned 86400001 signup_db = (n, t)" by fastforce
  have "fst (sweep_abandoned 86400001 signup_db) = 1"
    by (simp add: sweep_abandoned_def Let_def abandoned_def ABANDONED_SIGNUP_TTL_MS_def signup_db_def lookup_defs example_defs)
  with run sweep_spares_accounts_in_use[OF signup_db_ok run] show ?thesis by auto
qed

end
