(* ===== verification/Social.thy ===== *)
theory Social
  imports Registration
begin

text \<open>
  Federated sign-in, \<open>social/*.ts\<close>: which providers a deployment and an app offer, the provider
  settings of an app (\<open>social.service.ts\<close>, \<open>social.controller.ts\<close>), the recognition of a callback
  route, the secret minted for Apple, the refusal codes shown to the browser, the audit trail and
  the account made for a first-time identity. The table \<open>SaSocialProvider\<close> is a list of rows of its
  own beside the database, and the signing of the Apple secret and the URL parser are parameters.
\<close>

section \<open>Providers of the deployment\<close>

datatype provider_id = Google | Microsoft | Apple | Stub

fun provider_name :: "provider_id \<Rightarrow> string" where
  "provider_name Google = ''google''"
| "provider_name Microsoft = ''microsoft''"
| "provider_name Apple = ''apple''"
| "provider_name Stub = ''stub''"

definition PROVIDER_ORDER :: "provider_id list" where
  "PROVIDER_ORDER = [Google, Microsoft, Apple, Stub]"

text \<open>The order of the buttons as a linear order, so that the theory of sorted lists applies to them.\<close>

instantiation provider_id :: linorder
begin

fun provider_rank :: "provider_id \<Rightarrow> nat" where
  "provider_rank Google = 0"
| "provider_rank Microsoft = 1"
| "provider_rank Apple = 2"
| "provider_rank Stub = 3"

definition less_eq_provider_id :: "provider_id \<Rightarrow> provider_id \<Rightarrow> bool" where
  "less_eq_provider_id p q \<longleftrightarrow> provider_rank p \<le> provider_rank q"

definition less_provider_id :: "provider_id \<Rightarrow> provider_id \<Rightarrow> bool" where
  "less_provider_id p q \<longleftrightarrow> provider_rank p < provider_rank q"

instance
proof
  fix p q r :: provider_id
  show "p < q \<longleftrightarrow> p \<le> q \<and> \<not> q \<le> p" "p \<le> p" "p \<le> q \<or> q \<le> p"
    and "p \<le> q \<Longrightarrow> q \<le> r \<Longrightarrow> p \<le> r"
    unfolding less_eq_provider_id_def less_provider_id_def by linarith+
  show "p \<le> q \<Longrightarrow> q \<le> p \<Longrightarrow> p = q"
    by (cases p; cases q; simp add: less_eq_provider_id_def)
qed

end

definition hasAll :: "host \<Rightarrow> string list \<Rightarrow> bool" where
  "hasAll h keys \<longleftrightarrow> list_all (\<lambda>k. truthy (h_env h k)) keys"

definition GOOGLE_KEYS :: "string list" where
  "GOOGLE_KEYS = [''GOOGLE_CLIENT_ID'', ''GOOGLE_CLIENT_SECRET'']"

definition MICROSOFT_KEYS :: "string list" where
  "MICROSOFT_KEYS = [''MICROSOFT_CLIENT_ID'', ''MICROSOFT_CLIENT_SECRET'']"

definition APPLE_KEYS :: "string list" where
  "APPLE_KEYS = [''APPLE_CLIENT_ID'', ''APPLE_TEAM_ID'', ''APPLE_KEY_ID'', ''APPLE_PRIVATE_KEY'']"

definition isStubIdpAllowed :: "host \<Rightarrow> bool" where
  "isStubIdpAllowed h \<longleftrightarrow> truthy (h_env h ''E2E_STUB_IDP_URL'') \<and>
     (h_env h ''NODE_ENV'' = Some ''test'' \<or> h_env h ''NODE_ENV'' = Some ''development'')"

definition availableSocialProviders :: "host \<Rightarrow> provider_id list" where
  "availableSocialProviders h =
     (if hasAll h GOOGLE_KEYS then [Google] else []) @
     (if hasAll h MICROSOFT_KEYS then [Microsoft] else []) @
     (if hasAll h APPLE_KEYS then [Apple] else []) @
     (if isStubIdpAllowed h then [Stub] else [])"

text \<open>
  What BetterAuth is configured with. Apple's secret is a getter: it is \<open>None\<close> here and read from the
  factory below at every use.
\<close>

record provider_config =
  pc_clientId :: string
  pc_clientSecret :: "string option"
  pc_tenantId :: "string option"
  pc_disableSignUp :: bool

definition env_value :: "host \<Rightarrow> string \<Rightarrow> string" where
  "env_value h k = the (h_env h k)"

definition buildSocialProviders :: "host \<Rightarrow> (provider_id \<times> provider_config) list" where
  "buildSocialProviders h =
     (let available = availableSocialProviders h in
      (if Google \<in> set available then
         [(Google, \<lparr>pc_clientId = env_value h ''GOOGLE_CLIENT_ID'',
                    pc_clientSecret = Some (env_value h ''GOOGLE_CLIENT_SECRET''),
                    pc_tenantId = None, pc_disableSignUp = False\<rparr>)] else []) @
      (if Microsoft \<in> set available then
         [(Microsoft, \<lparr>pc_clientId = env_value h ''MICROSOFT_CLIENT_ID'',
                       pc_clientSecret = Some (env_value h ''MICROSOFT_CLIENT_SECRET''),
                       pc_tenantId = Some (case h_env h ''MICROSOFT_TENANT_ID'' of None \<Rightarrow> ''common'' | Some t \<Rightarrow> t),
                       pc_disableSignUp = False\<rparr>)] else []) @
      (if Apple \<in> set available then
         [(Apple, \<lparr>pc_clientId = env_value h ''APPLE_CLIENT_ID'', pc_clientSecret = None,
                   pc_tenantId = None, pc_disableSignUp = False\<rparr>)] else []))"

record stub_config =
  sc_clientId :: string
  sc_clientSecret :: string
  sc_discoveryUrl :: string
  sc_scopes :: "string list"
  sc_disableSignUp :: bool

definition stubProviderConfig :: "host \<Rightarrow> stub_config list" where
  "stubProviderConfig h =
     (case h_env h ''E2E_STUB_IDP_URL'' of
        None \<Rightarrow> []
      | Some url \<Rightarrow>
          if \<not> isStubIdpAllowed h then []
          else [\<lparr>sc_clientId = ''stub-client'', sc_clientSecret = ''stub-secret'',
                 sc_discoveryUrl = strip_one_slash url @ ''/.well-known/openid-configuration'',
                 sc_scopes = [''openid'', ''email'', ''profile''], sc_disableSignUp = False\<rparr>])"

section \<open>The secret for Apple\<close>

definition APPLE_MAX_LIFETIME_SECONDS :: int where
  "APPLE_MAX_LIFETIME_SECONDS = 15777000"

definition LIFETIME_SECONDS :: int where
  "LIFETIME_SECONDS = 90 * 24 * 60 * 60"

definition REFRESH_MARGIN_SECONDS :: int where
  "REFRESH_MARGIN_SECONDS = 7 * 24 * 60 * 60"

record apple_claims =
  ap_iss :: string
  ap_iat :: int
  ap_exp :: int
  ap_sub :: string
  ap_keyid :: string

text \<open>\<open>privateKey.replace(/\\n/g, newline)\<close>\<close>

fun unescape_newlines :: "string \<Rightarrow> string" where
  "unescape_newlines (c # e # s) =
     (if c = CHR 0x5C \<and> e = CHR ''n'' then CHR 0x0A # unescape_newlines s
      else c # unescape_newlines (e # s))"
| "unescape_newlines s = s"

text \<open>
  The closure's \<open>cached\<close> is the state, with the claims of the cached token beside it. \<open>sign\<close> is
  \<open>jwt.sign\<close> with the private key; \<open>now\<close> is in milliseconds.
\<close>

record apple_cache =
  ac_secret :: string
  ac_expSeconds :: int

definition appleClientSecret ::
    "host \<Rightarrow> (apple_claims \<Rightarrow> string \<Rightarrow> err + string) \<Rightarrow> int \<Rightarrow> (apple_cache option, string) eff" where
  "appleClientSecret h sign now = (\<lambda>cached.
     (let missing = filter (\<lambda>k. \<not> truthy (h_env h k)) APPLE_KEYS; nowSeconds = now div 1000 in
      if missing \<noteq> [] then
        (Inl (JsError (''Apple sign-in is misconfigured; missing: '' @ js_join '', '' missing)), cached)
      else if cached \<noteq> None \<and> ac_expSeconds (the cached) - nowSeconds > REFRESH_MARGIN_SECONDS then
        (Inr (ac_secret (the cached)), cached)
      else
        (let expSeconds = nowSeconds + min LIFETIME_SECONDS APPLE_MAX_LIFETIME_SECONDS in
         case sign \<lparr>ap_iss = env_value h ''APPLE_TEAM_ID'', ap_iat = nowSeconds, ap_exp = expSeconds,
                    ap_sub = env_value h ''APPLE_CLIENT_ID'', ap_keyid = env_value h ''APPLE_KEY_ID''\<rparr>
                (unescape_newlines (env_value h ''APPLE_PRIVATE_KEY'')) of
           Inl e \<Rightarrow> (Inl e, cached)
         | Inr secret \<Rightarrow> (Inr secret, Some \<lparr>ac_secret = secret, ac_expSeconds = expSeconds\<rparr>))))"

section \<open>Providers of an app\<close>

record provider_row =
  pr_appId :: "int option"
  pr_provider :: string
  pr_enabled :: bool

definition provider_row_of :: "provider_row list \<Rightarrow> int option \<Rightarrow> provider_id \<Rightarrow> provider_row option" where
  "provider_row_of rows appId p = find (\<lambda>r. pr_appId r = appId \<and> pr_provider r = provider_name p) rows"

definition resolveEnabledProviders :: "provider_row list \<Rightarrow> provider_id list \<Rightarrow> int option \<Rightarrow> provider_id list" where
  "resolveEnabledProviders rows available appId =
     filter (\<lambda>p.
       if p \<notin> set available then False
       else (case provider_row_of rows None p of
               None \<Rightarrow> False
             | Some globalRow \<Rightarrow>
                 (case appId of
                    None \<Rightarrow> pr_enabled globalRow
                  | Some a \<Rightarrow> (case provider_row_of rows (Some a) p of
                                 Some appRow \<Rightarrow> pr_enabled appRow | None \<Rightarrow> pr_enabled globalRow))))
       PROVIDER_ORDER"

text \<open>The buttons come in the fixed order and each once, so the list is determined by its set.\<close>

lemma PROVIDER_ORDER_sorted: "sorted_wrt (<) PROVIDER_ORDER"
  by (simp add: PROVIDER_ORDER_def less_provider_id_def)

lemma resolveEnabledProviders_sorted:
  "sorted_wrt (<) (resolveEnabledProviders rows available appId)"
  unfolding resolveEnabledProviders_def by (rule sorted_wrt_filter[OF PROVIDER_ORDER_sorted])

lemma resolveEnabledProviders_determined:
  "resolveEnabledProviders rows available appId =
   sorted_list_of_set (set (resolveEnabledProviders rows available appId))"
  using resolveEnabledProviders_sorted[of rows available appId]
  by (simp add: strict_sorted_iff sorted_list_of_set.idem_if_sorted_distinct)

text \<open>\<open>social.service.ts\<close>. \<open>where: {OR: ...}\<close> keeps the global rows and those of the app.\<close>

definition listForApp :: "host \<Rightarrow> db \<Rightarrow> string option \<Rightarrow> provider_row list \<Rightarrow> provider_id list" where
  "listForApp h d clientId table =
     (let app = (if truthy clientId then app_by_publicId d (the clientId) else None);
          rows = filter (\<lambda>r. pr_appId r = None \<or> (app \<noteq> None \<and> pr_appId r = Some (app_id (the app)))) table in
      if truthy clientId \<and> app = None then []
      else resolveEnabledProviders rows (availableSocialProviders h) (map_option app_id app))"

record login_branding =
  lb_name :: "string option"
  lb_branding :: app_branding

definition no_branding :: login_branding where
  "no_branding = \<lparr>lb_name = None, lb_branding = \<lparr>logo = None, favicon = None, pageLightBackgroundColor = None,
     pageDarkBackgroundColor = None, cardLightBackgroundColor = None, cardDarkBackgroundColor = None\<rparr>\<rparr>"

definition getBrandingForApp :: "db \<Rightarrow> string option \<Rightarrow> login_branding" where
  "getBrandingForApp d clientId =
     (if \<not> truthy clientId then no_branding
      else (case app_by_publicId d (the clientId) of
              None \<Rightarrow> no_branding
            | Some app \<Rightarrow> \<lparr>lb_name = Some (app_name app), lb_branding = app_branding app\<rparr>))"

definition upsert_provider :: "int \<Rightarrow> string \<Rightarrow> bool \<Rightarrow> provider_row list \<Rightarrow> provider_row list" where
  "upsert_provider appId provider enabled table =
     (if list_ex (\<lambda>r. pr_appId r = Some appId \<and> pr_provider r = provider) table then
        map (\<lambda>r. if pr_appId r = Some appId \<and> pr_provider r = provider then r\<lparr>pr_enabled := enabled\<rparr> else r) table
      else table @ [\<lparr>pr_appId = Some appId, pr_provider = provider, pr_enabled = enabled\<rparr>])"

definition setForApp :: "host \<Rightarrow> db \<Rightarrow> string \<Rightarrow> string list \<Rightarrow> (provider_row list, unit) eff" where
  "setForApp h d clientId enabled =
     (case app_by_publicId d clientId of
        None \<Rightarrow> raise (NotFoundE ''App not found'')
      | Some app \<Rightarrow>
          if app_isPlatform app then raise (ForbiddenE ''Platform app cannot be modified'')
          else for_each (availableSocialProviders h) (\<lambda>p.
                 modifyE (upsert_provider (app_id app) (provider_name p) (provider_name p \<in> set enabled))))"

definition getSettingsForApp ::
    "host \<Rightarrow> db \<Rightarrow> string \<Rightarrow> (provider_row list, provider_id list \<times> provider_id list) eff" where
  "getSettingsForApp h d clientId =
     (case app_by_publicId d clientId of
        None \<Rightarrow> raise (NotFoundE ''App not found'')
      | Some app \<Rightarrow> readE (\<lambda>table. (availableSocialProviders h, listForApp h d (Some clientId) table)))"

text \<open>\<open>social.controller.ts\<close>: the list is public, the two others need \<open>platform.apps.manage\<close>.\<close>

definition list_route :: "host \<Rightarrow> db \<Rightarrow> string option \<Rightarrow> provider_row list \<Rightarrow> provider_id list \<times> login_branding" where
  "list_route h d clientId table = (listForApp h d clientId table, getBrandingForApp d clientId)"

definition settings_route ::
    "host \<Rightarrow> db \<Rightarrow> string \<Rightarrow> string \<Rightarrow> (provider_row list, provider_id list \<times> provider_id list) eff" where
  "settings_route h d caller clientId =
     thenE (liftR (\<lambda>_. checkPermission d caller [''platform.apps.manage''] None)) (getSettingsForApp h d clientId)"

definition update_route ::
    "host \<Rightarrow> db \<Rightarrow> string \<Rightarrow> string \<Rightarrow> string list option \<Rightarrow> (provider_row list, provider_id list) eff" where
  "update_route h d caller clientId providers =
     thenE (liftR (\<lambda>_. checkPermission d caller [''platform.apps.manage''] None))
     (thenE (setForApp h d clientId (case providers of None \<Rightarrow> [] | Some ps \<Rightarrow> ps))
       (readE (listForApp h d (Some clientId))))"

section \<open>Routes\<close>

text \<open>The context of a BetterAuth hook: the route template and the parameters of the request.\<close>

record hook_route =
  hr_path :: "string option"
  hr_id :: "string option"
  hr_providerId :: "string option"

definition resolveHookRoutePath :: "hook_route option \<Rightarrow> string option" where
  "resolveHookRoutePath ctx =
     (case ctx of
        None \<Rightarrow> None
      | Some c \<Rightarrow>
          if \<not> truthy (hr_path c) then None
          else if starts_with ''/callback/'' (the (hr_path c)) then
            (if truthy (hr_id c) then Some (''/callback/'' @ the (hr_id c)) else None)
          else if starts_with ''/oauth2/callback/'' (the (hr_path c)) then
            (if truthy (hr_providerId c) then Some (''/oauth2/callback/'' @ the (hr_providerId c)) else None)
          else hr_path c)"

text \<open>
  The pattern \<open>/\/(?:callback|oauth2\/callback)\/([a-z0-9-]+)$/i\<close>: the last segment is the provider and
  the one before it, which a slash precedes, is \<open>callback\<close>; the second alternative adds nothing.
\<close>

definition callback_segment :: "string \<Rightarrow> string option" where
  "callback_segment path =
     (case rev (split_on CHR ''/'' path) of
        provider # route # _ # _ \<Rightarrow>
          if provider \<noteq> [] \<and> list_all (\<lambda>c. is_alnum c \<or> c = CHR ''-'') provider \<and> to_lower route = ''callback''
          then Some provider else None
      | _ \<Rightarrow> None)"

definition signInMethodFromPath :: "string option \<Rightarrow> string option" where
  "signInMethodFromPath path =
     (if \<not> truthy path then None
      else (case callback_segment (the path) of
              Some segment \<Rightarrow>
                if to_lower segment \<in> provider_name ` set PROVIDER_ORDER then Some (''ext:'' @ to_lower segment) else None
            | None \<Rightarrow> if ends_with ''/sign-in/email'' (the path) then Some ''pwd'' else None))"

definition providerFromSignInMethod :: "string option \<Rightarrow> string option" where
  "providerFromSignInMethod signInMethod =
     (case signInMethod of
        None \<Rightarrow> None
      | Some m \<Rightarrow> if starts_with ''ext:'' m then Some (drop 4 m) else None)"

definition resolveProviderForSocialSignup :: "hook_route option \<Rightarrow> string" where
  "resolveProviderForSocialSignup ctx =
     (case providerFromSignInMethod (signInMethodFromPath (resolveHookRoutePath ctx)) of
        None \<Rightarrow> ''social'' | Some p \<Rightarrow> p)"

section \<open>What the browser is told of a refusal\<close>

text \<open>The reason for the audit trail and the code for the page.\<close>

definition classifyRejection :: "bool \<Rightarrow> bool \<Rightarrow> bool \<Rightarrow> (string \<times> string) option" where
  "classifyRejection emailVerified isPrivateEmail matchedUser =
     (if matchedUser \<and> emailVerified then None
      else if \<not> emailVerified then Some (''email_unverified'', ''social_email_unverified'')
      else if isPrivateEmail then Some (''private_relay'', ''social_private_relay'')
      else Some (''no_sauser_for_verified_email'', ''social_no_account''))"

definition SOCIAL_SIGNUP_UNAVAILABLE_ERROR_CODE :: string where
  "SOCIAL_SIGNUP_UNAVAILABLE_ERROR_CODE = ''social_signup_unavailable''"

text \<open>
  The table is a plain object: besides its two entries the index finds the members every object
  inherits, whose spread has no \<open>emailVerified\<close> and no \<open>matchedUser\<close>.
\<close>

definition inherited_members :: "string list" where
  "inherited_members =
     [''constructor'', ''hasOwnProperty'', ''isPrototypeOf'', ''propertyIsEnumerable'', ''toLocaleString'',
      ''toString'', ''valueOf'', ''__proto__'', ''__defineGetter__'', ''__defineSetter__'',
      ''__lookupGetter__'', ''__lookupSetter__'']"

definition BETTER_AUTH_ERROR_TO_INPUT :: "string \<Rightarrow> (bool \<times> bool) option" where
  "BETTER_AUTH_ERROR_TO_INPUT e =
     (if e = ''signup_disabled'' then Some (False, True)
      else if e = ''account_not_linked'' then Some (True, False)
      else if e \<in> set inherited_members then Some (False, False)
      else None)"

record returned_like =
  rl_status :: "string option"
  rl_location :: "string option"

record callback_outcome =
  co_reason :: string
  co_code :: string
  co_canRedirect :: bool

text \<open>\<open>resolve\<close> is \<open>new URL(location, 'http://localhost')\<close>.\<close>

definition classifyCallbackOutcome ::
    "(string \<Rightarrow> url option) \<Rightarrow> returned_like option \<Rightarrow> bool \<Rightarrow> callback_outcome option" where
  "classifyCallbackOutcome resolve returned isPrivateEmail =
     (case returned of
        None \<Rightarrow> None
      | Some r \<Rightarrow>
          if rl_status r = Some ''FORBIDDEN'' then
            Some \<lparr>co_reason = ''sauser_not_active'', co_code = ''social_no_account'', co_canRedirect = False\<rparr>
          else if rl_status r \<noteq> Some ''FOUND'' then None
          else if \<not> truthy (rl_location r) then None
          else (case resolve (the (rl_location r)) of
                  None \<Rightarrow> None
                | Some u \<Rightarrow>
                    (let e = map_of (u_params u) ''error'' in
                     if \<not> truthy e then None
                     else if e = Some SOCIAL_SIGNUP_UNAVAILABLE_ERROR_CODE then
                       Some \<lparr>co_reason = SOCIAL_SIGNUP_UNAVAILABLE_ERROR_CODE,
                             co_code = SOCIAL_SIGNUP_UNAVAILABLE_ERROR_CODE, co_canRedirect = True\<rparr>
                     else (case BETTER_AUTH_ERROR_TO_INPUT (the e) of
                             None \<Rightarrow> None
                           | Some (matchedUser, emailVerified) \<Rightarrow>
                               map_option (\<lambda>(reason, code). \<lparr>co_reason = reason, co_code = code, co_canRedirect = True\<rparr>)
                                 (classifyRejection emailVerified isPrivateEmail matchedUser)))))"

text \<open>\<open>base\<close> is \<open>new URL('/login/consent', adminUrl)\<close>.\<close>

definition appendConsentRedirect :: "url \<Rightarrow> string \<Rightarrow> string \<Rightarrow> consent_document list \<Rightarrow> string option" where
  "appendConsentRedirect base currentLocation appPublicId outstanding =
     (if outstanding = [] then None
      else Some (url_to_string (url_set_param (url_set_param base ''appPublicId'' appPublicId) ''next'' currentLocation)))"

section \<open>The audit trail\<close>

datatype federation_type = LinkCreated | SigninOk | SigninRejected | LinkRemoved | SignupCreated

record federation_event =
  fe_type :: federation_type
  fe_provider :: string
  fe_reason :: "string option"
  fe_unexpected :: bool
  fe_saUserId :: "int option"
  fe_saUserPublicId :: "string option"
  fe_betterAuthUserId :: "string option"
  fe_appPublicId :: "string option"
  fe_email :: "string option"

record audit_row =
  au_id :: string
  au_event :: federation_event

record telemetry_record =
  te_severity :: string
  te_type :: federation_type
  te_provider :: string
  te_outcome :: string
  te_appPublicId :: string
  te_userPublicId :: string

record federation_sinks =
  fs_audit :: "audit_row list"
  fs_telemetry :: "telemetry_record list"

definition telemetry_of :: "federation_event \<Rightarrow> telemetry_record" where
  "telemetry_of e =
     \<lparr>te_severity = (if fe_unexpected e then ''ERROR'' else if fe_type e = SigninRejected then ''WARN'' else ''INFO''),
      te_type = fe_type e, te_provider = fe_provider e,
      te_outcome = (case fe_reason e of None \<Rightarrow> ''ok'' | Some r \<Rightarrow> r),
      te_appPublicId = (case fe_appPublicId e of None \<Rightarrow> [] | Some p \<Rightarrow> p),
      te_userPublicId = (case fe_saUserPublicId e of None \<Rightarrow> [] | Some p \<Rightarrow> p)\<rparr>"

text \<open>
  The event goes to telemetry first and then to the table; the two flags say whether the emission
  and the connection to the database work, a taken public id fails the insert, and either failure
  is swallowed.
\<close>

definition recordFederationEvent ::
    "bool \<Rightarrow> bool \<Rightarrow> string \<Rightarrow> federation_event \<Rightarrow> (federation_sinks, unit) eff" where
  "recordFederationEvent emits connects publicId e =
     thenE (modifyE (\<lambda>s. if emits then s\<lparr>fs_telemetry := fs_telemetry s @ [telemetry_of e]\<rparr> else s))
       (modifyE (\<lambda>s. if connects \<and> publicId \<notin> au_id ` set (fs_audit s)
                     then s\<lparr>fs_audit := fs_audit s @ [\<lparr>au_id = publicId, au_event = e\<rparr>]\<rparr> else s))"

section \<open>The account of a first-time identity\<close>

text \<open>The first space of the trimmed name separates the two parts.\<close>

definition deriveSignupName :: "string \<Rightarrow> string option \<Rightarrow> string option \<Rightarrow> string \<times> string" where
  "deriveSignupName nm givenName familyName =
     (if truthy givenName \<and> truthy familyName then (the givenName, the familyName)
      else (let trimmed = js_trim nm in
            (takeWhile (\<lambda>c. c \<noteq> CHR '' '') trimmed, drop 1 (dropWhile (\<lambda>c. c \<noteq> CHR '' '') trimmed))))"

record social_signup =
  ss_betterAuthUserId :: string
  ss_email :: string
  ss_name :: string
  ss_provider :: string
  ss_clientId :: "string option"
  ss_givenName :: "string option"
  ss_familyName :: "string option"

text \<open>The statements of the provisioning, each of which the connection may fail, besides the constraints.\<close>

datatype statement = CreateSaUser | CreateUserRole | DeleteSaUser | DeleteUser

type_synonym faults = "statement \<Rightarrow> err option"

definition issued :: "faults \<Rightarrow> statement \<Rightarrow> (db, 'a) eff \<Rightarrow> (db, 'a) eff" where
  "issued fault st m = (case fault st of Some e \<Rightarrow> raise e | None \<Rightarrow> m)"

definition quietly :: "(db, 'a) eff \<Rightarrow> (db, unit) eff" where
  "quietly m = catchE (discard m) (\<lambda>_. ret ())"

abbreviation social_unavailable :: err where
  "social_unavailable \<equiv> BadRequestE SOCIAL_SIGNUP_UNAVAILABLE_ERROR_CODE"

definition social_user :: "int \<Rightarrow> int \<Rightarrow> social_signup \<Rightarrow> sa_user" where
  "social_user now orgId i =
     (let (firstName, lastName) = deriveSignupName (ss_name i) (ss_givenName i) (ss_familyName i) in
      \<lparr>sau_id = 0, sau_publicId = take 12 (ss_betterAuthUserId i), sau_betterAuthUserId = ss_betterAuthUserId i,
       sau_orgId = orgId, sau_firstName = firstName, sau_lastName = lastName, sau_marketingOptIn = False,
       sau_phoneNumber = None, sau_username = None, sau_status = Active, sau_createdAt = now,
       sau_lastLoginAt = None, sau_twoFactorPromptedAt = None\<rparr>)"

definition delete_sa_user_by_id :: "int \<Rightarrow> (db, unit) eff" where
  "delete_sa_user_by_id i = bindE (findE (\<lambda>d. sau_by_id d i) P2025) (\<lambda>u. delete_sa_user (sau_publicId u))"

definition provisionSocialSignupUser :: "faults \<Rightarrow> int \<Rightarrow> social_signup \<Rightarrow> (db, federation_event) eff" where
  "provisionSocialSignupUser fault now i =
     (let drop_account = quietly (issued fault DeleteUser (delete_user (ss_betterAuthUserId i))) in
      bindE (readE (\<lambda>d. if truthy (ss_clientId i) then app_by_publicId d (the (ss_clientId i)) else None)) (\<lambda>app.
        if app = None \<or> \<not> resolveSocialSignupEligibility (the app) then
          thenE drop_account (raise social_unavailable)
        else
          bindE (catchE (issued fault CreateSaUser (create_sa_user (social_user now (the (app_defaultOrgId (the app))) i)))
                   (\<lambda>_. thenE drop_account (raise social_unavailable))) (\<lambda>u.
          thenE (catchE (issued fault CreateUserRole (create_user_roles (sau_id u) [the (app_defaultRoleId (the app))]))
                   (\<lambda>_. thenE (quietly (issued fault DeleteSaUser (delete_sa_user_by_id (sau_id u))))
                         (thenE drop_account (raise social_unavailable))))
            (ret \<lparr>fe_type = SignupCreated, fe_provider = ss_provider i, fe_reason = None, fe_unexpected = False,
                  fe_saUserId = Some (sau_id u), fe_saUserPublicId = Some (sau_publicId u),
                  fe_betterAuthUserId = Some (ss_betterAuthUserId i), fe_appPublicId = Some (app_publicId (the app)),
                  fe_email = Some (ss_email i)\<rparr>))))"

section \<open>The settings of an app\<close>

lemma provider_name_inject [simp]: "provider_name p = provider_name q \<longleftrightarrow> p = q"
  by (cases p; cases q) simp_all

lemma row_of_map_keys:
  "(\<And>r. pr_appId (g r) = pr_appId r \<and> pr_provider (g r) = pr_provider r) \<Longrightarrow>
     provider_row_of (map g rows) k p = map_option g (provider_row_of rows k p)"
  by (induction rows) (simp_all add: provider_row_of_def)

lemma row_of_filter:
  "(\<And>r. pr_appId r = k \<Longrightarrow> P r) \<Longrightarrow> provider_row_of (filter P rows) k p = provider_row_of rows k p"
  by (induction rows) (auto simp: provider_row_of_def)

lemma row_of_upsert:
  "provider_row_of (upsert_provider a n e table) k q =
     (if k = Some a \<and> provider_name q = n then Some \<lparr>pr_appId = Some a, pr_provider = n, pr_enabled = e\<rparr>
      else provider_row_of table k q)"
proof -
  let ?g = "\<lambda>r. if pr_appId r = Some a \<and> pr_provider r = n then r\<lparr>pr_enabled := e\<rparr> else r"
  have there: "provider_row_of table k q = Some r \<Longrightarrow> pr_appId r = k \<and> pr_provider r = provider_name q" for r
    by (auto simp: provider_row_of_def dest: find_Some_iff)
  show ?thesis
  proof (cases "list_ex (\<lambda>r. pr_appId r = Some a \<and> pr_provider r = n) table")
    case True
    have "provider_row_of (map ?g table) k q = map_option ?g (provider_row_of table k q)"
      by (rule row_of_map_keys) simp
    moreover have "provider_row_of table k q \<noteq> None" if "k = Some a" "provider_name q = n"
      using True that by (auto simp: provider_row_of_def find_None_all list_ex_iff)
    ultimately show ?thesis
      using True there by (cases "provider_row_of table k q") (auto simp: upsert_provider_def)
  next
    case False
    then have "provider_row_of table (Some a) q = None" if "provider_name q = n"
      using that by (auto simp: provider_row_of_def find_None_all list_ex_iff)
    then show ?thesis
      using False by (auto simp: upsert_provider_def provider_row_of_def find_snoc split: option.splits)
  qed
qed

lemma write_rows:
  "\<exists>t. for_each ps (\<lambda>p. modifyE (upsert_provider a (provider_name p) (w p))) table = (Inr (), t) \<and>
     (\<forall>k q. provider_row_of t k q =
        (if k = Some a \<and> q \<in> set ps then Some \<lparr>pr_appId = Some a, pr_provider = provider_name q, pr_enabled = w q\<rparr>
         else provider_row_of table k q))"
proof (induction ps arbitrary: table)
  case (Cons p ps)
  obtain t where "for_each ps (\<lambda>p. modifyE (upsert_provider a (provider_name p) (w p)))
        (upsert_provider a (provider_name p) (w p) table) = (Inr (), t)"
    and "\<forall>k q. provider_row_of t k q =
        (if k = Some a \<and> q \<in> set ps then Some \<lparr>pr_appId = Some a, pr_provider = provider_name q, pr_enabled = w q\<rparr>
         else provider_row_of (upsert_provider a (provider_name p) (w p) table) k q)"
    using Cons.IH by blast
  moreover have "for_each (p # ps) F table = for_each ps F (upsert_provider a (provider_name p) (w p) table)"
    if "F = (\<lambda>p. modifyE (upsert_provider a (provider_name p) (w p)))" for F
    by (simp add: thenE_def bindE_def that)
  ultimately have "for_each (p # ps) (\<lambda>p. modifyE (upsert_provider a (provider_name p) (w p))) table = (Inr (), t)"
    by simp
  moreover have "\<forall>k q. provider_row_of t k q =
        (if k = Some a \<and> q \<in> set (p # ps) then Some \<lparr>pr_appId = Some a, pr_provider = provider_name q, pr_enabled = w q\<rparr>
         else provider_row_of table k q)"
    using \<open>\<forall>k q. _ = _\<close> by (simp add: row_of_upsert)
  ultimately show ?case by blast
qed simp

lemma resolve_cong:
  assumes "\<And>p. provider_row_of r1 None p = provider_row_of r2 None p"
    and "\<And>a p. k = Some a \<Longrightarrow> provider_row_of r1 (Some a) p = provider_row_of r2 (Some a) p"
  shows "resolveEnabledProviders r1 ps k = resolveEnabledProviders r2 ps k"
  using assms by (cases k) (simp_all add: resolveEnabledProviders_def cong: option.case_cong)

lemma listForApp_known:
  assumes "c \<noteq> []" "app_by_publicId d c = Some app"
  shows "listForApp h d (Some c) table =
    filter (\<lambda>p. p \<in> set (availableSocialProviders h) \<and>
      (case provider_row_of table None p of
         None \<Rightarrow> False
       | Some g \<Rightarrow> (case provider_row_of table (Some (app_id app)) p of
                      Some r \<Rightarrow> pr_enabled r | None \<Rightarrow> pr_enabled g))) PROVIDER_ORDER"
proof -
  have "provider_row_of (filter (\<lambda>r. pr_appId r = None \<or> (Some app \<noteq> None \<and> pr_appId r = Some (app_id (the (Some app))))) table) k p =
      provider_row_of table k p" if "k = None \<or> k = Some (app_id app)" for k p
    using that by (intro row_of_filter) auto
  then have shown: "resolveEnabledProviders
      (filter (\<lambda>r. pr_appId r = None \<or> (Some app \<noteq> None \<and> pr_appId r = Some (app_id (the (Some app))))) table)
      (availableSocialProviders h) (Some (app_id app)) =
    filter (\<lambda>p. p \<in> set (availableSocialProviders h) \<and>
      (case provider_row_of table None p of
         None \<Rightarrow> False
       | Some g \<Rightarrow> (case provider_row_of table (Some (app_id app)) p of
                      Some r \<Rightarrow> pr_enabled r | None \<Rightarrow> pr_enabled g))) PROVIDER_ORDER"
    unfolding resolveEnabledProviders_def by (intro filter_cong) (simp_all split: option.split)
  then show ?thesis using assms by (simp add: listForApp_def Let_def)
qed

lemma listForApp_unknown:
  "app_by_publicId d c = None \<Longrightarrow> c \<noteq> [] \<Longrightarrow> listForApp h d (Some c) table = []"
  by (simp add: listForApp_def)

lemma listForApp_rows:
  assumes "\<And>k p. k \<noteq> Some a \<Longrightarrow> provider_row_of t k p = provider_row_of table k p"
    and "truthy c' \<Longrightarrow> map_option app_id (app_by_publicId d (the c')) \<noteq> Some a"
  shows "listForApp h d c' t = listForApp h d c' table"
proof -
  let ?app = "if truthy c' then app_by_publicId d (the c') else None"
  let ?P = "\<lambda>r. pr_appId r = None \<or> (?app \<noteq> None \<and> pr_appId r = Some (app_id (the ?app)))"
  have "provider_row_of (filter ?P t) k p = provider_row_of (filter ?P table) k p"
    if "k = None \<or> k = map_option app_id ?app" for k p
  proof -
    have "provider_row_of (filter ?P rows) k p = provider_row_of rows k p" for rows
    proof (rule row_of_filter)
      fix r assume "pr_appId r = k"
      then show "?P r" using that by (cases ?app) simp_all
    qed
    moreover have "k \<noteq> Some a"
    proof (cases "truthy c'")
      case True
      then show ?thesis using that assms(2)[OF True] by (cases ?app) auto
    qed (use that in simp)
    ultimately show ?thesis using assms(1) by simp
  qed
  then have "resolveEnabledProviders (filter ?P t) ps (map_option app_id ?app) =
      resolveEnabledProviders (filter ?P table) ps (map_option app_id ?app)" for ps
    by (intro resolve_cong) auto
  then show ?thesis by (simp only: listForApp_def Let_def)
qed

lemma app_ids_differ:
  assumes "keys_ok d" "app_by_publicId d c = Some app" "app_by_publicId d c' = Some app'" "app_id app' = app_id app"
  shows "app' = app"
proof -
  have "app \<in> set (saApps d)" "app' \<in> set (saApps d)" using assms(2,3) by (simp_all add: lookup_sound(4))
  moreover have "distinct (map app_id (saApps d))" using assms(1) by (simp add: keys_ok_def)
  ultimately show ?thesis using assms(4) distinct_map_eq by metis
qed

text \<open>The providers stored for an app are the providers its login page shows: after \<open>setForApp\<close> the
  list is, in the fixed order, the wanted providers the deployment has credentials for and a
  global row exists for. The list stays so when the enabled flags of the global rows change later, so
  an opt-out is not undone by a new default; and no other app's list changes.\<close>

theorem provider_settings_roundtrip:
  assumes "db_ok d" "c \<noteq> []" "app_by_publicId d c = Some app" "\<not> app_isPlatform app"
  shows "\<exists>t. setForApp h d c wanted table = (Inr (), t) \<and>
    listForApp h d (Some c) t =
      filter (\<lambda>p. p \<in> set (availableSocialProviders h) \<and> provider_name p \<in> set wanted \<and>
                provider_row_of table None p \<noteq> None) PROVIDER_ORDER \<and>
    (\<forall>flip. listForApp h d (Some c)
       (map (\<lambda>r. if pr_appId r = None then r\<lparr>pr_enabled := flip r\<rparr> else r) t) = listForApp h d (Some c) t) \<and>
    (\<forall>c'. (truthy c' \<longrightarrow> app_by_publicId d (the c') \<noteq> Some app) \<longrightarrow>
       listForApp h d c' t = listForApp h d c' table)"
proof -
  obtain t where run: "setForApp h d c wanted table = (Inr (), t)"
    and rows: "provider_row_of t k q =
        (if k = Some (app_id app) \<and> q \<in> set (availableSocialProviders h)
         then Some \<lparr>pr_appId = Some (app_id app), pr_provider = provider_name q, pr_enabled = provider_name q \<in> set wanted\<rparr>
         else provider_row_of table k q)" for k q
    using write_rows[of "availableSocialProviders h" "app_id app" "\<lambda>p. provider_name p \<in> set wanted" table] assms(3,4)
    unfolding setForApp_def by (auto simp del: modifyE_apply)
  have shown: "listForApp h d (Some c) t =
      filter (\<lambda>p. p \<in> set (availableSocialProviders h) \<and> provider_name p \<in> set wanted \<and>
                provider_row_of table None p \<noteq> None) PROVIDER_ORDER"
    unfolding listForApp_known[OF assms(2,3)] rows by (rule filter_cong) (simp_all split: option.split)
  have stays: "listForApp h d (Some c) (map (\<lambda>r. if pr_appId r = None then r\<lparr>pr_enabled := flip r\<rparr> else r) t) =
      listForApp h d (Some c) t" for flip
  proof -
    let ?g = "\<lambda>r. if pr_appId r = None then r\<lparr>pr_enabled := flip r\<rparr> else r"
    have map_rows: "provider_row_of (map ?g t) k q = map_option ?g (provider_row_of t k q)" for k q
      by (rule row_of_map_keys) simp
    show ?thesis
      unfolding listForApp_known[OF assms(2,3)] map_rows rows
      by (rule filter_cong) (simp_all split: option.split)
  qed
  have elsewhere: "listForApp h d c' t = listForApp h d c' table"
    if other: "truthy c' \<longrightarrow> app_by_publicId d (the c') \<noteq> Some app" for c'
  proof (rule listForApp_rows[of "app_id app"])
    assume "truthy c'"
    with other have "app_by_publicId d (the c') \<noteq> Some app" by simp
    then show "map_option app_id (app_by_publicId d (the c')) \<noteq> Some (app_id app)"
      using app_ids_differ[OF db_ok_parts(1)[OF assms(1)] assms(3)] by auto
  qed (simp add: rows)
  show ?thesis using run shown stays elsewhere by blast
qed

lemma listForApp_available: "set (listForApp h d c table) \<subseteq> set (availableSocialProviders h)"
proof -
  have "set (resolveEnabledProviders rows av k) \<subseteq> set av" for rows av k
    by (auto simp: resolveEnabledProviders_def split: if_splits)
  then show ?thesis by (simp add: listForApp_def Let_def)
qed

lemma Stub_available: "Stub \<in> set (availableSocialProviders h) \<longleftrightarrow> isStubIdpAllowed h"
  by (simp add: availableSocialProviders_def)

lemma stub_needs_test_or_development:
  "Stub \<in> set (listForApp h d c table) \<or> stubProviderConfig h \<noteq> [] \<Longrightarrow>
     h_env h ''NODE_ENV'' = Some ''test'' \<or> h_env h ''NODE_ENV'' = Some ''development''"
proof -
  assume "Stub \<in> set (listForApp h d c table) \<or> stubProviderConfig h \<noteq> []"
  then have "isStubIdpAllowed h"
    using listForApp_available[of h d c table] Stub_available[of h]
    by (cases "isStubIdpAllowed h") (auto simp: stubProviderConfig_def split: option.splits)
  then show ?thesis by (simp add: isStubIdpAllowed_def)
qed

section \<open>The secret for Apple is always fresh\<close>

fun apple_calls ::
    "host \<Rightarrow> (apple_claims \<Rightarrow> string \<Rightarrow> err + string) \<Rightarrow> apple_cache option \<Rightarrow> int list \<Rightarrow> (err + string) list" where
  "apple_calls h sign cached [] = []"
| "apple_calls h sign cached (now # ts) =
     (case appleClientSecret h sign now cached of (r, cached') \<Rightarrow> r # apple_calls h sign cached' ts)"

definition apple_key :: "host \<Rightarrow> string" where
  "apple_key h = unescape_newlines (env_value h ''APPLE_PRIVATE_KEY'')"

text \<open>Claims of a token minted not after the second \<open>t\<close>.\<close>

definition minted :: "host \<Rightarrow> (apple_claims \<Rightarrow> string \<Rightarrow> err + string) \<Rightarrow> int \<Rightarrow> apple_claims \<Rightarrow> string \<Rightarrow> bool" where
  "minted h sign t c s \<longleftrightarrow> sign c (apple_key h) = Inr s \<and>
     Some (ap_iss c) = h_env h ''APPLE_TEAM_ID'' \<and> Some (ap_sub c) = h_env h ''APPLE_CLIENT_ID'' \<and>
     ap_exp c = ap_iat c + LIFETIME_SECONDS \<and> ap_iat c \<le> t"

definition cache_ok :: "host \<Rightarrow> (apple_claims \<Rightarrow> string \<Rightarrow> err + string) \<Rightarrow> int \<Rightarrow> apple_cache option \<Rightarrow> bool" where
  "cache_ok h sign t cached \<longleftrightarrow>
     (case cached of None \<Rightarrow> True
      | Some k \<Rightarrow> \<exists>c. minted h sign t c (ac_secret k) \<and> ap_exp c = ac_expSeconds k)"

lemma minted_later: "minted h sign t c s \<Longrightarrow> t \<le> t' \<Longrightarrow> minted h sign t' c s"
  by (simp add: minted_def)

lemma cache_ok_later: "cache_ok h sign t cached \<Longrightarrow> t \<le> t' \<Longrightarrow> cache_ok h sign t' cached"
  unfolding cache_ok_def by (auto split: option.splits intro: minted_later)

lemma apple_call:
  assumes "cache_ok h sign (now div 1000) cached" "appleClientSecret h sign now cached = (r, cached')"
  shows "cache_ok h sign (now div 1000) cached' \<and>
    (\<forall>s. r = Inr s \<longrightarrow> (\<exists>c. minted h sign (now div 1000) c s \<and> now div 1000 + REFRESH_MARGIN_SECONDS < ap_exp c))"
proof -
  let ?n = "now div 1000"
  let ?c = "\<lparr>ap_iss = env_value h ''APPLE_TEAM_ID'', ap_iat = ?n, ap_exp = ?n + LIFETIME_SECONDS,
    ap_sub = env_value h ''APPLE_CLIENT_ID'', ap_keyid = env_value h ''APPLE_KEY_ID''\<rparr>"
  have lifetime: "min LIFETIME_SECONDS APPLE_MAX_LIFETIME_SECONDS = LIFETIME_SECONDS"
    by (simp add: LIFETIME_SECONDS_def APPLE_MAX_LIFETIME_SECONDS_def)
  show ?thesis
  proof (cases "filter (\<lambda>k. \<not> truthy (h_env h k)) APPLE_KEYS = []")
    case False
    then show ?thesis using assms by (auto simp: appleClientSecret_def)
  next
    case complete: True
    show ?thesis
    proof (cases "cached \<noteq> None \<and> ac_expSeconds (the cached) - ?n > REFRESH_MARGIN_SECONDS")
      case True
      then show ?thesis using assms complete by (fastforce simp: appleClientSecret_def cache_ok_def)
    next
      case False
      have "truthy (h_env h ''APPLE_TEAM_ID'')" "truthy (h_env h ''APPLE_CLIENT_ID'')"
        using complete by (auto simp: APPLE_KEYS_def split: if_splits)
      then have env: "Some (env_value h ''APPLE_TEAM_ID'') = h_env h ''APPLE_TEAM_ID''"
          "Some (env_value h ''APPLE_CLIENT_ID'') = h_env h ''APPLE_CLIENT_ID''"
        by (simp_all add: env_value_def) (metis option.collapse truthy.simps(1))+
      have run: "(r, cached') = (case sign ?c (apple_key h) of
             Inl e \<Rightarrow> (Inl e, cached)
           | Inr secret \<Rightarrow> (Inr secret, Some \<lparr>ac_secret = secret, ac_expSeconds = ?n + LIFETIME_SECONDS\<rparr>))"
        unfolding assms(2)[symmetric] appleClientSecret_def Let_def complete lifetime apple_key_def
        by (simp only: if_not_P[OF False] simp_thms if_False)
      show ?thesis
      proof (cases "sign ?c (apple_key h)")
        case (Inl e)
        then show ?thesis using run assms(1) by simp
      next
        case (Inr s)
        have "minted h sign ?n ?c s" using Inr env by (simp add: minted_def)
        moreover have "?n + REFRESH_MARGIN_SECONDS < ap_exp ?c"
          by (simp add: LIFETIME_SECONDS_def REFRESH_MARGIN_SECONDS_def)
        moreover have "r = Inr s" "cached' = Some \<lparr>ac_secret = s, ac_expSeconds = ?n + LIFETIME_SECONDS\<rparr>"
          using run Inr by simp_all
        ultimately show ?thesis by (auto simp: cache_ok_def intro!: exI[of _ ?c])
      qed
    qed
  qed
qed

lemma apple_calls_fresh:
  assumes "sorted ts" "\<forall>now \<in> set ts. t \<le> now div 1000" "cache_ok h sign t cached"
    "i < length ts" "apple_calls h sign cached ts ! i = Inr s"
  shows "\<exists>c. minted h sign (ts ! i div 1000) c s \<and> ts ! i div 1000 + REFRESH_MARGIN_SECONDS < ap_exp c"
  using assms
proof (induction ts arbitrary: cached t i)
  case (Cons now ts)
  obtain r cached' where call: "appleClientSecret h sign now cached = (r, cached')" by fastforce
  have ok: "cache_ok h sign (now div 1000) cached" using Cons.prems(2,3) by (auto intro: cache_ok_later)
  note step = apple_call[OF ok call]
  show ?case
  proof (cases i)
    case 0
    then show ?thesis using step Cons.prems(5) call by simp
  next
    case (Suc j)
    have "\<forall>u \<in> set ts. now div 1000 \<le> u div 1000" using Cons.prems(1) by (simp add: zdiv_mono1)
    then show ?thesis using Cons.IH[of "now div 1000" cached' j] Cons.prems Suc step call by simp
  qed
qed simp

text \<open>However often and whenever the secret for Apple is asked for while the clock does not run
  backwards, what is served is a token signed over this deployment's team and service, minted before, for
  90 days, which is below Apple's limit, and with more than seven days left.\<close>

theorem apple_secret_stays_fresh:
  assumes "sorted ts" "i < length ts" "apple_calls h sign None ts ! i = Inr s"
  shows "\<exists>c. sign c (apple_key h) = Inr s \<and>
    Some (ap_iss c) = h_env h ''APPLE_TEAM_ID'' \<and> Some (ap_sub c) = h_env h ''APPLE_CLIENT_ID'' \<and>
    ap_exp c - ap_iat c \<le> APPLE_MAX_LIFETIME_SECONDS \<and> ap_iat c \<le> ts ! i div 1000 \<and>
    ts ! i div 1000 + 7 * 24 * 60 * 60 < ap_exp c"
proof -
  have "\<forall>now \<in> set ts. hd ts div 1000 \<le> now div 1000"
    using assms(1) by (cases ts) (auto intro: zdiv_mono1)
  from apple_calls_fresh[OF assms(1) this _ assms(2,3)] obtain c
    where "minted h sign (ts ! i div 1000) c s" "ts ! i div 1000 + REFRESH_MARGIN_SECONDS < ap_exp c"
    by (auto simp: cache_ok_def)
  then show ?thesis
    by (auto simp: minted_def LIFETIME_SECONDS_def APPLE_MAX_LIFETIME_SECONDS_def REFRESH_MARGIN_SECONDS_def
        intro!: exI[of _ c])
qed

section \<open>Routes and refusals\<close>

lemma recorded_method:
  "signInMethodFromPath path = Some m \<Longrightarrow>
     m = ''pwd'' \<and> ends_with ''/sign-in/email'' (the path) \<or>
     (\<exists>p. m = ''ext:'' @ provider_name p \<and> providerFromSignInMethod (Some m) = Some (provider_name p))"
  by (auto simp: signInMethodFromPath_def providerFromSignInMethod_def starts_with_def
      split: if_splits option.splits)

lemma unverified_alike:
  "classifyRejection False relay matchedUser = Some (''email_unverified'', ''social_email_unverified'')"
  by (simp add: classifyRejection_def)

text \<open>
  The refusals of the library do tell whether an account with the address exists: without one the
  page never says that the address is unverified.
\<close>

lemma refusal_distinguishes_accounts:
  assumes "resolve l = Some u" "l \<noteq> []"
  shows "map_of (u_params u) ''error'' = Some ''account_not_linked'' \<Longrightarrow>
      map_option co_code (classifyCallbackOutcome resolve (Some \<lparr>rl_status = Some ''FOUND'', rl_location = Some l\<rparr>) relay) =
        Some ''social_email_unverified''"
    and "map_of (u_params u) ''error'' = Some ''signup_disabled'' \<Longrightarrow>
      map_option co_code (classifyCallbackOutcome resolve (Some \<lparr>rl_status = Some ''FOUND'', rl_location = Some l\<rparr>) relay) =
        Some (if relay then ''social_private_relay'' else ''social_no_account'')"
    and "map_of (u_params u) ''error'' = Some ''constructor'' \<Longrightarrow>
      map_option co_code (classifyCallbackOutcome resolve (Some \<lparr>rl_status = Some ''FOUND'', rl_location = Some l\<rparr>) relay) =
        Some ''social_email_unverified''"
  using assms
  by (simp_all add: classifyCallbackOutcome_def SOCIAL_SIGNUP_UNAVAILABLE_ERROR_CODE_def
      BETTER_AUTH_ERROR_TO_INPUT_def classifyRejection_def inherited_members_def)

text \<open>What the browser can be sent to see, and that only a redirect is ever rewritten.\<close>

lemma callback_codes:
  "classifyCallbackOutcome resolve r relay = Some out \<Longrightarrow>
     co_code out \<in> {''social_no_account'', ''social_signup_unavailable'', ''social_email_unverified'', ''social_private_relay''} \<and>
     (co_canRedirect out \<longleftrightarrow> rl_status (the r) = Some ''FOUND'')"
  by (auto simp: classifyCallbackOutcome_def SOCIAL_SIGNUP_UNAVAILABLE_ERROR_CODE_def classifyRejection_def Let_def
      split: option.splits if_splits)

lemma audit_survives_outages:
  "fst (recordFederationEvent emits connects pid e s) = Inr ()"
  "emits \<Longrightarrow> fs_telemetry (snd (recordFederationEvent emits connects pid e s)) = fs_telemetry s @ [telemetry_of e]"
  by (simp_all add: recordFederationEvent_def thenE_def bindE_def)

section \<open>Provisioning is all or nothing\<close>

lemma issued_cases:
  "issued fault st m s = (case fault st of Some e \<Rightarrow> (Inl e, s) | None \<Rightarrow> m s)"
  by (simp add: issued_def split: option.split)

lemma quietly_result: "fst (quietly m s) = Inr ()"
  by (auto simp: quietly_def discard_def catchE_def bindE_def split: prod.splits sum.splits)

lemma quietly_run: "m s = (r, t) \<Longrightarrow> quietly m s = (Inr (), t)"
  by (cases r) (simp_all add: quietly_def discard_def catchE_def)

lemma keeps_issued [keeps_intros]: "keeps I m \<Longrightarrow> keeps I (issued fault st m)"
  by (auto simp: issued_def simp del: raise_apply intro!: keeps_intros split: option.split)

lemma keeps_quietly [keeps_intros]: "keeps I m \<Longrightarrow> keeps I (quietly m)"
  by (auto simp: quietly_def discard_def simp del: ret_apply intro!: keeps_intros)

lemma keeps_delete_sa_user_by_id [keeps_intros]:
  "(\<And>p. keeps I (delete_sa_user p)) \<Longrightarrow> keeps I (delete_sa_user_by_id i)"
  by (auto simp: delete_sa_user_by_id_def intro!: keeps_intros)

lemma keeps_provisionSocialSignupUser [keeps_intros]: "keeps db_ok (provisionSocialSignupUser fault now i)"
  by (auto simp: provisionSocialSignupUser_def Let_def simp del: ret_apply raise_apply intro!: keeps_intros)

text \<open>The database without the account and what hangs on it.\<close>

definition without_account :: "string \<Rightarrow> db \<Rightarrow> db" where
  "without_account b d = d\<lparr>users := filter (\<lambda>u. usr_id u \<noteq> b) (users d),
     sessions := filter (\<lambda>s. ses_userId s \<noteq> b) (sessions d),
     accounts := filter (\<lambda>a. acc_userId a \<noteq> b) (accounts d),
     twoFactors := filter (\<lambda>t. tf_userId t \<noteq> b) (twoFactors d)\<rparr>"

lemma social_sa_user_result:
  "create_sa_user u d = (r, t) \<Longrightarrow>
     case r of Inl e \<Rightarrow> t = d
     | Inr u' \<Rightarrow> u' = u\<lparr>sau_id := nextId d SaUserT\<rparr> \<and> sau_by_publicId d (sau_publicId u) = None \<and>
         t = d\<lparr>saUsers := saUsers d @ [u'], nextId := (nextId d)(SaUserT := nextId d SaUserT + 1)\<rparr>"
proof -
  have absent: "sau_by_publicId d (sau_publicId u) = None" if "\<not> taken sau_publicId (saUsers d) (u\<lparr>sau_id := k\<rparr>)" for k
    using that unfolding sau_by_publicId_def find_None_all taken_def by (simp add: image_iff) metis
  assume "create_sa_user u d = (r, t)"
  then show ?thesis by (auto simp: create_sa_user_def Let_def absent split: if_splits)
qed

text \<open>A user just created is deleted without a trace but for the sequence.\<close>

lemma delete_new_sa_user:
  assumes "db_ok d" "sau_id u = nextId d SaUserT" "sau_by_publicId d (sau_publicId u) = None"
    and "s = d\<lparr>saUsers := saUsers d @ [u], nextId := n\<rparr>"
  shows "delete_sa_user_by_id (sau_id u) s = (Inr (), d\<lparr>nextId := n\<rparr>)"
proof -
  let ?i = "sau_id u"
  have fresh: "\<forall>r \<in> set (saUsers d). sau_id r \<noteq> ?i"
    using db_ok_parts(3)[OF assms(1)] assms(2) by (auto simp: seqs_ok_def)
  have pub: "\<forall>r \<in> set (saUsers d). sau_publicId r \<noteq> sau_publicId u"
    using assms(3) by (simp add: sau_by_publicId_def find_None_all)
  have "fst ` set (saUserRoles d) \<subseteq> sau_id ` set (saUsers d)" "fst ` set (saUserPermissions d) \<subseteq> sau_id ` set (saUsers d)"
    "inv_userId ` set (saInvitations d) \<subseteq> sau_id ` set (saUsers d)"
    "con_saUserId ` set (saUserConsents d) \<subseteq> sau_id ` set (saUsers d)"
    using db_ok_parts(2)[OF assms(1)] by (simp_all add: fks_ok_def)
  then have rest: "filter (\<lambda>x. fst x \<noteq> ?i) (saUserRoles d) = saUserRoles d"
      "filter (\<lambda>x. fst x \<noteq> ?i) (saUserPermissions d) = saUserPermissions d"
      "filter (\<lambda>x. inv_userId x \<noteq> ?i) (saInvitations d) = saInvitations d"
      "filter (\<lambda>c. con_saUserId c \<noteq> ?i) (saUserConsents d) = saUserConsents d"
    using fresh by (force simp: filter_id_conv)+
  have "find (\<lambda>r. sau_id r = ?i) (saUsers d) = None" using fresh by (auto simp: find_None_all)
  moreover have "find (\<lambda>r. sau_publicId r = sau_publicId u) (saUsers d) = None" using pub by (auto simp: find_None_all)
  moreover have "filter (\<lambda>r. sau_publicId r \<noteq> sau_publicId u) (saUsers d) = saUsers d" using pub by (auto simp: filter_id_conv)
  ultimately show ?thesis
    using rest by (simp add: delete_sa_user_by_id_def delete_sa_user_def findE_def bindE_def sau_by_id_def
        sau_by_publicId_def find_snoc assms(4))
qed

lemma drop_account_run:
  assumes "fault DeleteUser = None" "user_by_id s b \<noteq> None" "sau_by_betterAuthUserId s b = None"
  shows "quietly (issued fault DeleteUser (delete_user b)) s = (Inr (), without_account b s)"
  using delete_user_ok[OF assms(2,3)] assms(1)
  by (intro quietly_run) (simp add: issued_cases without_account_def)

text \<open>Whichever of the writes fails, as long as the compensating deletions get through: on a refusal the
  database is what it was without the account BetterAuth had just made, the sequence of the users
  apart; on success exactly one active user with exactly the default role has been added.\<close>

lemma provisioning_outcome:
  assumes "db_ok d" "ss_betterAuthUserId i = b" "user_by_id d b \<noteq> None" "sau_by_betterAuthUserId d b = None"
    and "fault DeleteUser = None" "fault DeleteSaUser = None"
  shows "case provisionSocialSignupUser fault now i d of
      (Inl e, t) \<Rightarrow> e = social_unavailable \<and> t\<lparr>nextId := nextId d\<rparr> = without_account b d
    | (Inr ev, t) \<Rightarrow> \<exists>c app og r u. ss_clientId i = Some c \<and> app_by_publicId d c = Some app \<and>
        app_defaultOrgId app = Some og \<and> app_defaultRoleId app = Some r \<and>
        u = (social_user now og i)\<lparr>sau_id := nextId d SaUserT\<rparr> \<and> sau_status u = Active \<and>
        t = d\<lparr>saUsers := saUsers d @ [u], saUserRoles := saUserRoles d @ [(sau_id u, r)],
              nextId := (nextId d)(SaUserT := nextId d SaUserT + 1)\<rparr> \<and>
        fe_type ev = SignupCreated \<and> fe_saUserId ev = Some (sau_id u)"
proof -
  let ?app = "if truthy (ss_clientId i) then app_by_publicId d (the (ss_clientId i)) else None"
  have dropped: "quietly (issued fault DeleteUser (delete_user b)) (d\<lparr>nextId := n\<rparr>) =
      (Inr (), without_account b (d\<lparr>nextId := n\<rparr>))" for n
    using assms by (intro drop_account_run) (simp_all add: user_by_id_def sau_by_betterAuthUserId_def)
  from dropped[of "nextId d"]
  have dropped_d: "quietly (issued fault DeleteUser (delete_user b)) d = (Inr (), without_account b d)" by simp
  show ?thesis
  proof (cases "?app = None \<or> \<not> resolveSocialSignupEligibility (the ?app)")
    case True
    then have "provisionSocialSignupUser fault now i d = (Inl social_unavailable, without_account b d)"
      using dropped_d assms(2) by (simp add: provisionSocialSignupUser_def Let_def thenE_def)
    then show ?thesis by (simp add: without_account_def)
  next
    case False
    then obtain c app where c: "ss_clientId i = Some c" "truthy (Some c)" "app_by_publicId d c = Some app"
      and "resolveSocialSignupEligibility app"
      by (cases "ss_clientId i") (auto split: if_splits)
    then obtain og r where defaults: "app_defaultOrgId app = Some og" "app_defaultRoleId app = Some r"
      by (auto simp: resolveSocialSignupEligibility_def)
    let ?su = "social_user now og i"
    obtain r1 s1 where made: "issued fault CreateSaUser (create_sa_user ?su) d = (r1, s1)" by fastforce
    have unfolded: "provisionSocialSignupUser fault now i d =
      (case r1 of
         Inl e \<Rightarrow> thenE (quietly (issued fault DeleteUser (delete_user b))) (raise social_unavailable) s1
       | Inr u \<Rightarrow>
          thenE (catchE (issued fault CreateUserRole (create_user_roles (sau_id u) [r]))
                   (\<lambda>_. thenE (quietly (issued fault DeleteSaUser (delete_sa_user_by_id (sau_id u))))
                         (thenE (quietly (issued fault DeleteUser (delete_user b))) (raise social_unavailable))))
            (ret \<lparr>fe_type = SignupCreated, fe_provider = ss_provider i, fe_reason = None, fe_unexpected = False,
                  fe_saUserId = Some (sau_id u), fe_saUserPublicId = Some (sau_publicId u),
                  fe_betterAuthUserId = Some b, fe_appPublicId = Some (app_publicId app),
                  fe_email = Some (ss_email i)\<rparr>) s1)"
      using False c defaults assms(2) made
      by (simp add: provisionSocialSignupUser_def Let_def catchE_def bindE_def thenE_def split: sum.split prod.split)
    show ?thesis
    proof (cases r1)
      case (Inl e)
      then have "s1 = d" using made by (auto simp: issued_cases split: option.splits dest: social_sa_user_result)
      then show ?thesis using unfolded Inl dropped_d by (simp add: thenE_def without_account_def)
    next
      case (Inr u)
      then have "create_sa_user ?su d = (Inr u, s1)" using made by (simp add: issued_cases split: option.splits)
      from social_sa_user_result[OF this]
      have u: "u = ?su\<lparr>sau_id := nextId d SaUserT\<rparr>" "sau_by_publicId d (sau_publicId u) = None"
        and s1: "s1 = d\<lparr>saUsers := saUsers d @ [u], nextId := (nextId d)(SaUserT := nextId d SaUserT + 1)\<rparr>"
        by simp_all
      obtain r2 s2 where role: "issued fault CreateUserRole (create_user_roles (sau_id u) [r]) s1 = (r2, s2)" by fastforce
      show ?thesis
      proof (cases r2)
        case (Inl e)
        have "s2 = s1"
          using role Inl by (auto simp: issued_cases create_user_roles_def Let_def split: option.splits if_splits)
        moreover have "quietly (issued fault DeleteSaUser (delete_sa_user_by_id (sau_id u))) s1 =
            (Inr (), d\<lparr>nextId := (nextId d)(SaUserT := nextId d SaUserT + 1)\<rparr>)"
          using delete_new_sa_user[OF assms(1) _ u(2) s1] u(1) assms(6)
          by (intro quietly_run) (simp add: issued_cases)
        ultimately show ?thesis
          using unfolded \<open>r1 = Inr u\<close> role Inl dropped by (simp add: thenE_def catchE_def bindE_def without_account_def)
      next
        case (Inr x)
        then have "s2 = s1\<lparr>saUserRoles := saUserRoles d @ [(sau_id u, r)]\<rparr>"
          using role s1 by (auto simp: issued_cases create_user_roles_def Let_def split: option.splits if_splits)
        then show ?thesis
          using unfolded \<open>r1 = Inr u\<close> role Inr s1 u c defaults
          by (simp add: thenE_def catchE_def bindE_def social_user_def Let_def split: prod.split)
      qed
    qed
  qed
qed

section \<open>Instances\<close>

definition social_host :: host where
  "social_host = example_host\<lparr>h_env := (\<lambda>k. if k \<in> set (GOOGLE_KEYS @ APPLE_KEYS) then Some ''v'' else None)\<rparr>"

lemma provider_settings_roundtrip_witness:
  "\<exists>t. setForApp social_host example_db ''xx'' [''apple'']
      [\<lparr>pr_appId = None, pr_provider = ''google'', pr_enabled = True\<rparr>,
       \<lparr>pr_appId = None, pr_provider = ''apple'', pr_enabled = False\<rparr>] = (Inr (), t) \<and>
    listForApp social_host example_db (Some ''xx'') t = [Apple]"
proof -
  have app: "app_by_publicId example_db ''xx'' = Some customer_app" "\<not> app_isPlatform customer_app"
    by (simp_all add: app_by_publicId_def example_defs)
  have providers: "availableSocialProviders social_host = [Google, Apple]"
    by (simp add: availableSocialProviders_def hasAll_def isStubIdpAllowed_def social_host_def
        GOOGLE_KEYS_def MICROSOFT_KEYS_def APPLE_KEYS_def)
  from provider_settings_roundtrip[OF example_db_ok _ app(1) app(2), of social_host "[''apple'']"
      "[\<lparr>pr_appId = None, pr_provider = ''google'', pr_enabled = True\<rparr>,
        \<lparr>pr_appId = None, pr_provider = ''apple'', pr_enabled = False\<rparr>]"]
  show ?thesis by (auto simp: providers PROVIDER_ORDER_def provider_row_of_def)
qed

lemma apple_secret_stays_fresh_witness:
  "\<exists>c :: apple_claims. (\<lambda>c k. Inr (replicate (nat (ap_exp c div 1000000)) CHR ''x'')) c (apple_key social_host) =
       (Inr (replicate 7 CHR ''x'') :: err + string) \<and> (5000 :: int) div 1000 + 7 * 24 * 60 * 60 < ap_exp c"
proof -
  let ?sign = "\<lambda>c k. Inr (replicate (nat (ap_exp c div 1000000)) CHR ''x'')"
  have calls: "apple_calls social_host ?sign None [0, 5000] ! 1 = Inr (replicate 7 CHR ''x'')"
    by code_simp
  have "sorted [0, 5000 :: int]" "1 < length [0, 5000 :: int]" by simp_all
  from apple_secret_stays_fresh[OF this calls] show ?thesis by simp blast
qed

definition social_db :: db where
  "social_db = signup_db\<lparr>saApps := [platform_app, customer_app\<lparr>app_defaultOrgId := Some 2, app_defaultRoleId := Some 3\<rparr>]\<rparr>"

lemma social_db_ok: "db_ok social_db"
  by (simp add: social_db_def signup_db_def db_ok_def keys_ok_def fks_ok_def seqs_ok_def some_values_def example_defs
      numeral_2_eq_2 numeral_3_eq_3)

definition example_social_signup :: social_signup where
  "example_social_signup = \<lparr>ss_betterAuthUserId = ''b4'', ss_email = ''new@c'', ss_name = ''Ada B'', ss_provider = ''google'',
     ss_clientId = Some ''xx'', ss_givenName = None, ss_familyName = None\<rparr>"

lemma provisioning_compensates:
  "\<exists>t. provisionSocialSignupUser (\<lambda>st. if st = CreateUserRole then Some (JsError ''down'') else None) 5
      example_social_signup social_db = (Inl social_unavailable, t) \<and>
    t\<lparr>nextId := nextId social_db\<rparr> = without_account ''b4'' social_db"
proof -
  let ?fault = "\<lambda>st. if st = CreateUserRole then Some (JsError ''down'') else None"
  let ?run = "provisionSocialSignupUser ?fault 5 example_social_signup social_db"
  have "fst ?run = Inl social_unavailable" by code_simp
  then obtain t where run: "?run = (Inl social_unavailable, t)" by (metis prod.collapse)
  have "ss_betterAuthUserId example_social_signup = ''b4''" "user_by_id social_db ''b4'' \<noteq> None"
      "sau_by_betterAuthUserId social_db ''b4'' = None"
    by (simp_all add: example_social_signup_def lookup_defs social_db_def signup_db_def example_defs)
  from provisioning_outcome[OF social_db_ok this, of ?fault 5] run show ?thesis by simp
qed

end
