(* ===== verification/Auth_Hooks.thy ===== *)
theory Auth_Hooks
  imports Social
begin

text \<open>
  What \<open>auth/auth.config.ts\<close> hangs into BetterAuth: the gate every new session passes
  (\<open>auth/session-gate.ts\<close>), the hooks around the creation of an account and of a session, the hooks
  before and after an endpoint, the activation after a verified address, and the mails
  (\<open>auth/otp-sender.ts\<close>, \<open>auth/otp-test-store.ts\<close>). The library that calls the hooks, its
  verification rows and its own writes are parameters. The three \<open>AsyncLocalStorage\<close> scopes that
  \<open>main.ts\<close> opens around a request are one record, passed along with the state.
\<close>

section \<open>The scope of a request\<close>

record request_scope =
  rq_isPrivateEmail :: bool
  rq_ip :: string
  rq_userId :: "string option"
  rq_clientId :: "string option"
  rq_givenName :: "string option"
  rq_familyName :: "string option"

definition new_scope :: "string \<Rightarrow> request_scope" where
  "new_scope ip = \<lparr>rq_isPrivateEmail = False, rq_ip = ip, rq_userId = None, rq_clientId = None,
     rq_givenName = None, rq_familyName = None\<rparr>"

record hook_state =
  hk_db :: db
  hk_sinks :: federation_sinks
  hk_scope :: request_scope
  hk_location :: "string option"

definition onDb :: "(db, 'a) eff \<Rightarrow> (hook_state, 'a) eff" where
  "onDb m = (\<lambda>s. case m (hk_db s) of (r, d) \<Rightarrow> (r, s\<lparr>hk_db := d\<rparr>))"

definition onSinks :: "(federation_sinks, 'a) eff \<Rightarrow> (hook_state, 'a) eff" where
  "onSinks m = (\<lambda>s. case m (hk_sinks s) of (r, k) \<Rightarrow> (r, s\<lparr>hk_sinks := k\<rparr>))"

definition onScope :: "(request_scope \<Rightarrow> request_scope) \<Rightarrow> (hook_state, unit) eff" where
  "onScope f = modifyE (\<lambda>s. s\<lparr>hk_scope := f (hk_scope s)\<rparr>)"

text \<open>\<open>mapProfileToUser\<close> of the providers: nothing is mapped, something is captured.\<close>

record provider_profile =
  pf_given_name :: "string option"
  pf_family_name :: "string option"
  pf_is_private_email :: bool

definition mapProfileToUser :: "provider_id \<Rightarrow> provider_profile \<Rightarrow> (hook_state, unit) eff" where
  "mapProfileToUser p profile =
     (case p of
        Apple \<Rightarrow> onScope (\<lambda>c. c\<lparr>rq_isPrivateEmail := pf_is_private_email profile\<rparr>)
      | Stub \<Rightarrow> ret ()
      | _ \<Rightarrow> onScope (\<lambda>c. c\<lparr>rq_givenName := pf_given_name profile, rq_familyName := pf_family_name profile\<rparr>))"

text \<open>Whether telemetry and audit table can be written, and the public id drawn for the row.\<close>

record audit_env =
  ae_emits :: bool
  ae_connects :: bool
  ae_publicId :: string

definition federation :: "audit_env \<Rightarrow> federation_event \<Rightarrow> (hook_state, unit) eff" where
  "federation ae e = onSinks (recordFederationEvent (ae_emits ae) (ae_connects ae) (ae_publicId ae) e)"

definition plain_event :: "federation_type \<Rightarrow> string \<Rightarrow> federation_event" where
  "plain_event ty provider = \<lparr>fe_type = ty, fe_provider = provider, fe_reason = None, fe_unexpected = False,
     fe_saUserId = None, fe_saUserPublicId = None, fe_betterAuthUserId = None, fe_appPublicId = None,
     fe_email = None\<rparr>"

section \<open>Creating an account\<close>

definition user_create_after ::
    "faults \<Rightarrow> int \<Rightarrow> audit_env \<Rightarrow> hook_route option \<Rightarrow> user_row \<Rightarrow> (hook_state, unit) eff" where
  "user_create_after fault now ae ctx user =
     bindE (readE hk_scope) (\<lambda>sc.
       if \<not> truthy (rq_clientId sc) then ret ()
       else bindE (onDb (provisionSocialSignupUser fault now
                     \<lparr>ss_betterAuthUserId = usr_id user, ss_email = usr_email user, ss_name = usr_name user,
                      ss_provider = resolveProviderForSocialSignup ctx, ss_clientId = rq_clientId sc,
                      ss_givenName = rq_givenName sc, ss_familyName = rq_familyName sc\<rparr>)) (federation ae))"

section \<open>Creating a session\<close>

definition evaluateSessionGate :: "db \<Rightarrow> string \<Rightarrow> bool \<times> user_status option" where
  "evaluateSessionGate d userId =
     (case sau_by_betterAuthUserId d userId of
        None \<Rightarrow> (False, None)
      | Some u \<Rightarrow> (sau_status u = Active, Some (sau_status u)))"

text \<open>The refusal carries the code; the result is the method to store with the session.\<close>

definition session_create_before :: "hook_route option \<Rightarrow> string \<Rightarrow> (hook_state, string option) eff" where
  "session_create_before ctx userId =
     bindE (readE (\<lambda>s. evaluateSessionGate (hk_db s) userId)) (\<lambda>(allowed, status).
       if \<not> allowed then
         raise (ForbiddenE (if status = Some Unverified then ''ACCOUNT_UNVERIFIED'' else ''ACCOUNT_INACTIVE''))
       else ret (signInMethodFromPath (resolveHookRoutePath ctx)))"

text \<open>\<open>updateMany\<close> on the login time; \<open>writes\<close> says whether the statement gets through.\<close>

definition session_create_after :: "bool \<Rightarrow> int \<Rightarrow> audit_env \<Rightarrow> session_row \<Rightarrow> (hook_state, unit) eff" where
  "session_create_after writes now ae session =
     thenE (onDb (modifyE (\<lambda>d. if \<not> writes then d
              else d\<lparr>saUsers := map (\<lambda>u. if sau_betterAuthUserId u = ses_userId session
                                         then u\<lparr>sau_lastLoginAt := Some now\<rparr> else u) (saUsers d)\<rparr>)))
     (thenE (onScope (\<lambda>c. c\<lparr>rq_userId := Some (ses_userId session)\<rparr>))
       (case providerFromSignInMethod (ses_signInMethod session) of
          None \<Rightarrow> ret ()
        | Some provider \<Rightarrow>
            federation ae ((plain_event SigninOk provider)\<lparr>fe_betterAuthUserId := Some (ses_userId session)\<rparr>)))"

text \<open>BetterAuth's own creation around the two hooks: \<open>insert\<close> is its write, given the method.\<close>

definition create_session ::
    "(string option \<Rightarrow> (db, session_row) eff) \<Rightarrow> bool \<Rightarrow> int \<Rightarrow> audit_env \<Rightarrow> hook_route option \<Rightarrow> string \<Rightarrow>
     (hook_state, session_row) eff" where
  "create_session insert_row writes now ae ctx userId =
     bindE (session_create_before ctx userId) (\<lambda>signInMethod.
     bindE (onDb (insert_row signInMethod)) (\<lambda>session.
     thenE (session_create_after writes now ae session) (ret session)))"

section \<open>Before an endpoint\<close>

record hook_request =
  hq_route :: hook_route
  hq_queryState :: "string option"
  hq_bodyState :: "string option"
  hq_bodyToken :: "string option"
  hq_queryToken :: "string option"
  hq_newPassword :: "string option"

definition or_else :: "'a option \<Rightarrow> 'a option \<Rightarrow> 'a option" where
  "or_else x y = (case x of None \<Rightarrow> y | Some a \<Rightarrow> Some a)"

definition is_social_callback :: "hook_route \<Rightarrow> bool" where
  "is_social_callback c \<longleftrightarrow>
     (case signInMethodFromPath (resolveHookRoutePath (Some c)) of None \<Rightarrow> False | Some m \<Rightarrow> starts_with ''ext:'' m)"

text \<open>
  The value stored under the state of the OAuth request is JSON with the page to return to; \<open>Inl\<close> is a
  lookup that throws. A \<open>callbackURL\<close> that is not a string does not occur in what the library stores.
\<close>

definition callback_client :: "host \<Rightarrow> (string \<Rightarrow> err + string option) \<Rightarrow> string option \<Rightarrow> string option" where
  "callback_client h verification state =
     (if \<not> truthy state then None
      else (case verification (the state) of
              Inr (Some v) \<Rightarrow>
                (case json_parse v of
                   Some (JObj ms) \<Rightarrow>
                     (case map_of (rev ms) ''callbackURL'' of
                        Some (JStr l) \<Rightarrow>
                          (if l = [] then None
                           else (case h_parse_url h l of None \<Rightarrow> None | Some u \<Rightarrow> map_of (u_params u) ''client_id''))
                      | _ \<Rightarrow> None)
                 | _ \<Rightarrow> None)
            | _ \<Rightarrow> None))"

text \<open>\<open>auth/resolve-app-for-reset-token.ts\<close>; \<open>verification\<close> gives the value of the first row with the
  identifier.\<close>

definition resolveAppForResetToken :: "(string \<Rightarrow> string option) \<Rightarrow> db \<Rightarrow> string \<Rightarrow> sa_app option" where
  "resolveAppForResetToken verification d token =
     (case verification (''reset-password:'' @ token) of
        None \<Rightarrow> None
      | Some userId \<Rightarrow>
          (case sau_by_betterAuthUserId d userId of
             None \<Rightarrow> None
           | Some u \<Rightarrow> (case org_by_id d (sau_orgId u) of
                          None \<Rightarrow> None
                        | Some g \<Rightarrow> app_by_id d (org_appId g))))"

definition hooks_before ::
    "host \<Rightarrow> (string \<Rightarrow> err + string option) \<Rightarrow> (string \<Rightarrow> string option) \<Rightarrow> hook_request \<Rightarrow> (hook_state, unit) eff" where
  "hooks_before h findValue findReset rq =
     thenE (if is_social_callback (hq_route rq) then
              onScope (\<lambda>c. c\<lparr>rq_clientId := callback_client h findValue (or_else (hq_queryState rq) (hq_bodyState rq))\<rparr>)
            else ret ())
       (if hr_path (hq_route rq) \<noteq> Some ''/reset-password'' then ret ()
        else (let token = or_else (hq_bodyToken rq) (hq_queryToken rq) in
          if \<not> truthy token then ret ()
          else bindE (readE (\<lambda>s. resolveAppForResetToken findReset (hk_db s) (the token))) (\<lambda>app.
            case app of
              None \<Rightarrow> ret ()
            | Some a \<Rightarrow>
                if getFailedPasswordRules (case hq_newPassword rq of None \<Rightarrow> [] | Some p \<Rightarrow> p)
                     (resolvePasswordPolicy h (app_passwordPolicyOverride a)) \<noteq> []
                then raise (BadRequestE ''PASSWORD_POLICY_VIOLATION'') else ret ())))"

section \<open>After an endpoint\<close>

text \<open>
  \<open>resolve\<close> is \<open>new URL(_, 'http://localhost')\<close> and \<open>consentPage\<close> is \<open>new URL('/login/consent', _)\<close>, which
  throws on an \<open>ADMIN_URL\<close> that is no URL.
\<close>

definition consent_gate ::
    "host \<Rightarrow> (string \<Rightarrow> url option) \<Rightarrow> (string \<Rightarrow> err + string option) option \<Rightarrow> (hook_state, unit) eff" where
  "consent_gate h consentPage geo =
     bindE (readE (\<lambda>s. (hk_location s, hk_scope s, hk_db s))) (\<lambda>(location, sc, d).
       if \<not> truthy location then ret ()
       else if \<not> truthy (rq_userId sc) then ret ()
       else (case sau_by_betterAuthUserId d (the (rq_userId sc)) of
               None \<Rightarrow> ret ()
             | Some u \<Rightarrow>
                 (let client = (case h_parse_url h (the location) of
                                  None \<Rightarrow> None | Some l \<Rightarrow> map_of (u_params l) ''client_id'') in
                  if \<not> truthy client then ret ()
                  else (case app_by_publicId d (the client) of
                          None \<Rightarrow> ret ()
                        | Some app \<Rightarrow>
                            (let outstanding = resolveOutstandingConsent d (sau_id u) app
                                                 (resolveCountryFromIp geo (rq_ip sc)) in
                             if outstanding = [] then ret ()
                             else (case consentPage (admin_base_url h) of
                                     None \<Rightarrow> raise (JsError ''Invalid URL'')
                                   | Some page \<Rightarrow>
                                       modifyE (\<lambda>s. s\<lparr>hk_location :=
                                         appendConsentRedirect page (the location) (the client) outstanding\<rparr>)))))))"

definition hooks_after ::
    "host \<Rightarrow> (string \<Rightarrow> url option) \<Rightarrow> (string \<Rightarrow> url option) \<Rightarrow> (string \<Rightarrow> err + string option) option \<Rightarrow> audit_env \<Rightarrow>
     hook_route \<Rightarrow> returned_like option \<Rightarrow> (hook_state, unit) eff" where
  "hooks_after h resolve consentPage geo ae ctx returned =
     (if \<not> is_social_callback ctx then ret ()
      else bindE (readE (\<lambda>s. classifyCallbackOutcome resolve returned (rq_isPrivateEmail (hk_scope s)))) (\<lambda>outcome.
        case outcome of
          None \<Rightarrow> consent_gate h consentPage geo
        | Some out \<Rightarrow>
            thenE (federation ae ((plain_event SigninRejected
                     (case or_else (hr_id ctx) (hr_providerId ctx) of None \<Rightarrow> ''unknown'' | Some p \<Rightarrow> p))
                     \<lparr>fe_reason := Some (co_reason out)\<rparr>))
              (if \<not> co_canRedirect out then ret ()
               else modifyE (\<lambda>s. s\<lparr>hk_location := Some (admin_base_url h @ ''/oauth-error?code='' @ co_code out)\<rparr>))))"

section \<open>Mails and activation\<close>

text \<open>Only an unverified user is promoted; the result is the user the activation webhook is told about.\<close>

definition afterEmailVerification :: "string \<Rightarrow> (db, activated_user option) eff" where
  "afterEmailVerification userId =
     (\<lambda>d. let hit = (\<lambda>u. sau_betterAuthUserId u = userId \<and> sau_status u = Unverified);
              d' = d\<lparr>saUsers := map (\<lambda>u. if hit u then u\<lparr>sau_status := Active\<rparr> else u) (saUsers d)\<rparr> in
          (Inr (if filter hit (saUsers d) = [] then None
                else Option.bind (sau_by_betterAuthUserId d' userId) (\<lambda>u.
                       map_option (\<lambda>b. \<lparr>au_publicId = sau_publicId u, au_orgId = sau_orgId u,
                         au_firstName = sau_firstName u, au_lastName = sau_lastName u, au_email = usr_email b\<rparr>)
                         (user_by_id d' userId))), d'))"

datatype otp_outcome = Sent | SkippedInactive | SkippedUnknown | Skipped2fa

record otp_delivery =
  od_outcome :: otp_outcome
  od_mail :: "(string \<times> string) option"
  od_testStore :: "string \<Rightarrow> string option"

text \<open>The stored code is kept under the lower-case address.\<close>

definition sau_by_email :: "db \<Rightarrow> string \<Rightarrow> sa_user option" where
  "sau_by_email d email =
     find (\<lambda>u. list_ex (\<lambda>b. usr_id b = sau_betterAuthUserId u \<and> usr_email b = email) (users d)) (saUsers d)"

definition second_factor_on :: "db \<Rightarrow> sa_user \<Rightarrow> bool" where
  "second_factor_on d u = (case user_by_id d (sau_betterAuthUserId u) of None \<Rightarrow> False | Some b \<Rightarrow> usr_twoFactorEnabled b)"

definition sendSignInOtp ::
    "bool \<Rightarrow> db \<Rightarrow> (string \<Rightarrow> string option) \<Rightarrow> string \<Rightarrow> string \<Rightarrow> string \<Rightarrow> otp_delivery" where
  "sendSignInOtp isTest d store email otp ty =
     (let skip = (\<lambda>out. \<lparr>od_outcome = out, od_mail = None, od_testStore = store\<rparr>);
          send = \<lparr>od_outcome = Sent, od_mail = Some (email, otp),
                  od_testStore = (if isTest then store(to_lower email \<mapsto> otp) else store)\<rparr> in
      if ty = ''sign-in'' then
        (case sau_by_email d email of
           None \<Rightarrow> skip SkippedUnknown
         | Some u \<Rightarrow> if sau_status u \<noteq> Active then skip SkippedInactive
                     else if second_factor_on d u then skip Skipped2fa else send)
      else send)"

definition greeting_name :: "string option \<Rightarrow> string" where
  "greeting_name nm = or_string (hd (split_on CHR '' '' (js_trim (case nm of None \<Rightarrow> [] | Some n \<Rightarrow> n)))) ''there''"

text \<open>\<open>sendResetPassword\<close>: the address, the name greeted and the link, which is also handed back.\<close>

definition sendResetPassword :: "host \<Rightarrow> string \<Rightarrow> string option \<Rightarrow> string \<Rightarrow> string \<times> string \<times> string" where
  "sendResetPassword h email nm token =
     (email, greeting_name nm, admin_base_url h @ ''/reset-password?token='' @ token)"

datatype verification_mail = CodeMail string string | LinkMail string string string

text \<open>\<open>sendVerificationEmail\<close>: app name and greeting, and the link unless the app verifies by code.\<close>

definition sendVerificationEmail :: "db \<Rightarrow> string \<Rightarrow> string option \<Rightarrow> string \<Rightarrow> verification_mail" where
  "sendVerificationEmail d userId nm url =
     (let app = Option.bind (sau_by_betterAuthUserId d userId) (\<lambda>u.
                  Option.bind (org_by_id d (sau_orgId u)) (\<lambda>g. app_by_id d (org_appId g)));
          appName = (case app of None \<Rightarrow> ''Sassy Auth'' | Some a \<Rightarrow> app_name a) in
      if map_option app_emailVerificationMethod app = Some CodeMethod then CodeMail appName (greeting_name nm)
      else LinkMail appName (greeting_name nm) url)"

section \<open>Trusted origins\<close>

definition trusted_origins :: "host \<Rightarrow> err + string list" where
  "trusted_origins h =
     (let origins = (case h_env h ''TRUSTED_ORIGINS'' of
                       None \<Rightarrow> [''http://localhost:3001'']
                     | Some s \<Rightarrow> filter (\<lambda>w. w \<noteq> []) (map js_trim (split_on CHR '','' s))) in
      case find (\<lambda>w. h_parse_url h w = None) origins of
        Some bad \<Rightarrow> Inl (JsError (''Invalid origin in TRUSTED_ORIGINS: '' @ [CHR 0x22] @ bad @ [CHR 0x22]))
      | None \<Rightarrow> Inr origins)"

text \<open>The cross-origin answer in front of the library, \<open>authCors\<close> of \<open>main.ts\<close>.\<close>

record cors_answer =
  ca_headers :: "(string \<times> string) list"
  ca_ends :: "nat option"

definition authCors :: "string list \<Rightarrow> string \<Rightarrow> string option \<Rightarrow> string option \<Rightarrow> cors_answer" where
  "authCors trusted meth origin requestHeaders =
     (let allow = (if truthy origin \<and> the origin \<in> set trusted then
                     [(''Access-Control-Allow-Origin'', the origin), (''Access-Control-Allow-Credentials'', ''true''),
                      (''Vary'', ''Origin'')] else []) in
      if meth = ''OPTIONS'' then
        \<lparr>ca_headers = allow @ [(''Access-Control-Allow-Methods'', ''GET,POST,PUT,PATCH,DELETE,OPTIONS''),
           (''Access-Control-Allow-Headers'', case requestHeaders of None \<Rightarrow> ''content-type'' | Some v \<Rightarrow> v)],
         ca_ends = Some 204\<rparr>
      else \<lparr>ca_headers = allow, ca_ends = None\<rparr>)"

section \<open>Sessions\<close>

lemma evaluateSessionGate_ok:
  "fst (evaluateSessionGate d b) \<longleftrightarrow> (\<exists>u. sau_by_betterAuthUserId d b = Some u \<and> sau_status u = Active)"
  by (simp add: evaluateSessionGate_def split: option.split)

lemma session_create_before_ok:
  "session_create_before ctx b s =
     (if \<exists>u. sau_by_betterAuthUserId (hk_db s) b = Some u \<and> sau_status u = Active
      then (Inr (signInMethodFromPath (resolveHookRoutePath ctx)), s)
      else (Inl (ForbiddenE (if map_option sau_status (sau_by_betterAuthUserId (hk_db s) b) = Some Unverified
                             then ''ACCOUNT_UNVERIFIED'' else ''ACCOUNT_INACTIVE'')), s))"
  by (auto simp: session_create_before_def evaluateSessionGate_def bindE_def split: option.split)

lemma onDb_ok [eff_simps]:
  "onDb m s = (r, t) \<longleftrightarrow> (\<exists>d. m (hk_db s) = (r, d) \<and> t = s\<lparr>hk_db := d\<rparr>)"
  by (auto simp: onDb_def split: prod.splits)

lemma federation_result: "fst (federation ae e s) = Inr ()"
  by (simp add: federation_def onSinks_def audit_survives_outages split: prod.split)
    (metis audit_survives_outages(1) fst_conv)

lemma federation_frame:
  "hk_db (snd (federation ae e s)) = hk_db s" "hk_scope (snd (federation ae e s)) = hk_scope s"
  "hk_location (snd (federation ae e s)) = hk_location s"
  by (simp_all add: federation_def onSinks_def split: prod.split)

lemma federation_run:
  "\<exists>k. federation ae e s = (Inr (), s\<lparr>hk_sinks := k\<rparr>)"
  using federation_result[of ae e s] by (auto simp: federation_def onSinks_def split: prod.splits)

text \<open>The user a session was opened for, with the time of the login noted.\<close>

definition logged_in :: "bool \<Rightarrow> int \<Rightarrow> string \<Rightarrow> db \<Rightarrow> db" where
  "logged_in writes now b d =
     (if \<not> writes then d
      else d\<lparr>saUsers := map (\<lambda>u. if sau_betterAuthUserId u = b then u\<lparr>sau_lastLoginAt := Some now\<rparr> else u) (saUsers d)\<rparr>)"

lemma session_create_after_run:
  "\<exists>k. session_create_after writes now ae session s =
     (Inr (), s\<lparr>hk_db := logged_in writes now (ses_userId session) (hk_db s),
               hk_scope := (hk_scope s)\<lparr>rq_userId := Some (ses_userId session)\<rparr>, hk_sinks := k\<rparr>)"
proof -
  let ?d = "logged_in writes now (ses_userId session) (hk_db s)"
  let ?s = "s\<lparr>hk_db := ?d, hk_scope := (hk_scope s)\<lparr>rq_userId := Some (ses_userId session)\<rparr>\<rparr>"
  have "session_create_after writes now ae session s =
     (case providerFromSignInMethod (ses_signInMethod session) of
        None \<Rightarrow> ret ()
      | Some provider \<Rightarrow>
          federation ae ((plain_event SigninOk provider)\<lparr>fe_betterAuthUserId := Some (ses_userId session)\<rparr>)) ?s"
    by (simp add: session_create_after_def thenE_def bindE_def onDb_def onScope_def logged_in_def)
  then show ?thesis
  proof (cases "providerFromSignInMethod (ses_signInMethod session)")
    case None
    then show ?thesis
      using \<open>session_create_after writes now ae session s = _\<close> by (auto intro!: exI[of _ "hk_sinks s"])
  next
    case (Some p)
    then show ?thesis
      using \<open>session_create_after writes now ae session s = _\<close>
        federation_run[of ae "(plain_event SigninOk p)\<lparr>fe_betterAuthUserId := Some (ses_userId session)\<rparr>" ?s]
      by auto
  qed
qed

text \<open>C32 No session without an active user. Whatever the way of signing in, the library writes a session
  row only for an account whose user is active at that moment, with the method the route stands for; for any
  other account nothing is written at all and the refusal tells only an unverified account apart. A
  failure to note the time of the login or to record the audit event never costs the session.\<close>

theorem no_session_without_active_user:
  "create_session insert_row writes now ae ctx b s =
     (if \<exists>u. sau_by_betterAuthUserId (hk_db s) b = Some u \<and> sau_status u = Active
      then (case insert_row (signInMethodFromPath (resolveHookRoutePath ctx)) (hk_db s) of
              (Inl e, d) \<Rightarrow> (Inl e, s\<lparr>hk_db := d\<rparr>)
            | (Inr ses, d) \<Rightarrow>
                (Inr ses, s\<lparr>hk_db := logged_in writes now (ses_userId ses) d,
                            hk_scope := (hk_scope s)\<lparr>rq_userId := Some (ses_userId ses)\<rparr>,
                            hk_sinks := hk_sinks (snd (session_create_after writes now ae ses (s\<lparr>hk_db := d\<rparr>)))\<rparr>))
      else (Inl (ForbiddenE (if map_option sau_status (sau_by_betterAuthUserId (hk_db s) b) = Some Unverified
                             then ''ACCOUNT_UNVERIFIED'' else ''ACCOUNT_INACTIVE'')), s))"
proof (cases "\<exists>u. sau_by_betterAuthUserId (hk_db s) b = Some u \<and> sau_status u = Active")
  case False
  then have "session_create_before ctx b s =
     (Inl (ForbiddenE (if map_option sau_status (sau_by_betterAuthUserId (hk_db s) b) = Some Unverified
                             then ''ACCOUNT_UNVERIFIED'' else ''ACCOUNT_INACTIVE'')), s)"
    unfolding session_create_before_ok by (rule if_not_P)
  then show ?thesis unfolding if_not_P[OF False] by (simp add: create_session_def)
next
  case True
  then have before: "session_create_before ctx b s = (Inr (signInMethodFromPath (resolveHookRoutePath ctx)), s)"
    unfolding session_create_before_ok by (rule if_P)
  obtain r d where ins: "insert_row (signInMethodFromPath (resolveHookRoutePath ctx)) (hk_db s) = (r, d)" by fastforce
  then have row: "onDb (insert_row (signInMethodFromPath (resolveHookRoutePath ctx))) s = (r, s\<lparr>hk_db := d\<rparr>)"
    by (simp add: onDb_def)
  show ?thesis
  proof (cases r)
    case (Inl e)
    then show ?thesis unfolding if_P[OF True] using before ins row by (simp add: create_session_def)
  next
    case (Inr ses)
    obtain k where "session_create_after writes now ae ses (s\<lparr>hk_db := d\<rparr>) =
       (Inr (), s\<lparr>hk_db := logged_in writes now (ses_userId ses) d,
                  hk_scope := (hk_scope s)\<lparr>rq_userId := Some (ses_userId ses)\<rparr>, hk_sinks := k\<rparr>)"
      using session_create_after_run[of writes now ae ses "s\<lparr>hk_db := d\<rparr>"] by auto
    then show ?thesis
      unfolding if_P[OF True] using before ins row Inr by (simp add: create_session_def thenE_def)
  qed
qed

section \<open>Passwords chosen by a reset link\<close>

lemma failed_rules_iff: "getFailedPasswordRules p policy = [] \<longleftrightarrow> meets_policy p policy"
  using validate_iff[of p policy] by (auto simp: validatePasswordOrThrow_def split: if_splits)

lemma resolveAppForResetToken_ok:
  "resolveAppForResetToken verification d token = Some app \<longleftrightarrow>
     (\<exists>b u g. verification (''reset-password:'' @ token) = Some b \<and> sau_by_betterAuthUserId d b = Some u \<and>
        org_by_id d (sau_orgId u) = Some g \<and> app_by_id d (org_appId g) = Some app)"
  by (auto simp: resolveAppForResetToken_def split: option.splits)

text \<open>C33 A reset link sets only a password the app of its user accepts: the endpoint behind it is reached
  unless the request carries a token of a user with an app and the new password breaks that app's
  policy, its own one or the global one. The hook writes nothing to the database, and a refused
  request leaves the whole state alone.\<close>

theorem reset_link_respects_policy:
  assumes "hr_path (hq_route rq) = Some ''/reset-password''" "hooks_before h fv verification rq s = (r, t)"
  shows "t = s \<and>
    (r = Inl (BadRequestE ''PASSWORD_POLICY_VIOLATION'') \<longleftrightarrow>
      (\<exists>token b u g app. or_else (hq_bodyToken rq) (hq_queryToken rq) = Some token \<and> token \<noteq> [] \<and>
         verification (''reset-password:'' @ token) = Some b \<and> sau_by_betterAuthUserId (hk_db s) b = Some u \<and>
         org_by_id (hk_db s) (sau_orgId u) = Some g \<and> app_by_id (hk_db s) (org_appId g) = Some app \<and>
         \<not> meets_policy (case hq_newPassword rq of None \<Rightarrow> [] | Some p \<Rightarrow> p)
              (resolvePasswordPolicy h (app_passwordPolicyOverride app)))) \<and>
    (r = Inl (BadRequestE ''PASSWORD_POLICY_VIOLATION'') \<or> r = Inr ())"
proof -
  let ?pw = "case hq_newPassword rq of None \<Rightarrow> [] | Some p \<Rightarrow> p"
  have "callback_segment ''/reset-password'' = None" by code_simp
  then have "\<not> is_social_callback (hq_route rq)"
    using assms(1) by (simp add: is_social_callback_def signInMethodFromPath_def resolveHookRoutePath_def
        starts_with_def ends_with_def)
  then have run: "(r, t) = (let token = or_else (hq_bodyToken rq) (hq_queryToken rq) in
          if \<not> truthy token then ret ()
          else bindE (readE (\<lambda>s. resolveAppForResetToken verification (hk_db s) (the token))) (\<lambda>app.
            case app of
              None \<Rightarrow> ret ()
            | Some a \<Rightarrow>
                if \<not> meets_policy ?pw (resolvePasswordPolicy h (app_passwordPolicyOverride a))
                then raise (BadRequestE ''PASSWORD_POLICY_VIOLATION'') else ret ())) s"
    using assms unfolding hooks_before_def failed_rules_iff by (simp add: thenE_def)
  have "t = s \<and>
    (r = Inl (BadRequestE ''PASSWORD_POLICY_VIOLATION'') \<longleftrightarrow>
      (\<exists>token app. or_else (hq_bodyToken rq) (hq_queryToken rq) = Some token \<and> token \<noteq> [] \<and>
         resolveAppForResetToken verification (hk_db s) token = Some app \<and>
         \<not> meets_policy ?pw (resolvePasswordPolicy h (app_passwordPolicyOverride app)))) \<and>
    (r = Inl (BadRequestE ''PASSWORD_POLICY_VIOLATION'') \<or> r = Inr ())"
  proof (cases "or_else (hq_bodyToken rq) (hq_queryToken rq)")
    case None
    then show ?thesis using run by simp
  next
    case (Some token)
    then show ?thesis
      using run by (cases "resolveAppForResetToken verification (hk_db s) token") (auto split: if_splits)
  qed
  then show ?thesis unfolding resolveAppForResetToken_ok by blast
qed

text \<open>The other endpoints of the library that set a password are not looked at.\<close>

lemma other_resets_unchecked:
  assumes "hr_path (hq_route rq) = Some ''/email-otp/reset-password''"
  shows "hooks_before h fv verification rq s = (Inr (), s)"
proof -
  have "callback_segment ''/email-otp/reset-password'' = None" by code_simp
  then have "\<not> is_social_callback (hq_route rq)"
    using assms by (simp add: is_social_callback_def signInMethodFromPath_def resolveHookRoutePath_def
        starts_with_def ends_with_def)
  then show ?thesis using assms by (simp add: hooks_before_def thenE_def)
qed

section \<open>Consent before the browser goes on\<close>

text \<open>The gate at a location that leads back to an app, for a known user.\<close>

lemma consent_gate_run:
  assumes "hk_location s = Some l" "l \<noteq> []" "rq_userId (hk_scope s) = Some b" "b \<noteq> []"
    and "sau_by_betterAuthUserId (hk_db s) b = Some u" "h_parse_url h l = Some pl"
    and "map_of (u_params pl) ''client_id'' = Some c" "c \<noteq> []" "app_by_publicId (hk_db s) c = Some app"
    and "consentPage (admin_base_url h) = Some page"
  shows "consent_gate h consentPage geo s =
    (let outstanding = resolveOutstandingConsent (hk_db s) (sau_id u) app (resolveCountryFromIp geo (rq_ip (hk_scope s))) in
     (Inr (), if outstanding = [] then s else s\<lparr>hk_location := appendConsentRedirect page l c outstanding\<rparr>))"
  using assms by (simp add: consent_gate_def Let_def)

lemma recorded_settles:
  assumes "db_ok d" "sau_by_betterAuthUserId d b = Some u" "app_by_publicId d c = Some app"
    and "recordMyConsent geo now b c ip ts d = (Inr (), d')"
  shows "resolveOutstandingConsent d' (sau_id u) app (resolveCountryFromIp geo ip) = [] \<and>
    sau_by_betterAuthUserId d' b = Some u \<and> app_by_publicId d' c = Some app"
proof -
  let ?out = "resolveOutstandingConsent d (sau_id u) app (resolveCountryFromIp geo ip)"
  have run: "(if filter (\<lambda>doc. doc_type doc \<notin> set ts) ?out \<noteq> [] then
      raise (BadRequestE (''Missing acceptance for: '' @
        js_join '', '' (map (\<lambda>doc. document_name (doc_type doc)) (filter (\<lambda>doc. doc_type doc \<notin> set ts) ?out))))
      else recordConsent now (sau_id u) (app_id app) (filter (\<lambda>doc. doc_type doc \<in> set ts) ?out)) d = (Inr (), d')"
    using assms(2-4) by (simp add: recordMyConsent_def Let_def bindE_def findE_def)
  have complete: "filter (\<lambda>doc. doc_type doc \<notin> set ts) ?out = []"
  proof (rule ccontr)
    assume missing: "filter (\<lambda>doc. doc_type doc \<notin> set ts) ?out \<noteq> []"
    show False using run unfolding if_P[OF missing] by simp
  qed
  then have "filter (\<lambda>doc. doc_type doc \<in> set ts) ?out = ?out"
    by (simp add: filter_empty_conv filter_id_conv)
  with run complete have "recordConsent now (sau_id u) (app_id app) ?out d = (Inr (), d')" by simp
  then have d': "d' = d\<lparr>saUserConsents := saUserConsents d @ map (consent_row now (sau_id u) (app_id app)) ?out\<rparr>"
    using record_outstanding[OF assms(1-3) refl, of now "resolveCountryFromIp geo ip"] by simp
  have "resolveOutstandingConsent d' (sau_id u) app (resolveCountryFromIp geo ip) = []"
    unfolding d' by (auto simp: resolveOutstandingConsent_def accepted_types_def filter_empty_conv consent_row_def)
  then show ?thesis using assms(2,3) by (simp add: d' lookup_defs)
qed

text \<open>C34 A federated sign-in goes on to the app only when nothing is left to accept. When the callback
  succeeded for a user and its location names an app, the browser is sent to the consent page, with the app
  and the location it was bound for, exactly if a document the app requires in the user's country is
  outstanding. The detour ends: once the user has recorded the consent the page asks for, the same
  callback lets the browser through.\<close>

theorem consent_comes_before_the_app:
  assumes "db_ok (hk_db s)" "is_social_callback ctx"
    and "classifyCallbackOutcome resolve returned (rq_isPrivateEmail (hk_scope s)) = None"
    and "hk_location s = Some l" "l \<noteq> []" "rq_userId (hk_scope s) = Some b" "b \<noteq> []"
    and "sau_by_betterAuthUserId (hk_db s) b = Some u" "h_parse_url h l = Some pl"
    and "map_of (u_params pl) ''client_id'' = Some c" "c \<noteq> []" "app_by_publicId (hk_db s) c = Some app"
    and "consentPage (admin_base_url h) = Some page"
  shows "(if resolveOutstandingConsent (hk_db s) (sau_id u) app (resolveCountryFromIp geo (rq_ip (hk_scope s))) = []
      then hooks_after h resolve consentPage geo ae ctx returned s = (Inr (), s)
      else \<exists>q. hooks_after h resolve consentPage geo ae ctx returned s =
             (Inr (), s\<lparr>hk_location := Some (url_to_string q)\<rparr>) \<and>
           u_origin q = u_origin page \<and> u_pathname q = u_pathname page \<and>
           map_of (u_params q) ''appPublicId'' = Some c \<and> map_of (u_params q) ''next'' = Some l) \<and>
    (\<forall>now ts d'. recordMyConsent geo now b c (rq_ip (hk_scope s)) ts (hk_db s) = (Inr (), d') \<longrightarrow>
      hooks_after h resolve consentPage geo ae ctx returned (s\<lparr>hk_db := d'\<rparr>) = (Inr (), s\<lparr>hk_db := d'\<rparr>))"
proof (intro conjI allI impI)
  have gate: "hooks_after h resolve consentPage geo ae ctx returned s' = consent_gate h consentPage geo s'"
    if "hk_scope s' = hk_scope s" for s'
    using assms(2,3) that by (simp add: hooks_after_def)
  let ?out = "resolveOutstandingConsent (hk_db s) (sau_id u) app (resolveCountryFromIp geo (rq_ip (hk_scope s)))"
  note run = consent_gate_run[OF assms(4-12), where consentPage = consentPage and page = page and geo = geo, OF assms(13)]
  show "if ?out = [] then hooks_after h resolve consentPage geo ae ctx returned s = (Inr (), s)
      else \<exists>q. hooks_after h resolve consentPage geo ae ctx returned s =
             (Inr (), s\<lparr>hk_location := Some (url_to_string q)\<rparr>) \<and>
           u_origin q = u_origin page \<and> u_pathname q = u_pathname page \<and>
           map_of (u_params q) ''appPublicId'' = Some c \<and> map_of (u_params q) ''next'' = Some l"
  proof (cases "?out = []")
    case True
    then show ?thesis using gate[of s] run by (simp add: Let_def)
  next
    case False
    let ?q = "url_set_param (url_set_param page ''appPublicId'' c) ''next'' l"
    have "hooks_after h resolve consentPage geo ae ctx returned s = (Inr (), s\<lparr>hk_location := Some (url_to_string ?q)\<rparr>)"
      using gate[of s] run False by (simp add: Let_def appendConsentRedirect_def)
    then show ?thesis
      using False by (auto simp: params_set_lookup params_set_other intro!: exI[of _ ?q])
  qed
  fix now ts d' assume "recordMyConsent geo now b c (rq_ip (hk_scope s)) ts (hk_db s) = (Inr (), d')"
  from recorded_settles[OF assms(1,8,12) this]
  show "hooks_after h resolve consentPage geo ae ctx returned (s\<lparr>hk_db := d'\<rparr>) = (Inr (), s\<lparr>hk_db := d'\<rparr>)"
    using assms(4-7,9-11,13)
    by (subst gate) (simp_all add: consent_gate_run[where page = page] Let_def)
qed

section \<open>A first federated sign-in\<close>

text \<open>BetterAuth creates the account, then the session: \<open>make_account\<close> and \<open>insert_row\<close> are its writes.\<close>

definition first_social_sign_in ::
    "(db, user_row) eff \<Rightarrow> (string option \<Rightarrow> (db, session_row) eff) \<Rightarrow> faults \<Rightarrow> bool \<Rightarrow> int \<Rightarrow> audit_env \<Rightarrow>
     hook_route option \<Rightarrow> (hook_state, session_row) eff" where
  "first_social_sign_in make_account insert_row fault writes now ae ctx =
     bindE (onDb make_account) (\<lambda>user.
     thenE (user_create_after fault now ae ctx user) (create_session insert_row writes now ae ctx (usr_id user)))"

text \<open>The database with the user provisioned for an account.\<close>

definition provisioned :: "sa_user \<Rightarrow> int \<Rightarrow> db \<Rightarrow> db" where
  "provisioned u r d = d\<lparr>saUsers := saUsers d @ [u], saUserRoles := saUserRoles d @ [(sau_id u, r)],
     nextId := (nextId d)(SaUserT := nextId d SaUserT + 1)\<rparr>"

lemma create_session_run:
  assumes "sau_by_betterAuthUserId (hk_db s) b = Some u" "sau_status u = Active"
    and "insert_row (signInMethodFromPath (resolveHookRoutePath ctx)) (hk_db s) = (r, d)"
  shows "\<exists>t. create_session insert_row writes now ae ctx b s = (r, t) \<and>
    hk_db t = (case r of Inl e \<Rightarrow> d | Inr ses \<Rightarrow> logged_in writes now (ses_userId ses) d)"
proof -
  have before: "session_create_before ctx b s = (Inr (signInMethodFromPath (resolveHookRoutePath ctx)), s)"
    using assms(1,2) by (simp add: session_create_before_ok)
  have row: "onDb (insert_row (signInMethodFromPath (resolveHookRoutePath ctx))) s = (r, s\<lparr>hk_db := d\<rparr>)"
    using assms(3) by (simp add: onDb_def)
  show ?thesis
  proof (cases r)
    case (Inr ses)
    then show ?thesis
      using before row session_create_after_run[of writes now ae ses "s\<lparr>hk_db := d\<rparr>"]
      by (auto simp: create_session_def thenE_def)
  qed (use before row in \<open>simp add: create_session_def\<close>)
qed


section \<open>Activation and sign-in codes\<close>

lemma keeps_afterEmailVerification [keeps_intros]: "keeps db_ok (afterEmailVerification b)"
proof (rule keepsI)
  fix d r t assume ok: "db_ok d" and run: "afterEmailVerification b d = (r, t)"
  have "t = d\<lparr>saUsers := map (\<lambda>u. if sau_betterAuthUserId u = b \<and> sau_status u = Unverified
                                     then u\<lparr>sau_status := Active\<rparr> else u) (saUsers d)\<rparr>"
    using run by (simp add: afterEmailVerification_def Let_def)
  then show "db_ok t" using ok by (auto intro!: db_ok_user_columns)
qed

lemma logged_in_ok: "db_ok d \<Longrightarrow> db_ok (logged_in writes now b d)"
  unfolding logged_in_def by (auto intro!: db_ok_user_columns)

lemma map_lookup:
  assumes "\<And>u. sau_betterAuthUserId (f u) = sau_betterAuthUserId u"
  shows "sau_by_betterAuthUserId (d\<lparr>saUsers := map f (saUsers d)\<rparr>) b = map_option f (sau_by_betterAuthUserId d b)"
  using assms by (simp add: sau_by_betterAuthUserId_def find_map_same_key)

text \<open>A pending or inactive user is not promoted by verifying an address, and nobody is told of it.\<close>

lemma verification_promotes_only_unverified:
  assumes "db_ok d" "sau_by_betterAuthUserId d b = Some u"
  shows "fst (afterEmailVerification b d) = Inr None \<longleftrightarrow> sau_status u \<noteq> Unverified"
    and "sau_by_betterAuthUserId (snd (afterEmailVerification b d)) b =
      Some (if sau_status u = Unverified then u\<lparr>sau_status := Active\<rparr> else u)"
proof -
  let ?f = "\<lambda>u. if sau_betterAuthUserId u = b \<and> sau_status u = Unverified then u\<lparr>sau_status := Active\<rparr> else u"
  have u: "u \<in> set (saUsers d)" "sau_betterAuthUserId u = b" using lookup_sound(9)[OF assms(2)] by simp_all
  have only: "x = u" if "x \<in> set (saUsers d)" "sau_betterAuthUserId x = b" for x
    using lookup_complete(7)[OF db_ok_parts(1)[OF assms(1)] that(1)] that(2) assms(2) by simp
  have found: "sau_by_betterAuthUserId (d\<lparr>saUsers := map ?f (saUsers d)\<rparr>) b = Some (?f u)"
    using assms(2) by (subst map_lookup) auto
  then show "sau_by_betterAuthUserId (snd (afterEmailVerification b d)) b =
      Some (if sau_status u = Unverified then u\<lparr>sau_status := Active\<rparr> else u)"
    using u by (simp add: afterEmailVerification_def Let_def)
  have hit: "filter (\<lambda>u. sau_betterAuthUserId u = b \<and> sau_status u = Unverified) (saUsers d) = [] \<longleftrightarrow>
      sau_status u \<noteq> Unverified"
    unfolding filter_empty_conv using u only by blast
  obtain row where "user_by_id d b = Some row"
    using user_relations(1)[OF db_ok_parts(2)[OF assms(1)] u(1)] u(2) by auto
  then have "user_by_id (d\<lparr>saUsers := map ?f (saUsers d)\<rparr>) b = Some row" by (simp add: user_by_id_def)
  then show "fst (afterEmailVerification b d) = Inr None \<longleftrightarrow> sau_status u \<noteq> Unverified"
    using found hit by (simp add: afterEmailVerification_def Let_def)
qed

lemma sign_in_code_needs_active_user_without_2fa:
  assumes "od_mail (sendSignInOtp isTest d store email otp ''sign-in'') \<noteq> None"
  shows "\<exists>u. sau_by_email d email = Some u \<and> sau_status u = Active \<and> \<not> second_factor_on d u"
  using assms by (auto simp: sendSignInOtp_def Let_def split: option.splits if_splits)

text \<open>The other kinds of code go to any address.\<close>

lemma other_codes_go_anywhere:
  "ty \<noteq> ''sign-in'' \<Longrightarrow> od_mail (sendSignInOtp isTest d store email otp ty) = Some (email, otp)"
  by (simp add: sendSignInOtp_def Let_def)

lemma untrusted_origin_gets_no_leave:
  "truthy origin \<Longrightarrow> the origin \<notin> set trusted \<Longrightarrow>
     map_of (ca_headers (authCors trusted m origin rh)) ''Access-Control-Allow-Origin'' = None"
  by (simp add: authCors_def Let_def)

section \<open>Instances\<close>

definition example_hooks :: "db \<Rightarrow> hook_state" where
  "example_hooks d = \<lparr>hk_db = d, hk_sinks = \<lparr>fs_audit = [], fs_telemetry = []\<rparr>,
     hk_scope = (new_scope ''192.0.2.1'')\<lparr>rq_clientId := Some ''xx'', rq_userId := Some ''b3''\<rparr>,
     hk_location = Some ''https://c''\<rparr>"

definition example_audit :: audit_env where
  "example_audit = \<lparr>ae_emits = True, ae_connects = True, ae_publicId = ''e''\<rparr>"

definition google_callback :: hook_route where
  "google_callback = \<lparr>hr_path = Some ''/callback/:id'', hr_id = Some ''google'', hr_providerId = None\<rparr>"

definition reset_request :: hook_request where
  "reset_request = \<lparr>hq_route = \<lparr>hr_path = Some ''/reset-password'', hr_id = None, hr_providerId = None\<rparr>,
     hq_queryState = None, hq_bodyState = None, hq_bodyToken = Some ''t'', hq_queryToken = None,
     hq_newPassword = Some ''short''\<rparr>"

lemma reset_link_respects_policy_witness:
  "hooks_before example_host (\<lambda>_. Inr None) (\<lambda>i. if i = ''reset-password:t'' then Some ''b3'' else None) reset_request
     (example_hooks example_db) = (Inl (BadRequestE ''PASSWORD_POLICY_VIOLATION''), example_hooks example_db)"
proof -
  let ?v = "\<lambda>i. if i = ''reset-password:t'' then Some ''b3'' else None"
  let ?run = "hooks_before example_host (\<lambda>_. Inr None) ?v reset_request (example_hooks example_db)"
  have "fst ?run = Inl (BadRequestE ''PASSWORD_POLICY_VIOLATION'')" by code_simp
  then obtain t where run: "?run = (Inl (BadRequestE ''PASSWORD_POLICY_VIOLATION''), t)" by (metis prod.collapse)
  have path: "hr_path (hq_route reset_request) = Some ''/reset-password''" by (simp add: reset_request_def)
  from reset_link_respects_policy[OF path run] run show ?thesis by simp
qed

definition consent_host :: host where
  "consent_host = example_host\<lparr>h_parse_url := (\<lambda>s. Some ((example_url s)\<lparr>u_params := [(''client_id'', ''xx'')]\<rparr>))\<rparr>"

lemma consent_comes_before_the_app_witness:
  "\<exists>q. hooks_after consent_host (\<lambda>_. None) (\<lambda>_. Some (example_url ''https://admin'')) None example_audit google_callback None
      (example_hooks consent_db) = (Inr (), (example_hooks consent_db)\<lparr>hk_location := Some (url_to_string q)\<rparr>) \<and>
    map_of (u_params q) ''next'' = Some ''https://c''"
proof -
  let ?s = "example_hooks consent_db" and ?a = "customer_app\<lparr>app_termsUrl := Some ''https://c/terms''\<rparr>"
  have ok: "db_ok (hk_db ?s)" using consent_db_ok by (simp add: example_hooks_def)
  have callback: "is_social_callback google_callback" by code_simp
  have none: "classifyCallbackOutcome (\<lambda>_. None) None (rq_isPrivateEmail (hk_scope ?s)) = None"
    by (simp add: classifyCallbackOutcome_def)
  have state: "hk_location ?s = Some ''https://c''" "rq_userId (hk_scope ?s) = Some ''b3''"
      "sau_by_betterAuthUserId (hk_db ?s) ''b3'' = Some (example_sa_user 3 ''b3'' 2)"
      "app_by_publicId (hk_db ?s) ''xx'' = Some ?a"
    by (simp_all add: example_hooks_def lookup_defs consent_db_def example_defs)
  have url: "h_parse_url consent_host ''https://c'' = Some ((example_url ''https://c'')\<lparr>u_params := [(''client_id'', ''xx'')]\<rparr>)"
      "map_of (u_params ((example_url ''https://c'')\<lparr>u_params := [(''client_id'', ''xx'')]\<rparr>)) ''client_id'' = Some ''xx''"
    by (simp_all add: consent_host_def)
  have due: "resolveOutstandingConsent (hk_db ?s) (sau_id (example_sa_user 3 ''b3'' 2)) ?a
      (resolveCountryFromIp None (rq_ip (hk_scope ?s))) \<noteq> []"
    by (simp add: example_hooks_def resolveOutstandingConsent_def resolveRequiredConsent_def accepted_types_def
        consent_db_def example_defs resolveCountryFromIp_def)
  note run = consent_comes_before_the_app[where geo = None and ae = example_audit and
      consentPage = "\<lambda>_. Some (example_url ''https://admin'')" and page = "example_url ''https://admin''",
      OF ok callback none state(1) _ state(2) _ state(3) url _ state(4) refl]
  from run due show ?thesis by auto
qed


end
