(* ===== verification/Server.thy ===== *)
theory Server
  imports Roles Permissions Apps Invitations Registration Service_Users Refresh_Tokens Auth_Hooks
begin

text \<open>
  The server as one state machine on its database: a step is one request of any of the modelled
  services, successful or not, one sweep, or one write of the token endpoints. The invariant that
  every component relies on is an invariant of this machine.
\<close>

section \<open>The tables behind the catalogue\<close>

text \<open>Apps, organisations and roles; most requests leave them alone.\<close>

definition catalog :: "db \<Rightarrow> sa_app list \<times> sa_org list \<times> sa_role list" where
  "catalog d = (saApps d, saOrgs d, saRoles d)"

lemma keeps_catalog_statements [keeps_intros]:
  "keeps (\<lambda>d. catalog d = X) (create_user x)" "keeps (\<lambda>d. catalog d = X) (update_user b g)"
  "keeps (\<lambda>d. catalog d = X) (delete_user b)" "keeps (\<lambda>d. catalog d = X) (create_account a)"
  "keeps (\<lambda>d. catalog d = X) (create_sa_user u)" "keeps (\<lambda>d. catalog d = X) (update_sa_user pid f)"
  "keeps (\<lambda>d. catalog d = X) (delete_sa_user pid)"
  "keeps (\<lambda>d. catalog d = X) (create_user_roles k ks)"
  "keeps (\<lambda>d. catalog d = X) (create_user_permissions k ks)"
  "keeps (\<lambda>d. catalog d = X) (delete_user_roles_of k)"
  "keeps (\<lambda>d. catalog d = X) (delete_user_permissions_of k)"
  "keeps (\<lambda>d. catalog d = X) (create_user_role k l)" "keeps (\<lambda>d. catalog d = X) (delete_user_role k l)"
  "keeps (\<lambda>d. catalog d = X) (delete_sessions_of b)" "keeps (\<lambda>d. catalog d = X) (delete_two_factor_of b)"
  "keeps (\<lambda>d. catalog d = X) (revokeForUser now k)" "keeps (\<lambda>d. catalog d = X) (create_invitation v)"
  "keeps (\<lambda>d. catalog d = X) (modifyE (expire_invitations_of k))"
  "keeps (\<lambda>d. catalog d = X) (claim_invitation m now)" "keeps (\<lambda>d. catalog d = X) (create_consents cs)"
  "keeps (\<lambda>d. catalog d = X) (create_permission p)" "keeps (\<lambda>d. catalog d = X) (update_permission i h)"
  "keeps (\<lambda>d. catalog d = X) (delete_permission i)"
  "keeps (\<lambda>d. catalog d = X) (create_role_permissions i ks)" "keeps (\<lambda>d. catalog d = X) (delete_role_permissions_of i)"
  by (auto simp: keeps_def catalog_def statement_defs Let_def delete_user_roles_of_def
      delete_user_permissions_of_def create_user_role_def delete_user_role_def delete_sessions_of_def
      delete_two_factor_of_def delete_role_permissions_of_def revokeForUser_def revoke_where_def
      expire_invitations_of_def claim_invitation_def split: option.splits)

lemma keeps_catalog_tokens [keeps_intros]:
  "keeps (\<lambda>d. catalog d = X) (create_code row)" "keeps (\<lambda>d. catalog d = X) (delete_code c)"
  "keeps (\<lambda>d. catalog d = X) (sweep_codes now)" "keeps (\<lambda>d. catalog d = X) (create_token tok)"
  "keeps (\<lambda>d. catalog d = X) (modifyE (revoke_where P now))"
  "keeps (\<lambda>d. catalog d = X) (modifyE (\<lambda>d. d\<lparr>saRefreshTokens := f d\<rparr>))"
  "keeps (\<lambda>d. catalog d = X) (modifyE (\<lambda>d. d\<lparr>saUsers := g d\<rparr>))"
  by (auto simp: keeps_def catalog_def create_code_def delete_code_def sweep_codes_def create_token_def revoke_where_def
      Let_def split: option.splits)

section \<open>Soundness\<close>

definition sound :: "db \<Rightarrow> bool" where
  "sound d \<longleftrightarrow> db_ok d \<and> apps_sound d"

lemma sound_catalog:
  assumes "keeps db_ok m" "\<And>X. keeps (\<lambda>d. catalog d = X) m"
  shows "keeps sound m"
proof (rule keepsI)
  fix d r t assume s: "sound d" and run: "m d = (r, t)"
  have "catalog t = catalog d" using keepsD[OF assms(2) _ run] by blast
  then have "apps_sound t = apps_sound d" by (auto simp: catalog_def apps_sound_def own_defaults_def)
  then show "sound t" using s keepsD[OF assms(1) _ run] by (simp add: sound_def)
qed

lemma soundI:
  assumes "keeps db_ok m" "\<And>d r t. db_ok d \<Longrightarrow> apps_sound d \<Longrightarrow> m d = (r, t) \<Longrightarrow> apps_sound t"
  shows "keeps sound m"
  unfolding sound_def using assms unfolding keeps_def by (metis surjective_pairing)

text \<open>The statements that write the catalogue.\<close>

lemma keeps_sound_orgs [keeps_intros]:
  "keeps sound (create_org g)"
  "(\<And>x. org_id (f x) = org_id x \<and> org_appId (f x) = org_appId x) \<Longrightarrow> keeps sound (update_org i f)"
  "keeps sound (delete_org i)"
proof -
  show "keeps sound (create_org g)"
    by (rule soundI[OF keeps_create_org])
      (fastforce simp: create_org_def Let_def apps_sound_def own_defaults_def split: if_splits)
  show "keeps sound (delete_org i)"
    by (rule soundI[OF keeps_delete_org])
      (fastforce simp: delete_org_def apps_sound_def own_defaults_def list_ex_iff split: if_splits)
  assume f: "\<And>x. org_id (f x) = org_id x \<and> org_appId (f x) = org_appId x"
  show "keeps sound (update_org i f)"
  proof (rule soundI[OF keeps_update_org[OF f]])
    fix d r t assume ok: "db_ok d" "apps_sound d" and run: "update_org i f d = (r, t)"
    show "apps_sound t"
    proof (cases "t = d")
      case False
      then obtain x where x: "org_by_id d i = Some x" and t: "t = d\<lparr>saOrgs := replace_row org_id i (f x) (saOrgs d)\<rparr>"
        using run by (auto simp: update_org_def Let_def split: option.splits if_splits)
      have only: "y = x" if "y \<in> set (saOrgs d)" "org_id y = i" for y
        using that x lookup_complete(4)[OF db_ok_parts(1)[OF ok(1)]] by (metis option.inject)
      have "\<exists>y' \<in> set (saOrgs t). org_id y' = org_id y \<and> org_appId y' = org_appId y" if "y \<in> set (saOrgs d)" for y
        using that only f by (cases "org_id y = i") (force simp: t replace_row_def)+
      then show ?thesis using ok(2) unfolding apps_sound_def own_defaults_def t by simp metis
    qed (simp add: ok)
  qed
qed

lemma keeps_sound_roles [keeps_intros]:
  "keeps sound (create_role l)"
  "(\<And>x. role_id (f x) = role_id x \<and> role_appId (f x) = role_appId x) \<Longrightarrow> keeps sound (update_role i f)"
  "keeps sound (delete_role i)"
proof -
  show "keeps sound (create_role l)"
    by (rule soundI[OF keeps_create_role])
      (fastforce simp: create_role_def Let_def apps_sound_def own_defaults_def split: if_splits)
  show "keeps sound (delete_role i)"
    by (rule soundI[OF keeps_delete_role])
      (fastforce simp: delete_role_def apps_sound_def own_defaults_def list_ex_iff split: if_splits)
  assume f: "\<And>x. role_id (f x) = role_id x \<and> role_appId (f x) = role_appId x"
  show "keeps sound (update_role i f)"
  proof (rule soundI[OF keeps_update_role[OF f]])
    fix d r t assume ok: "db_ok d" "apps_sound d" and run: "update_role i f d = (r, t)"
    show "apps_sound t"
    proof (cases "t = d")
      case False
      then obtain x where x: "role_by_id d i = Some x" and t: "t = d\<lparr>saRoles := replace_row role_id i (f x) (saRoles d)\<rparr>"
        using run by (auto simp: update_role_def Let_def split: option.splits if_splits)
      have only: "y = x" if "y \<in> set (saRoles d)" "role_id y = i" for y
        using that x lookup_complete(8)[OF db_ok_parts(1)[OF ok(1)]] by (metis option.inject)
      have "\<exists>y' \<in> set (saRoles t). role_id y' = role_id y \<and> role_appId y' = role_appId y" if "y \<in> set (saRoles d)" for y
        using that only f by (cases "role_id y = i") (force simp: t replace_row_def)+
      then show ?thesis using ok(2) unfolding apps_sound_def own_defaults_def t by simp metis
    qed (simp add: ok)
  qed
qed

section \<open>What every request keeps\<close>

text \<open>Soundness, and the organisations of the platform as they are.\<close>

definition held :: "sa_org list \<Rightarrow> db \<Rightarrow> bool" where
  "held P d \<longleftrightarrow> sound d \<and> platform_orgs d = P"

lemma held_catalog:
  assumes "keeps db_ok m" "\<And>X. keeps (\<lambda>d. catalog d = X) m"
  shows "keeps (held P) m"
proof (rule keepsI)
  fix d r t assume held: "held P d" and run: "m d = (r, t)"
  have "catalog t = catalog d" using keepsD[OF assms(2) _ run] by blast
  then show "held P t"
    using held keepsD[OF sound_catalog[OF assms] _ run] by (simp add: held_def catalog_def)
qed

lemma heldI:
  assumes "keeps sound m" "\<And>d r t. db_ok d \<Longrightarrow> m d = (r, t) \<Longrightarrow> platform_orgs t = platform_orgs d"
  shows "keeps (held P) m"
  by (rule keepsI) (use assms in \<open>auto simp: held_def sound_def dest: keepsD\<close>)

lemma keeps_held_statements [keeps_intros]:
  "keeps (held P) (create_user x)" "keeps (held P) (create_account a)" "keeps (held P) (delete_user b)"
  "keeps (held P) (create_sa_user u)" "keeps (held P) (create_user_roles k ks)"
  "keeps (held P) (create_consents cs)" "keeps (held P) (create_role_permissions i ks)"
  "keeps (held P) (delete_role_permissions_of i)" "keeps (held P) (create_code row)"
  "(\<And>x. usr_id (g x) = usr_id x \<and> usr_email (g x) = usr_email x) \<Longrightarrow> keeps (held P) (update_user b g)"
  by (rule held_catalog; auto intro: keeps_intros keeps_update_user)+

lemma keeps_held_roles [keeps_intros]:
  "keeps (held P) (create_role l)" "keeps (held P) (delete_role i)"
  "(\<And>x. role_id (f x) = role_id x \<and> role_appId (f x) = role_appId x) \<Longrightarrow> keeps (held P) (update_role i f)"
proof -
  show "keeps (held P) (create_role l)"
    by (rule heldI[OF keeps_sound_roles(1)]) (auto simp: create_role_def Let_def split: if_splits)
  show "keeps (held P) (delete_role i)"
    by (rule heldI[OF keeps_sound_roles(3)]) (auto simp: delete_role_def split: if_splits)
  assume "\<And>x. role_id (f x) = role_id x \<and> role_appId (f x) = role_appId x"
  then show "keeps (held P) (update_role i f)"
    by (intro heldI keeps_sound_roles) (auto simp: update_role_def Let_def split: option.splits if_splits)
qed

lemma keeps_held_createOrg_rows [keeps_intros]: "keeps (held P) (createOrg_rows h uuid nm a)"
proof (rule keepsI)
  fix d r t assume held: "held P d" and run: "createOrg_rows h uuid nm a d = (r, t)"
  have "keeps sound (createOrg_rows h uuid nm a)"
    by (auto simp: createOrg_rows_def simp del: ret_apply intro!: keeps_intros)
  then have sound: "sound t" using held run by (auto simp: held_def dest: keepsD)
  show "held P t"
  proof (cases r)
    case (Inl e)
    have "platform_orgs t = platform_orgs d"
      using run unfolding Inl createOrg_rows_def
      by (auto simp: bindE_def create_org_def update_org_def Let_def split: option.splits if_splits)
    then show ?thesis using held sound by (simp add: held_def)
  next
    case (Inr p)
    then show ?thesis
      using create_tenant_org[of d] run held sound by (auto simp: held_def sound_def tenancy_def)
  qed
qed

lemma held_run_org_op: "keeps (held P) (run_org_op h op)"
proof (rule heldI)
  show "keeps sound (run_org_op h op)"
    by (cases op)
      (auto simp: createOrg_def createOrg_rows_def updateOrg_def deleteOrg_def manage_orgs_gate_def
        simp del: ret_apply intro!: keeps_intros)
  fix d r t assume "db_ok d" "run_org_op h op d = (r, t)"
  then show "platform_orgs t = platform_orgs d"
    using tenant_view.step_view[of d h op] by (simp add: org_step_def tenancy_def)
qed

lemma held_run_role_op: "keeps (held P) (run_role_op h op)"
  by (cases op)
    (auto simp: createRole_def createRole_rows_def updateRole_def updateRole_rows_def deleteRole_def discard_def
      manage_roles_gate_def Let_def simp del: ret_apply intro!: keeps_intros split: option.split)

lemma held_run_permission_op: "keeps (held P) (run_permission_op h op)"
  by (rule held_catalog[OF keeps_run_permission_op], cases op)
    (auto simp: createPermission_def createPermission_rows_def updatePermission_def deletePermission_def discard_def
      manage_permissions_gate_def Let_def simp del: ret_apply intro!: keeps_intros)

lemma held_run_user_op: "keeps (held P) (run_user_op h c op)"
  by (rule held_catalog[OF keeps_run_user_op], cases op)
    (auto simp: discard_def createUser_def createUser_rows_def updateUser_def deleteUser_def assignRole_def
      removeRole_def setUserRoles_def setUserDirectPermissions_def resendInvitation_def
      resendActivationEmail_def reset2fa_def resetPassword_def simp del: ret_apply intro!: keeps_intros)

lemma held_accept: "keeps (held P) (acceptInvitation h hp uuid clk token password)"
  by (rule held_catalog[OF keeps_accept(2)])
    (auto simp: acceptInvitation_def accept_commit_def accept_check_def simp del: ret_apply intro!: keeps_intros)

lemma held_own_profile:
  "keeps (held P) (recordMyConsent geo now b p ip ts)" "keeps (held P) (recordTwoFactorPrompted now b)"
proof -
  show "keeps (held P) (recordMyConsent geo now b p ip ts)"
    by (rule held_catalog[OF keeps_recordMyConsent])
      (auto simp: recordMyConsent_def recordConsent_def Let_def simp del: ret_apply intro!: keeps_intros)
  show "keeps (held P) (recordTwoFactorPrompted now b)"
    by (rule held_catalog[OF keeps_recordTwoFactorPrompted]) (simp add: recordTwoFactorPrompted_def keeps_catalog_tokens)
qed

section \<open>Registration\<close>

text \<open>What is expected of the library: its calls keep what every request keeps.\<close>

definition library_ok :: "better_auth \<Rightarrow> bool" where
  "library_ok ba \<longleftrightarrow>
     (\<forall>P x y z. keeps (held P) (ba_signUpEmail ba x y z)) \<and> (\<forall>P x y. keeps (held P) (ba_sendVerificationEmail ba x y)) \<and>
     (\<forall>P x. keeps (held P) (ba_createVerificationOTP ba x)) \<and> (\<forall>P x y. keeps (held P) (ba_checkVerificationOTP ba x y)) \<and>
     (\<forall>P x y. keeps (held P) (ba_verifyEmailOTP ba x y)) \<and> (\<forall>P x y. keeps (held P) (ba_resetPassword ba x y)) \<and>
     (\<forall>P x y. keeps (held P) (ba_sendCode ba x y))"

lemma held_finish_rows [keeps_intros]:
  "keeps (held P) (finish_rows h uuid now app b dto m g required status)"
  by (auto simp: finish_rows_def founded_org_def recordConsent_def simp del: ret_apply
      intro!: keeps_intros split: option.split)

lemma held_signup_redirect [keeps_intros]: "keeps (held P) (signup_redirect h code clk app u url)"
  by (auto simp: signup_redirect_def generateCode_def Let_def simp del: ret_apply intro!: keeps_intros split: option.split)

lemma held_signup_checks [keeps_intros]: "keeps (held P) (signup_checks h c dto app)"
  by (auto simp: signup_checks_def signup_org_def Let_def simp del: ret_apply intro!: keeps_intros split: option.split)

lemma held_finishRegistration [keeps_intros]:
  "library_ok ba \<Longrightarrow> keeps (held P) (finishRegistration h ba uuid code clk app b dto m g required status sendLink)"
  by (auto simp: finishRegistration_def compensate_def announce_def library_ok_def simp del: ret_apply intro!: keeps_intros)

lemma held_registration:
  assumes "library_ok ba"
  shows "keeps (held P) (register h ba fetch geo uuid code clk dto token ip)"
    "keeps (held P) (startRegistration h ba fetch pw email pid token)"
    "keeps (held P) (verifyRegistrationCode ba email otp)"
    "keeps (held P) (completeRegistration h ba geo uuid code clk dto otp m ip)"
  using assms held_finishRegistration[OF assms]
  by (auto simp: register_def startRegistration_def verifyRegistrationCode_def completeRegistration_def
      sign_up_account_def library_ok_def discard_def simp del: ret_apply
      intro!: keeps_intros split: option.split)

section \<open>Machine clients, codes and tokens\<close>

lemma held_service_ops:
  "keeps (held P) (service_assignRole a u r)" "keeps (held P) (service_removeRole a u r)"
proof -
  have assign: "keeps db_ok (service_assignRole a u r)"
  proof (rule keeps_db_okI)
    fix d t assume ok: "keys_ok d" "fks_ok d" "seqs_ok d" and "t \<noteq> d" and "snd (service_assignRole a u r d) = t"
    then obtain x l where "resolveAndAuthorize a u r d = Inr (x, l)" "(sau_id x, role_id l) \<notin> set (saUserRoles d)"
      and t: "t = d\<lparr>saUserRoles := saUserRoles d @ [(sau_id x, role_id l)]\<rparr>"
      by (auto simp: service_assignRole_def bindE_def swallow_def catchE_def create_user_role_def
          split: sum.splits if_splits)
    then show "keys_ok t \<and> fks_ok t \<and> seqs_ok t"
      using ok lookup_sound(8)[of d u x] lookup_sound(11)[of d r l]
      by (auto simp: resolveAndAuthorize_ok keys_ok_def fks_ok_def seqs_ok_def)
  qed
  show "keeps (held P) (service_assignRole a u r)"
    by (rule held_catalog[OF assign])
      (auto simp: service_assignRole_def swallow_def simp del: ret_apply intro!: keeps_intros)
  have remove: "keeps db_ok (service_removeRole a u r)"
  proof (rule keeps_db_okI)
    fix d t assume ok: "keys_ok d" "fks_ok d" "seqs_ok d" and "t \<noteq> d" and "snd (service_removeRole a u r d) = t"
    then obtain p where "resolveAndAuthorize a u r d = Inr p"
      and run: "t = snd ((\<lambda>(x, l). swallow ''P2025'' (delete_user_role (sau_id x) (role_id l))) p d)"
      by (simp add: service_removeRole_def bindE_def split: sum.splits)
    obtain x l where "p = (x, l)" by fastforce
    with run have t: "t = snd (swallow ''P2025'' (delete_user_role (sau_id x) (role_id l)) d)" by simp
    then have "t = d\<lparr>saUserRoles := filter (\<lambda>y. y \<noteq> (sau_id x, role_id l)) (saUserRoles d)\<rparr>"
      using \<open>t \<noteq> d\<close> by (simp add: swallow_def catchE_def delete_user_role_def split: if_splits)
    then show "keys_ok t \<and> fks_ok t \<and> seqs_ok t"
      using ok by (simp add: keys_ok_def fks_ok_def seqs_ok_def image_subset_filter)
  qed
  show "keeps (held P) (service_removeRole a u r)"
    by (rule held_catalog[OF remove])
      (auto simp: service_removeRole_def swallow_def simp del: ret_apply intro!: keeps_intros)
qed

text \<open>Codes and tokens carry one unique key each and are referenced by nothing.\<close>

lemma db_ok_codes_tokens:
  assumes "db_ok d" "distinct (map oc_code cs)" "distinct (map rt_tokenHash ts)"
  shows "db_ok (d\<lparr>saOauthCodes := cs, saRefreshTokens := ts\<rparr>)"
  using assms by (simp add: db_ok_def keys_ok_def fks_ok_def seqs_ok_def)

lemma keeps_db_ok_tokensI:
  assumes "\<And>d. distinct (map oc_code (saOauthCodes d)) \<Longrightarrow> distinct (map rt_tokenHash (saRefreshTokens d)) \<Longrightarrow>
     snd (m d) = d\<lparr>saOauthCodes := saOauthCodes (snd (m d)), saRefreshTokens := saRefreshTokens (snd (m d))\<rparr> \<and>
       distinct (map oc_code (saOauthCodes (snd (m d)))) \<and> distinct (map rt_tokenHash (saRefreshTokens (snd (m d))))"
  shows "keeps db_ok m"
proof (rule keepsI)
  fix d r t assume ok: "db_ok d" and run: "m d = (r, t)"
  then show "db_ok t"
    using assms[of d] db_ok_codes_tokens[OF ok, of "saOauthCodes t" "saRefreshTokens t"] db_ok_parts(1)[OF ok]
    by (simp add: keys_ok_def)
qed

lemma keeps_db_ok_tokens [keeps_intros]:
  "keeps db_ok (delete_code c)" "keeps db_ok (sweep_codes now)" "keeps db_ok (create_token tok)"
  "keeps db_ok (modifyE (revoke_where Q now))"
  "keeps db_ok (modifyE (\<lambda>d. d\<lparr>saRefreshTokens := map (consume_row k k' now) (saRefreshTokens d)\<rparr>))"
proof -
  have hashes: "map (rt_tokenHash \<circ> revoke_row Q now) ts = map rt_tokenHash ts"
    "map (rt_tokenHash \<circ> consume_row k k' now) ts = map rt_tokenHash ts" for ts
    by (induction ts) (auto simp: revoke_row_def consume_row_def)
  show "keeps db_ok (delete_code c)"
    by (rule keeps_db_ok_tokensI)
      (auto simp: delete_code_def distinct_map_filter_keys split: option.split)
  show "keeps db_ok (sweep_codes now)"
    by (rule keeps_db_ok_tokensI) (auto simp: sweep_codes_def Let_def distinct_map_filter_keys)
  show "keeps db_ok (create_token tok)"
    by (rule keeps_db_ok_tokensI)
      (auto simp: create_token_def token_row_def find_None_all image_iff)
  show "keeps db_ok (modifyE (revoke_where Q now))"
    by (rule keeps_db_ok_tokensI) (auto simp: revoke_where_def hashes)
  show "keeps db_ok (modifyE (\<lambda>d. d\<lparr>saRefreshTokens := map (consume_row k k' now) (saRefreshTokens d)\<rparr>))"
    by (rule keeps_db_ok_tokensI) (auto simp: hashes)
qed

lemma held_token_statements [keeps_intros]:
  "keeps (held P) (delete_code c)" "keeps (held P) (sweep_codes now)" "keeps (held P) (create_token tok)"
  "keeps (held P) (modifyE (revoke_where Q now))"
  "keeps (held P) (modifyE (\<lambda>d. d\<lparr>saRefreshTokens := map (consume_row k k' now) (saRefreshTokens d)\<rparr>))"
  by (rule held_catalog; intro keeps_intros)+

lemma held_tokens:
  "keeps (held P) (generateCode c now u p r ch m amr n sc tm idp)" "keeps (held P) (exchangeCode h now c p r v)"
  "keeps (held P) (issue_token h tok fam now ps)" "keeps (held P) (rotate h now new old p)"
  "keeps (held P) (revokeForUserApp now u p)" "keeps (held P) (revokeForUser now k)"
  by (auto simp: generateCode_def exchangeCode_def issue_token_def rotate_def rotate_check_def rotate_commit_def
      revokeForUserApp_def revokeForUser_def Let_def simp del: ret_apply modifyE_apply intro!: keeps_intros)

section \<open>Federated sign-in\<close>

lemma held_provision: "keeps (held P) (provisionSocialSignupUser fault now i)"
  by (rule held_catalog[OF keeps_provisionSocialSignupUser])
    (auto simp: provisionSocialSignupUser_def Let_def simp del: ret_apply raise_apply intro!: keeps_intros)

lemma held_afterEmailVerification: "keeps (held P) (afterEmailVerification b)"
  by (rule held_catalog[OF keeps_afterEmailVerification])
    (auto simp: keeps_def afterEmailVerification_def Let_def catalog_def)

lemma held_session_create_after:
  assumes "session_create_after writes now ae ses s = (r, s')" "held P (hk_db s)"
  shows "held P (hk_db s')"
proof -
  have "keeps db_ok (modifyE (logged_in writes now (ses_userId ses)))"
    by (rule keeps_modifyE) (rule logged_in_ok)
  then have "keeps (held P) (modifyE (logged_in writes now (ses_userId ses)))"
    by (rule held_catalog) (simp add: keeps_def catalog_def logged_in_def)
  moreover have "hk_db s' = logged_in writes now (ses_userId ses) (hk_db s)"
    using assms(1) session_create_after_run[of writes now ae ses s] by auto
  ultimately show ?thesis using assms(2) by (simp add: keeps_def)
qed

section \<open>The machine\<close>

text \<open>One request, whether it succeeds or not, or one background sweep. The token endpoints appear by
  the writes they are made of.\<close>

inductive server_step :: "host \<Rightarrow> better_auth \<Rightarrow> db \<Rightarrow> db \<Rightarrow> bool" for h ba where
  users_request: "run_user_op h c op d = (r, t) \<Longrightarrow> server_step h ba d t"
| roles_request: "run_role_op h rop d = (r, t) \<Longrightarrow> server_step h ba d t"
| permissions_request: "run_permission_op h pop d = (r, t) \<Longrightarrow> server_step h ba d t"
| orgs_request: "run_org_op h gop d = (r, t) \<Longrightarrow> server_step h ba d t"
| apps_request: "run_app_op h aop d = (r, t) \<Longrightarrow> server_step h ba d t"
| invitation_accepted: "acceptInvitation h hp uuid clk token pw d = (res, t) \<Longrightarrow> server_step h ba d t"
| registered_by_link: "register h ba fetch geo uuid code clk dto token ip d = (rep, t) \<Longrightarrow> server_step h ba d t"
| registration_started: "startRegistration h ba fetch pw email pid token d = (r, t) \<Longrightarrow> server_step h ba d t"
| code_checked: "verifyRegistrationCode ba email otp d = (r, t) \<Longrightarrow> server_step h ba d t"
| registered_by_code: "completeRegistration h ba geo uuid code clk dto otp m ip d = (rep, t) \<Longrightarrow> server_step h ba d t"
| consent_recorded: "recordMyConsent geo now b p ip ts d = (r, t) \<Longrightarrow> server_step h ba d t"
| prompt_recorded: "recordTwoFactorPrompted now b d = (r, t) \<Longrightarrow> server_step h ba d t"
| machine_assigns: "service_assignRole a u l d = (r, t) \<Longrightarrow> server_step h ba d t"
| machine_removes: "service_removeRole a u l d = (r, t) \<Longrightarrow> server_step h ba d t"
| code_generated: "generateCode c now u p uri ch cm amr n sc tm idp d = (s, t) \<Longrightarrow> server_step h ba d t"
| code_exchanged: "exchangeCode h now c p uri v d = (ex, t) \<Longrightarrow> server_step h ba d t"
| codes_swept: "sweep_codes now d = (k, t) \<Longrightarrow> server_step h ba d t"
| token_issued: "issue_token h tok fam now ps d = (s, t) \<Longrightarrow> server_step h ba d t"
| token_rotated: "rotate h now new old p d = (rt, t) \<Longrightarrow> server_step h ba d t"
| tokens_revoked: "revokeForUserApp now u p d = (r, t) \<Longrightarrow> server_step h ba d t"
| federated_account: "provisionSocialSignupUser fault now i d = (ev, t) \<Longrightarrow> server_step h ba d t"
| session_opened: "session_create_after writes now ae ses s = (r, s') \<Longrightarrow> server_step h ba (hk_db s) (hk_db s')"
| address_verified: "afterEmailVerification b d = (act, t) \<Longrightarrow> server_step h ba d t"
| signups_swept: "sweep_abandoned now d = (k, t) \<Longrightarrow> server_step h ba d t"

text \<open>App requests write the catalogue, but no organisation.\<close>

lemma keeps_orgs_statements [keeps_intros]:
  "keeps (\<lambda>d. saOrgs d = X) (create_app a)" "keeps (\<lambda>d. saOrgs d = X) (update_app i g)"
  "keeps (\<lambda>d. saOrgs d = X) (delete_app i)" "keeps (\<lambda>d. saOrgs d = X) (delete_redirect_uris_of i)"
  "keeps (\<lambda>d. saOrgs d = X) (create_redirect_uris us)"
  by (auto simp: keeps_def create_app_def update_app_def delete_app_def delete_redirect_uris_of_def
      create_redirect_uris_def Let_def split: option.splits)

lemma held_run_app_op: "keeps (held P) (run_app_op h op)"
proof (rule heldI)
  show "keeps sound (run_app_op h op)"
    using soundI[OF keeps_run_app_op] apps_sound_run_app_op by blast
  have orgs: "keeps (\<lambda>d. saOrgs d = X) (run_app_op h op)" for X
    by (cases op)
      (auto simp: createApp_def createApp_rows_def updateApp_def rotateClientSecret_def rotateWebhookSecret_def
        deleteApp_def manage_apps_gate_def check_uris_def replace_redirect_uris_def discard_def Let_def
        simp del: ret_apply intro!: keeps_intros)
  fix d r t assume run: "run_app_op h op d = (r, t)"
  show "platform_orgs t = platform_orgs d" unfolding keepsD[OF orgs refl run] ..
qed

text \<open>The sweep of abandoned signups is no effect: it reports a count.\<close>

lemma held_sweep:
  assumes "held P d" "sweep_abandoned now d = (n, t)"
  shows "held P t"
proof -
  have "catalog t = catalog d" using assms(2) by (auto simp: sweep_abandoned_def Let_def catalog_def)
  then have "apps_sound t = apps_sound d" "platform_orgs t = platform_orgs d"
    by (auto simp: catalog_def apps_sound_def own_defaults_def)
  then show ?thesis using assms sweep_integrity by (auto simp: held_def sound_def)
qed

lemma held_step:
  assumes "server_step h ba d t" "library_ok ba" "held P d"
  shows "held P t"
  using assms(1)
proof (cases rule: server_step.cases)
  case users_request
  then show ?thesis by (rule keepsD[OF held_run_user_op assms(3)])
next
  case roles_request
  then show ?thesis by (rule keepsD[OF held_run_role_op assms(3)])
next
  case permissions_request
  then show ?thesis by (rule keepsD[OF held_run_permission_op assms(3)])
next
  case orgs_request
  then show ?thesis by (rule keepsD[OF held_run_org_op assms(3)])
next
  case apps_request
  then show ?thesis by (rule keepsD[OF held_run_app_op assms(3)])
next
  case invitation_accepted
  then show ?thesis by (rule keepsD[OF held_accept assms(3)])
next
  case registered_by_link
  then show ?thesis by (rule keepsD[OF held_registration(1)[OF assms(2)] assms(3)])
next
  case registration_started
  then show ?thesis by (rule keepsD[OF held_registration(2)[OF assms(2)] assms(3)])
next
  case code_checked
  then show ?thesis by (rule keepsD[OF held_registration(3)[OF assms(2)] assms(3)])
next
  case registered_by_code
  then show ?thesis by (rule keepsD[OF held_registration(4)[OF assms(2)] assms(3)])
next
  case consent_recorded
  then show ?thesis by (rule keepsD[OF held_own_profile(1) assms(3)])
next
  case prompt_recorded
  then show ?thesis by (rule keepsD[OF held_own_profile(2) assms(3)])
next
  case machine_assigns
  then show ?thesis by (rule keepsD[OF held_service_ops(1) assms(3)])
next
  case machine_removes
  then show ?thesis by (rule keepsD[OF held_service_ops(2) assms(3)])
next
  case code_generated
  then show ?thesis by (rule keepsD[OF held_tokens(1) assms(3)])
next
  case code_exchanged
  then show ?thesis by (rule keepsD[OF held_tokens(2) assms(3)])
next
  case codes_swept
  then show ?thesis by (rule keepsD[OF held_token_statements(2) assms(3)])
next
  case token_issued
  then show ?thesis by (rule keepsD[OF held_tokens(3) assms(3)])
next
  case token_rotated
  then show ?thesis by (rule keepsD[OF held_tokens(4) assms(3)])
next
  case tokens_revoked
  then show ?thesis by (rule keepsD[OF held_tokens(5) assms(3)])
next
  case federated_account
  then show ?thesis by (rule keepsD[OF held_provision assms(3)])
next
  case session_opened
  then show ?thesis using held_session_create_after assms(3) by blast
next
  case address_verified
  then show ?thesis by (rule keepsD[OF held_afterEmailVerification assms(3)])
next
  case signups_swept
  then show ?thesis by (rule held_sweep[OF assms(3)])
qed

text \<open>C30 Whatever sequence of requests the server serves, successful ones and refused ones, with the
  background sweeps between them: every unique key and every foreign key of the database holds, the
  default organisation and the default role of every app belong to that app, no app has a webhook
  secret without a webhook, and the organisations of the platform are never touched. The library
  is only expected to keep the same of its own writes.\<close>

theorem server_stays_sound:
  assumes "(server_step h ba)\<^sup>*\<^sup>* d t" "library_ok ba" "db_ok d" "apps_sound d"
  shows "db_ok t \<and> apps_sound t \<and> platform_orgs t = platform_orgs d"
proof -
  have "held (platform_orgs d) t"
    using assms(1)
  proof (induction rule: rtranclp_induct)
    case base
    then show ?case using assms(3,4) by (simp add: held_def sound_def)
  next
    case (step s t)
    then show ?case using held_step assms(2) by blast
  qed
  then show ?thesis by (simp add: held_def sound_def)
qed

lemma example_library: "library_ok (example_auth mail)"
  by (auto simp: library_ok_def example_auth_def simp del: ret_apply intro!: keeps_intros)

lemma server_stays_sound_witness:
  "\<exists>t. (server_step signup_host (example_auth True))\<^sup>*\<^sup>* example_db t \<and> t \<noteq> example_db \<and> db_ok t \<and> apps_sound t"
proof -
  let ?t = "snd (recordTwoFactorPrompted 7 ''b3'' example_db)"
  have "server_step signup_host (example_auth True) example_db ?t"
    by (rule prompt_recorded[of 7 "''b3''" _ "fst (recordTwoFactorPrompted 7 ''b3'' example_db)"]) simp
  then have run: "(server_step signup_host (example_auth True))\<^sup>*\<^sup>* example_db ?t" by blast
  have "apps_sound example_db"
    by (simp add: apps_sound_def own_defaults_def whole_webhook_def example_defs)
  from server_stays_sound[OF run example_library example_db_ok this]
  have "db_ok ?t \<and> apps_sound ?t" by blast
  moreover have "saUsers ?t \<noteq> saUsers example_db"
    by (simp add: recordTwoFactorPrompted_def example_defs)
  ultimately show ?thesis using run by metis
qed

end
