(* ===== verification/Admin_Gateway.thy ===== *)
theory Admin_Gateway
  imports Example_Data
begin

text \<open>
  The entrance of the admin console: \<open>apps/admin/middleware.ts\<close> with its cache of validated sessions,
  the cookie names both servers must agree on (\<open>packages/types/index.ts\<close>), the check of the page to go
  on to (\<open>lib/safe-next.ts\<close>) and small pure helpers of \<open>lib/\<close>. The answer of the authorization server is
  an argument. A \<open>Map\<close> is the list of its entries in insertion order.
\<close>

section \<open>Cookie names\<close>

datatype better_auth_cookie = SessionToken | TwoFactor | TrustDevice

fun cookie_suffix :: "better_auth_cookie \<Rightarrow> string" where
  "cookie_suffix SessionToken = ''session_token''"
| "cookie_suffix TwoFactor = ''two_factor''"
| "cookie_suffix TrustDevice = ''trust_device''"

definition isSecureCookieEnv :: "host \<Rightarrow> bool" where
  "isSecureCookieEnv h =
     (case h_env h ''COOKIE_SECURE'' of
        Some v \<Rightarrow> v = ''true''
      | None \<Rightarrow> h_env h ''NODE_ENV'' = Some ''production'')"

definition getBetterAuthCookieName :: "better_auth_cookie \<Rightarrow> bool \<Rightarrow> string \<Rightarrow> string" where
  "getBetterAuthCookieName cookie isProduction prefix =
     (let base = prefix @ ''.'' @ cookie_suffix cookie in if isProduction then ''__Secure-'' @ base else base)"

definition admin_cookie :: "host \<Rightarrow> better_auth_cookie \<Rightarrow> string" where
  "admin_cookie h cookie =
     getBetterAuthCookieName cookie (isSecureCookieEnv h)
       (case h_env h ''COOKIE_PREFIX'' of None \<Rightarrow> ''better-auth'' | Some p \<Rightarrow> or_string p ''better-auth'')"

section \<open>The session cache\<close>

text \<open>The pattern \<open>(?:^|;\s*)name=([^;]+)\<close> on the cookie header, for a name without leading blanks.\<close>

definition cookie_value :: "string \<Rightarrow> string \<Rightarrow> string option" where
  "cookie_value nm segment =
     (if starts_with (nm @ ''='') segment \<and> length segment > length nm + 1
      then Some (drop (length nm + 1) segment) else None)"

fun first_some :: "('a \<Rightarrow> 'b option) \<Rightarrow> 'a list \<Rightarrow> 'b option" where
  "first_some f [] = None"
| "first_some f (x # xs) = (case f x of None \<Rightarrow> first_some f xs | Some y \<Rightarrow> Some y)"

definition readSessionToken :: "string \<Rightarrow> string \<Rightarrow> string option" where
  "readSessionToken nm header =
     (case split_on CHR '';'' header of
        [] \<Rightarrow> None
      | s # ss \<Rightarrow> first_some (cookie_value nm) (s # map drop_ws ss))"

record cache_entry =
  ce_at :: int
  ce_ok :: bool

type_synonym session_cache = "(string \<times> cache_entry) list"

definition SESSION_CACHE_TTL_MS :: int where
  "SESSION_CACHE_TTL_MS = 10000"

definition SESSION_CACHE_MAX_ENTRIES :: nat where
  "SESSION_CACHE_MAX_ENTRIES = 500"

text \<open>\<open>Map.set\<close>: a key that is there keeps its place.\<close>

definition cache_set :: "session_cache \<Rightarrow> string \<Rightarrow> cache_entry \<Rightarrow> session_cache" where
  "cache_set cache k e =
     (if k \<in> fst ` set cache then map (\<lambda>p. if fst p = k then (k, e) else p) cache else cache @ [(k, e)])"

definition make_room :: "int \<Rightarrow> session_cache \<Rightarrow> session_cache" where
  "make_room now cache =
     (if length cache < SESSION_CACHE_MAX_ENTRIES then cache
      else (let fresh = filter (\<lambda>p. \<not> now - ce_at (snd p) \<ge> SESSION_CACHE_TTL_MS) cache in
            if length fresh < SESSION_CACHE_MAX_ENTRIES then fresh
            else drop (length fresh - SESSION_CACHE_MAX_ENTRIES * 9 div 10) fresh))"

text \<open>
  \<open>NoAnswer\<close> is a rejected or timed-out fetch; \<open>Answered n b\<close> has the status \<open>n\<close> and in \<open>b\<close> whether the
  body names a user, \<open>None\<close> for a body that is no JSON.
\<close>

datatype session_answer = NoAnswer | Answered nat "bool option"

definition ok_status :: "nat \<Rightarrow> bool" where
  "ok_status n \<longleftrightarrow> 200 \<le> n \<and> n \<le> 299"

definition probe :: "string \<Rightarrow> int \<Rightarrow> session_answer \<Rightarrow> session_cache \<Rightarrow> bool \<times> session_cache" where
  "probe token now answer cache =
     (case answer of
        NoAnswer \<Rightarrow> (False, cache)
      | Answered n body \<Rightarrow>
          if \<not> ok_status n then
            (False, if n < 500 \<and> n \<noteq> 429 then cache_set cache token \<lparr>ce_at = now, ce_ok = False\<rparr> else cache)
          else (case body of
                  None \<Rightarrow> (False, cache)
                | Some user \<Rightarrow> (user, cache_set cache token \<lparr>ce_at = now, ce_ok = user\<rparr>)))"

definition validateSession ::
    "string \<Rightarrow> string option \<Rightarrow> int \<Rightarrow> session_answer \<Rightarrow> session_cache \<Rightarrow> bool \<times> session_cache" where
  "validateSession nm cookieHeader now answer cache =
     (case readSessionToken nm (case cookieHeader of None \<Rightarrow> [] | Some c \<Rightarrow> c) of
        None \<Rightarrow> (False, cache)
      | Some token \<Rightarrow>
          (case map_of cache token of
             Some e \<Rightarrow>
               if now - ce_at e < SESSION_CACHE_TTL_MS then (ce_ok e, cache)
               else probe token now answer (make_room now cache)
           | None \<Rightarrow> probe token now answer (make_room now cache)))"

section \<open>The middleware\<close>

definition PUBLIC_PATHS :: "string list" where
  "PUBLIC_PATHS = [''/login'', ''/accept-invite'', ''/signup'', ''/oauth-error'', ''/forgot-password'', ''/reset-password'']"

definition is_public :: "string \<Rightarrow> bool" where
  "is_public pathname \<longleftrightarrow>
     list_ex (\<lambda>p. pathname = p \<or> starts_with (p @ ''/'') pathname) PUBLIC_PATHS \<or> starts_with ''/_next/'' pathname"

text \<open>Served as it is, served with \<open>Cache-Control: no-store\<close>, or sent to the login page with the path to
  return to.\<close>

datatype admin_response = Served | ServedNoStore | ToLogin "string option"

record admin_request =
  ar_now :: int
  ar_path :: string
  ar_cookie :: "string option"
  ar_answer :: session_answer

definition middleware :: "string \<Rightarrow> admin_request \<Rightarrow> session_cache \<Rightarrow> admin_response \<times> session_cache" where
  "middleware nm rq cache =
     (if is_public (ar_path rq) then (Served, cache)
      else (case validateSession nm (ar_cookie rq) (ar_now rq) (ar_answer rq) cache of
              (ok, cache') \<Rightarrow>
                (if \<not> ok then ToLogin (if ar_path rq \<noteq> ''/'' then Some (ar_path rq) else None) else ServedNoStore,
                 cache')))"

section \<open>Where to go on to\<close>

definition next_allowlist :: "host \<Rightarrow> string list" where
  "next_allowlist h =
     (case h_env h ''AUTH_SERVER_URL'' of None \<Rightarrow> ''https://localhost:3010'' | Some u \<Rightarrow> u) #
     filter (\<lambda>w. w \<noteq> []) (map js_trim (split_on CHR '',''
       (case h_env h ''LOGIN_NEXT_ALLOWED_ORIGINS'' of None \<Rightarrow> [] | Some s \<Rightarrow> s)))"

definition validateNextUrl :: "host \<Rightarrow> string option \<Rightarrow> string option" where
  "validateNextUrl h next_url =
     (case next_url of
        None \<Rightarrow> None
      | Some s \<Rightarrow>
          if s = [] then None
          else if starts_with ''/'' s then
            (if starts_with ''//'' s then None else if CHR 0x5C \<in> set s then None else Some s)
          else (case h_parse_url h s of
                  None \<Rightarrow> None
                | Some u \<Rightarrow>
                    if u_username u \<noteq> [] \<or> u_password u \<noteq> [] then None
                    else if u_origin u \<in> set (next_allowlist h) then Some (url_to_string u) else None))"

section \<open>Helpers\<close>

definition maskTail :: "string \<Rightarrow> string" where
  "maskTail v = (if length v \<le> 3 then v else take 3 v @ replicate (length v - 3) CHR ''*'')"

definition obfuscateEmail :: "string \<Rightarrow> string" where
  "obfuscateEmail email =
     (if CHR ''@'' \<notin> set email then email
      else (let local = takeWhile (\<lambda>c. c \<noteq> CHR ''@'') email;
                domain = tl (dropWhile (\<lambda>c. c \<noteq> CHR ''@'') email) in
            if CHR ''.'' \<notin> set domain then email
            else maskTail local @ ''@'' @ maskTail (takeWhile (\<lambda>c. c \<noteq> CHR ''.'') domain) @
                 dropWhile (\<lambda>c. c \<noteq> CHR ''.'') domain))"

definition isRedirectSentinel :: "string option \<Rightarrow> bool" where
  "isRedirectSentinel digest =
     (case digest of None \<Rightarrow> False | Some s \<Rightarrow> starts_with ''NEXT_REDIRECT'' s \<or> s = ''NEXT_NOT_FOUND'')"

definition buildSecurityHeaders :: "string option \<Rightarrow> (string \<times> string) list" where
  "buildSecurityHeaders nodeEnv =
     [(''X-Frame-Options'', ''DENY''), (''X-Content-Type-Options'', ''nosniff''),
      (''Referrer-Policy'', ''strict-origin-when-cross-origin''),
      (''Permissions-Policy'', ''camera=(), microphone=(), geolocation=()'')] @
     (if nodeEnv = Some ''production''
      then [(''Strict-Transport-Security'', ''max-age=63072000; includeSubDomains'')] else [])"

text \<open>The locale of the cookie, else the first accepted language there are messages for, else English.\<close>

definition getLocale :: "string list \<Rightarrow> string option \<Rightarrow> string option \<Rightarrow> string" where
  "getLocale available fromCookie acceptLanguage =
     (if truthy fromCookie \<and> the fromCookie \<in> set available then the fromCookie
      else (let preferred = find (\<lambda>l. l \<in> set available)
                  (map (\<lambda>l. hd (split_on CHR ''-'' (js_trim (hd (split_on CHR '';'' l)))))
                     (split_on CHR '','' (case acceptLanguage of None \<Rightarrow> [] | Some s \<Rightarrow> s))) in
            case preferred of None \<Rightarrow> ''en'' | Some l \<Rightarrow> l))"

section \<open>What the cache lets through\<close>

fun serve_all :: "string \<Rightarrow> session_cache \<Rightarrow> admin_request list \<Rightarrow> admin_response list \<times> session_cache" where
  "serve_all nm cache [] = ([], cache)"
| "serve_all nm cache (rq # rs) =
     (case middleware nm rq cache of
        (a, cache') \<Rightarrow> (case serve_all nm cache' rs of (as, cache'') \<Rightarrow> (a # as, cache'')))"

definition request_token :: "string \<Rightarrow> admin_request \<Rightarrow> string option" where
  "request_token nm rq = readSessionToken nm (case ar_cookie rq of None \<Rightarrow> [] | Some c \<Rightarrow> c)"

text \<open>The authorization server answered that the token has a user.\<close>

fun vouched :: "session_answer \<Rightarrow> bool" where
  "vouched (Answered n (Some True)) = ok_status n"
| "vouched _ = False"

text \<open>Every positive entry goes back to a request the authorization server vouched for, at the entry's time.\<close>

definition entry_backed :: "string \<Rightarrow> admin_request set \<Rightarrow> string \<times> cache_entry \<Rightarrow> bool" where
  "entry_backed nm past p \<longleftrightarrow>
     (ce_ok (snd p) \<longrightarrow>
      (\<exists>r\<in>past. request_token nm r = Some (fst p) \<and> vouched (ar_answer r) \<and> ce_at (snd p) = ar_now r))"

definition cache_backed :: "string \<Rightarrow> admin_request set \<Rightarrow> session_cache \<Rightarrow> bool" where
  "cache_backed nm past cache \<longleftrightarrow> (\<forall>p\<in>set cache. entry_backed nm past p)"

lemma entry_backed_mono: "entry_backed nm past p \<Longrightarrow> past \<subseteq> past' \<Longrightarrow> entry_backed nm past' p"
  unfolding entry_backed_def by blast

lemma cache_backed_sub:
  "cache_backed nm past cache \<Longrightarrow> set cache' \<subseteq> set cache \<Longrightarrow> past \<subseteq> past' \<Longrightarrow> cache_backed nm past' cache'"
  unfolding cache_backed_def by (meson entry_backed_mono subsetD)

lemma set_cache_set: "set (cache_set cache k e) \<subseteq> insert (k, e) (set cache)"
  by (auto simp: cache_set_def)

lemma length_cache_set: "length (cache_set cache k e) \<le> Suc (length cache)"
  by (simp add: cache_set_def)

lemma set_make_room: "set (make_room now cache) \<subseteq> set cache"
  by (auto simp: make_room_def Let_def dest: in_set_dropD)

lemma length_make_room: "length (make_room now cache) < SESSION_CACHE_MAX_ENTRIES"
  by (auto simp: make_room_def Let_def SESSION_CACHE_MAX_ENTRIES_def)

lemma cache_backed_set:
  assumes "cache_backed nm past cache" and "entry_backed nm past (k, e)"
  shows "cache_backed nm past (cache_set cache k e)"
  using assms set_cache_set unfolding cache_backed_def by blast

lemma probe_sound:
  assumes "request_token nm rq = Some t" and "ar_now rq = now" and "ar_answer rq = answer"
    and "cache_backed nm past cache" and "rq \<in> past"
  shows "cache_backed nm past (snd (probe t now answer cache))"
    and "fst (probe t now answer cache) \<Longrightarrow> vouched answer"
proof -
  have no: "entry_backed nm past (t, \<lparr>ce_at = now, ce_ok = False\<rparr>)"
    by (simp add: entry_backed_def)
  have yes: "entry_backed nm past (t, \<lparr>ce_at = now, ce_ok = True\<rparr>)" if "vouched answer"
    using that assms by (auto simp: entry_backed_def)
  show "cache_backed nm past (snd (probe t now answer cache))"
  proof (cases answer)
    case (Answered n body)
    then consider "\<not> ok_status n" | "ok_status n" "body = None" | "ok_status n" "body = Some False" |
        "ok_status n" "body = Some True"
      by (metis (full_types) option.exhaust)
    then show ?thesis
      using assms(4) no yes Answered by cases (simp_all add: probe_def cache_backed_set)
  qed (use assms(4) in \<open>simp add: probe_def\<close>)
  show "vouched answer" if "fst (probe t now answer cache)"
    using that by (auto simp: probe_def split: session_answer.splits option.splits if_splits)
qed

lemma length_probe:
  "length cache < SESSION_CACHE_MAX_ENTRIES \<Longrightarrow>
   length (snd (probe t now answer cache)) \<le> SESSION_CACHE_MAX_ENTRIES"
  using length_cache_set[of cache t] le_trans
  by (auto simp: probe_def split: session_answer.splits option.splits) (meson Suc_leI le_trans)+

lemma middleware_sound:
  assumes "cache_backed nm past cache" and "middleware nm rq cache = (a, cache')"
  shows "cache_backed nm (insert rq past) cache'"
    and "a = ServedNoStore \<Longrightarrow>
      \<exists>r\<in>insert rq past. request_token nm r = request_token nm rq \<and> request_token nm rq \<noteq> None \<and>
        vouched (ar_answer r) \<and> ar_now rq - ar_now r < SESSION_CACHE_TTL_MS"
proof -
  have keep: "cache_backed nm (insert rq past) cache"
    using assms(1) by (rule cache_backed_sub) auto
  have room: "cache_backed nm (insert rq past) (make_room now cache)" for now
    by (rule cache_backed_sub[OF keep set_make_room]) simp
  have fresh: "\<exists>r\<in>insert rq past. request_token nm r = request_token nm rq \<and> request_token nm rq \<noteq> None \<and>
        vouched (ar_answer r) \<and> ar_now rq - ar_now r < SESSION_CACHE_TTL_MS"
    if "request_token nm rq = Some t" "vouched (ar_answer rq)" for t
    using that by (intro bexI[of _ rq]) (auto simp: SESSION_CACHE_TTL_MS_def)
  note probed = probe_sound[OF _ refl refl room insertI1]
  show "cache_backed nm (insert rq past) cache'"
    using assms(2) keep probed(1)
    by (auto simp: middleware_def validateSession_def request_token_def split: if_splits option.splits prod.splits)
      (metis snd_conv)+
  show "\<exists>r\<in>insert rq past. request_token nm r = request_token nm rq \<and> request_token nm rq \<noteq> None \<and>
        vouched (ar_answer r) \<and> ar_now rq - ar_now r < SESSION_CACHE_TTL_MS"
    if "a = ServedNoStore"
  proof -
    have ok: "fst (validateSession nm (ar_cookie rq) (ar_now rq) (ar_answer rq) cache)"
      using assms(2) that by (auto simp: middleware_def split: if_splits prod.splits)
    then obtain t where t: "request_token nm rq = Some t"
      by (auto simp: validateSession_def request_token_def split: option.splits)
    show ?thesis
    proof (cases "\<exists>e. map_of cache t = Some e \<and> ar_now rq - ce_at e < SESSION_CACHE_TTL_MS")
      case True
      then obtain e where e: "map_of cache t = Some e" "ar_now rq - ce_at e < SESSION_CACHE_TTL_MS"
        by blast
      have "ce_ok e"
        using ok t e by (simp add: validateSession_def request_token_def)
      moreover have "entry_backed nm (insert rq past) (t, e)"
        using keep map_of_SomeD[OF e(1)] by (auto simp: cache_backed_def)
      ultimately show ?thesis
        using t e(2) by (auto simp: entry_backed_def)
    next
      case False
      then have "fst (probe t (ar_now rq) (ar_answer rq) (make_room (ar_now rq) cache))"
        using ok t by (auto simp: validateSession_def request_token_def split: option.splits)
      then show ?thesis
        using fresh[OF t] probed(2)[OF t] by blast
    qed
  qed
qed

lemma length_middleware:
  "length cache \<le> SESSION_CACHE_MAX_ENTRIES \<Longrightarrow>
   length (snd (middleware nm rq cache)) \<le> SESSION_CACHE_MAX_ENTRIES"
  using length_probe[OF length_make_room]
  by (auto simp: middleware_def validateSession_def split: option.splits prod.splits) (metis snd_conv)+

lemma served_backed:
  assumes "cache_backed nm past cache" and "i < length rs"
    and "fst (serve_all nm cache rs) ! i = ServedNoStore"
  shows "\<exists>r\<in>past \<union> set (take (Suc i) rs). request_token nm r = request_token nm (rs ! i) \<and>
    request_token nm (rs ! i) \<noteq> None \<and> vouched (ar_answer r) \<and>
    ar_now (rs ! i) - ar_now r < SESSION_CACHE_TTL_MS"
  using assms
proof (induction rs arbitrary: past cache i)
  case (Cons rq rs)
  obtain a cache' where m: "middleware nm rq cache = (a, cache')"
    by force
  note step = middleware_sound[OF Cons.prems(1) m]
  show ?case
  proof (cases i)
    case 0
    then show ?thesis
      using step(2) Cons.prems(3) m by (simp split: prod.splits)
  next
    case (Suc k)
    then have "fst (serve_all nm cache' rs) ! k = ServedNoStore"
      using Cons.prems(3) m by (simp split: prod.splits)
    then show ?thesis
      using Cons.IH[OF step(1), of k] Cons.prems(2) Suc by simp
  qed
qed simp

lemma length_serve_all:
  "length cache \<le> SESSION_CACHE_MAX_ENTRIES \<Longrightarrow>
   length (snd (serve_all nm cache rs)) \<le> SESSION_CACHE_MAX_ENTRIES"
proof (induction rs arbitrary: cache)
  case (Cons rq rs)
  then show ?case
    using length_middleware[OF Cons.prems, of nm rq] by (auto split: prod.splits) (metis snd_conv)+
qed simp


definition example_page_request :: "int \<Rightarrow> session_answer \<Rightarrow> admin_request" where
  "example_page_request now a = \<lparr>ar_now = now, ar_path = ''/users'', ar_cookie = Some ''s=t'', ar_answer = a\<rparr>"

lemma example_pages:
  "fst (serve_all ''s'' [] [example_page_request 0 (Answered 200 (Some True)), example_page_request 9999 NoAnswer,
     example_page_request 10000 NoAnswer]) = [ServedNoStore, ServedNoStore, ToLogin (Some ''/users'')]"
  by code_simp


text \<open>A refused or unreadable answer is never taken for a session, and an answer that is no verdict (an outage,
  a server error, throttling) leaves the cache as it was, so the next request asks again.\<close>

lemma no_verdict_is_not_remembered:
  assumes "answer = NoAnswer \<or> (\<exists>n b. answer = Answered n b \<and> (n \<ge> 500 \<or> n = 429 \<or> ok_status n \<and> b = None))"
  shows "probe t now answer cache = (False, cache)"
  using assms by (auto simp: probe_def ok_status_def)

text \<open>A path that merely begins like a public one is not public.\<close>

lemma loginaudit_is_guarded: "\<not> is_public ''/loginaudit''" and "is_public ''/login/two-factor''"
  by code_simp+

section \<open>Where the page to go on to can lead\<close>

text \<open>
  How a browser reads a location that starts with a slash: it drops tabs and line ends, and two slashes of
  either kind begin another host's address.
\<close>

definition dropped_by_browsers :: "char \<Rightarrow> bool" where
  "dropped_by_browsers c \<longleftrightarrow> c \<in> {CHR 0x09, CHR 0x0A, CHR 0x0D}"

definition leaves_site :: "string \<Rightarrow> bool" where
  "leaves_site s =
     (case filter (\<lambda>c. \<not> dropped_by_browsers c) s of
        a # b # _ \<Rightarrow> a \<in> {CHR ''/'', CHR 0x5C} \<and> b \<in> {CHR ''/'', CHR 0x5C}
      | _ \<Rightarrow> False)"

text \<open>Where a login goes on to: what \<open>validateNextUrl\<close> returns is a path a browser stays on the admin console
  with, provided it holds no tab or line end, or the address of an allowlisted origin that carries no user
  name and no password.\<close>

theorem next_page_stays_home:
  assumes "validateNextUrl h (Some s) = Some v" and "list_all (\<lambda>c. \<not> dropped_by_browsers c) s"
  shows "(v = s \<and> starts_with ''/'' v \<and> \<not> leaves_site v) \<or>
         (\<exists>u. h_parse_url h s = Some u \<and> v = url_to_string u \<and> u_username u = [] \<and> u_password u = [] \<and>
              u_origin u \<in> set (next_allowlist h))"
proof (cases "starts_with ''/'' s")
  case True
  then have v: "v = s" "\<not> starts_with ''//'' s" "CHR 0x5C \<notin> set s"
    using assms(1) by (auto simp: validateNextUrl_def split: if_splits)
  have "filter (\<lambda>c. \<not> dropped_by_browsers c) s = s"
    using assms(2) by (auto simp: list_all_iff filter_id_conv)
  then have "\<not> leaves_site s"
    using v(2,3) True by (auto simp: leaves_site_def starts_with_def split: list.splits)
  then show ?thesis
    using v True by simp
next
  case False
  then show ?thesis
    using assms(1) by (auto simp: validateNextUrl_def split: if_splits option.splits)
qed

theorem next_page_stays_home_witness:
  "(''/users'' = ''/users'' \<and> starts_with ''/'' ''/users'' \<and> \<not> leaves_site ''/users'') \<or>
   (\<exists>u. h_parse_url example_host ''/users'' = Some u \<and> ''/users'' = url_to_string u \<and> u_username u = [] \<and>
        u_password u = [] \<and> u_origin u \<in> set (next_allowlist example_host))"
  using next_page_stays_home[of example_host "''/users''" "''/users''"]
  by (simp add: validateNextUrl_def starts_with_def dropped_by_browsers_def)

text \<open>With a tab between its slashes, the address of another host passes for a path of the console.\<close>

lemma tab_hides_another_host:
  "validateNextUrl h (Some (''/'' @ [CHR 0x09] @ ''/evil.example'')) = Some (''/'' @ [CHR 0x09] @ ''/evil.example'')"
  "leaves_site (''/'' @ [CHR 0x09] @ ''/evil.example'')"
  by (simp_all add: validateNextUrl_def leaves_site_def starts_with_def dropped_by_browsers_def)

section \<open>Obfuscated addresses\<close>

text \<open>Masking keeps lengths, so an obfuscated address is as long as the address.\<close>

lemma length_maskTail [simp]: "length (maskTail v) = length v"
  by (simp add: maskTail_def)

lemma length_obfuscateEmail: "length (obfuscateEmail e) = length e"
proof -
  have "length (dropWhile (\<lambda>c. c \<noteq> CHR ''@'') e) \<noteq> 0" if "CHR ''@'' \<in> set e"
    using that by (simp add: dropWhile_eq_Nil_conv)
  moreover have "length (takeWhile P xs) + length (dropWhile P xs) = length xs" for P and xs :: string
    by (metis length_append takeWhile_dropWhile_id)
  ultimately show ?thesis
    unfolding obfuscateEmail_def Let_def
    by (auto simp: add.commute add.left_commute)
qed

end
