(* ===== verification/Set_Cookie.thy ===== *)
theory Set_Cookie
  imports Admin_Gateway
begin

text \<open>
  How the admin console hands the cookies of the authorization server on to the browser: the reading of a
  combined \<open>Set-Cookie\<close> header and the three ways to forward a cookie (\<open>app/login/actions.ts\<close>,
  \<open>app/account/security/actions.ts\<close>). A server action is an operation on its state: the cookies \<open>cookies()\<close>
  shows, those it tells the browser to set, and the requests it has sent. What the authorization server
  answers to a request is an argument.
\<close>

section \<open>Server actions\<close>

datatype same_site = LaxSite | StrictSite | NoSite

record cookie_options =
  co_httpOnly :: bool
  co_secure :: bool
  co_sameSite :: "same_site option"
  co_path :: string
  co_domain :: "string option"
  co_maxAge :: "js_number option"
  co_expires :: "int option"

record upstream_request =
  q_path :: string
  q_origin :: "string option"
  q_ip :: "string option"
  q_cookie :: "string option"
  q_body :: "json option"

text \<open>A body that is no JSON is \<open>None\<close>.\<close>

record upstream_response =
  rs_status :: nat
  rs_setCookie :: "string option"
  rs_body :: "json option"

record action_env =
  ae_host :: host
  ae_origin :: "string option"
  ae_referer :: "string option"
  ae_forwardedFor :: "string option"
  ae_now :: int
  ae_date :: "json \<Rightarrow> int option"
  ae_upstream :: "upstream_request \<Rightarrow> upstream_response option"

record action_state =
  st_store :: "(string \<times> string) list"
  st_set :: "(string \<times> string \<times> cookie_options) list"
  st_sent :: "upstream_request list"

definition store_set :: "(string \<times> string) list \<Rightarrow> string \<Rightarrow> string \<Rightarrow> (string \<times> string) list" where
  "store_set store k v =
     (if k \<in> fst ` set store then map (\<lambda>p. if fst p = k then (k, v) else p) store else store @ [(k, v)])"

definition cookie_header :: "(string \<times> string) list \<Rightarrow> string" where
  "cookie_header store = js_join ''; '' (map (\<lambda>(n, v). n @ ''='' @ encode_uri_component v) store)"

definition set_cookie :: "string \<Rightarrow> string \<Rightarrow> cookie_options \<Rightarrow> (action_state, unit) eff" where
  "set_cookie n v opts =
     modifyE (\<lambda>s. s\<lparr>st_store := store_set (st_store s) n v, st_set := st_set s @ [(n, v, opts)]\<rparr>)"

definition upstream :: "action_env \<Rightarrow> upstream_request \<Rightarrow> (action_state, upstream_response option) eff" where
  "upstream env q = bindE (modifyE (\<lambda>s. s\<lparr>st_sent := st_sent s @ [q]\<rparr>)) (\<lambda>_. ret (ae_upstream env q))"

definition response_ok :: "upstream_response \<Rightarrow> bool" where
  "response_ok r = ok_status (rs_status r)"

text \<open>\<open>lib/auth-origin.ts\<close>, \<open>lib/forward-client-ip.ts\<close>\<close>

definition getForwardedOrigin :: "action_env \<Rightarrow> string option" where
  "getForwardedOrigin env =
     (case (case ae_origin env of None \<Rightarrow> ae_referer env | Some r \<Rightarrow> Some r) of
        None \<Rightarrow> None
      | Some raw \<Rightarrow> if raw = [] then None else map_option u_origin (h_parse_url (ae_host env) raw))"

definition getForwardedClientIpHeader :: "action_env \<Rightarrow> string option" where
  "getForwardedClientIpHeader env = (if truthy (ae_forwardedFor env) then ae_forwardedFor env else None)"

section \<open>Reading \<open>Set-Cookie\<close>\<close>

text \<open>The character class of the pattern, which is the token of RFC 6265.\<close>

definition token_char :: "char \<Rightarrow> bool" where
  "token_char c \<longleftrightarrow> is_alnum c \<or> c \<in> set ''!#$%&*+-.^_|~'' \<or> char_code c = 39 \<or> char_code c = 96"

text \<open>The lookahead \<open>(?=\s*[token]+=)\<close>: neither blanks nor the equals sign are token characters.\<close>

definition cookie_starts :: "string \<Rightarrow> bool" where
  "cookie_starts s \<longleftrightarrow>
     takeWhile token_char (drop_ws s) \<noteq> [] \<and> starts_with ''='' (dropWhile token_char (drop_ws s))"

text \<open>\<open>header.split(/,(?=\s*[token]+=)/)\<close>\<close>

fun split_cookies :: "string \<Rightarrow> string list" where
  "split_cookies [] = [[]]"
| "split_cookies (c # cs) =
     (if c = CHR '','' \<and> cookie_starts cs then [] # split_cookies cs
      else (case split_cookies cs of [] \<Rightarrow> [[c]] | w # ws \<Rightarrow> (c # w) # ws))"

text \<open>The first clause with the given name: its raw value and its attributes.\<close>

fun find_cookie :: "string \<Rightarrow> string list \<Rightarrow> (string \<times> string list) option" where
  "find_cookie nm [] = None"
| "find_cookie nm (c # cs) =
     (let parts = map js_trim (split_on CHR '';'' c); namePair = hd parts in
      if CHR ''='' \<notin> set namePair then find_cookie nm cs
      else if takeWhile (\<lambda>x. x \<noteq> CHR ''='') namePair \<noteq> nm then find_cookie nm cs
      else Some (tl (dropWhile (\<lambda>x. x \<noteq> CHR ''='') namePair), tl parts))"

definition decode_cookie :: "host \<Rightarrow> string \<Rightarrow> string" where
  "decode_cookie h raw = (case h_decode_uri_component h raw of Some v \<Rightarrow> v | None \<Rightarrow> raw)"

text \<open>\<open>const [k, v] = attr.split('=', 2)\<close>, with \<open>k\<close> in lower case.\<close>

definition attr_pair :: "string \<Rightarrow> string \<times> string option" where
  "attr_pair attr =
     (case split_on CHR ''='' attr of
        k # v # _ \<Rightarrow> (to_lower k, Some v)
      | [k] \<Rightarrow> (to_lower k, None)
      | [] \<Rightarrow> ([], None))"

definition same_site_of :: "string option \<Rightarrow> same_site option" where
  "same_site_of v =
     (let lower = to_lower (case v of None \<Rightarrow> [] | Some s \<Rightarrow> s) in
      if lower = ''lax'' then Some LaxSite
      else if lower = ''strict'' then Some StrictSite
      else if lower = ''none'' then Some NoSite else None)"

definition or_keep :: "'a option \<Rightarrow> 'a option \<Rightarrow> 'a option" where
  "or_keep new old = (case new of None \<Rightarrow> old | Some _ \<Rightarrow> new)"

definition finite_number :: "string option \<Rightarrow> js_number option" where
  "finite_number v =
     (case v of
        None \<Rightarrow> None
      | Some s \<Rightarrow> if is_finite_number (to_number s) then Some (to_number s) else None)"

definition date_of :: "action_env \<Rightarrow> string option \<Rightarrow> int option" where
  "date_of env v = (if truthy v then ae_date env (JStr (the v)) else None)"

section \<open>The session cookie of a sign-in\<close>

record parsed_cookie =
  pc_value :: string
  pc_httpOnly :: bool
  pc_secure :: "bool option"
  pc_sameSite :: "same_site option"
  pc_path :: "string option"
  pc_domain :: "string option"
  pc_maxAge :: "js_number option"
  pc_expires :: "int option"

definition session_attr :: "action_env \<Rightarrow> string \<Rightarrow> parsed_cookie \<Rightarrow> parsed_cookie" where
  "session_attr env attr p =
     (case attr_pair attr of (k, v) \<Rightarrow>
        if k = ''httponly'' then p\<lparr>pc_httpOnly := True\<rparr>
        else if k = ''secure'' then p\<lparr>pc_secure := Some True\<rparr>
        else if k = ''samesite'' then p\<lparr>pc_sameSite := or_keep (same_site_of v) (pc_sameSite p)\<rparr>
        else if k = ''path'' then (if truthy v then p\<lparr>pc_path := v\<rparr> else p)
        else if k = ''domain'' then (if truthy v then p\<lparr>pc_domain := v\<rparr> else p)
        else if k = ''max-age'' then p\<lparr>pc_maxAge := or_keep (finite_number v) (pc_maxAge p)\<rparr>
        else if k = ''expires'' then p\<lparr>pc_expires := or_keep (date_of env v) (pc_expires p)\<rparr>
        else p)"

definition session_cookie :: "action_env \<Rightarrow> string" where
  "session_cookie env = admin_cookie (ae_host env) SessionToken"

definition two_factor_cookie :: "action_env \<Rightarrow> string" where
  "two_factor_cookie env = admin_cookie (ae_host env) TwoFactor"

definition trust_cookie :: "action_env \<Rightarrow> string" where
  "trust_cookie env = admin_cookie (ae_host env) TrustDevice"

definition parseSessionCookie :: "action_env \<Rightarrow> string \<Rightarrow> parsed_cookie option" where
  "parseSessionCookie env header =
     (case find_cookie (session_cookie env) (split_cookies header) of
        None \<Rightarrow> None
      | Some (raw, attrs) \<Rightarrow>
          Some (fold (session_attr env) attrs
            \<lparr>pc_value = decode_cookie (ae_host env) raw, pc_httpOnly = False, pc_secure = None,
             pc_sameSite = None, pc_path = None, pc_domain = None, pc_maxAge = None, pc_expires = None\<rparr>))"

definition session_options :: "action_env \<Rightarrow> parsed_cookie \<Rightarrow> cookie_options" where
  "session_options env p =
     \<lparr>co_httpOnly = pc_httpOnly p,
      co_secure = (case pc_secure p of None \<Rightarrow> isSecureCookieEnv (ae_host env) | Some b \<Rightarrow> b),
      co_sameSite = Some (case pc_sameSite p of None \<Rightarrow> LaxSite | Some x \<Rightarrow> x),
      co_path = (case pc_path p of None \<Rightarrow> ''/'' | Some x \<Rightarrow> x),
      co_domain = pc_domain p, co_maxAge = pc_maxAge p, co_expires = pc_expires p\<rparr>"

definition forwardSessionCookie :: "action_env \<Rightarrow> upstream_response \<Rightarrow> (action_state, bool) eff" where
  "forwardSessionCookie env res =
     (if \<not> truthy (rs_setCookie res) then ret False
      else (case parseSessionCookie env (the (rs_setCookie res)) of
              None \<Rightarrow> ret False
            | Some p \<Rightarrow>
                bindE (set_cookie (session_cookie env) (pc_value p) (session_options env p)) (\<lambda>_. ret True)))"

section \<open>Any other cookie\<close>

definition named_attr :: "action_env \<Rightarrow> string \<Rightarrow> cookie_options \<Rightarrow> cookie_options" where
  "named_attr env attr p =
     (case attr_pair attr of (k, v) \<Rightarrow>
        if k = ''httponly'' then p\<lparr>co_httpOnly := True\<rparr>
        else if k = ''secure'' then p\<lparr>co_secure := True\<rparr>
        else if k = ''samesite'' then p\<lparr>co_sameSite := or_keep (same_site_of v) (co_sameSite p)\<rparr>
        else if k = ''path'' then (if truthy v then p\<lparr>co_path := the v\<rparr> else p)
        else if k = ''max-age'' then p\<lparr>co_maxAge := or_keep (finite_number v) (co_maxAge p)\<rparr>
        else if k = ''expires'' then p\<lparr>co_expires := or_keep (date_of env v) (co_expires p)\<rparr>
        else p)"

definition bare_options :: "js_number option \<Rightarrow> cookie_options" where
  "bare_options maxAge =
     \<lparr>co_httpOnly = False, co_secure = False, co_sameSite = None, co_path = ''/'', co_domain = None,
      co_maxAge = maxAge, co_expires = None\<rparr>"

definition forwardNamedCookie :: "action_env \<Rightarrow> upstream_response \<Rightarrow> string \<Rightarrow> (action_state, bool) eff" where
  "forwardNamedCookie env res cookieName =
     (if \<not> truthy (rs_setCookie res) then ret False
      else (case find_cookie cookieName (split_cookies (the (rs_setCookie res))) of
              None \<Rightarrow> ret False
            | Some (raw, attrs) \<Rightarrow>
                bindE (set_cookie cookieName (decode_cookie (ae_host env) raw)
                         (fold (named_attr env) attrs (bare_options None))) (\<lambda>_. ret True)))"

definition aged_attr :: "string \<Rightarrow> cookie_options \<Rightarrow> cookie_options" where
  "aged_attr attr p =
     (case attr_pair attr of (k, v) \<Rightarrow>
        if k = ''httponly'' then p\<lparr>co_httpOnly := True\<rparr>
        else if k = ''secure'' then p\<lparr>co_secure := True\<rparr>
        else if k = ''samesite'' then p\<lparr>co_sameSite := or_keep (same_site_of v) (co_sameSite p)\<rparr>
        else if k = ''path'' then (if truthy v then p\<lparr>co_path := the v\<rparr> else p)
        else p)"

definition forwardNamedCookieWithMaxAge ::
    "action_env \<Rightarrow> upstream_response \<Rightarrow> string \<Rightarrow> js_number \<Rightarrow> (action_state, bool) eff" where
  "forwardNamedCookieWithMaxAge env res cookieName maxAgeOverride =
     (if \<not> truthy (rs_setCookie res) then ret False
      else (case find_cookie cookieName (split_cookies (the (rs_setCookie res))) of
              None \<Rightarrow> ret False
            | Some (raw, attrs) \<Rightarrow>
                bindE (set_cookie cookieName (decode_cookie (ae_host env) raw)
                         (fold aged_attr attrs (bare_options (Some maxAgeOverride)))) (\<lambda>_. ret True)))"

definition extractSetCookieValue :: "action_env \<Rightarrow> upstream_response \<Rightarrow> string \<Rightarrow> string option" where
  "extractSetCookieValue env res cookieName =
     (if \<not> truthy (rs_setCookie res) then None
      else map_option (\<lambda>(raw, attrs). decode_cookie (ae_host env) raw)
             (find_cookie cookieName (split_cookies (the (rs_setCookie res)))))"

section \<open>A combined header reads as its cookies\<close>

lemma comma_space: "js_join (d # sep) (w # ws) = js_join [d] (w # map (\<lambda>x. sep @ x) ws)"
proof (induction ws arbitrary: w)
  case (Cons v ws)
  have "js_join [d] ((sep @ v) # ys) = sep @ js_join [d] (v # ys)" for ys
    by (cases ys) simp_all
  with Cons[of v] show ?case
    by (cases ws) simp_all
qed simp

lemma js_trim_blank [simp]: "js_trim (CHR '' '' # x) = js_trim x"
  by (simp add: js_trim_def)

lemma not_ws_comma [simp]: "\<not> is_ws CHR '',''" and not_token_comma [simp]: "\<not> token_char CHR '',''"
  by code_simp+

lemma drop_ws_comma: "drop_ws (xs @ CHR '','' # r) = drop_ws xs @ CHR '','' # r"
  by (induction xs) auto

lemma cookie_starts_comma: "cookie_starts (xs @ CHR '','' # r) = cookie_starts xs"
proof -
  have token: "takeWhile token_char (ys @ CHR '','' # r) = takeWhile token_char ys" for ys
    by (induction ys) auto
  have eq: "starts_with ''='' (dropWhile token_char (ys @ CHR '','' # r)) = starts_with ''='' (dropWhile token_char ys)"
    for ys
    by (induction ys) (auto simp: starts_with_def)
  show ?thesis
    by (simp only: cookie_starts_def drop_ws_comma token eq)
qed

lemma split_cookies_not_Nil [simp]: "split_cookies s \<noteq> []"
  by (induction s) (auto split: list.splits)

lemma split_cookies_whole_tl:
  assumes "split_cookies (c # cs) = [c # cs]"
  shows "\<not> (c = CHR '','' \<and> cookie_starts cs)" and "split_cookies cs = [cs]"
proof -
  show no: "\<not> (c = CHR '','' \<and> cookie_starts cs)"
    using assms by auto
  then show "split_cookies cs = [cs]"
    using assms by (cases "split_cookies cs") auto
qed

lemma split_cookies_next:
  assumes "split_cookies a = [a]" and "cookie_starts b"
  shows "split_cookies (a @ CHR '','' # b) = a # split_cookies b"
  using assms(1)
proof (induction a)
  case Nil
  then show ?case using assms(2) by simp
next
  case (Cons c cs)
  note whole = split_cookies_whole_tl[OF Cons.prems]
  then have "\<not> (c = CHR '','' \<and> cookie_starts (cs @ CHR '','' # b))"
    by (simp add: cookie_starts_comma)
  then show ?case
    using Cons.IH[OF whole(2)] by simp
qed

lemma split_cookies_joined:
  assumes "ws \<noteq> []" and "\<And>w. w \<in> set ws \<Longrightarrow> split_cookies w = [w] \<and> cookie_starts w"
  shows "split_cookies (js_join [CHR '',''] ws) = ws"
  using assms
proof (induction ws rule: induct_list012)
  case (3 w v ws)
  have starts: "cookie_starts (js_join [CHR '',''] (v # ws))"
    using "3.prems"(2)[of v] by (cases ws) (simp_all add: cookie_starts_comma)
  have "split_cookies (js_join [CHR '',''] (v # ws)) = v # ws"
    using "3.IH"(2) "3.prems" by simp
  then show ?case
    using split_cookies_next[OF _ starts, of w] "3.prems"(2)[of w] by simp
qed simp_all

text \<open>A line of \<open>Set-Cookie\<close> with its name, value and attributes.\<close>

definition set_cookie_line :: "string \<times> string \<times> string list \<Rightarrow> string" where
  "set_cookie_line c = (case c of (n, v, attrs) \<Rightarrow> js_join ''; '' ((n @ ''='' @ v) # attrs))"

text \<open>
  What the grammar of cookies asks of a line: the name is a token, semicolons and outer blanks do not occur in
  the parts; and no comma of it (an \<open>Expires\<close> date has one) comes before a name and an equals sign.
\<close>

definition proper_cookie :: "string \<times> string \<times> string list \<Rightarrow> bool" where
  "proper_cookie c =
     (case c of (n, v, attrs) \<Rightarrow>
        n \<noteq> [] \<and> list_all token_char n \<and>
        list_all (\<lambda>p. CHR '';'' \<notin> set p \<and> js_trim p = p) ((n @ ''='' @ v) # attrs) \<and>
        split_cookies (set_cookie_line c) = [set_cookie_line c])"

lemma not_token_eq [simp]: "\<not> token_char CHR ''=''" and eq_not_ws [simp]: "\<not> is_ws CHR ''=''"
  by code_simp+

lemma token_not_ws: "token_char c \<Longrightarrow> \<not> is_ws c"
  by (auto simp: token_char_def is_ws_def is_alnum_def is_digit_def is_upper_az_def is_lower_az_def char_code_def)

lemma eq_not_in_token: "list_all token_char n \<Longrightarrow> CHR ''='' \<notin> set n"
  by (auto simp: list_all_iff)

lemma name_of_pair:
  assumes "CHR ''='' \<notin> set n"
  shows "takeWhile (\<lambda>x. x \<noteq> CHR ''='') (n @ CHR ''='' # v) = n"
    and "dropWhile (\<lambda>x. x \<noteq> CHR ''='') (n @ CHR ''='' # v) = CHR ''='' # v"
  using assms by (induction n) auto

lemma cookie_starts_line:
  assumes "n \<noteq> []" and "list_all token_char n"
  shows "cookie_starts (n @ CHR ''='' # r)"
proof -
  have "drop_ws (n @ CHR ''='' # r) = n @ CHR ''='' # r"
    using assms token_not_ws by (cases n) auto
  moreover have "takeWhile token_char (n @ CHR ''='' # r) = n" "dropWhile token_char (n @ CHR ''='' # r) = CHR ''='' # r"
    using assms(2) by (induction n) auto
  ultimately show ?thesis
    using assms(1) by (simp add: cookie_starts_def starts_with_def)
qed

lemma set_cookie_line_starts:
  assumes "proper_cookie c"
  shows "cookie_starts (set_cookie_line c)" and "split_cookies (set_cookie_line c) = [set_cookie_line c]"
proof -
  obtain n v attrs where c: "c = (n, v, attrs)"
    by (cases c)
  have "set_cookie_line c = n @ CHR ''='' # (v @ concat (map (\<lambda>a. ''; '' @ a) attrs))"
  proof -
    have "js_join sep (x # xs) = x @ concat (map (\<lambda>a. sep @ a) xs)" for sep x and xs :: "string list"
      by (induction xs arbitrary: x) simp_all
    then show ?thesis
      unfolding set_cookie_line_def c by simp
  qed
  then show "cookie_starts (set_cookie_line c)"
    using assms cookie_starts_line[of n] by (simp add: proper_cookie_def c)
  show "split_cookies (set_cookie_line c) = [set_cookie_line c]"
    using assms by (simp add: proper_cookie_def c)
qed

lemma parts_of_line:
  assumes "proper_cookie (n, v, attrs)"
  shows "map js_trim (split_on CHR '';'' (set_cookie_line (n, v, attrs))) = (n @ ''='' @ v) # attrs"
proof -
  have "split_on CHR '';'' (set_cookie_line (n, v, attrs)) = (n @ ''='' @ v) # map (\<lambda>x. '' '' @ x) attrs"
    unfolding set_cookie_line_def prod.case comma_space[of "CHR '';''" "'' ''"]
    by (rule split_on_join) (use assms in \<open>auto simp: proper_cookie_def list_all_iff\<close>)
  then show ?thesis
    using assms by (auto simp: proper_cookie_def list_all_iff map_idI)
qed

lemma find_cookie_line:
  assumes "proper_cookie (n, v, attrs)"
  shows "find_cookie nm (set_cookie_line (n, v, attrs) # cs) =
    (if n = nm then Some (v, attrs) else find_cookie nm cs)"
proof -
  have "CHR ''='' \<notin> set n"
    using assms eq_not_in_token by (simp add: proper_cookie_def)
  then show ?thesis
    using parts_of_line[OF assms] by (auto simp: Let_def name_of_pair)
qed

lemma split_on_not_Nil [simp]: "split_on d s \<noteq> []"
  by (induction s) (auto split: list.splits)

lemma find_cookie_blank: "find_cookie nm ((CHR '' '' # c) # cs) = find_cookie nm (c # cs)"
proof -
  have "map js_trim (split_on CHR '';'' (CHR '' '' # c)) = map js_trim (split_on CHR '';'' c)"
    by (cases "split_on CHR '';'' c") (auto simp: js_trim_def)
  then show ?thesis
    by simp
qed

lemma find_cookie_lines:
  assumes "\<And>c. c \<in> set cs \<Longrightarrow> proper_cookie c"
  shows "find_cookie nm (map (\<lambda>c. CHR '' '' # set_cookie_line c) cs) = map_of cs nm"
  using assms by (induction cs) (simp_all add: find_cookie_blank find_cookie_line split_paired_all del: find_cookie.simps(2))


definition example_cookies :: "(string \<times> string \<times> string list) list" where
  "example_cookies =
     [(''d'', ''1'', [''Path=/'', ''Expires=Wed, 21 Oct 2026 07:28:00 GMT'']), (''s'', ''t.x=='', [''HttpOnly''])]"


section \<open>The cookies in the browser\<close>

text \<open>
  A browser keeps a cookie under its name, domain and path (RFC 6265). One without \<open>Domain\<close> is sent to the host
  that set it only; one with a parent domain is sent to every host below that.
\<close>

type_synonym browser_jar = "string \<times> string option \<times> string \<Rightarrow> string option"

definition lapsed :: "int \<Rightarrow> cookie_options \<Rightarrow> bool" where
  "lapsed now opts =
     (case co_maxAge opts of
        Some (Dec m e) \<Rightarrow> m \<le> 0
      | Some (Infinite neg) \<Rightarrow> neg
      | _ \<Rightarrow> (case co_expires opts of None \<Rightarrow> False | Some t \<Rightarrow> t \<le> now))"

definition browser_takes :: "int \<Rightarrow> string \<times> string \<times> cookie_options \<Rightarrow> browser_jar \<Rightarrow> browser_jar" where
  "browser_takes now c jar =
     (case c of (n, v, opts) \<Rightarrow>
        jar((n, co_domain opts, co_path opts) := if lapsed now opts then None else Some v))"

text \<open>What another host of the domain still sees is what cookies with that domain say.\<close>

lemma host_only_cookies_leave_the_domain_alone:
  assumes "\<forall>c\<in>set cs. co_domain (snd (snd c)) = None"
  shows "fold (browser_takes now) cs jar (n, Some d, p) = jar (n, Some d, p)"
  using assms by (induction cs arbitrary: jar) (auto simp: browser_takes_def split: prod.splits)

lemma named_attr_domain [simp]: "co_domain (fold (named_attr env) attrs opts) = co_domain opts"
  and aged_attr_domain [simp]: "co_domain (fold aged_attr attrs opts) = co_domain opts"
proof -
  have "co_domain (named_attr env a opts) = co_domain opts" for a opts
    by (simp add: named_attr_def split: prod.splits)
  then show "co_domain (fold (named_attr env) attrs opts) = co_domain opts"
    by (induction attrs arbitrary: opts) simp_all
  have "co_domain (aged_attr a opts) = co_domain opts" for a opts
    by (simp add: aged_attr_def split: prod.splits)
  then show "co_domain (fold aged_attr attrs opts) = co_domain opts"
    by (induction attrs arbitrary: opts) simp_all
qed

section \<open>What forwarding does to the action's state\<close>

lemma set_cookie_apply [simp]:
  "set_cookie n v opts s = (Inr (), s\<lparr>st_store := store_set (st_store s) n v, st_set := st_set s @ [(n, v, opts)]\<rparr>)"
  by (simp add: set_cookie_def)

lemma upstream_apply [simp]: "upstream env q s = (Inr (ae_upstream env q), s\<lparr>st_sent := st_sent s @ [q]\<rparr>)"
  by (simp add: upstream_def bindE_def)

lemma store_set_lookup: "map_of (store_set store k v) k = Some v"
proof -
  have "map_of (map (\<lambda>p. if fst p = k then (k, v) else p) store) k = Some v" if "k \<in> fst ` set store"
    using that by (induction store) auto
  moreover have "map_of (store @ [(k, v)]) k = Some v" if "k \<notin> fst ` set store"
    using that by (induction store) auto
  ultimately show ?thesis
    by (simp add: store_set_def)
qed

lemma forwardNamedCookie_sets:
  assumes "forwardNamedCookie env res nm s = (r, t)"
  shows "st_sent t = st_sent s \<and>
    (\<exists>new. st_set t = st_set s @ new \<and> (\<forall>c\<in>set new. fst c = nm \<and> co_domain (snd (snd c)) = None))"
  using assms
  by (auto simp: forwardNamedCookie_def bare_options_def bindE_def split: if_splits option.splits)

lemma forwardNamedCookieWithMaxAge_sets:
  assumes "forwardNamedCookieWithMaxAge env res nm age s = (r, t)"
  shows "st_sent t = st_sent s \<and>
    (\<exists>new. st_set t = st_set s @ new \<and> (\<forall>c\<in>set new. fst c = nm \<and> co_domain (snd (snd c)) = None))"
  using assms
  by (auto simp: forwardNamedCookieWithMaxAge_def bare_options_def bindE_def split: if_splits option.splits)

lemma forwardSessionCookie_sets:
  assumes "forwardSessionCookie env res s = (r, t)"
  shows "st_sent t = st_sent s \<and>
    ((r = Inr False \<and> t = s) \<or>
     (r = Inr True \<and> (\<exists>v opts. st_set t = st_set s @ [(session_cookie env, v, opts)] \<and>
        st_store t = store_set (st_store s) (session_cookie env) v)))"
  using assms
  by (auto simp: forwardSessionCookie_def bindE_def split: if_splits option.splits)

text \<open>The three cookies have three names.\<close>

lemma cookie_names_differ [simp]:
  "session_cookie env \<noteq> two_factor_cookie env" "two_factor_cookie env \<noteq> session_cookie env"
  "session_cookie env \<noteq> trust_cookie env" "trust_cookie env \<noteq> session_cookie env"
  by (simp_all add: session_cookie_def two_factor_cookie_def trust_cookie_def admin_cookie_def
      getBetterAuthCookieName_def Let_def)

end
