(* ===== verification/Admin_Login.thy ===== *)
theory Admin_Login
  imports Set_Cookie Consent
begin

text \<open>
  The server actions of the admin console around signing in and out: password, code by mail, second factor
  (\<open>app/login/actions.ts\<close>), the account's own two-factor settings (\<open>app/account/security/actions.ts\<close>), consent,
  registration and password reset (\<open>app/login/consent\<close>, \<open>app/signup\<close>, \<open>app/forgot-password\<close>,
  \<open>app/reset-password\<close>) and sign-out (\<open>app/(admin)/actions.ts\<close>). \<open>redirect()\<close> throws; here it is the outcome
  \<open>Redirected\<close>. Each calls the authorization server at most once per path, so the server is a function of the
  request. Log lines and telemetry are left out.
\<close>

section \<open>Reading JSON bodies\<close>

text \<open>A property of a parsed value that is not \<open>null\<close>; of equal names the last counts.\<close>

definition js_member :: "string \<Rightarrow> json \<Rightarrow> json option" where
  "js_member k j = (case j of JObj ms \<Rightarrow> map_of (rev ms) k | _ \<Rightarrow> None)"

definition zero_or_nan :: "js_number \<Rightarrow> bool" where
  "zero_or_nan n = (case n of NotANumber \<Rightarrow> True | Infinite _ \<Rightarrow> False | Dec m e \<Rightarrow> m = 0)"

definition json_truthy :: "json option \<Rightarrow> bool" where
  "json_truthy j =
     (case j of
        None \<Rightarrow> False
      | Some JNull \<Rightarrow> False
      | Some (JBool b) \<Rightarrow> b
      | Some (JNum s) \<Rightarrow> \<not> zero_or_nan (to_number s)
      | Some (JStr s) \<Rightarrow> s \<noteq> []
      | Some (JArr _) \<Rightarrow> True
      | Some (JObj _) \<Rightarrow> True)"

datatype 'a outcome = Redirected string | Returned 'a

definition post_request :: "action_env \<Rightarrow> string \<Rightarrow> string option \<Rightarrow> json \<Rightarrow> upstream_request" where
  "post_request env path cookie body =
     \<lparr>q_path = path, q_origin = getForwardedOrigin env, q_ip = getForwardedClientIpHeader env,
      q_cookie = cookie, q_body = Some body\<rparr>"

definition get_request :: "string \<Rightarrow> string option \<Rightarrow> string option \<Rightarrow> upstream_request" where
  "get_request path ip cookie =
     \<lparr>q_path = path, q_origin = None, q_ip = ip, q_cookie = cookie, q_body = None\<rparr>"

section \<open>The app a page belongs to\<close>

definition AUTH_SERVER_URL :: "host \<Rightarrow> string" where
  "AUTH_SERVER_URL h = (case h_env h ''AUTH_SERVER_URL'' of None \<Rightarrow> ''https://localhost:3010'' | Some u \<Rightarrow> u)"

text \<open>\<open>new URL(next, base)\<close> for the values \<open>validateNextUrl\<close> returns: a path is taken on the origin of the
  base, an absolute address as it is.\<close>

definition url_on_base :: "host \<Rightarrow> string \<Rightarrow> string \<Rightarrow> url option" where
  "url_on_base h nxt base =
     (case h_parse_url h base of
        None \<Rightarrow> None
      | Some b \<Rightarrow> h_parse_url h (if starts_with ''/'' nxt then u_origin b @ nxt else nxt))"

definition extractClientId :: "host \<Rightarrow> string option \<Rightarrow> string option" where
  "extractClientId h nextStr =
     (if \<not> truthy nextStr then None
      else (case url_on_base h (the nextStr) ''http://placeholder.invalid'' of
              None \<Rightarrow> None
            | Some u \<Rightarrow> map_of (u_params u) ''client_id''))"

section \<open>Outstanding consent\<close>

definition fetchOutstandingConsent :: "action_env \<Rightarrow> string \<Rightarrow> (action_state, json) eff" where
  "fetchOutstandingConsent env appPublicId =
     bindE (readE st_store) (\<lambda>store.
     bindE (upstream env (get_request (''/api/me/consent?appPublicId='' @ encode_uri_component appPublicId)
              (getForwardedClientIpHeader env) (Some (cookie_header store)))) (\<lambda>res.
     ret (case res of
            None \<Rightarrow> JArr []
          | Some r \<Rightarrow>
              if \<not> response_ok r then JArr []
              else (case rs_body r of
                      None \<Rightarrow> JArr []
                    | Some j \<Rightarrow>
                        (case js_member ''outstanding'' j of
                           None \<Rightarrow> JArr []
                         | Some JNull \<Rightarrow> JArr []
                         | Some docs \<Rightarrow> docs)))))"

text \<open>\<open>outstanding.length === 0\<close>\<close>

definition nothing_outstanding :: "json \<Rightarrow> bool" where
  "nothing_outstanding j \<longleftrightarrow> j = JArr [] \<or> j = JStr []"

definition maybeRedirectToConsent :: "action_env \<Rightarrow> string option \<Rightarrow> (action_state, string option) eff" where
  "maybeRedirectToConsent env nextSafe =
     (let clientId = extractClientId (ae_host env) nextSafe in
      if \<not> truthy clientId then ret None
      else bindE (fetchOutstandingConsent env (the clientId)) (\<lambda>outstanding.
             if nothing_outstanding outstanding then ret None
             else ret (Some (''/login/consent?'' @ params_to_string
                    ((''appPublicId'', the clientId) #
                     (if truthy nextSafe then [(''next'', the nextSafe)] else []))))))"

section \<open>The offer to set up a second factor\<close>

definition getSystemTrustDaysClient :: "host \<Rightarrow> js_number" where
  "getSystemTrustDaysClient h =
     (let raw = h_env h ''TWO_FACTOR_TRUST_DAYS'' in
      if \<not> truthy raw then Dec 14 0
      else (case integer_value (to_number (the raw)) of
              Some n \<Rightarrow> if n > 0 then Dec n 0 else Dec 14 0
            | None \<Rightarrow> Dec 14 0))"

definition getSystemPromptEnabledClient :: "host \<Rightarrow> bool" where
  "getSystemPromptEnabledClient h =
     (case h_env h ''TWO_FACTOR_PROMPT_ENABLED'' of
        None \<Rightarrow> True
      | Some raw \<Rightarrow> if raw = [] then True else to_lower raw \<noteq> ''false'' \<and> raw \<noteq> ''0'')"

definition times_number :: "int \<Rightarrow> js_number \<Rightarrow> js_number" where
  "times_number k n = (case n of Dec m e \<Rightarrow> Dec (m * k) e | _ \<Rightarrow> n)"

text \<open>A date is \<open>Some None\<close> when it is an invalid one, whose comparisons are false.\<close>

definition shouldPromptTwoFactor_client ::
    "bool \<Rightarrow> int option option \<Rightarrow> int \<Rightarrow> js_number \<Rightarrow> bool \<Rightarrow> bool" where
  "shouldPromptTwoFactor_client twoFactorEnabled promptedAt now intervalDays promptEnabled =
     (if \<not> promptEnabled then False
      else if twoFactorEnabled then False
      else (case promptedAt of
              None \<Rightarrow> True
            | Some None \<Rightarrow> False
            | Some (Some p) \<Rightarrow> thousandths_greater (now - p) (times_number (24 * 60 * 60) intervalDays)))"

definition positive_number :: "json option \<Rightarrow> js_number option" where
  "positive_number j =
     (case j of
        Some (JNum s) \<Rightarrow>
          (case to_number s of
             Dec m e \<Rightarrow> if m > 0 then Some (Dec m e) else None
           | Infinite neg \<Rightarrow> if neg then None else Some (Infinite neg)
           | NotANumber \<Rightarrow> None)
      | _ \<Rightarrow> None)"

text \<open>What \<open>app-trust-days\<close> says about the app \<open>next\<close> names; nothing when there is none or no answer.\<close>

definition fetch_trust_days :: "action_env \<Rightarrow> string option \<Rightarrow> (action_state, json option) eff" where
  "fetch_trust_days env nextSafe =
     (if \<not> truthy nextSafe then ret None
      else (case url_on_base (ae_host env) (the nextSafe) (AUTH_SERVER_URL (ae_host env)) of
              None \<Rightarrow> ret None
            | Some u \<Rightarrow>
                if \<not> truthy (map_of (u_params u) ''client_id'') then ret None
                else bindE (upstream env (get_request (''/api/token/app-trust-days?client_id='' @
                             encode_uri_component (the (map_of (u_params u) ''client_id''))) None None)) (\<lambda>res.
                       ret (case res of
                              None \<Rightarrow> None
                            | Some r \<Rightarrow>
                                if \<not> response_ok r \<or> rs_body r = Some JNull then None else rs_body r))))"

definition two_factor_state :: "action_env \<Rightarrow> upstream_response \<Rightarrow> upstream_response \<Rightarrow> (bool \<times> int option option) option" where
  "two_factor_state env sessRes statusRes =
     (if \<not> (response_ok sessRes \<and> response_ok statusRes) then None
      else (case (rs_body sessRes, rs_body statusRes) of
              (Some sess, Some status) \<Rightarrow>
                if status = JNull then None
                else (let at = js_member ''twoFactorPromptedAt'' status in
                      Some (case js_member ''user'' sess of
                              None \<Rightarrow> False
                            | Some user \<Rightarrow> json_truthy (js_member ''twoFactorEnabled'' user),
                            if json_truthy at then Some (ae_date env (the at)) else None))
            | _ \<Rightarrow> None))"

definition maybeRedirectToTwoFactorPrompt ::
    "action_env \<Rightarrow> string option \<Rightarrow> (action_state, string option) eff" where
  "maybeRedirectToTwoFactorPrompt env nextSafe =
     bindE (readE (cookie_header \<circ> st_store)) (\<lambda>cookie.
     bindE (upstream env (get_request ''/api/auth/get-session'' None (Some cookie))) (\<lambda>sess.
     bindE (upstream env (get_request ''/api/me/two-factor-status'' None (Some cookie))) (\<lambda>status.
       (let known = (case (sess, status) of (Some a, Some b) \<Rightarrow> two_factor_state env a b | _ \<Rightarrow> None) in
        bindE (fetch_trust_days env nextSafe) (\<lambda>data.
          (let days = (case data of None \<Rightarrow> None | Some j \<Rightarrow> positive_number (js_member ''effectiveTrustDays'' j));
               intervalDays = (case days of None \<Rightarrow> getSystemTrustDaysClient (ae_host env) | Some n \<Rightarrow> n);
               promptEnabled = (case (case data of None \<Rightarrow> None | Some j \<Rightarrow> js_member ''promptEnabled'' j) of
                                  Some (JBool b) \<Rightarrow> b
                                | _ \<Rightarrow> getSystemPromptEnabledClient (ae_host env)) in
           ret (case known of
                  None \<Rightarrow> None
                | Some (twoFactorEnabled, promptedAt) \<Rightarrow>
                    if shouldPromptTwoFactor_client twoFactorEnabled promptedAt (ae_now env) intervalDays promptEnabled
                    then Some (''/login/two-factor-prompt'' @
                           (if truthy nextSafe then ''?next='' @ encode_uri_component (the nextSafe) else []))
                    else None)))))))"

section \<open>Signing in\<close>

datatype sign_in_result = SignInError string | TwoFactorChallenge

definition classifyForbidden :: "upstream_response \<Rightarrow> string" where
  "classifyForbidden res =
     (case rs_body res of
        None \<Rightarrow> ''inactive''
      | Some j \<Rightarrow> if js_member ''code'' j = Some (JStr ''ACCOUNT_UNVERIFIED'') then ''unverified'' else ''inactive'')"

text \<open>A body \<open>null\<close> makes reading \<open>twoFactorRedirect\<close> throw outside the \<open>try\<close>.\<close>

definition wants_two_factor :: "upstream_response \<Rightarrow> (action_state, bool) eff" where
  "wants_two_factor res =
     (case rs_body res of
        None \<Rightarrow> ret False
      | Some j \<Rightarrow>
          if j = JNull then raise (JsError ''TypeError'')
          else ret (js_member ''twoFactorRedirect'' j = Some (JBool True)))"

text \<open>What \<open>signIn\<close> and \<open>verifyOtp\<close> share after an accepted first factor.\<close>

definition after_first_factor ::
    "action_env \<Rightarrow> string option \<Rightarrow> upstream_response \<Rightarrow> (action_state, sign_in_result outcome) eff" where
  "after_first_factor env nextRaw res =
     bindE (wants_two_factor res) (\<lambda>challenge.
       if challenge then
         bindE (forwardNamedCookie env res (two_factor_cookie env)) (\<lambda>_. ret (Returned TwoFactorChallenge))
       else
         bindE (forwardSessionCookie env res) (\<lambda>ok.
           if \<not> ok then ret (Returned (SignInError ''serverUnavailable''))
           else (let nextSafe = validateNextUrl (ae_host env) nextRaw in
                 bindE (maybeRedirectToConsent env nextSafe) (\<lambda>consent.
                 case consent of
                   Some u \<Rightarrow> ret (Redirected u)
                 | None \<Rightarrow>
                     bindE (maybeRedirectToTwoFactorPrompt env nextSafe) (\<lambda>prompt.
                     ret (Redirected (case prompt of
                            Some u \<Rightarrow> u
                          | None \<Rightarrow> (case nextSafe of None \<Rightarrow> ''/users'' | Some u \<Rightarrow> u))))))))"

definition signIn ::
    "action_env \<Rightarrow> string option \<Rightarrow> string option \<Rightarrow> string option \<Rightarrow>
     (action_state, sign_in_result outcome) eff" where
  "signIn env email password nextRaw =
     (if \<not> truthy email \<or> \<not> truthy password then
        ret (Returned (SignInError ''Email and password are required.''))
      else
        bindE (readE (\<lambda>s. map_of (st_store s) (trust_cookie env))) (\<lambda>trust.
        bindE (upstream env (post_request env ''/api/auth/sign-in/email''
                 (map_option (\<lambda>v. trust_cookie env @ ''='' @ v) trust)
                 (JObj [(''email'', JStr (the email)), (''password'', JStr (the password))]))) (\<lambda>answer.
          case answer of
            None \<Rightarrow> ret (Returned (SignInError ''serverUnavailable''))
          | Some res \<Rightarrow>
              if \<not> response_ok res then
                ret (Returned (SignInError
                  (if rs_status res = 401 then ''invalidCredentials''
                   else if rs_status res = 403 then classifyForbidden res
                   else if rs_status res = 429 then ''tooManyRequests''
                   else ''invalidCredentials'')))
              else after_first_factor env nextRaw res)))"

definition requestOtp :: "action_env \<Rightarrow> string option \<Rightarrow> (action_state, string option) eff" where
  "requestOtp env email =
     (if \<not> truthy email then ret (Some ''invalidCredentials'')
      else bindE (upstream env (post_request env ''/api/auth/email-otp/send-verification-otp'' None
                    (JObj [(''email'', JStr (the email)), (''type'', JStr ''sign-in'')]))) (\<lambda>answer.
             ret (case answer of None \<Rightarrow> Some ''serverUnavailable'' | Some _ \<Rightarrow> None)))"

definition verifyOtp ::
    "action_env \<Rightarrow> string option \<Rightarrow> string option \<Rightarrow> string option \<Rightarrow>
     (action_state, sign_in_result outcome) eff" where
  "verifyOtp env email otp nextRaw =
     (if \<not> truthy email \<or> \<not> truthy otp then ret (Returned (SignInError ''invalidCode''))
      else
        bindE (upstream env (post_request env ''/api/auth/sign-in/email-otp'' None
                 (JObj [(''email'', JStr (the email)), (''otp'', JStr (the otp))]))) (\<lambda>answer.
          case answer of
            None \<Rightarrow> ret (Returned (SignInError ''serverUnavailable''))
          | Some res \<Rightarrow>
              if \<not> response_ok res then
                ret (Returned (SignInError
                  (if rs_status res = 403 then classifyForbidden res
                   else if rs_status res = 429 then ''tooManyRequests''
                   else ''invalidCode'')))
              else after_first_factor env nextRaw res))"

section \<open>The second factor\<close>

definition applyPerAppTrustCookie ::
    "action_env \<Rightarrow> upstream_response \<Rightarrow> string option \<Rightarrow> (action_state, bool) eff" where
  "applyPerAppTrustCookie env res nextStr =
     bindE (fetch_trust_days env nextStr) (\<lambda>data.
       (let days = (case data of None \<Rightarrow> None | Some j \<Rightarrow> positive_number (js_member ''effectiveTrustDays'' j));
            resolvedDays = (case days of None \<Rightarrow> getSystemTrustDaysClient (ae_host env) | Some n \<Rightarrow> n) in
        forwardNamedCookieWithMaxAge env res (trust_cookie env) (times_number (24 * 60 * 60) resolvedDays)))"

text \<open>\<open>verifyTotp\<close> and \<open>verifyBackupCode\<close> differ in the path they call.\<close>

definition verify_second_factor ::
    "action_env \<Rightarrow> string \<Rightarrow> string option \<Rightarrow> bool \<Rightarrow> string option \<Rightarrow> (action_state, string outcome) eff" where
  "verify_second_factor env path code trustDevice nextRaw =
     (let nextSafe = validateNextUrl (ae_host env) nextRaw in
      if \<not> truthy code then ret (Returned ''invalidCode'')
      else
        bindE (readE (cookie_header \<circ> st_store)) (\<lambda>cookie.
        bindE (upstream env (post_request env path (Some cookie)
                 (JObj [(''code'', JStr (the code)), (''trustDevice'', JBool trustDevice)]))) (\<lambda>answer.
          case answer of
            None \<Rightarrow> ret (Returned ''serverUnavailable'')
          | Some res \<Rightarrow>
              if \<not> response_ok res then
                ret (Returned (if rs_status res = 429 then ''tooManyRequests'' else ''invalidCode''))
              else
                bindE (forwardSessionCookie env res) (\<lambda>ok.
                  if \<not> ok then ret (Returned ''serverUnavailable'')
                  else
                    bindE (forwardNamedCookie env res (two_factor_cookie env)) (\<lambda>_.
                    bindE (if trustDevice then applyPerAppTrustCookie env res nextSafe else ret False) (\<lambda>_.
                    bindE (maybeRedirectToConsent env nextSafe) (\<lambda>consent.
                    ret (Redirected (case consent of
                           Some u \<Rightarrow> u
                         | None \<Rightarrow> (case nextSafe of None \<Rightarrow> ''/users'' | Some u \<Rightarrow> u))))))))))"

definition verifyTotp ::
    "action_env \<Rightarrow> string option \<Rightarrow> bool \<Rightarrow> string option \<Rightarrow> (action_state, string outcome) eff" where
  "verifyTotp env = verify_second_factor env ''/api/auth/two-factor/verify-totp''"

definition verifyBackupCode ::
    "action_env \<Rightarrow> string option \<Rightarrow> bool \<Rightarrow> string option \<Rightarrow> (action_state, string outcome) eff" where
  "verifyBackupCode env = verify_second_factor env ''/api/auth/two-factor/verify-backup-code''"

section \<open>The account's own second factor\<close>

datatype security_result = SecurityError string | SecurityOk | SecuritySecrets json json | BackupCodes json

definition password_error :: "upstream_response \<Rightarrow> string" where
  "password_error res =
     (if rs_status res = 429 then ''tooManyRequests''
      else if rs_status res = 400 \<or> rs_status res = 401 \<or> rs_status res = 403 then ''invalidPassword''
      else ''generic'')"

text \<open>These calls carry the cookies and the origin, not the address of the browser.\<close>

definition security_request :: "action_env \<Rightarrow> string \<Rightarrow> string \<Rightarrow> json option \<Rightarrow> upstream_request" where
  "security_request env path cookie body =
     \<lparr>q_path = path, q_origin = getForwardedOrigin env, q_ip = None, q_cookie = Some cookie, q_body = body\<rparr>"

text \<open>A property of a successful answer; a body \<open>null\<close> throws, a missing property is undefined.\<close>

definition js_property :: "string \<Rightarrow> json \<Rightarrow> json" where
  "js_property k j = (case js_member k j of None \<Rightarrow> JNull | Some v \<Rightarrow> v)"

definition enable2fa :: "action_env \<Rightarrow> string option \<Rightarrow> (action_state, security_result) eff" where
  "enable2fa env password =
     (if \<not> truthy password then ret (SecurityError ''invalidPassword'')
      else
        bindE (readE (cookie_header \<circ> st_store)) (\<lambda>cookie.
        bindE (upstream env (security_request env ''/api/auth/two-factor/enable'' cookie
                 (Some (JObj [(''password'', JStr (the password))])))) (\<lambda>answer.
          case answer of
            None \<Rightarrow> ret (SecurityError ''serverUnavailable'')
          | Some res \<Rightarrow>
              if \<not> response_ok res then ret (SecurityError (password_error res))
              else (case rs_body res of
                      None \<Rightarrow> ret (SecurityError ''generic'')
                    | Some j \<Rightarrow>
                        if j = JNull then raise (JsError ''TypeError'')
                        else ret (SecuritySecrets (js_property ''totpURI'' j) (js_property ''backupCodes'' j))))))"

definition revokeOtherSessions :: "action_env \<Rightarrow> string \<Rightarrow> (action_state, unit) eff" where
  "revokeOtherSessions env rotatedSessionToken =
     bindE (upstream env (security_request env ''/api/auth/revoke-other-sessions''
              (session_cookie env @ ''='' @ rotatedSessionToken) None)) (\<lambda>_. ret ())"

definition confirmEnable :: "action_env \<Rightarrow> string option \<Rightarrow> (action_state, security_result) eff" where
  "confirmEnable env code =
     (if \<not> truthy code then ret (SecurityError ''invalidCode'')
      else
        bindE (readE (cookie_header \<circ> st_store)) (\<lambda>cookie.
        bindE (upstream env (security_request env ''/api/auth/two-factor/verify-totp'' cookie
                 (Some (JObj [(''code'', JStr (the code))])))) (\<lambda>answer.
          case answer of
            None \<Rightarrow> ret (SecurityError ''serverUnavailable'')
          | Some res \<Rightarrow>
              if \<not> response_ok res then
                ret (SecurityError
                  (if rs_status res = 429 then ''tooManyRequests''
                   else if rs_status res = 400 \<or> rs_status res = 401 then ''invalidCode''
                   else ''generic''))
              else
                bindE (forwardNamedCookie env res (session_cookie env)) (\<lambda>_.
                  (let rotatedToken = extractSetCookieValue env res (session_cookie env) in
                   bindE (if truthy rotatedToken then revokeOtherSessions env (the rotatedToken) else ret ()) (\<lambda>_.
                   ret SecurityOk))))))"

definition disable2fa :: "action_env \<Rightarrow> string option \<Rightarrow> (action_state, security_result) eff" where
  "disable2fa env password =
     (if \<not> truthy password then ret (SecurityError ''invalidPassword'')
      else
        bindE (readE (cookie_header \<circ> st_store)) (\<lambda>cookie.
        bindE (upstream env (security_request env ''/api/auth/two-factor/disable'' cookie
                 (Some (JObj [(''password'', JStr (the password))])))) (\<lambda>answer.
          case answer of
            None \<Rightarrow> ret (SecurityError ''serverUnavailable'')
          | Some res \<Rightarrow>
              if \<not> response_ok res then ret (SecurityError (password_error res))
              else
                bindE (forwardNamedCookie env res (session_cookie env)) (\<lambda>_.
                bindE (forwardNamedCookie env res (trust_cookie env)) (\<lambda>_.
                ret SecurityOk)))))"

definition regenerateBackupCodes :: "action_env \<Rightarrow> string option \<Rightarrow> (action_state, security_result) eff" where
  "regenerateBackupCodes env password =
     (if \<not> truthy password then ret (SecurityError ''invalidPassword'')
      else
        bindE (readE (cookie_header \<circ> st_store)) (\<lambda>cookie.
        bindE (upstream env (security_request env ''/api/auth/two-factor/generate-backup-codes'' cookie
                 (Some (JObj [(''password'', JStr (the password))])))) (\<lambda>answer.
          case answer of
            None \<Rightarrow> ret (SecurityError ''serverUnavailable'')
          | Some res \<Rightarrow>
              if \<not> response_ok res then ret (SecurityError (password_error res))
              else (case rs_body res of
                      None \<Rightarrow> ret (SecurityError ''generic'')
                    | Some j \<Rightarrow>
                        if j = JNull then raise (JsError ''TypeError'')
                        else ret (BackupCodes (js_property ''backupCodes'' j))))))"

section \<open>Registration, consent, passwords, sign-out\<close>

record register_input =
  ri_clientId :: string
  ri_firstName :: string
  ri_lastName :: string
  ri_companyName :: "string option"
  ri_email :: string
  ri_password :: string
  ri_acceptedPrivacyPolicy :: "bool option"
  ri_acceptedTerms :: "bool option"
  ri_acceptedGdpr :: "bool option"
  ri_next :: "string option"

definition given_field :: "string \<Rightarrow> ('a \<Rightarrow> json) \<Rightarrow> 'a option \<Rightarrow> (string \<times> json) list" where
  "given_field k f v = (case v of None \<Rightarrow> [] | Some x \<Rightarrow> [(k, f x)])"

definition accepted_fields :: "register_input \<Rightarrow> (string \<times> json) list" where
  "accepted_fields i =
     given_field ''acceptedPrivacyPolicy'' JBool (ri_acceptedPrivacyPolicy i) @
     given_field ''acceptedTerms'' JBool (ri_acceptedTerms i) @
     given_field ''acceptedGdpr'' JBool (ri_acceptedGdpr i)"

definition next_field :: "register_input \<Rightarrow> (string \<times> json) list" where
  "next_field i = (if truthy (ri_next i) then [(''next'', JStr (the (ri_next i)))] else [])"

text \<open>The page to go on to, or \<open>None\<close> in the answer when the server names none.\<close>

datatype form_result = FormOk "string option" | FormError string

definition redirect_url :: "upstream_response \<Rightarrow> (action_state, string option) eff" where
  "redirect_url res =
     (case rs_body res of
        None \<Rightarrow> ret None
      | Some j \<Rightarrow>
          if j = JNull then raise (JsError ''TypeError'')
          else ret (case js_member ''redirectUrl'' j of
                      Some (JStr u) \<Rightarrow> if u = [] then None else Some u
                    | _ \<Rightarrow> None))"

definition registration_error :: "nat \<Rightarrow> string" where
  "registration_error status =
     (if status = 404 then ''appNotFound''
      else if status = 409 then ''emailTaken''
      else if status = 422 then ''captchaFailed''
      else if status = 429 then ''tooManyRequests''
      else ''validationError'')"

definition registerAction :: "action_env \<Rightarrow> register_input \<Rightarrow> string \<Rightarrow> (action_state, form_result) eff" where
  "registerAction env i turnstileToken =
     bindE (upstream env (post_request env ''/api/register'' None
       (JObj ([(''email'', JStr (ri_email i)), (''password'', JStr (ri_password i)),
               (''firstName'', JStr (ri_firstName i)), (''lastName'', JStr (ri_lastName i))] @
              given_field ''companyName'' JStr (ri_companyName i) @
              [(''appPublicId'', JStr (ri_clientId i)), (''turnstileToken'', JStr turnstileToken)] @
              accepted_fields i @ next_field i)))) (\<lambda>answer.
       case answer of
         None \<Rightarrow> ret (FormError ''serverUnavailable'')
       | Some res \<Rightarrow>
           if response_ok res then bindE (redirect_url res) (\<lambda>u. ret (FormOk u))
           else ret (FormError (registration_error (rs_status res))))"

definition startRegistrationAction ::
    "action_env \<Rightarrow> string \<Rightarrow> string \<Rightarrow> string \<Rightarrow> (action_state, form_result) eff" where
  "startRegistrationAction env clientId email turnstileToken =
     bindE (upstream env (post_request env ''/api/register/start'' None
       (JObj [(''email'', JStr email), (''appPublicId'', JStr clientId),
              (''turnstileToken'', JStr turnstileToken)]))) (\<lambda>answer.
       ret (case answer of
              None \<Rightarrow> FormError ''serverUnavailable''
            | Some res \<Rightarrow> if response_ok res then FormOk None else FormError (registration_error (rs_status res))))"

text \<open>\<open>res.json().catch(() => ({}))\<close>, then its \<open>code\<close>.\<close>

definition code_of_body :: "upstream_response \<Rightarrow> (action_state, string) eff" where
  "code_of_body res =
     (case rs_body res of
        None \<Rightarrow> ret []
      | Some j \<Rightarrow>
          if j = JNull then raise (JsError ''TypeError'')
          else ret (case js_member ''code'' j of Some (JStr c) \<Rightarrow> c | _ \<Rightarrow> []))"

definition otp_code :: "string \<Rightarrow> bool" where
  "otp_code c \<longleftrightarrow> c \<in> {''INVALID_OTP'', ''OTP_EXPIRED'', ''TOO_MANY_ATTEMPTS''}"

definition verifyRegistrationCodeAction ::
    "action_env \<Rightarrow> string \<Rightarrow> string \<Rightarrow> (action_state, form_result) eff" where
  "verifyRegistrationCodeAction env email otp =
     bindE (upstream env (post_request env ''/api/register/verify-code'' None
       (JObj [(''email'', JStr email), (''otp'', JStr otp)]))) (\<lambda>answer.
       case answer of
         None \<Rightarrow> ret (FormError ''GENERIC'')
       | Some res \<Rightarrow>
           if response_ok res then ret (FormOk None)
           else if rs_status res = 429 then ret (FormError ''tooManyRequests'')
           else bindE (code_of_body res) (\<lambda>c. ret (FormError (if otp_code c then c else ''GENERIC''))))"

definition completeRegistrationAction ::
    "action_env \<Rightarrow> register_input \<Rightarrow> string \<Rightarrow> bool option \<Rightarrow> (action_state, form_result) eff" where
  "completeRegistrationAction env i otp marketingOptIn =
     bindE (upstream env (post_request env ''/api/register/complete'' None
       (JObj ([(''email'', JStr (ri_email i)), (''otp'', JStr otp),
               (''firstName'', JStr (ri_firstName i)), (''lastName'', JStr (ri_lastName i))] @
              given_field ''companyName'' JStr (ri_companyName i) @
              [(''appPublicId'', JStr (ri_clientId i)), (''password'', JStr (ri_password i))] @
              accepted_fields i @ given_field ''marketingOptIn'' JBool marketingOptIn @ next_field i)))) (\<lambda>answer.
       case answer of
         None \<Rightarrow> ret (FormError ''serverUnavailable'')
       | Some res \<Rightarrow>
           if response_ok res then bindE (redirect_url res) (\<lambda>u. ret (FormOk u))
           else if rs_status res = 404 then ret (FormError ''appNotFound'')
           else bindE (code_of_body res) (\<lambda>c.
             ret (FormError
               (if otp_code c then c
                else if rs_status res = 429 then ''tooManyRequests'' else ''validationError''))))"

definition acceptConsentAction ::
    "action_env \<Rightarrow> string \<Rightarrow> string list \<Rightarrow> string \<Rightarrow> (action_state, unit outcome) eff" where
  "acceptConsentAction env appPublicId accepted nxt =
     bindE (readE (cookie_header \<circ> st_store)) (\<lambda>cookie.
     bindE (upstream env
       \<lparr>q_path = ''/api/me/consent'', q_origin = None, q_ip = getForwardedClientIpHeader env,
        q_cookie = Some cookie,
        q_body = Some (JObj [(''appPublicId'', JStr appPublicId), (''accepted'', JArr (map JStr accepted))])\<rparr>)
     (\<lambda>answer.
       ret (case answer of
              None \<Rightarrow> Returned ()
            | Some res \<Rightarrow>
                if \<not> response_ok res then Returned ()
                else Redirected (case validateNextUrl (ae_host env) (Some nxt) of
                                   None \<Rightarrow> ''/users'' | Some u \<Rightarrow> u))))"

text \<open>The answer is the same whatever happens.\<close>

definition requestPasswordResetAction :: "action_env \<Rightarrow> string option \<Rightarrow> (action_state, unit) eff" where
  "requestPasswordResetAction env email =
     bindE (upstream env (post_request env ''/api/auth/request-password-reset'' None
       (JObj [(''email'', JStr (case email of None \<Rightarrow> [] | Some e \<Rightarrow> e)),
              (''redirectTo'', JStr ((case h_env (ae_host env) ''ADMIN_URL'' of
                 None \<Rightarrow> ''http://localhost:3001'' | Some u \<Rightarrow> u) @ ''/reset-password''))]))) (\<lambda>_. ret ())"

definition resetPasswordSubmitAction :: "action_env \<Rightarrow> string \<Rightarrow> string \<Rightarrow> (action_state, form_result) eff" where
  "resetPasswordSubmitAction env token newPassword =
     bindE (upstream env (post_request env ''/api/auth/reset-password'' None
       (JObj [(''token'', JStr token), (''newPassword'', JStr newPassword)]))) (\<lambda>answer.
       ret (case answer of
              None \<Rightarrow> FormError ''serverUnavailable''
            | Some res \<Rightarrow>
                if rs_status res = 429 then FormError ''tooManyRequests''
                else if \<not> response_ok res then FormError ''invalidToken''
                else FormOk None))"

text \<open>\<open>cookies().delete\<close> sets an empty cookie that has expired, on the path \<open>/\<close> and without a domain.\<close>

definition delete_cookie :: "string \<Rightarrow> (action_state, unit) eff" where
  "delete_cookie n =
     modifyE (\<lambda>s. s\<lparr>st_store := filter (\<lambda>p. fst p \<noteq> n) (st_store s),
                    st_set := st_set s @ [(n, [], (bare_options None)\<lparr>co_expires := Some 0\<rparr>)]\<rparr>)"

definition signOutAction :: "action_env \<Rightarrow> (action_state, string) eff" where
  "signOutAction env =
     bindE (readE (cookie_header \<circ> st_store)) (\<lambda>cookie.
     bindE (upstream env (security_request env ''/api/auth/sign-out'' cookie None)) (\<lambda>_.
     bindE (delete_cookie (session_cookie env)) (\<lambda>_. ret ''/'')))"

text \<open>\<open>lib/api.ts\<close>: the answer, or the login page when the session has ended, or the server's reason.\<close>

datatype api_result = ApiOk upstream_response | ApiLogin | ApiError nat "string option"

definition api_detail :: "json option \<Rightarrow> string option" where
  "api_detail body =
     (case body of
        None \<Rightarrow> None
      | Some j \<Rightarrow>
          (case js_member ''message'' j of
             Some (JStr m) \<Rightarrow> Some m
           | Some (JArr ms) \<Rightarrow>
               if list_all (\<lambda>m. case m of JStr _ \<Rightarrow> True | _ \<Rightarrow> False) ms
               then Some (js_join '', '' (map (\<lambda>m. case m of JStr s \<Rightarrow> s | _ \<Rightarrow> []) ms)) else None
           | _ \<Rightarrow> None))"

definition apiFetch :: "action_env \<Rightarrow> string \<Rightarrow> json option \<Rightarrow> (action_state, api_result) eff" where
  "apiFetch env path body =
     bindE (readE (cookie_header \<circ> st_store)) (\<lambda>cookie.
     bindE (upstream env \<lparr>q_path = path, q_origin = None, q_ip = None, q_cookie = Some cookie, q_body = body\<rparr>)
     (\<lambda>answer.
       case answer of
         None \<Rightarrow> raise (JsError ''fetch failed'')
       | Some res \<Rightarrow>
           ret (if rs_status res = 401 then ApiLogin
                else if \<not> response_ok res then ApiError (rs_status res) (api_detail (rs_body res))
                else ApiOk res)))"

section \<open>Only reading\<close>

text \<open>Operations that set no cookie and always return.\<close>

definition only_asks :: "(action_state, 'a) eff \<Rightarrow> bool" where
  "only_asks m \<longleftrightarrow>
     (\<forall>s. \<exists>a. fst (m s) = Inr a \<and> st_set (snd (m s)) = st_set s \<and> st_store (snd (m s)) = st_store s \<and>
              (\<exists>qs. st_sent (snd (m s)) = st_sent s @ qs))"

named_theorems only_asks_intros

lemma only_asks_ret [only_asks_intros]: "only_asks (ret a)"
  and only_asks_readE [only_asks_intros]: "only_asks (readE f)"
  and only_asks_upstream [only_asks_intros]: "only_asks (upstream env q)"
  by (simp_all add: only_asks_def)

lemma only_asks_bindE [only_asks_intros]:
  assumes "only_asks m" and "\<And>a. only_asks (k a)"
  shows "only_asks (bindE m k)"
  unfolding only_asks_def
proof
  fix s
  from assms(1) obtain a t where a: "m s = (Inr a, t)" "st_set t = st_set s" "st_store t = st_store s"
      "\<exists>qs. st_sent t = st_sent s @ qs"
    unfolding only_asks_def by (metis prod.collapse)
  moreover obtain b u where "k a t = (Inr b, u)" "st_set u = st_set t" "st_store u = st_store t"
      "\<exists>qs. st_sent u = st_sent t @ qs"
    using assms(2)[of a] unfolding only_asks_def by (metis prod.collapse)
  ultimately show "\<exists>b. fst (bindE m k s) = Inr b \<and> st_set (snd (bindE m k s)) = st_set s \<and>
      st_store (snd (bindE m k s)) = st_store s \<and> (\<exists>qs. st_sent (snd (bindE m k s)) = st_sent s @ qs)"
    by auto
qed

lemma only_asksD:
  assumes "only_asks m" and "m s = (r, t)"
  obtains a qs where "r = Inr a" "st_set t = st_set s" "st_sent t = st_sent s @ qs"
  using assms unfolding only_asks_def by (metis fst_conv snd_conv)

lemma only_asks_fetch_trust_days [only_asks_intros]: "only_asks (fetch_trust_days env n)"
  unfolding fetch_trust_days_def by (auto intro!: only_asks_intros split: option.splits)

lemma only_asks_consent [only_asks_intros]: "only_asks (maybeRedirectToConsent env n)"
  unfolding maybeRedirectToConsent_def fetchOutstandingConsent_def Let_def by (auto intro!: only_asks_intros)

lemma only_asks_prompt [only_asks_intros]: "only_asks (maybeRedirectToTwoFactorPrompt env n)"
  unfolding maybeRedirectToTwoFactorPrompt_def Let_def by (auto intro!: only_asks_intros)

section \<open>Signed in, or not\<close>

definition demands_two_factor :: "upstream_response \<Rightarrow> bool" where
  "demands_two_factor res \<longleftrightarrow> (\<exists>j. rs_body res = Some j \<and> js_member ''twoFactorRedirect'' j = Some (JBool True))"

text \<open>The session cookie is among the new ones exactly when the outcome is a redirect, and then no second
  factor was demanded.\<close>

definition signed_in_iff :: "action_env \<Rightarrow> bool \<Rightarrow> action_state \<Rightarrow> err + 'a outcome \<Rightarrow> action_state \<Rightarrow> bool" where
  "signed_in_iff env allowed s r t \<longleftrightarrow>
     (\<exists>new qs. st_set t = st_set s @ new \<and> st_sent t = st_sent s @ qs \<and>
        (session_cookie env \<in> fst ` set new \<longleftrightarrow> (\<exists>u. r = Inr (Redirected u))) \<and>
        ((\<exists>u. r = Inr (Redirected u)) \<longrightarrow> allowed))"

definition landing_pages :: "action_env \<Rightarrow> string option \<Rightarrow> (action_state, string option) eff" where
  "landing_pages env nextSafe =
     bindE (maybeRedirectToConsent env nextSafe) (\<lambda>consent.
       case consent of
         Some u \<Rightarrow> ret (Some u)
       | None \<Rightarrow> maybeRedirectToTwoFactorPrompt env nextSafe)"

lemma after_first_factor_eq:
  "after_first_factor env nextRaw res =
     bindE (wants_two_factor res) (\<lambda>challenge.
       if challenge then
         bindE (forwardNamedCookie env res (two_factor_cookie env)) (\<lambda>_. ret (Returned TwoFactorChallenge))
       else
         bindE (forwardSessionCookie env res) (\<lambda>ok.
           if \<not> ok then ret (Returned (SignInError ''serverUnavailable''))
           else bindE (landing_pages env (validateNextUrl (ae_host env) nextRaw)) (\<lambda>page.
                  ret (Redirected (case page of
                         Some u \<Rightarrow> u
                       | None \<Rightarrow> (case validateNextUrl (ae_host env) nextRaw of None \<Rightarrow> ''/users'' | Some u \<Rightarrow> u))))))"
  unfolding after_first_factor_def landing_pages_def Let_def
  by (rule ext, rule arg_cong2[where f = bindE, THEN fun_cong], rule refl)
     (auto simp: fun_eq_iff bindE_def split: prod.splits sum.splits option.splits)

lemma only_asks_landing: "only_asks (landing_pages env n)"
  unfolding landing_pages_def by (auto intro!: only_asks_intros split: option.splits)

lemma wants_two_factor_cases:
  "wants_two_factor res s = (r, t) \<Longrightarrow> t = s \<and> (r = Inl (JsError ''TypeError'') \<or> r = Inr (demands_two_factor res))"
  by (auto simp: wants_two_factor_def demands_two_factor_def split: option.splits if_splits)

lemma after_first_factor_signed_in:
  assumes "after_first_factor env nextRaw res s = (r, t)"
  shows "signed_in_iff env (\<not> demands_two_factor res) s r t"
proof -
  obtain w s1 where w: "wants_two_factor res s = (w, s1)"
    by force
  note cases = wants_two_factor_cases[OF w]
  show ?thesis
  proof (cases w)
    case (Inl e)
    then show ?thesis
      using assms w cases by (auto simp: after_first_factor_eq signed_in_iff_def)
  next
    case (Inr challenge)
    then have challenge: "challenge = demands_two_factor res" and s1: "s1 = s"
      using cases by auto
    show ?thesis
    proof (cases challenge)
      case True
      obtain x u where f: "forwardNamedCookie env res (two_factor_cookie env) s = (x, u)"
        by force
      from forwardNamedCookie_sets[OF f] show ?thesis
        using assms w Inr s1 True f
        by (cases x) (auto simp: after_first_factor_eq signed_in_iff_def image_iff)
    next
      case False
      obtain x u where f: "forwardSessionCookie env res s = (x, u)"
        by force
      from forwardSessionCookie_sets[OF f] consider "x = Inr False" "u = s" | v opts where "x = Inr True"
          "st_set u = st_set s @ [(session_cookie env, v, opts)]" "st_sent u = st_sent s"
        by blast
      then show ?thesis
      proof cases
        case 1
        then show ?thesis
          using assms w Inr s1 False f by (auto simp: after_first_factor_eq signed_in_iff_def)
      next
        case 2
        obtain p z where l: "landing_pages env (validateNextUrl (ae_host env) nextRaw) u = (p, z)"
          by force
        then obtain page qs where "p = Inr page" "st_set z = st_set u" "st_sent z = st_sent u @ qs"
          by (rule only_asksD[OF only_asks_landing])
        then show ?thesis
          using assms w Inr s1 False f 2 l challenge
          by (auto simp: after_first_factor_eq signed_in_iff_def)
      qed
    qed
  qed
qed

lemma signed_in_iff_sent:
  assumes "signed_in_iff env allowed s1 r t" and "st_set s1 = []" and "st_sent s1 = [q]"
  shows "session_cookie env \<in> fst ` set (st_set t) \<longleftrightarrow> (\<exists>u. r = Inr (Redirected u))"
    and "\<exists>u. r = Inr (Redirected u) \<Longrightarrow> allowed" and "\<exists>qs. st_sent t = q # qs"
  using assms unfolding signed_in_iff_def by auto

text \<open>The request a password sign-in makes.\<close>

definition sign_in_request :: "action_env \<Rightarrow> string \<Rightarrow> string \<Rightarrow> action_state \<Rightarrow> upstream_request" where
  "sign_in_request env email password s =
     post_request env ''/api/auth/sign-in/email''
       (map_option (\<lambda>v. trust_cookie env @ ''='' @ v) (map_of (st_store s) (trust_cookie env)))
       (JObj [(''email'', JStr email), (''password'', JStr password)])"

text \<open>C37 The password form of the admin console. The browser gets a session cookie exactly when the action
  ends in a redirect; that happens only when the authorization server accepted the password and did not ask
  for a second factor. The only cookie that accompanies the password is the one of a trusted device, never a
  session the browser already has.\<close>

theorem session_cookie_only_when_signed_in:
  assumes "signIn env (Some email) (Some password) nextRaw s = (r, t)"
    and "email \<noteq> []" and "password \<noteq> []" and "st_set s = []" and "st_sent s = []"
  shows "(session_cookie env \<in> fst ` set (st_set t) \<longleftrightarrow> (\<exists>u. r = Inr (Redirected u))) \<and>
    ((\<exists>u. r = Inr (Redirected u)) \<longrightarrow>
       (\<exists>res. ae_upstream env (sign_in_request env email password s) = Some res \<and> response_ok res \<and>
              \<not> demands_two_factor res)) \<and>
    (\<exists>qs. st_sent t = sign_in_request env email password s # qs)"
proof -
  define q where "q = sign_in_request env email password s"
  define s1 where "s1 = s\<lparr>st_sent := [q]\<rparr>"
  have run: "signIn env (Some email) (Some password) nextRaw s =
      (case ae_upstream env q of
         None \<Rightarrow> (Inr (Returned (SignInError ''serverUnavailable'')), s1)
       | Some res \<Rightarrow>
           if \<not> response_ok res then
             (Inr (Returned (SignInError
                (if rs_status res = 401 then ''invalidCredentials''
                 else if rs_status res = 403 then classifyForbidden res
                 else if rs_status res = 429 then ''tooManyRequests''
                 else ''invalidCredentials''))), s1)
           else after_first_factor env nextRaw res s1)"
    using assms(2,3,5)
    by (simp add: signIn_def q_def s1_def sign_in_request_def bindE_def split: option.splits)
  have s1: "st_set s1 = []" "st_sent s1 = [q]"
    using assms(4) by (simp_all add: s1_def)
  show ?thesis
  proof (cases "\<exists>res. ae_upstream env q = Some res \<and> response_ok res")
    case False
    then show ?thesis
      using assms(1) run s1 by (auto simp: q_def[symmetric] split: option.splits)
  next
    case True
    then obtain res where res: "ae_upstream env q = Some res" "response_ok res"
      by blast
    then have "after_first_factor env nextRaw res s1 = (r, t)"
      using assms(1) run by simp
    note signed_in_iff_sent[OF after_first_factor_signed_in[OF this] s1]
    with res show ?thesis
      unfolding q_def by blast
  qed
qed

definition example_env :: action_env where
  "example_env = \<lparr>ae_host = example_host, ae_origin = None, ae_referer = None, ae_forwardedFor = None,
     ae_now = 0, ae_date = (\<lambda>j. None),
     ae_upstream = (\<lambda>q.
       if q_path q = ''/api/auth/sign-in/email'' then
         Some \<lparr>rs_status = 200,
           rs_setCookie = Some ''better-auth.session_token=t; Path=/; Domain=.example.com; HttpOnly'',
           rs_body = Some (JObj [])\<rparr>
       else None)\<rparr>"

definition no_cookies :: action_state where
  "no_cookies = \<lparr>st_store = [], st_set = [], st_sent = []\<rparr>"

lemma example_sign_in:
  "fst (signIn example_env (Some ''e'') (Some ''p'') None no_cookies) = Inr (Redirected ''/users'')"
  by code_simp

theorem session_cookie_only_when_signed_in_witness:
  "session_cookie example_env \<in> fst ` set (st_set (snd (signIn example_env (Some ''e'') (Some ''p'') None no_cookies)))"
proof -
  have "signIn example_env (Some ''e'') (Some ''p'') None no_cookies =
      (Inr (Redirected ''/users''), snd (signIn example_env (Some ''e'') (Some ''p'') None no_cookies))"
    using example_sign_in by (metis prod.collapse)
  from session_cookie_only_when_signed_in[OF this] show ?thesis
    by (simp add: no_cookies_def)
qed

text \<open>The same holds of a sign-in with a code.\<close>

lemma otp_session_cookie_only_when_signed_in:
  assumes "verifyOtp env email otp nextRaw s = (r, t)" and "st_set s = []"
  shows "(session_cookie env \<in> fst ` set (st_set t) \<longleftrightarrow> (\<exists>u. r = Inr (Redirected u))) \<and>
    ((\<exists>u. r = Inr (Redirected u)) \<longrightarrow>
       (\<exists>q res. ae_upstream env q = Some res \<and> response_ok res \<and> \<not> demands_two_factor res))"
proof (cases "\<exists>res. truthy email \<and> truthy otp \<and> ae_upstream env (post_request env ''/api/auth/sign-in/email-otp'' None
      (JObj [(''email'', JStr (the email)), (''otp'', JStr (the otp))])) = Some res \<and> response_ok res")
  case False
  then show ?thesis
    using assms by (auto simp: verifyOtp_def bindE_def split: if_splits option.splits)
next
  case True
  then obtain res where res: "truthy email" "truthy otp" "response_ok res"
      "ae_upstream env (post_request env ''/api/auth/sign-in/email-otp'' None
        (JObj [(''email'', JStr (the email)), (''otp'', JStr (the otp))])) = Some res" (is "ae_upstream env ?q = _")
    by blast
  then have run: "after_first_factor env nextRaw res (s\<lparr>st_sent := st_sent s @ [?q]\<rparr>) = (r, t)"
    using assms(1) by (simp add: verifyOtp_def bindE_def)
  from after_first_factor_signed_in[OF run] show ?thesis
    using res assms(2) unfolding signed_in_iff_def by auto
qed

section \<open>The copies agree with the server\<close>

text \<open>The console's copies of the server's rules for the offer of a second factor decide alike.\<close>

lemma prompt_copies_agree:
  "shouldPromptTwoFactor_client enabled (map_option Some promptedAt) now (Dec n 0) promptEnabled =
   shouldPromptTwoFactor enabled promptedAt now n promptEnabled"
  "getSystemTrustDaysClient h = Dec (getSystemTrustDays h) 0"
  "getSystemPromptEnabledClient h = getSystemPromptEnabled h"
  by (auto simp: shouldPromptTwoFactor_client_def shouldPromptTwoFactor_def times_number_def
      getSystemTrustDaysClient_def getSystemTrustDays_def FALLBACK_DAYS_def getSystemPromptEnabledClient_def
      getSystemPromptEnabled_def Let_def split: option.splits)

section \<open>Cookies of a parent domain\<close>

text \<open>
  With \<open>COOKIE_DOMAIN\<close> set, the session cookie of a sign-in carries that domain and the authorization server sees
  it too. Turning the second factor on or off rotates the session, but the new cookie is set without a domain: the
  browser keeps the old one for the authorization server, and so it does after signing out.
\<close>

definition host_only_sets :: "action_state \<Rightarrow> bool" where
  "host_only_sets s \<longleftrightarrow> (\<forall>c\<in>set (st_set s). co_domain (snd (snd c)) = None)"

lemma keeps_forwardNamedCookie [keeps_intros]: "keeps host_only_sets (forwardNamedCookie env res n)"
  by (rule keepsI, drule forwardNamedCookie_sets) (fastforce simp: host_only_sets_def)

lemma keeps_upstream [keeps_intros]: "keeps host_only_sets (upstream env q)"
  by (simp add: keeps_def host_only_sets_def)

lemma keeps_delete_cookie [keeps_intros]: "keeps host_only_sets (delete_cookie n)"
  by (simp add: keeps_def host_only_sets_def delete_cookie_def bare_options_def)

lemma keeps_confirmEnable: "keeps host_only_sets (confirmEnable env code)"
  unfolding confirmEnable_def revokeOtherSessions_def Let_def by (intro keeps_intros)

lemma keeps_disable2fa: "keeps host_only_sets (disable2fa env code)"
  unfolding disable2fa_def by (intro keeps_intros)

lemma keeps_signOutAction: "keeps host_only_sets (signOutAction env)"
  unfolding signOutAction_def by (intro keeps_intros)

lemma host_only_action_strands_the_shared_cookie:
  assumes "keeps host_only_sets m" and "st_set s = []" and "m s = (r, t)"
  shows "fold (browser_takes now) (st_set t) jar (n, Some d, p) = jar (n, Some d, p)"
  using keepsD[OF assms(1) _ assms(3)] assms(2)
  by (intro host_only_cookies_leave_the_domain_alone) (simp add: host_only_sets_def)

lemmas two_factor_change_strands_the_shared_cookie =
  host_only_action_strands_the_shared_cookie[OF keeps_confirmEnable]
  host_only_action_strands_the_shared_cookie[OF keeps_disable2fa]

lemmas sign_out_strands_the_shared_cookie = host_only_action_strands_the_shared_cookie[OF keeps_signOutAction]

lemma sign_in_keeps_the_domain:
  "map (\<lambda>c. co_domain (snd (snd c))) (st_set (snd (signIn example_env (Some ''e'') (Some ''p'') None no_cookies))) =
   [Some ''.example.com'']"
  by code_simp

end
