(* ===== verification/Input_Policy.thy ===== *)
theory Input_Policy
  imports Example_Data
begin

text \<open>
  What an administrator may enter for an app: its addresses (\<open>common/config/app-url-policy.ts\<close>), which the server
  later calls and redirects to, and its images (\<open>packages/types/index.ts\<close>), which are stored as data URIs.
\<close>

section \<open>Addresses\<close>

definition isInsecureAppUrlsAllowed :: "host \<Rightarrow> bool" where
  "isInsecureAppUrlsAllowed h \<longleftrightarrow> h_env h ''SASSY_AUTH_ALLOW_INSECURE_APP_URLS'' = Some ''true''"

definition LOOPBACK_HOSTS :: "string list" where
  "LOOPBACK_HOSTS = [''127.0.0.1'', ''::1'', ''[::1]'']"

text \<open>The groups of \<open>/^(\d{1,3})\.(\d{1,3})\.(\d{1,3})\.(\d{1,3})$/\<close>, as numbers.\<close>

definition ipv4_octets :: "string \<Rightarrow> int list option" where
  "ipv4_octets name =
     (let parts = split_on CHR ''.'' name in
      if length parts = 4 \<and> list_all (\<lambda>p. p \<noteq> [] \<and> length p \<le> 3 \<and> list_all is_digit p) parts
      then Some (map dec_value parts) else None)"

definition isPrivateIPv4Literal :: "string \<Rightarrow> bool" where
  "isPrivateIPv4Literal name =
     (case ipv4_octets name of
        None \<Rightarrow> False
      | Some octets \<Rightarrow>
          if list_ex (\<lambda>n. n > 255) octets then False
          else (let a = octets ! 0; b = octets ! 1 in
                if a = 10 then True
                else if a = 172 \<and> b \<ge> 16 \<and> b \<le> 31 then True
                else if a = 192 \<and> b = 168 then True
                else if a = 169 \<and> b = 254 then True
                else if a = 100 \<and> b \<ge> 64 \<and> b \<le> 127 then True
                else a = 0))"

definition strip_brackets :: "string \<Rightarrow> string" where
  "strip_brackets s =
     (let t = (if starts_with ''['' s then tl s else s) in if t \<noteq> [] \<and> last t = CHR '']'' then butlast t else t)"

definition isPrivateIPv6Literal :: "string \<Rightarrow> bool" where
  "isPrivateIPv6Literal name =
     (let h = to_lower (strip_brackets name) in
      if starts_with ''fe80:'' h then True
      else if starts_with ''fc'' h \<or> starts_with ''fd'' h then True
      else h = ''::'')"

text \<open>\<open>None\<close> is a value that is no string.\<close>

definition isAppUrlAllowed :: "host \<Rightarrow> string option \<Rightarrow> bool" where
  "isAppUrlAllowed h v =
     (if \<not> truthy v then False
      else (case h_parse_url h (the v) of
              None \<Rightarrow> False
            | Some url \<Rightarrow>
                if u_protocol url \<noteq> ''https:'' \<and> u_protocol url \<noteq> ''http:'' then False
                else if isInsecureAppUrlsAllowed h then True
                else if u_protocol url \<noteq> ''https:'' then False
                else (let name = to_lower (u_hostname url) in
                      if name \<in> set LOOPBACK_HOSTS then False
                      else if name = ''localhost'' \<or> ends_with ''.localhost'' name then False
                      else if CHR ''.'' \<notin> set name then False
                      else if isPrivateIPv4Literal name then False
                      else \<not> isPrivateIPv6Literal name)))"

text \<open>The blocks of addresses a public service does not have.\<close>

definition internal_ipv4 :: "int \<Rightarrow> int \<Rightarrow> bool" where
  "internal_ipv4 a b \<longleftrightarrow>
     a = 0 \<or> a = 10 \<or> (a = 100 \<and> b div 64 = 1) \<or> (a = 169 \<and> b = 254) \<or> (a = 172 \<and> b div 16 = 1) \<or>
     (a = 192 \<and> b = 168)"

lemma dec_value_nonneg: "list_all is_digit s \<Longrightarrow> 0 \<le> dec_value s"
proof -
  have "0 \<le> n \<Longrightarrow> list_all is_digit s \<Longrightarrow> 0 \<le> foldl (\<lambda>n c. n * 10 + int (char_code c - 48)) n s" for n
    by (induction s arbitrary: n) simp_all
  then show "list_all is_digit s \<Longrightarrow> 0 \<le> dec_value s"
    by (simp add: dec_value_def)
qed

lemma ipv4_octets_props:
  assumes "ipv4_octets name = Some os"
  shows "\<exists>a b c d. os = [a, b, c, d] \<and> 0 \<le> a \<and> 0 \<le> b \<and> 0 \<le> c \<and> 0 \<le> d"
proof -
  have "length (split_on CHR ''.'' name) = 4" and digits: "list_all (\<lambda>p. list_all is_digit p) (split_on CHR ''.'' name)"
    and os: "os = map dec_value (split_on CHR ''.'' name)"
    using assms by (auto simp: ipv4_octets_def Let_def list_all_iff split: if_splits)
  then obtain p q r s where "split_on CHR ''.'' name = [p, q, r, s]"
    by (auto simp: numeral_eq_Suc length_Suc_conv)
  then show ?thesis
    using os digits by (auto simp: dec_value_nonneg)
qed

lemma isPrivateIPv4Literal_iff:
  assumes "ipv4_octets name = Some [a, b, c, d]" and "a \<le> 255" "b \<le> 255" "c \<le> 255" "d \<le> 255"
  shows "isPrivateIPv4Literal name \<longleftrightarrow> internal_ipv4 a b"
proof -
  have "0 \<le> b"
    using ipv4_octets_props[OF assms(1)] by simp
  then have "b div 64 = 1 \<longleftrightarrow> b \<ge> 64 \<and> b \<le> 127" "b div 16 = 1 \<longleftrightarrow> b \<ge> 16 \<and> b \<le> 31"
    by presburger+
  then show ?thesis
    using assms by (auto simp: isPrivateIPv4Literal_def internal_ipv4_def)
qed



text \<open>Of the loopback block only one address is refused; the others pass.\<close>

lemma loopback_block_passes:
  "isAppUrlAllowed example_host (Some ''127.0.0.2'')" "\<not> isAppUrlAllowed example_host (Some ''127.0.0.1'')"
  by code_simp+

text \<open>The test for private IPv6 addresses looks at every host name, so public names that begin with fc or fd are refused.\<close>

lemma public_names_are_refused:
  "\<not> isAppUrlAllowed example_host (Some ''fda.gov'')" "\<not> isAppUrlAllowed example_host (Some ''fcbarcelona.com'')"
  by code_simp+

section \<open>Images\<close>

definition APP_LOGO_MAX_BYTES :: int where
  "APP_LOGO_MAX_BYTES = 250 * 1024"

definition APP_LOGO_ALLOWED_MIME_TYPES :: "string list" where
  "APP_LOGO_ALLOWED_MIME_TYPES = [''image/png'', ''image/jpeg'', ''image/webp'', ''image/svg+xml'']"

definition base64_char :: "char \<Rightarrow> bool" where
  "base64_char c \<longleftrightarrow> is_alnum c \<or> c = CHR ''+'' \<or> c = CHR ''/''"

text \<open>\<open>[A-Za-z0-9+/]+=?=?\<close> as a whole.\<close>

definition base64_payload :: "string \<Rightarrow> bool" where
  "base64_payload p \<longleftrightarrow>
     takeWhile base64_char p \<noteq> [] \<and> dropWhile base64_char p \<in> {'''', ''='', ''==''}"

fun image_payload :: "string list \<Rightarrow> string \<Rightarrow> string option" where
  "image_payload [] v = None"
| "image_payload (t # ts) v =
     (let prefix = ''data:'' @ t @ '';base64,'' in
      if starts_with prefix v \<and> base64_payload (drop (length prefix) v) then Some (drop (length prefix) v)
      else image_payload ts v)"

definition padding_of :: "string \<Rightarrow> int" where
  "padding_of p = (if ends_with ''=='' p then 2 else if ends_with ''='' p then 1 else 0)"

text \<open>\<open>length * 3 / 4 - padding <= maxBytes\<close>, times four.\<close>

definition isValidImageDataUri :: "string option \<Rightarrow> string list \<Rightarrow> int \<Rightarrow> bool" where
  "isValidImageDataUri v allowedTypes maxBytes =
     (case v of
        None \<Rightarrow> False
      | Some s \<Rightarrow>
          (case image_payload allowedTypes s of
             None \<Rightarrow> False
           | Some p \<Rightarrow> int (length p) * 3 - 4 * padding_of p \<le> 4 * maxBytes))"

definition isValidAppLogoDataUri :: "string option \<Rightarrow> bool" where
  "isValidAppLogoDataUri v = isValidImageDataUri v APP_LOGO_ALLOWED_MIME_TYPES APP_LOGO_MAX_BYTES"

definition isValidAppFaviconDataUri :: "string option \<Rightarrow> bool" where
  "isValidAppFaviconDataUri v = isValidImageDataUri v APP_LOGO_ALLOWED_MIME_TYPES APP_LOGO_MAX_BYTES"

text \<open>The bytes of base64 text: six bits for every character before the padding.\<close>

definition decoded_bytes :: "string \<Rightarrow> int" where
  "decoded_bytes p = int (length (takeWhile base64_char p)) * 6 div 8"

lemma length_takeWhile_dropWhile: "length p = length (takeWhile P p) + length (dropWhile P p)"
  by (metis length_append takeWhile_dropWhile_id)

lemma padding_of_payload:
  assumes "base64_payload p"
  shows "padding_of p = int (length (dropWhile base64_char p))"
proof -
  define a where "a = takeWhile base64_char p"
  have chars: "list_all base64_char a"
    unfolding a_def by (simp add: list_all_iff) (metis set_takeWhileD)
  have no_eq: "\<not> base64_char CHR ''=''"
    by code_simp
  define b where "b = dropWhile base64_char p"
  have p: "p = a @ b"
    unfolding a_def b_def by simp
  have plain: "\<not> ends_with ''='' a" and plain2: "\<not> ends_with ''=='' a" "\<not> ends_with ''=='' (a @ ''='')"
    using chars no_eq by (cases a rule: rev_cases; auto simp: ends_with_def starts_with_def take_Cons')+
  have "b \<in> {'''', ''='', ''==''}"
    using assms unfolding b_def base64_payload_def by blast
  then have "padding_of p = int (length b)"
    using plain plain2 p by (auto simp: padding_of_def ends_with_def starts_with_def)
  then show ?thesis
    unfolding b_def .
qed

lemma image_payload_props: "image_payload ts v = Some p \<Longrightarrow> base64_payload p"
  by (induction ts) (auto simp: Let_def split: if_splits)

text \<open>An image the server accepts for an app's logo or icon decodes to at most 250 KiB, however it is
  padded.\<close>

theorem accepted_image_is_small:
  assumes "isValidAppLogoDataUri (Some v) \<or> isValidAppFaviconDataUri (Some v)"
  shows "\<exists>p. image_payload APP_LOGO_ALLOWED_MIME_TYPES v = Some p \<and> decoded_bytes p \<le> 256000"
proof -
  obtain p where p: "image_payload APP_LOGO_ALLOWED_MIME_TYPES v = Some p"
      "int (length p) * 3 - 4 * padding_of p \<le> 4 * 256000"
    using assms
    by (auto simp: isValidAppLogoDataUri_def isValidAppFaviconDataUri_def isValidImageDataUri_def
        APP_LOGO_MAX_BYTES_def split: option.splits)
  have payload: "base64_payload p"
    using p(1) by (rule image_payload_props)
  have pad: "int (length (dropWhile base64_char p)) \<le> 2"
  proof -
    have "length b \<le> 2" if "b \<in> {'''', ''='', ''==''}" for b :: string
      using that by auto
    then show ?thesis
      using payload unfolding base64_payload_def by fastforce
  qed
  have "decoded_bytes p \<le> 256000"
    using p(2) pad length_takeWhile_dropWhile[of p base64_char]
    unfolding padding_of_payload[OF payload] decoded_bytes_def by linarith
  with p(1) show ?thesis
    by blast
qed

theorem accepted_image_is_small_witness:
  "\<exists>p. image_payload APP_LOGO_ALLOWED_MIME_TYPES ''data:image/png;base64,AAAA'' = Some p \<and> decoded_bytes p \<le> 256000"
proof (rule accepted_image_is_small)
  show "isValidAppLogoDataUri (Some ''data:image/png;base64,AAAA'') \<or> isValidAppFaviconDataUri (Some ''data:image/png;base64,AAAA'')"
    by code_simp
qed

end
