(* ===== verification/Outgoing_Text.thy ===== *)
theory Outgoing_Text
  imports Auth_Hooks
begin

text \<open>
  Text the server sends out: the templates of its mails (\<open>email/templates\<close>, \<open>renderTemplate\<close> of
  \<open>packages/types/index.ts\<close>), the addresses it writes to its logs (\<open>request-logging.middleware.ts\<close>), the bodies of
  its error answers (\<open>sentry-exception.filter.ts\<close>), request ids, and the relay for browser telemetry
  (\<open>packages/telemetry\<close>).
\<close>

section \<open>Templates\<close>

definition is_word :: "char \<Rightarrow> bool" where
  "is_word c \<longleftrightarrow> is_alnum c \<or> c = CHR ''_''"

text \<open>\<open>template.replace(/\{\{(\w+)\}\}/g, ...)\<close>: one pass, so a value is never expanded again.\<close>

definition placeholder :: "string \<Rightarrow> (string \<times> string) option" where
  "placeholder s =
     (if starts_with ''{{'' s then
        (let name = takeWhile is_word (drop 2 s); rest = dropWhile is_word (drop 2 s) in
         if name \<noteq> [] \<and> starts_with ''}}'' rest then Some (name, drop 2 rest) else None)
      else None)"

lemma placeholder_shorter: "placeholder s = Some (name, rest) \<Longrightarrow> length rest < length s"
proof -
  assume a: "placeholder s = Some (name, rest)"
  then have s: "starts_with ''{{'' s" and rest: "rest = drop 2 (dropWhile is_word (drop 2 s))"
    by (auto simp: placeholder_def Let_def split: if_splits)
  have "length (dropWhile is_word (drop 2 s)) \<le> length s - 2"
    using length_dropWhile_le[of is_word "drop 2 s"] by simp
  moreover have "length s \<ge> 2"
    using s by (cases s; cases "tl s") (auto simp: starts_with_def)
  ultimately show ?thesis
    unfolding rest by simp
qed

function renderTemplate :: "string \<Rightarrow> (string \<times> string) list \<Rightarrow> string" where
  "renderTemplate [] vars = []"
| "renderTemplate (c # cs) vars =
     (case placeholder (c # cs) of
        None \<Rightarrow> c # renderTemplate cs vars
      | Some (name, rest) \<Rightarrow>
          (case map_of vars name of
             Some v \<Rightarrow> v
           | None \<Rightarrow> ''{{'' @ name @ ''}}'') @ renderTemplate rest vars)"
  by pat_completeness auto
termination
  by (relation "measure (length \<circ> fst)") (auto dest: placeholder_shorter)

section \<open>Escaping\<close>

definition replace_char :: "char \<Rightarrow> string \<Rightarrow> string \<Rightarrow> string" where
  "replace_char c r s = concat (map (\<lambda>x. if x = c then r else [x]) s)"

definition escapeHtml :: "string \<Rightarrow> string" where
  "escapeHtml s =
     replace_char (CHR 39) ''&#39;''
       (replace_char (CHR 34) ''&quot;''
         (replace_char CHR ''>'' ''&gt;''
           (replace_char CHR ''<'' ''&lt;''
             (replace_char CHR ''&'' ''&amp;'' s))))"

text \<open>\<open>replace(/\r\n|\r|\n/g, '<br>')\<close>\<close>

fun break_lines :: "string \<Rightarrow> string" where
  "break_lines [] = []"
| "break_lines [c] = (if c = CHR 13 \<or> c = CHR 10 then ''<br>'' else [c])"
| "break_lines (c # d # cs) =
     (if c = CHR 13 \<and> d = CHR 10 then ''<br>'' @ break_lines cs
      else if c = CHR 13 \<or> c = CHR 10 then ''<br>'' @ break_lines (d # cs)
      else c # break_lines (d # cs))"

definition escapeHtmlMultiline :: "string \<Rightarrow> string" where
  "escapeHtmlMultiline s = break_lines (escapeHtml s)"

section \<open>Mails\<close>

record mail_parts =
  mp_subject :: string
  mp_html :: string
  mp_from :: "string option"

text \<open>\<open>b?.f?.trim()\<close>, and its falsy test.\<close>

definition branded :: "(email_branding \<Rightarrow> string option) \<Rightarrow> email_branding option \<Rightarrow> string" where
  "branded f b = (case Option.bind b f of None \<Rightarrow> [] | Some s \<Rightarrow> js_trim s)"

definition computeFrom :: "email_branding option \<Rightarrow> string option" where
  "computeFrom branding =
     (let name = branded fromName branding; address = branded fromAddress branding in
      if name \<noteq> [] \<and> address \<noteq> [] then Some (name @ '' <'' @ address @ ''>'')
      else if address \<noteq> [] then Some address
      else if name \<noteq> [] then Some name else None)"

definition renderButton :: "string \<Rightarrow> string" where
  "renderButton url =
     ''<table role=\"presentation\" cellpadding=\"0\" cellspacing=\"0\" border=\"0\" style=\"margin: 24px 0;\">'' @
     ''<tr><td align=\"center\" bgcolor=\"#2563eb\" style=\"border-radius: 8px;\">'' @
     ''<a href=\"'' @ url @ ''\" target=\"_blank\" style=\"display: inline-block; padding: 14px 32px; font-family: -apple-system, Segoe UI, Roboto, Helvetica, Arial, sans-serif; font-size: 16px; font-weight: 600; color: #ffffff; text-decoration: none; border-radius: 8px;\">Confirm your email address</a>'' @
     ''</td></tr></table>''"

definition verificationEmail :: "string \<Rightarrow> string \<Rightarrow> string \<Rightarrow> email_branding option \<Rightarrow> mail_parts" where
  "verificationEmail firstName verifyUrl appName branding =
     (let vars = [(''firstName'', firstName), (''appName'', appName), (''activationUrl'', verifyUrl)];
          subj = renderTemplate (or_string (branded subject branding) ''Verify your {{appName}} email address'') vars;
          msg = renderTemplate (or_string (branded message branding)
                  ''Confirm your email address to finish setting up your account:'') vars in
      \<lparr>mp_subject = subj,
       mp_html =
         ''<p>Hi '' @ firstName @ '',</p><p>'' @ escapeHtmlMultiline msg @ ''</p>'' @ renderButton verifyUrl @
         ''<p style=\"word-break: break-all;\"><a href=\"'' @ verifyUrl @ ''\">'' @ verifyUrl @ ''</a></p>'' @
         ''<p>If you didn't create this account, you can ignore this email.</p>'',
       mp_from = computeFrom branding\<rparr>)"

definition renderCode :: "string \<Rightarrow> string" where
  "renderCode otp =
     ''<table role=\"presentation\" cellpadding=\"0\" cellspacing=\"0\" border=\"0\" style=\"margin: 24px 0;\">'' @
     ''<tr><td align=\"center\" style=\"background: #f3f4f6; border-radius: 8px; padding: 16px 32px;\">'' @
     ''<span style=\"font-family: -apple-system, Segoe UI, Roboto, Helvetica, Arial, sans-serif; font-size: 32px; font-weight: 700; letter-spacing: 8px; color: #111827;\">'' @ otp @ ''</span>'' @
     ''</td></tr></table>''"

definition verificationCodeEmail :: "string \<Rightarrow> string \<Rightarrow> string \<Rightarrow> email_branding option \<Rightarrow> mail_parts" where
  "verificationCodeEmail firstName otp appName branding =
     (let vars = [(''firstName'', firstName), (''appName'', appName)];
          subj = renderTemplate (or_string (branded subject branding) ''Verify your {{appName}} email address'') vars;
          msg = renderTemplate (or_string (branded message branding)
                  ''Enter this code to verify your email address:'') vars in
      \<lparr>mp_subject = subj,
       mp_html =
         ''<p>Hi '' @ firstName @ '',</p><p>'' @ escapeHtmlMultiline msg @ ''</p>'' @ renderCode otp @
         ''<p>If you didn't create this account, you can ignore this email.</p>'',
       mp_from = computeFrom branding\<rparr>)"

definition invitationEmail :: "string \<Rightarrow> string \<Rightarrow> mail_parts" where
  "invitationEmail firstName inviteUrl =
     \<lparr>mp_subject = ''You've been invited to Sassy Auth'',
      mp_html =
        ''<p>Hi '' @ firstName @ '',</p><p>You've been invited. Set your password to activate your account:</p><p><a href=\"'' @
        inviteUrl @ ''\">'' @ inviteUrl @ ''</a></p><p>This link expires in 7 days.</p>'',
      mp_from = None\<rparr>"

definition passwordResetEmail :: "string \<Rightarrow> string \<Rightarrow> mail_parts" where
  "passwordResetEmail firstName resetUrl =
     \<lparr>mp_subject = ''Reset your Sassy Auth password'',
      mp_html =
        ''<p>Hi '' @ firstName @ '',</p><p>A password reset was requested. Choose a new password:</p><p><a href=\"'' @
        resetUrl @ ''\">'' @ resetUrl @ ''</a></p><p>If you didn't request this, you can ignore this email. This link expires in 1 hour.</p>'',
      mp_from = None\<rparr>"

section \<open>Escaped text is inert and loses nothing\<close>

definition escaped_char :: "char \<Rightarrow> string" where
  "escaped_char c =
     (if c = CHR ''&'' then ''&amp;'' else if c = CHR ''<'' then ''&lt;'' else if c = CHR ''>'' then ''&gt;''
      else if c = CHR 34 then ''&quot;'' else if c = CHR 39 then ''&#39;'' else [c])"

lemma replace_char_Nil [simp]: "replace_char c r [] = []"
  and replace_char_append: "replace_char c r (s @ t) = replace_char c r s @ replace_char c r t"
  by (simp_all add: replace_char_def)

lemma replace_char_Cons: "replace_char c r (x # s) = (if x = c then r else [x]) @ replace_char c r s"
  by (simp add: replace_char_def)

lemma escapeHtml_Nil [simp]: "escapeHtml [] = []"
  by (simp add: escapeHtml_def)

lemma escapeHtml_Cons: "escapeHtml (c # s) = escaped_char c @ escapeHtml s"
  by (simp add: escapeHtml_def escaped_char_def replace_char_Cons replace_char_append)

text \<open>How a mail reader shows text: it reads the five entities.\<close>

fun shown_text :: "string \<Rightarrow> string" where
  "shown_text [] = []"
| "shown_text (c # cs) =
     (if c = CHR ''&'' then
        (if starts_with ''amp;'' cs then CHR ''&'' # shown_text (drop 4 cs)
         else if starts_with ''lt;'' cs then CHR ''<'' # shown_text (drop 3 cs)
         else if starts_with ''gt;'' cs then CHR ''>'' # shown_text (drop 3 cs)
         else if starts_with ''quot;'' cs then CHR 34 # shown_text (drop 5 cs)
         else if starts_with ''#39;'' cs then CHR 39 # shown_text (drop 4 cs)
         else c # shown_text cs)
      else c # shown_text cs)"

lemma shown_text_escaped_char: "shown_text (escaped_char c @ s) = c # shown_text s"
  by (simp add: escaped_char_def starts_with_def)

text \<open>What an administrator writes into the message of an app's verification mails is shown as written and
  never becomes markup: the escaped text holds no angle bracket and no quote, and reading its entities back gives
  exactly the original.\<close>

theorem escaped_message_reads_as_written:
  "set (escapeHtml s) \<inter> {CHR ''<'', CHR ''>'', CHR 34, CHR 39} = {} \<and> shown_text (escapeHtml s) = s"
proof (induction s)
  case (Cons c s)
  have "set (escaped_char c) \<inter> {CHR ''<'', CHR ''>'', CHR 34, CHR 39} = {}"
    by (simp add: escaped_char_def)
  with Cons show ?case
    by (auto simp: escapeHtml_Cons shown_text_escaped_char)
qed simp

text \<open>The greeting is not escaped. The name comes from whoever registers, with any address: the first word of it
  can be markup.\<close>

lemma greeting_is_markup:
  "greeting_name (Some ''<a/href=//evil.example>Claim</a> x'') = ''<a/href=//evil.example>Claim</a>''"
  "starts_with (''<p>Hi '' @ firstName @ '',</p>'') (mp_html (verificationEmail firstName url app b))"
  "starts_with (''<p>Hi '' @ firstName @ '',</p>'') (mp_html (passwordResetEmail firstName url))"
  "starts_with (''<p>Hi '' @ firstName @ '',</p>'') (mp_html (invitationEmail firstName url))"
  by (code_simp, simp_all add: starts_with_def verificationEmail_def passwordResetEmail_def invitationEmail_def Let_def)

lemma quote_codes: "CHR 34 = CHR 0x22" "CHR 39 = CHR 0x27" "CHR 13 = CHR 0x0D" "CHR 10 = CHR 0x0A"
  by simp_all

section \<open>Addresses in the logs\<close>

definition SENSITIVE_QUERY_KEYS :: "string list" where
  "SENSITIVE_QUERY_KEYS =
     [''token'', ''code'', ''state'', ''password'', ''access_token'', ''refresh_token'', ''client_secret'', ''secret'',
      ''authorization'']"

text \<open>\<open>path.replace(/^(\/api\/invitations\/)[^/?#]+/, '$1:token')\<close>\<close>

definition segment_char :: "char \<Rightarrow> bool" where
  "segment_char c \<longleftrightarrow> c \<noteq> CHR ''/'' \<and> c \<noteq> CHR ''?'' \<and> c \<noteq> CHR ''#''"

definition scrub_path :: "string \<Rightarrow> string" where
  "scrub_path path =
     (if starts_with ''/api/invitations/'' path \<and> takeWhile segment_char (drop 17 path) \<noteq> []
      then ''/api/invitations/:token'' @ dropWhile segment_char (drop 17 path) else path)"

definition pair_key :: "string \<Rightarrow> string" where
  "pair_key p = takeWhile (\<lambda>c. c \<noteq> CHR ''='') p"

definition sensitive :: "string \<Rightarrow> bool" where
  "sensitive p \<longleftrightarrow> to_lower (pair_key p) \<in> set SENSITIVE_QUERY_KEYS"

definition scrub_pair :: "string \<Rightarrow> string" where
  "scrub_pair p = (if sensitive p then pair_key p @ ''=[REDACTED]'' else p)"

definition sanitizeUrlForLog :: "string \<Rightarrow> string" where
  "sanitizeUrlForLog originalUrl =
     (let path = scrub_path (takeWhile (\<lambda>c. c \<noteq> CHR ''?'') originalUrl);
          query = tl (dropWhile (\<lambda>c. c \<noteq> CHR ''?'') originalUrl) in
      if query = [] then path
      else path @ ''?'' @ js_join ''&'' (map scrub_pair (split_on CHR ''&'' query)))"

text \<open>What of a parameter may be known: all of it, or its name when that is a sensitive one.\<close>

definition public_part :: "string \<Rightarrow> string \<times> string option" where
  "public_part p = (pair_key p, if sensitive p then None else Some p)"

lemma scrub_pair_public: "public_part p = public_part q \<Longrightarrow> scrub_pair p = scrub_pair q"
  by (auto simp: public_part_def scrub_pair_def split: if_splits)

lemma sanitize_query:
  assumes "CHR ''?'' \<notin> set path" and "q \<noteq> []"
  shows "sanitizeUrlForLog (path @ CHR ''?'' # q) =
    scrub_path path @ ''?'' @ js_join ''&'' (map scrub_pair (split_on CHR ''&'' q))"
proof -
  have "takeWhile (\<lambda>c. c \<noteq> CHR ''?'') (path @ CHR ''?'' # q) = path"
    "dropWhile (\<lambda>c. c \<noteq> CHR ''?'') (path @ CHR ''?'' # q) = CHR ''?'' # q"
    using assms(1) by (induction path) auto
  then show ?thesis
    using assms(2) by (simp add: sanitizeUrlForLog_def Let_def)
qed

lemma scrub_path_invitation:
  assumes "t \<noteq> []" and "list_all segment_char t" and "rest = [] \<or> \<not> segment_char (hd rest)"
  shows "scrub_path (''/api/invitations/'' @ t @ rest) = ''/api/invitations/:token'' @ rest"
proof -
  have stop: "takeWhile segment_char rest = []" "dropWhile segment_char rest = rest"
    using assms(3) by (cases rest; simp)+
  have "takeWhile segment_char (t @ rest) = t" "dropWhile segment_char (t @ rest) = rest"
    using assms(2) stop by (induction t) simp_all
  moreover have "drop 17 (''/api/invitations/'' @ u) = u" "starts_with ''/api/invitations/'' (''/api/invitations/'' @ u)" for u
    by (simp_all add: starts_with_def)
  ultimately show ?thesis
    using assms(1) by (simp only: scrub_path_def if_True simp_thms not_False_eq_True)
qed



text \<open>The token of a password reset comes in a parameter whose name is not among the sensitive ones, and so does a
  name written with an escape.\<close>

lemma reset_token_is_logged:
  "sanitizeUrlForLog ''/api/password-policy?resetToken=secret'' = ''/api/password-policy?resetToken=secret''"
  "sanitizeUrlForLog ''/api/x?%74oken=secret'' = ''/api/x?%74oken=secret''"
  by code_simp+

section \<open>Error answers\<close>

text \<open>A thrown value: an \<open>HttpException\<close> with its status, response body (\<open>Some\<close> of JSON, or \<open>None\<close> for
  another value) and message, or anything else.\<close>

datatype thrown = HttpException nat "json option" string | OtherThrown string

record error_answer =
  ea_status :: nat
  ea_message :: string
  ea_error :: string
  ea_code :: "string option"

text \<open>\<open>String(v)\<close>\<close>

fun js_string :: "json \<Rightarrow> string" where
  "js_string JNull = ''null''"
| "js_string (JBool b) = (if b then ''true'' else ''false'')"
| "js_string (JNum s) = s"
| "js_string (JStr s) = s"
| "js_string (JArr js) = js_join '','' (map js_string js)"
| "js_string (JObj _) = ''[object Object]''"

definition body_member :: "string \<Rightarrow> (string \<times> json) list \<Rightarrow> json option" where
  "body_member k ms = (case map_of (rev ms) k of Some JNull \<Rightarrow> None | x \<Rightarrow> x)"

text \<open>The name Nest's \<open>HttpStatus\<close> has for a status is an argument.\<close>

definition exception_answer :: "(nat \<Rightarrow> string option) \<Rightarrow> thrown \<Rightarrow> error_answer" where
  "exception_answer status_name exc =
     (case exc of
        OtherThrown _ \<Rightarrow>
          \<lparr>ea_status = 500, ea_message = ''Internal server error'', ea_error = ''INTERNAL_SERVER_ERROR'', ea_code = None\<rparr>
      | HttpException status body msg \<Rightarrow>
          (let fallback = (case status_name status of None \<Rightarrow> ''Error'' | Some n \<Rightarrow> n) in
           case body of
             Some (JStr s) \<Rightarrow> \<lparr>ea_status = status, ea_message = s, ea_error = fallback, ea_code = None\<rparr>
           | Some (JObj ms) \<Rightarrow>
               \<lparr>ea_status = status,
                ea_message = (case body_member ''message'' ms of
                    Some (JArr js) \<Rightarrow> js_join '', '' (map js_string js)
                  | Some j \<Rightarrow> js_string j
                  | None \<Rightarrow> msg),
                ea_error = (case body_member ''error'' ms of Some j \<Rightarrow> js_string j | None \<Rightarrow> fallback),
                ea_code = (case body_member ''code'' ms of Some (JStr c) \<Rightarrow> Some c | _ \<Rightarrow> None)\<rparr>
           | _ \<Rightarrow> \<lparr>ea_status = status, ea_message = msg, ea_error = fallback, ea_code = None\<rparr>))"

definition reported :: "thrown \<Rightarrow> bool" where
  "reported exc \<longleftrightarrow> (case exc of OtherThrown _ \<Rightarrow> True | HttpException status _ _ \<Rightarrow> status \<ge> 500)"

text \<open>An unexpected error tells the caller nothing about itself, and every answer of 500 and above is reported.\<close>

lemma unexpected_errors_are_opaque:
  "exception_answer f (OtherThrown m) = exception_answer f (OtherThrown m')" "reported (OtherThrown m)"
  "ea_status (exception_answer f exc) \<ge> 500 \<Longrightarrow> reported exc"
  by (auto simp: exception_answer_def reported_def Let_def split: thrown.splits option.splits json.splits)

section \<open>Request ids\<close>

definition request_id_char :: "char \<Rightarrow> bool" where
  "request_id_char c \<longleftrightarrow> is_alnum c \<or> c = CHR ''.'' \<or> c = CHR ''_'' \<or> c = CHR ''-''"

definition request_id :: "string option \<Rightarrow> string \<Rightarrow> string" where
  "request_id inbound fresh =
     (if truthy inbound \<and> list_all request_id_char (the inbound) \<and> length (the inbound) \<le> 128
      then the inbound else fresh)"

text \<open>What a caller may put into the log with its own id is short and has no line end.\<close>

lemma request_id_safe:
  assumes "list_all request_id_char fresh" and "length fresh \<le> 128"
  shows "list_all request_id_char (request_id inbound fresh) \<and> length (request_id inbound fresh) \<le> 128"
  using assms by (auto simp: request_id_def)

section \<open>The relay for browser telemetry\<close>

definition parseOtlpHeaders :: "host \<Rightarrow> string option \<Rightarrow> (string \<times> string) list option" where
  "parseOtlpHeaders h raw =
     (if \<not> truthy raw then Some []
      else foldl (\<lambda>acc pair.
             case acc of
               None \<Rightarrow> None
             | Some headers \<Rightarrow>
                 if CHR ''='' \<notin> set pair then acc
                 else (let key = js_trim (pair_key pair);
                           value = js_trim (tl (dropWhile (\<lambda>c. c \<noteq> CHR ''='') pair)) in
                       if key = [] then acc
                       else (case h_decode_uri_component h value of
                               None \<Rightarrow> None
                             | Some v \<Rightarrow> Some (params_set headers key v))))
             (Some []) (split_on CHR '','' (the raw)))"

record relay_request =
  rr_method :: string
  rr_path :: "string list"
  rr_url_origin :: string
  rr_origin :: "string option"
  rr_contentLength :: "string option"

datatype relay_answer = RelayStatus nat | RelayThrows | Forwarded string "(string \<times> string) list"

definition isDatadogOtlpEnabled :: "host \<Rightarrow> bool" where
  "isDatadogOtlpEnabled h \<longleftrightarrow>
     h_env h ''OTEL_SDK_DISABLED'' \<noteq> Some ''true'' \<and> truthy (h_env h ''OTEL_EXPORTER_OTLP_ENDPOINT'')"

definition exceeds :: "js_number \<Rightarrow> int \<Rightarrow> bool" where
  "exceeds n k =
     (case n of
        NotANumber \<Rightarrow> False
      | Infinite neg \<Rightarrow> \<not> neg
      | Dec m e \<Rightarrow> if 0 \<le> e then m * 10 ^ nat e > k else m > k * 10 ^ nat (- e))"

definition otel_proxy :: "host \<Rightarrow> relay_request \<Rightarrow> relay_answer" where
  "otel_proxy h rq =
     (if rr_method rq \<noteq> ''POST'' then RelayStatus 405
      else (let signalPath = js_join ''/'' (rr_path rq) in
            if signalPath \<noteq> ''v1/traces'' then RelayStatus 404
            else if rr_origin rq \<noteq> None \<and> rr_origin rq \<noteq> Some (rr_url_origin rq) then RelayStatus 403
            else if (case rr_contentLength rq of None \<Rightarrow> False | Some s \<Rightarrow> exceeds (to_number s) 1000000)
            then RelayStatus 413
            else if \<not> isDatadogOtlpEnabled h then RelayStatus 500
            else (case parseOtlpHeaders h (h_env h ''OTEL_EXPORTER_OTLP_HEADERS'') of
                    None \<Rightarrow> RelayThrows
                  | Some headers \<Rightarrow>
                      Forwarded (the (h_env h ''OTEL_EXPORTER_OTLP_ENDPOINT'') @ ''/'' @ signalPath) headers)))"

text \<open>Only traces of the console's own pages are relayed, to the configured collector.\<close>

lemma relay_forwards_own_traces:
  assumes "otel_proxy h rq = Forwarded url headers"
  shows "rr_method rq = ''POST'' \<and> (rr_origin rq = None \<or> rr_origin rq = Some (rr_url_origin rq)) \<and>
    (\<exists>e. h_env h ''OTEL_EXPORTER_OTLP_ENDPOINT'' = Some e \<and> url = e @ ''/v1/traces'')"
  using assms
  by (auto simp: otel_proxy_def Let_def isDatadogOtlpEnabled_def truthy_iff split: if_splits option.splits)

end
