(* ===== verification/Rerun.thy ===== *)
theory Rerun
  imports Roles
begin

text \<open>
  Programs that may be run again. A seed script looks a row up by its name and creates it when it is not
  there; run on its own result it is meant to change nothing. Here: what it takes for an effect to settle,
  the rules by which settled steps compose, and which rows of the database every statement of the seeds
  leaves to be found again.
\<close>

section \<open>Effects that settle\<close>

text \<open>
  \<open>settles I R S m m'\<close>: where the invariant \<open>I\<close> holds and \<open>m\<close> returns, it leaves \<open>I\<close> true and the state changed
  along \<open>R\<close>; and in every state that comes later along \<open>S\<close> the second program \<open>m'\<close> returns the same value and
  writes nothing. The second program is the first one with other random numbers and another clock.
\<close>

definition settles ::
    "('s \<Rightarrow> bool) \<Rightarrow> ('s \<Rightarrow> 's \<Rightarrow> bool) \<Rightarrow> ('s \<Rightarrow> 's \<Rightarrow> bool) \<Rightarrow> ('s, 'a) eff \<Rightarrow> ('s, 'a) eff \<Rightarrow> bool" where
  "settles I R S m m' \<longleftrightarrow>
     (\<forall>s a t. I s \<longrightarrow> m s = (Inr a, t) \<longrightarrow> I t \<and> R s t \<and> (\<forall>u. I u \<longrightarrow> S t u \<longrightarrow> m' u = (Inr a, u)))"

definition advances :: "('s \<Rightarrow> bool) \<Rightarrow> ('s \<Rightarrow> 's \<Rightarrow> bool) \<Rightarrow> ('s, 'a) eff \<Rightarrow> bool" where
  "advances I R m \<longleftrightarrow> (\<forall>s a t. I s \<longrightarrow> m s = (Inr a, t) \<longrightarrow> I t \<and> R s t)"

named_theorems settles_intros \<open>steps that settle\<close>
named_theorems advances_intros \<open>statements that only add\<close>

lemma settlesI:
  "(\<And>s a t. I s \<Longrightarrow> m s = (Inr a, t) \<Longrightarrow> I t \<and> R s t) \<Longrightarrow>
   (\<And>s a t u. I s \<Longrightarrow> m s = (Inr a, t) \<Longrightarrow> I t \<Longrightarrow> I u \<Longrightarrow> S t u \<Longrightarrow> m' u = (Inr a, u)) \<Longrightarrow> settles I R S m m'"
  unfolding settles_def by blast

lemma settlesD:
  assumes "settles I R S m m'" "I s" "m s = (Inr a, t)"
  shows "I t" "R s t" "I u \<Longrightarrow> S t u \<Longrightarrow> m' u = (Inr a, u)"
  using assms unfolding settles_def by blast+

lemma settles_advances: "settles I R S m m' \<Longrightarrow> advances I R m"
  unfolding settles_def advances_def by blast

lemma settles_weaken:
  "settles I R S m m' \<Longrightarrow> (\<And>s t. R s t \<Longrightarrow> R' s t) \<Longrightarrow> (\<And>s t. S' s t \<Longrightarrow> S s t) \<Longrightarrow> settles I R' S' m m'"
  unfolding settles_def by blast

lemma settles_lift: "settles I (=) (\<lambda>_ _. True) (liftR (\<lambda>_. x)) (liftR (\<lambda>_. x))"
  by (auto simp: settles_def)

text \<open>A step is done when the row it wants is there; \<open>there\<close> survives what comes later.\<close>

lemma settles_done:
  assumes "advances I R m" "\<And>s a t. I s \<Longrightarrow> m s = (Inr a, t) \<Longrightarrow> there a t"
    "\<And>a t u. I t \<Longrightarrow> I u \<Longrightarrow> there a t \<Longrightarrow> S t u \<Longrightarrow> there a u" "\<And>a u. I u \<Longrightarrow> there a u \<Longrightarrow> m' u = (Inr a, u)"
  shows "settles I R S m m'"
  using assms unfolding settles_def advances_def by blast

lemma advances_weaken: "advances I R m \<Longrightarrow> (\<And>s t. R s t \<Longrightarrow> R' s t) \<Longrightarrow> advances I R' m"
  unfolding advances_def by blast

text \<open>A loop that collects what each round returns.\<close>

fun map_each :: "'a list \<Rightarrow> ('a \<Rightarrow> ('s, 'b) eff) \<Rightarrow> ('s, 'b list) eff" where
  "map_each [] f = ret []"
| "map_each (x # xs) f = bindE (f x) (\<lambda>y. bindE (map_each xs f) (\<lambda>ys. ret (y # ys)))"

text \<open>What counts as a later state.\<close>

locale later =
  fixes R :: "'s \<Rightarrow> 's \<Rightarrow> bool"
  assumes idle: "R s s" and trans: "R s t \<Longrightarrow> R t u \<Longrightarrow> R s u"
begin

lemma advances_bind: "advances I R m \<Longrightarrow> (\<And>a. advances I R (k a)) \<Longrightarrow> advances I R (bindE m k)"
  unfolding advances_def bindE_ok by (blast intro: trans)

lemma advances_then: "advances I R m \<Longrightarrow> advances I R n \<Longrightarrow> advances I R (thenE m n)"
  unfolding thenE_def by (rule advances_bind)

lemma advances_idle: "advances I R (ret a)" "advances I R (raise e)" "advances I R (readE f)"
  "advances I R (liftR g)" "advances I R (findE h e)"
  by (auto simp: advances_def findE_def idle split: option.splits)

lemma advances_transaction: "advances I R m \<Longrightarrow> advances I R (transaction m)"
  by (simp add: advances_def transaction_ok)

lemma advances_discard: "advances I R m \<Longrightarrow> advances I R (discard m)"
  by (simp add: discard_def advances_bind advances_idle)

lemma advances_for_each: "(\<And>x. x \<in> set xs \<Longrightarrow> advances I R (f x)) \<Longrightarrow> advances I R (for_each xs f)"
  by (induction xs) (simp_all add: advances_idle advances_then del: ret_apply)

lemma settles_ret: "settles I R S (ret a) (ret a)"
  by (simp add: settles_def idle)

lemma settles_read: "(\<And>s t. I s \<Longrightarrow> I t \<Longrightarrow> S s t \<Longrightarrow> f t = f s) \<Longrightarrow> settles I R S (readE f) (readE f)"
  by (simp add: settles_def idle)

text \<open>The later step moves along \<open>R'\<close>, which the earlier step has to tolerate.\<close>

lemma settles_bind:
  assumes m: "settles I R1 S1 m m'" and k: "\<And>a. settles I R2 S2 (k a) (k' a)"
    and R: "\<And>s t. R1 s t \<Longrightarrow> R s t" "\<And>s t. R2 s t \<Longrightarrow> R s t"
    and S: "\<And>s t u. R2 s t \<Longrightarrow> S t u \<Longrightarrow> S1 s u" "\<And>s t. S s t \<Longrightarrow> S2 s t"
  shows "settles I R S (bindE m k) (bindE m' k')"
proof (rule settlesI)
  fix s a t assume s: "I s" and run: "bindE m k s = (Inr a, t)"
  then obtain b s' where b: "m s = (Inr b, s')" "k b s' = (Inr a, t)" by (auto simp: bindE_ok)
  note first = settlesD[OF m s b(1)]
  note second = settlesD[OF k first(1) b(2)]
  show "I t \<and> R s t" using first(2) second(1,2) R trans by blast
  fix u assume u: "I u" "S t u"
  have "m' u = (Inr b, u)" using first(3) u S(1)[OF second(2) u(2)] by blast
  moreover have "k' b u = (Inr a, u)" using second(3) u S(2) by blast
  ultimately show "bindE m' k' u = (Inr a, u)" by simp
qed

lemma settles_seq:
  assumes "settles I R S m m'" "\<And>a. settles I R S (k a) (k' a)" "\<And>s t u. R s t \<Longrightarrow> S t u \<Longrightarrow> S s u"
  shows "settles I R S (bindE m k) (bindE m' k')"
  by (rule settles_bind[OF assms(1,2)]) (use assms(3) in auto)

lemma settles_then:
  assumes "settles I R S m m'" "settles I R S n n'" "\<And>s t u. R s t \<Longrightarrow> S t u \<Longrightarrow> S s u"
  shows "settles I R S (thenE m n) (thenE m' n')"
  unfolding thenE_def using assms by (rule settles_seq)

lemma settles_for_each:
  assumes "\<And>x. x \<in> set xs \<Longrightarrow> settles I R S (f x) (f' x)" "\<And>s t u. R s t \<Longrightarrow> S t u \<Longrightarrow> S s u"
  shows "settles I R S (for_each xs f) (for_each xs f')"
  using assms(1) by (induction xs) (simp_all add: settles_ret settles_then[OF _ _ assms(2)] del: ret_apply)

lemma settles_list:
  assumes "\<And>x. x \<in> set xs \<Longrightarrow> settles I R S (f x) (f' x)" "\<And>s t u. R s t \<Longrightarrow> S t u \<Longrightarrow> S s u"
  shows "settles I R S (map_each xs f) (map_each xs f')"
  using assms(1)
  by (induction xs) (auto simp: settles_ret simp del: ret_apply intro!: settles_seq[OF _ _ assms(2)])

end

section \<open>Rows found again\<close>

definition found_again :: "('r \<Rightarrow> bool) \<Rightarrow> ('r \<Rightarrow> 'r \<Rightarrow> bool) \<Rightarrow> 'r list \<Rightarrow> 'r list \<Rightarrow> bool" where
  "found_again sel kept xs ys \<longleftrightarrow> (\<forall>x. find sel xs = Some x \<longrightarrow> (\<exists>y. find sel ys = Some y \<and> kept x y))"

lemma found_againD: "found_again sel kept xs ys \<Longrightarrow> find sel xs = Some x \<Longrightarrow> \<exists>y. find sel ys = Some y \<and> kept x y"
  by (simp add: found_again_def)

lemma found_again_refl: "(\<And>x. kept x x) \<Longrightarrow> found_again sel kept xs xs"
  by (simp add: found_again_def)

lemma found_again_trans:
  "(\<And>x y z. kept x y \<Longrightarrow> kept y z \<Longrightarrow> kept x z) \<Longrightarrow>
     found_again sel kept xs ys \<Longrightarrow> found_again sel kept ys zs \<Longrightarrow> found_again sel kept xs zs"
  unfolding found_again_def by blast

lemma found_again_snoc: "(\<And>x. kept x x) \<Longrightarrow> found_again sel kept xs (xs @ ys)"
  by (induction xs) (auto simp: found_again_def)

text \<open>Replacing a row by one the selection treats alike.\<close>

lemma found_again_replace:
  assumes "distinct (map key xs)" "x \<in> set xs" "key x = k" "sel y = sel x" "kept x y" "\<And>z. kept z z"
  shows "found_again sel kept xs (replace_row key k y xs)"
proof -
  have "\<forall>z \<in> set xs. key z = k \<longrightarrow> sel y = sel z \<and> kept z y"
    using assms(1-5) by (metis distinct_map_eq)
  then show ?thesis
    unfolding found_again_def replace_row_def using assms(6) by (induction xs) (auto split: if_splits)
qed

definition same :: "('r \<Rightarrow> 'k) \<Rightarrow> 'r \<Rightarrow> 'r \<Rightarrow> bool" where
  "same key x y \<longleftrightarrow> key y = key x"

lemma same_refl [simp]: "same key x x"
  by (simp add: same_def)

text \<open>What is remembered of a row: its number, that an app has its defaults, that a permission needs no repair.\<close>

definition app_kept :: "sa_app \<Rightarrow> sa_app \<Rightarrow> bool" where
  "app_kept a b \<longleftrightarrow> app_id b = app_id a \<and> (app_defaultOrgId a \<noteq> None \<longrightarrow> app_defaultOrgId b \<noteq> None) \<and>
     (app_defaultRoleId a \<noteq> None \<longrightarrow> app_defaultRoleId b \<noteq> None)"

definition right_system_flag :: "sa_permission \<Rightarrow> bool" where
  "right_system_flag p \<longleftrightarrow> perm_isSystem p = starts_with ''org.'' (perm_name p)"

definition has_placeholder :: "sa_permission \<Rightarrow> bool" where
  "has_placeholder p \<longleftrightarrow> starts_with ''pending-'' (perm_publicId p)"

definition perm_kept :: "sa_permission \<Rightarrow> sa_permission \<Rightarrow> bool" where
  "perm_kept p q \<longleftrightarrow> perm_id q = perm_id p \<and> (right_system_flag p \<longrightarrow> right_system_flag q) \<and>
     (\<not> has_placeholder p \<longrightarrow> \<not> has_placeholder q)"

definition redirect_keys :: "db \<Rightarrow> (int \<times> string \<times> string) set" where
  "redirect_keys d = (\<lambda>r. (ru_appId r, ru_uri r, ru_kind r)) ` set (saRedirectUris d)"

text \<open>The selections the seeds make, table by table.\<close>

definition app_searches :: "(sa_app \<Rightarrow> bool) set" where
  "app_searches = insert app_isPlatform (range (\<lambda>n a. app_name a = n) \<union> range (\<lambda>i a. app_id a = i))"

definition org_searches :: "(sa_org \<Rightarrow> bool) set" where
  "org_searches = insert org_isPlatform (range (\<lambda>(k, n) g. org_appId g = k \<and> org_name g = n))"

definition perm_searches :: "(sa_permission \<Rightarrow> bool) set" where
  "perm_searches = range (\<lambda>n p. perm_name p = n)"

definition role_searches :: "(sa_role \<Rightarrow> bool) set" where
  "role_searches = range (\<lambda>(k, n) r. role_appId r = k \<and> role_name r = n)"

definition user_searches :: "(user_row \<Rightarrow> bool) set" where
  "user_searches = range (\<lambda>e u. usr_email u = e)"

definition sau_searches :: "(sa_user \<Rightarrow> bool) set" where
  "sau_searches = range (\<lambda>b u. sau_betterAuthUserId u = b)"

lemma searches [simp]:
  "app_isPlatform \<in> app_searches" "(\<lambda>a. app_name a = n) \<in> app_searches" "(\<lambda>a. app_id a = i) \<in> app_searches"
  "org_isPlatform \<in> org_searches" "(\<lambda>g. org_appId g = i \<and> org_name g = n) \<in> org_searches"
  "(\<lambda>p. perm_name p = n) \<in> perm_searches" "(\<lambda>r. role_appId r = i \<and> role_name r = n) \<in> role_searches"
  "(\<lambda>u. usr_email u = n) \<in> user_searches" "(\<lambda>u. sau_betterAuthUserId u = n) \<in> sau_searches"
  by (auto simp: app_searches_def org_searches_def perm_searches_def role_searches_def user_searches_def
      sau_searches_def image_iff)

text \<open>\<open>grows d t\<close>: every row a seed looks for and finds in \<open>d\<close> it finds in \<open>t\<close>.\<close>

definition grows :: "db \<Rightarrow> db \<Rightarrow> bool" where
  "grows d t \<longleftrightarrow>
     (\<forall>sel \<in> app_searches. found_again sel app_kept (saApps d) (saApps t)) \<and>
     (\<forall>sel \<in> org_searches. found_again sel (same org_id) (saOrgs d) (saOrgs t)) \<and>
     (\<forall>sel \<in> perm_searches. found_again sel perm_kept (saPermissions d) (saPermissions t)) \<and>
     (\<forall>sel \<in> role_searches. found_again sel (same role_id) (saRoles d) (saRoles t)) \<and>
     (\<forall>sel \<in> user_searches. found_again sel (same usr_id) (users d) (users t)) \<and>
     (\<forall>sel \<in> sau_searches. found_again sel (same sau_id) (saUsers d) (saUsers t)) \<and>
     set (saRolePermissions d) \<subseteq> set (saRolePermissions t) \<and> set (saUserRoles d) \<subseteq> set (saUserRoles t) \<and>
     set (saUserPermissions d) \<subseteq> set (saUserPermissions t) \<and> redirect_keys d \<subseteq> redirect_keys t"

lemma app_kept_refl [simp]: "app_kept a a" and perm_kept_refl [simp]: "perm_kept p p"
  by (simp_all add: app_kept_def perm_kept_def)

lemma app_kept_trans: "app_kept a b \<Longrightarrow> app_kept b c \<Longrightarrow> app_kept a c"
  and perm_kept_trans: "perm_kept p q \<Longrightarrow> perm_kept q r \<Longrightarrow> perm_kept p r"
  by (simp_all add: app_kept_def perm_kept_def)

lemma same_trans: "same f x y \<Longrightarrow> same f y z \<Longrightarrow> same f x z"
  by (simp add: same_def)

lemma searches_again:
  "(\<And>x y z. kept x y \<Longrightarrow> kept y z \<Longrightarrow> kept x z) \<Longrightarrow> \<forall>sel \<in> A. found_again sel kept xs ys \<Longrightarrow>
     \<forall>sel \<in> A. found_again sel kept ys zs \<Longrightarrow> \<forall>sel \<in> A. found_again sel kept xs zs"
  using found_again_trans[of kept] by blast

interpretation growth: later grows
proof
  show "grows d d" for d by (simp add: grows_def found_again_refl)
  show "grows d s \<Longrightarrow> grows s t \<Longrightarrow> grows d t" for d s t
    unfolding grows_def by (elim conjE, intro conjI)
      ((rule searches_again[OF app_kept_trans] searches_again[OF perm_kept_trans]
          searches_again[OF same_trans] subset_trans; assumption)+)
qed

text \<open>\<open>quiet d t\<close>: besides, the \<open>platform.*\<close> permissions of every app are the same.\<close>

definition platform_perms :: "db \<Rightarrow> int \<Rightarrow> int list" where
  "platform_perms d k =
     map perm_id (filter (\<lambda>p. perm_appId p = k \<and> starts_with ''platform.'' (perm_name p)) (saPermissions d))"

definition quiet :: "db \<Rightarrow> db \<Rightarrow> bool" where
  "quiet d t \<longleftrightarrow> grows d t \<and> platform_perms t = platform_perms d"

lemma quiet_grows: "quiet d t \<Longrightarrow> grows d t"
  by (simp add: quiet_def)

interpretation quiet: later quiet
  by unfold_locales (auto simp: quiet_def growth.idle intro: growth.trans)

section \<open>The statements of the seeds\<close>

text \<open>\<open>saUser.update\<close> by number, of the public id alone.\<close>

definition rename_sa_user :: "int \<Rightarrow> string \<Rightarrow> (db, sa_user) eff" where
  "rename_sa_user i pid = (\<lambda>d.
     case sau_by_id d i of
       None \<Rightarrow> (Inl P2025, d)
     | Some u \<Rightarrow>
         (let u' = u\<lparr>sau_publicId := pid\<rparr> in
          if taken sau_publicId (others sau_id i (saUsers d)) u' then (Inl P2002, d)
          else (Inr u', d\<lparr>saUsers := replace_row sau_id i u' (saUsers d)\<rparr>)))"

lemma keeps_rename_sa_user [keeps_intros]: "keeps db_ok (rename_sa_user i pid)"
proof (rule keeps_db_okI)
  fix d t assume ok: "keys_ok d" "fks_ok d" "seqs_ok d" and run: "t \<noteq> d" "snd (rename_sa_user i pid d) = t"
  then obtain x where x: "sau_by_id d i = Some x"
      and t: "t = d\<lparr>saUsers := replace_row sau_id i (x\<lparr>sau_publicId := pid\<rparr>) (saUsers d)\<rparr>"
      and free: "\<not> taken sau_publicId (others sau_id i (saUsers d)) (x\<lparr>sau_publicId := pid\<rparr>)"
    by (auto simp: rename_sa_user_def Let_def split: option.splits if_splits)
  have mem: "x \<in> set (saUsers d)" "sau_id x = i" using lookup_sound(7)[OF x] by auto
  have uniq: "distinct (map sau_id (saUsers d))" using ok(1) by (simp add: keys_ok_def)
  note column = replace_row_column[OF uniq mem] and image = replace_row_image[OF uniq mem]
  have "keys_ok t" using ok(1) free uniq by (simp add: t keys_ok_def column distinct_replace)
  moreover have "fks_ok t" using ok(2) by (simp add: t fks_ok_def image column)
  moreover have "seqs_ok t" using ok(3) mem by (auto simp: t seqs_ok_def set_replace_row)
  ultimately show "keys_ok t \<and> fks_ok t \<and> seqs_ok t" by simp
qed

lemma advancesI:
  assumes "keeps I m" "\<And>s a t. I s \<Longrightarrow> m s = (Inr a, t) \<Longrightarrow> R s t"
  shows "advances I R m"
  by (auto simp: advances_def intro: assms(2) keepsD[OF assms(1)])

text \<open>A statement that appends to some tables.\<close>

lemma found_again_prefix: "(\<And>x. kept x x) \<Longrightarrow> prefix xs ys \<Longrightarrow> found_again sel kept xs ys"
  by (auto simp: prefix_def found_again_snoc)

definition appended :: "db \<Rightarrow> db \<Rightarrow> bool" where
  "appended d t \<longleftrightarrow>
     prefix (saApps d) (saApps t) \<and> prefix (saOrgs d) (saOrgs t) \<and> prefix (saPermissions d) (saPermissions t) \<and>
     prefix (saRoles d) (saRoles t) \<and> prefix (users d) (users t) \<and> prefix (saUsers d) (saUsers t) \<and>
     prefix (saRolePermissions d) (saRolePermissions t) \<and> prefix (saUserRoles d) (saUserRoles t) \<and>
     prefix (saUserPermissions d) (saUserPermissions t) \<and> prefix (saRedirectUris d) (saRedirectUris t)"

lemma grows_appended: "appended d t \<Longrightarrow> grows d t"
  by (simp add: appended_def grows_def found_again_prefix set_mono_prefix redirect_keys_def image_mono)

lemma quiet_appended: "appended d t \<Longrightarrow> saPermissions t = saPermissions d \<Longrightarrow> quiet d t"
  by (simp add: quiet_def grows_appended platform_perms_def fun_eq_iff)

lemma advances_create [advances_intros]:
  "advances db_ok quiet (create_user u)" "advances db_ok quiet (create_sa_user s)"
  "advances db_ok quiet (create_user_roles k rs)" "advances db_ok quiet (create_user_permissions k ps)"
  "advances db_ok quiet (create_role r)" "advances db_ok quiet (create_role_permissions k ps)"
  "advances db_ok quiet (create_org g)" "advances db_ok quiet (create_app a)"
  "advances db_ok quiet (create_redirect_uris rus)"
  by (rule advancesI, rule keeps_intros, rule quiet_appended;
      simp add: statement_defs Let_def split: if_splits; auto simp: appended_def)+

lemma advances_create_permission:
  "advances db_ok grows (create_permission p)"
  "\<not> starts_with ''platform.'' (perm_name p) \<Longrightarrow> advances db_ok quiet (create_permission p)"
  by (rule advancesI, rule keeps_intros,
      force simp: statement_defs Let_def quiet_def appended_def platform_perms_def fun_eq_iff split: if_splits intro: grows_appended)+

text \<open>Updates of columns the searches do not look at.\<close>

lemma searches_untouched:
  "app_name b = app_name a \<Longrightarrow> app_id b = app_id a \<Longrightarrow> app_isPlatform b = app_isPlatform a \<Longrightarrow> f \<in> app_searches \<Longrightarrow> f b = f a"
  "org_appId e = org_appId g \<Longrightarrow> org_name e = org_name g \<Longrightarrow> org_isPlatform e = org_isPlatform g \<Longrightarrow> h \<in> org_searches \<Longrightarrow> h e = h g"
  "perm_name q = perm_name p \<Longrightarrow> k \<in> perm_searches \<Longrightarrow> k q = k p"
  "role_appId s = role_appId r \<Longrightarrow> role_name s = role_name r \<Longrightarrow> l \<in> role_searches \<Longrightarrow> l s = l r"
  "usr_email v = usr_email u \<Longrightarrow> m \<in> user_searches \<Longrightarrow> m v = m u"
  "sau_betterAuthUserId y = sau_betterAuthUserId x \<Longrightarrow> n \<in> sau_searches \<Longrightarrow> n y = n x"
  by (auto simp: app_searches_def org_searches_def perm_searches_def role_searches_def user_searches_def sau_searches_def)

lemma grows_unchanged [simp]:
  "\<forall>sel \<in> A. found_again sel app_kept as as" "\<forall>sel \<in> B. found_again sel perm_kept ps ps"
  "\<forall>sel \<in> C. found_again sel (same key) rs rs"
  by (simp_all add: found_again_refl)

lemma searches_replace:
  "x \<in> set xs \<and> key x = k \<Longrightarrow> distinct (map key xs) \<Longrightarrow> (\<And>sel. sel \<in> A \<Longrightarrow> sel y = sel x) \<Longrightarrow> kept x y \<Longrightarrow>
     (\<And>z. kept z z) \<Longrightarrow> \<forall>sel \<in> A. found_again sel kept xs (replace_row key k y xs)"
  by (blast intro: found_again_replace)

lemma distinct_ids:
  assumes "db_ok d"
  shows "distinct (map app_id (saApps d))" "distinct (map org_id (saOrgs d))" "distinct (map role_id (saRoles d))"
    "distinct (map usr_id (users d))" "distinct (map sau_id (saUsers d))" "distinct (map perm_id (saPermissions d))"
  using assms by (simp_all add: db_ok_def keys_ok_def)

lemmas quiet_defs = quiet_def grows_def redirect_keys_def platform_perms_def fun_eq_iff

lemma advances_update_app:
  assumes "\<And>a. app_name (f a) = app_name a \<and> app_id (f a) = app_id a \<and> app_isPlatform (f a) = app_isPlatform a \<and> app_kept a (f a)"
  shows "advances db_ok quiet (update_app i f)"
proof (rule advancesI)
  show "keeps db_ok (update_app i f)" using assms by (intro keeps_update_app) simp
  fix s a t assume ok: "db_ok s" and run: "update_app i f s = (Inr a, t)"
  then obtain x where x: "app_by_id s i = Some x" and t: "t = s\<lparr>saApps := replace_row app_id i (f x) (saApps s)\<rparr>"
    by (auto simp: update_app_def Let_def split: option.splits if_splits)
  note again = searches_replace[OF lookup_sound(3)[OF x] distinct_ids(1)[OF ok]]
  show "quiet s t" using assms by (simp add: quiet_defs t, intro again) ((rule searches_untouched; simp) | simp add: same_def)+
qed

lemma advances_update_org:
  assumes "\<And>g. org_id (f g) = org_id g \<and> org_name (f g) = org_name g \<and> org_appId (f g) = org_appId g \<and> org_isPlatform (f g) = org_isPlatform g"
  shows "advances db_ok quiet (update_org i f)"
proof (rule advancesI)
  show "keeps db_ok (update_org i f)" using assms by (intro keeps_update_org) simp
  fix s a t assume ok: "db_ok s" and run: "update_org i f s = (Inr a, t)"
  then obtain x where x: "org_by_id s i = Some x" and t: "t = s\<lparr>saOrgs := replace_row org_id i (f x) (saOrgs s)\<rparr>"
    by (auto simp: update_org_def Let_def split: option.splits if_splits)
  note again = searches_replace[OF lookup_sound(5)[OF x] distinct_ids(2)[OF ok]]
  show "quiet s t" using assms by (simp add: quiet_defs t, intro again) ((rule searches_untouched; simp) | simp add: same_def)+
qed

lemma advances_update_role:
  assumes "\<And>r. role_id (f r) = role_id r \<and> role_name (f r) = role_name r \<and> role_appId (f r) = role_appId r"
  shows "advances db_ok quiet (update_role i f)"
proof (rule advancesI)
  show "keeps db_ok (update_role i f)" using assms by (intro keeps_update_role) simp
  fix s a t assume ok: "db_ok s" and run: "update_role i f s = (Inr a, t)"
  then obtain x where x: "role_by_id s i = Some x" and t: "t = s\<lparr>saRoles := replace_row role_id i (f x) (saRoles s)\<rparr>"
    by (auto simp: update_role_def Let_def split: option.splits if_splits)
  note again = searches_replace[OF lookup_sound(10)[OF x] distinct_ids(3)[OF ok]]
  show "quiet s t" using assms by (simp add: quiet_defs t, intro again) ((rule searches_untouched; simp) | simp add: same_def)+
qed

lemma advances_update_user:
  assumes "\<And>u. usr_id (f u) = usr_id u \<and> usr_email (f u) = usr_email u"
  shows "advances db_ok quiet (update_user i f)"
proof (rule advancesI)
  show "keeps db_ok (update_user i f)" using assms by (intro keeps_update_user) simp
  fix s a t assume ok: "db_ok s" and run: "update_user i f s = (Inr a, t)"
  then obtain x where x: "user_by_id s i = Some x" and t: "t = s\<lparr>users := replace_row usr_id i (f x) (users s)\<rparr>"
    by (auto simp: update_user_def Let_def split: option.splits if_splits)
  note again = searches_replace[OF lookup_sound(1)[OF x] distinct_ids(4)[OF ok]]
  show "quiet s t" using assms by (simp add: quiet_defs t, intro again) ((rule searches_untouched; simp) | simp add: same_def)+
qed

lemma advances_rename_sa_user [advances_intros]: "advances db_ok quiet (rename_sa_user i pid)"
proof (rule advancesI)
  show "keeps db_ok (rename_sa_user i pid)" by (rule keeps_intros)
  fix s a t assume ok: "db_ok s" and run: "rename_sa_user i pid s = (Inr a, t)"
  then obtain x where x: "sau_by_id s i = Some x"
    and t: "t = s\<lparr>saUsers := replace_row sau_id i (x\<lparr>sau_publicId := pid\<rparr>) (saUsers s)\<rparr>"
    by (auto simp: rename_sa_user_def Let_def split: option.splits if_splits)
  note again = searches_replace[OF lookup_sound(7)[OF x] distinct_ids(5)[OF ok]]
  show "quiet s t" by (simp add: quiet_defs t, intro again) ((rule searches_untouched; simp) | simp add: same_def)+
qed

text \<open>The repair of a permission: it has to leave a sound row sound.\<close>

lemma update_permission_quiet:
  assumes "db_ok s" "update_permission i f s = (Inr p, t)"
    "perm_by_id s i = Some x" "perm_id (f x) = perm_id x \<and> perm_name (f x) = perm_name x \<and> perm_appId (f x) = perm_appId x"
    "perm_kept x (f x)"
  shows "quiet s t"
proof -
  note x = assms(3) and mem = lookup_sound(12)[OF assms(3)]
  have t: "t = s\<lparr>saPermissions := replace_row perm_id i (f x) (saPermissions s)\<rparr>"
    using assms(2) by (auto simp: update_permission_def x Let_def split: if_splits)
  note again = searches_replace[OF mem distinct_ids(6)[OF assms(1)]]
  have "\<forall>r \<in> set (saPermissions s). perm_id r = i \<longrightarrow> r = x"
    using mem distinct_ids(6)[OF assms(1)] by (metis distinct_map_eq)
  then have "map perm_id (filter (\<lambda>p. perm_appId p = k \<and> starts_with ''platform.'' (perm_name p)) (replace_row perm_id i (f x) ps)) =
     map perm_id (filter (\<lambda>p. perm_appId p = k \<and> starts_with ''platform.'' (perm_name p)) ps)"
    if "set ps \<subseteq> set (saPermissions s)" for k ps
    using that assms(4) by (induction ps) (auto simp: replace_row_def)
  from this[of "saPermissions s"] show ?thesis
    using assms(4,5) by (simp add: quiet_defs t, intro again) ((rule searches_untouched; simp) | simp)+
qed

end
