(* ===== verification/Seeding.thy ===== *)
theory Seeding
  imports Rerun Registration Social
begin

text \<open>
  The rows a deployment starts with, \<open>seed/seed.ts\<close>: the platform app, its organisation and permissions, the
  super administrator role and the administrators; and the demonstration data it adds on request,
  \<open>demo-resource-server.ts\<close>, \<open>demo-multitenant.ts\<close> and \<open>e2e-oidc-client.ts\<close>. The scripts are run again
  after every deployment; what that changes is the subject here.
\<close>

section \<open>Environment\<close>

text \<open>
  The random numbers and the clock of one run: the uuid drawn for the row of a name, the date, the password
  made up for the production administrator, and scrypt's hash with its salt.
\<close>

record seed_env =
  se_host :: host
  se_auth :: better_auth
  se_uuid :: "string \<Rightarrow> string"
  se_now :: int
  se_random :: string
  se_hash :: "string \<Rightarrow> string"

definition node_env :: "host \<Rightarrow> string" where
  "node_env h = (case h_env h ''NODE_ENV'' of None \<Rightarrow> ''development'' | Some e \<Rightarrow> e)"

definition is_production :: "host \<Rightarrow> bool" where
  "is_production h \<longleftrightarrow> node_env h = ''production''"

definition DEV_LIKE :: "string list" where
  "DEV_LIKE = [''development'', ''test'']"

definition DEV_SEED_PASSWORD :: string where
  "DEV_SEED_PASSWORD = ''Pass@word1234''"

definition DEV_SEED_CLIENT_SECRET :: string where
  "DEV_SEED_CLIENT_SECRET = ''e2e-oidc-dev-secret-CHANGE-ME''"

text \<open>\<open>a || b\<close> on two variables of the environment.\<close>

definition first_set :: "host \<Rightarrow> string \<Rightarrow> string \<Rightarrow> string option" where
  "first_set h a b =
     (if truthy (h_env h a) then h_env h a else if truthy (h_env h b) then h_env h b else None)"

definition resolveSeedPassword :: "host \<Rightarrow> err + string" where
  "resolveSeedPassword h =
     (case first_set h ''SEED_ADMIN_PASSWORD'' ''E2E_ADMIN_PASSWORD'' of
        Some explicit \<Rightarrow> Inr explicit
      | None \<Rightarrow>
          if node_env h \<notin> set DEV_LIKE
          then Inl (JsError (''Refusing to seed with the built-in default password while NODE_ENV='' @ node_env h @
                  ''. Set SEED_ADMIN_PASSWORD to the password the seeded admin accounts should use.''))
          else Inr DEV_SEED_PASSWORD)"

definition resolveSeedClientSecret :: "host \<Rightarrow> err + string" where
  "resolveSeedClientSecret h =
     (case first_set h ''SEED_E2E_OIDC_CLIENT_SECRET'' ''E2E_OIDC_CLIENT_SECRET'' of
        Some explicit \<Rightarrow> Inr explicit
      | None \<Rightarrow>
          if node_env h \<notin> set DEV_LIKE
          then Inl (JsError (''Refusing to seed the E2E OIDC client with the built-in default secret while NODE_ENV='' @
                  node_env h @ ''. Set SEED_E2E_OIDC_CLIENT_SECRET to the secret the seeded app should use.''))
          else Inr DEV_SEED_CLIENT_SECRET)"

section \<open>Rows looked up by name\<close>

definition app_by_name :: "db \<Rightarrow> string \<Rightarrow> sa_app option" where
  "app_by_name d n = find (\<lambda>a. app_name a = n) (saApps d)"

definition org_by_name :: "db \<Rightarrow> int \<Rightarrow> string \<Rightarrow> sa_org option" where
  "org_by_name d i n = find (\<lambda>g. org_appId g = i \<and> org_name g = n) (saOrgs d)"

definition perm_by_name :: "db \<Rightarrow> string \<Rightarrow> sa_permission option" where
  "perm_by_name d n = find (\<lambda>p. perm_name p = n) (saPermissions d)"

definition role_by_name :: "db \<Rightarrow> int \<Rightarrow> string \<Rightarrow> sa_role option" where
  "role_by_name d i n = find (\<lambda>r. role_appId r = i \<and> role_name r = n) (saRoles d)"

text \<open>A row with the columns the seed leaves to their defaults.\<close>

definition seed_app :: "string \<Rightarrow> string \<Rightarrow> string \<Rightarrow> bool \<Rightarrow> sa_app" where
  "seed_app pid nm url plat =
     \<lparr>app_id = 0, app_publicId = pid, app_name = nm, app_url = url,
      app_branding = \<lparr>logo = None, favicon = None, pageLightBackgroundColor = None, pageDarkBackgroundColor = None,
        cardLightBackgroundColor = None, cardDarkBackgroundColor = None\<rparr>,
      app_twoFactorTrustDays = None, app_twoFactorPromptEnabled = None, app_requireTwoFactor = False,
      app_allowOfflineAccess = False, app_isPlatform = plat, app_canManageOwnRoles = False,
      app_passwordPolicyOverride = None, app_clientSecretHash = None, app_clientSecretUpdatedAt = None,
      app_activationWebhookUrl = None, app_activationWebhookSecret = None, app_activationEmailOverride = None,
      app_emailVerificationMethod = LinkMethod, app_privacyPolicyUrl = None, app_termsUrl = None,
      app_gdprUrl = None, app_defaultOrgId = None, app_defaultRoleId = None\<rparr>"

definition seed_sa_user :: "string \<Rightarrow> int \<Rightarrow> string \<Rightarrow> int \<Rightarrow> string \<Rightarrow> string \<Rightarrow> string option \<Rightarrow> sa_user" where
  "seed_sa_user pid now baId orgId firstName lastName username =
     \<lparr>sau_id = 0, sau_publicId = pid, sau_betterAuthUserId = baId, sau_orgId = orgId, sau_firstName = firstName,
      sau_lastName = lastName, sau_marketingOptIn = False, sau_phoneNumber = None, sau_username = username,
      sau_status = Active, sau_createdAt = now, sau_lastLoginAt = None, sau_twoFactorPromptedAt = None\<rparr>"

section \<open>Creating with a public id\<close>

text \<open>Insert under a pending public id, then rename to the sqid of the number, in one transaction.\<close>

definition pendingId :: "seed_env \<Rightarrow> string \<Rightarrow> string" where
  "pendingId env n = generatePendingPublicId (se_uuid env n)"

definition sqid :: "seed_env \<Rightarrow> int \<Rightarrow> string" where
  "sqid env i = h_sqid_encode (se_host env) i"

definition createWithPublicId :: "seed_env \<Rightarrow> (db, 'r) eff \<Rightarrow> ('r \<Rightarrow> int) \<Rightarrow> (int \<Rightarrow> string \<Rightarrow> (db, 'r) eff) \<Rightarrow> (db, int) eff" where
  "createWithPublicId env create row_id update =
     transaction
       (bindE create (\<lambda>draft.
        bindE (update (row_id draft) (sqid env (row_id draft))) (\<lambda>r. ret (row_id r))))"

definition new_seed_app :: "seed_env \<Rightarrow> string \<Rightarrow> sa_app \<Rightarrow> (db, int) eff" where
  "new_seed_app env n row =
     createWithPublicId env (create_app (row\<lparr>app_publicId := pendingId env n, app_name := n\<rparr>)) app_id
       (\<lambda>i pid. update_app i (\<lambda>a. a\<lparr>app_publicId := pid\<rparr>))"

definition new_seed_org :: "seed_env \<Rightarrow> int \<Rightarrow> string \<Rightarrow> bool \<Rightarrow> (db, int) eff" where
  "new_seed_org env appId n plat =
     createWithPublicId env
       (create_org \<lparr>org_id = 0, org_publicId = pendingId env n, org_name = n, org_appId = appId, org_isPlatform = plat\<rparr>)
       org_id (\<lambda>i pid. update_org i (\<lambda>g. g\<lparr>org_publicId := pid\<rparr>))"

definition new_seed_permission :: "seed_env \<Rightarrow> int \<Rightarrow> string \<Rightarrow> bool \<Rightarrow> (db, int) eff" where
  "new_seed_permission env appId n sys =
     createWithPublicId env
       (create_permission \<lparr>perm_id = 0, perm_publicId = pendingId env n, perm_name = n, perm_appId = appId, perm_isSystem = sys\<rparr>)
       perm_id (\<lambda>i pid. update_permission i (\<lambda>p. p\<lparr>perm_publicId := pid\<rparr>))"

definition new_seed_role :: "seed_env \<Rightarrow> int \<Rightarrow> string \<Rightarrow> (db, int) eff" where
  "new_seed_role env appId n =
     createWithPublicId env
       (create_role \<lparr>role_id = 0, role_publicId = pendingId env n, role_name = n, role_appId = appId\<rparr>)
       role_id (\<lambda>i pid. update_role i (\<lambda>r. r\<lparr>role_publicId := pid\<rparr>))"

definition new_seed_user :: "seed_env \<Rightarrow> string \<Rightarrow> int \<Rightarrow> string \<Rightarrow> string \<Rightarrow> string option \<Rightarrow> (db, int) eff" where
  "new_seed_user env baId orgId firstName lastName username =
     createWithPublicId env
       (create_sa_user (seed_sa_user (pendingId env baId) (se_now env) baId orgId firstName lastName username))
       sau_id rename_sa_user"

section \<open>Upserts\<close>

definition upsert_role_permission :: "int \<Rightarrow> int \<Rightarrow> (db, unit) eff" where
  "upsert_role_permission r p = (\<lambda>d. if (r, p) \<in> set (saRolePermissions d) then (Inr (), d) else create_role_permissions r [p] d)"

definition upsert_user_role :: "int \<Rightarrow> int \<Rightarrow> (db, unit) eff" where
  "upsert_user_role u r = (\<lambda>d. if (u, r) \<in> set (saUserRoles d) then (Inr (), d) else create_user_roles u [r] d)"

definition upsert_user_permission :: "int \<Rightarrow> int \<Rightarrow> (db, unit) eff" where
  "upsert_user_permission u p = (\<lambda>d. if (u, p) \<in> set (saUserPermissions d) then (Inr (), d) else create_user_permissions u [p] d)"

definition upsert_redirect_uri :: "int \<Rightarrow> string \<Rightarrow> string \<Rightarrow> (db, unit) eff" where
  "upsert_redirect_uri i uri kind = (\<lambda>d.
     if list_ex (\<lambda>r. ru_appId r = i \<and> ru_uri r = uri \<and> ru_kind r = kind) (saRedirectUris d) then (Inr (), d)
     else create_redirect_uris [\<lparr>ru_appId = i, ru_uri = uri, ru_kind = kind\<rparr>] d)"

section \<open>Find or create\<close>

text \<open>\<open>if (found) return found\<close>, else create; of the row the callers only use the number.\<close>

definition ensure :: "('s \<Rightarrow> 'r option) \<Rightarrow> ('r \<Rightarrow> int) \<Rightarrow> ('s, int) eff \<Rightarrow> ('s, int) eff" where
  "ensure look row_id create =
     bindE (readE look) (\<lambda>found. case found of Some r \<Rightarrow> ret (row_id r) | None \<Rightarrow> create)"

definition ensure_app :: "seed_env \<Rightarrow> string \<Rightarrow> sa_app \<Rightarrow> (db, int) eff" where
  "ensure_app env n row = ensure (\<lambda>d. app_by_name d n) app_id (new_seed_app env n row)"

definition ensure_org :: "seed_env \<Rightarrow> int \<Rightarrow> string \<Rightarrow> (db, int) eff" where
  "ensure_org env appId n = ensure (\<lambda>d. org_by_name d appId n) org_id (new_seed_org env appId n False)"

definition ensure_permission :: "seed_env \<Rightarrow> int \<Rightarrow> string \<Rightarrow> (db, int) eff" where
  "ensure_permission env appId n = ensure (\<lambda>d. perm_by_name d n) perm_id (new_seed_permission env appId n False)"

definition ensure_role :: "seed_env \<Rightarrow> int \<Rightarrow> string \<Rightarrow> int list \<Rightarrow> (db, int) eff" where
  "ensure_role env appId n permIds =
     bindE (ensure (\<lambda>d. role_by_name d appId n) role_id (new_seed_role env appId n)) (\<lambda>roleId.
     thenE (for_each permIds (upsert_role_permission roleId)) (ret roleId))"

text \<open>The account with its address taken as verified, then the user of the organisation.\<close>

definition ensure_account :: "seed_env \<Rightarrow> string \<Rightarrow> string \<Rightarrow> string \<Rightarrow> (db, string) eff" where
  "ensure_account env password email nm =
     bindE (readE (\<lambda>d. user_by_email d email)) (\<lambda>existing. case existing of
       Some b \<Rightarrow> ret (usr_id b)
     | None \<Rightarrow>
         bindE (ba_signUpEmail (se_auth env) email password nm) (\<lambda>baUserId.
         thenE (discard (update_user baUserId (\<lambda>b. b\<lparr>usr_emailVerified := True\<rparr>))) (ret baUserId)))"

definition ensure_member ::
    "seed_env \<Rightarrow> string \<Rightarrow> string \<Rightarrow> string \<Rightarrow> string \<Rightarrow> string \<Rightarrow> string option \<Rightarrow> int \<Rightarrow> (db, int) eff" where
  "ensure_member env password email nm firstName lastName username orgId =
     bindE (ensure_account env password email nm) (\<lambda>baUserId.
       ensure (\<lambda>d. sau_by_betterAuthUserId d baUserId) sau_id
         (new_seed_user env baUserId orgId firstName lastName username))"

section \<open>The platform\<close>

definition PLATFORM_PERMISSIONS :: "string list" where
  "PLATFORM_PERMISSIONS =
     [''platform.orgs.manage'', ''platform.apps.manage'', ''platform.users.manage'', ''platform.roles.manage'',
      ''platform.permissions.manage'', ''org.users.manage'', ''org.roles.manage'']"

datatype admin_grant = DirectGrant string | RoleGrant string

record platform_admin =
  pa_email :: string
  pa_firstName :: string
  pa_lastName :: string
  pa_grant :: admin_grant
  pa_password :: "string option"

definition SUPER_ADMIN_ROLE_NAME :: string where
  "SUPER_ADMIN_ROLE_NAME = ''Platform Super Admin''"

definition dev_admin :: "string \<Rightarrow> string \<Rightarrow> string \<Rightarrow> admin_grant \<Rightarrow> platform_admin" where
  "dev_admin email firstName lastName g =
     \<lparr>pa_email = email, pa_firstName = firstName, pa_lastName = lastName, pa_grant = g, pa_password = None\<rparr>"

definition DEV_TEST_ADMINS :: "platform_admin list" where
  "DEV_TEST_ADMINS =
     [dev_admin ''u@sa.io'' ''Users'' ''Admin'' (DirectGrant ''platform.users.manage''),
      dev_admin ''o@sa.io'' ''Orgs'' ''Admin'' (DirectGrant ''platform.orgs.manage''),
      dev_admin ''a@sa.io'' ''Apps'' ''Admin'' (DirectGrant ''platform.apps.manage''),
      dev_admin ''r@sa.io'' ''Roles'' ''Admin'' (DirectGrant ''platform.roles.manage''),
      dev_admin ''p@sa.io'' ''Perms'' ''Admin'' (DirectGrant ''platform.permissions.manage''),
      dev_admin ''s@sa.io'' ''Super'' ''Admin'' (RoleGrant SUPER_ADMIN_ROLE_NAME),
      dev_admin ''tfa@sa.io'' ''TwoFactor'' ''Test'' (DirectGrant ''platform.users.manage'')]"

definition PRODUCTION_ADMINS :: "seed_env \<Rightarrow> platform_admin list" where
  "PRODUCTION_ADMINS env =
     [\<lparr>pa_email = ''contact@milissai.com'', pa_firstName = ''MiLissAI'', pa_lastName = ''Super Admin'',
       pa_grant = RoleGrant SUPER_ADMIN_ROLE_NAME, pa_password = Some (se_random env)\<rparr>]"

definition PLATFORM_ADMINS :: "seed_env \<Rightarrow> platform_admin list" where
  "PLATFORM_ADMINS env = (if is_production (se_host env) then PRODUCTION_ADMINS env else DEV_TEST_ADMINS)"

definition ensure_platform_app :: "seed_env \<Rightarrow> (db, int) eff" where
  "ensure_platform_app env =
     ensure (\<lambda>d. find app_isPlatform (saApps d)) app_id
       (new_seed_app env ''SassyAuth''
          (seed_app [] [] (case h_env (se_host env) ''BETTER_AUTH_URL'' of None \<Rightarrow> ''https://localhost:3010'' | Some u \<Rightarrow> u) True))"

definition ensure_platform_org :: "seed_env \<Rightarrow> int \<Rightarrow> (db, int) eff" where
  "ensure_platform_org env appId =
     ensure (\<lambda>d. find org_isPlatform (saOrgs d)) org_id (new_seed_org env appId ''Platform'' True)"

text \<open>An existing permission may need its flag or its public id repaired, in one update.\<close>

definition seed_permission :: "seed_env \<Rightarrow> int \<Rightarrow> string \<Rightarrow> (db, unit) eff" where
  "seed_permission env appId n =
     (let isSystem = starts_with ''org.'' n in
      bindE (readE (\<lambda>d. perm_by_name d n)) (\<lambda>existing. case existing of
        None \<Rightarrow> discard (new_seed_permission env appId n isSystem)
      | Some p \<Rightarrow>
          (let needsSystemFix = perm_isSystem p \<noteq> isSystem;
               needsPublicIdFix = starts_with ''pending-'' (perm_publicId p) in
           if needsSystemFix \<or> needsPublicIdFix then
             discard (update_permission (perm_id p) (\<lambda>q.
               q\<lparr>perm_isSystem := if needsSystemFix then isSystem else perm_isSystem q,
                 perm_publicId := if needsPublicIdFix then sqid env (perm_id p) else perm_publicId q\<rparr>))
           else ret ())))"

definition ensurePlatformSuperAdminRole :: "seed_env \<Rightarrow> int \<Rightarrow> (db, int) eff" where
  "ensurePlatformSuperAdminRole env platformAppId =
     bindE (ensure (\<lambda>d. role_by_name d platformAppId SUPER_ADMIN_ROLE_NAME) role_id
              (new_seed_role env platformAppId SUPER_ADMIN_ROLE_NAME)) (\<lambda>roleId.
     bindE (readE (\<lambda>d. platform_perms d platformAppId)) (\<lambda>perms.
     thenE (for_each perms (upsert_role_permission roleId)) (ret roleId)))"

definition completeAdminSetup :: "seed_env \<Rightarrow> platform_admin \<Rightarrow> string \<Rightarrow> int \<Rightarrow> int \<Rightarrow> (db, unit) eff" where
  "completeAdminSetup env admin baUserId platformOrgId superAdminRoleId =
     thenE (discard (update_user baUserId (\<lambda>b. b\<lparr>usr_emailVerified := True\<rparr>)))
     (bindE (new_seed_user env baUserId platformOrgId (pa_firstName admin) (pa_lastName admin) None) (\<lambda>saUserId.
      case pa_grant admin of
        DirectGrant permission \<Rightarrow>
          bindE (findE (\<lambda>d. perm_by_name d permission) (JsError (''Permission not found: '' @ permission)))
            (\<lambda>perm. create_user_permissions saUserId [perm_id perm])
      | RoleGrant _ \<Rightarrow> create_user_roles saUserId [superAdminRoleId]))"

definition seedPlatformAdmin :: "seed_env \<Rightarrow> string \<Rightarrow> int \<Rightarrow> int \<Rightarrow> platform_admin \<Rightarrow> (db, unit) eff" where
  "seedPlatformAdmin env adminPassword platformOrgId superAdminRoleId admin =
     bindE (readE (\<lambda>d. user_by_email d (pa_email admin))) (\<lambda>existing. case existing of
       Some b \<Rightarrow>
         bindE (readE (\<lambda>d. sau_by_betterAuthUserId d (usr_id b))) (\<lambda>existingSaUser. case existingSaUser of
           Some _ \<Rightarrow> ret ()
         | None \<Rightarrow> completeAdminSetup env admin (usr_id b) platformOrgId superAdminRoleId)
     | None \<Rightarrow>
         bindE (ba_signUpEmail (se_auth env) (pa_email admin)
                  (case pa_password admin of None \<Rightarrow> adminPassword | Some p \<Rightarrow> p)
                  (pa_firstName admin @ '' '' @ pa_lastName admin)) (\<lambda>baUserId.
           completeAdminSetup env admin baUserId platformOrgId superAdminRoleId))"

definition seed_platform :: "seed_env \<Rightarrow> string \<Rightarrow> (db, unit) eff" where
  "seed_platform env adminPassword =
     bindE (ensure_platform_app env) (\<lambda>appId.
     bindE (ensure_platform_org env appId) (\<lambda>orgId.
     thenE (for_each PLATFORM_PERMISSIONS (seed_permission env appId))
     (bindE (ensurePlatformSuperAdminRole env appId) (\<lambda>roleId.
      for_each (PLATFORM_ADMINS env) (seedPlatformAdmin env adminPassword orgId roleId)))))"

section \<open>The demonstration data\<close>

type_synonym seed_state = "db \<times> provider_row list"

text \<open>The provider table lies beside the database (\<open>Social\<close>).\<close>

definition on_db :: "(db, 'a) eff \<Rightarrow> (seed_state, 'a) eff" where
  "on_db m = (\<lambda>(d, table). case m d of (r, d') \<Rightarrow> (r, (d', table)))"

definition RS_PERMISSIONS :: "string list" where
  "RS_PERMISSIONS =
     [''rs.properties.create'', ''rs.properties.read'', ''rs.properties.update'', ''rs.properties.delete'',
      ''rs.inspections.create'', ''rs.inspections.read'', ''rs.inspections.update'', ''rs.inspections.delete'']"

definition ROLE_PROPERTY_MANAGERS :: string where
  "ROLE_PROPERTY_MANAGERS = ''Citadel Property Managers''"

definition ROLE_INSPECTORS :: string where
  "ROLE_INSPECTORS = ''Citadel Inspectors''"

definition inspector_perms :: "string list" where
  "inspector_perms =
     [''rs.inspections.create'', ''rs.inspections.read'', ''rs.inspections.update'', ''rs.properties.read'',
      ''rs.properties.update'']"

text \<open>Address, first and last name, and whether a property manager or an inspector.\<close>

definition RS_USERS :: "(string \<times> string \<times> string \<times> bool) list" where
  "RS_USERS =
     [(''m@cpm.io'', ''Citadel'', ''Manager'', True), (''i@cpm.io'', ''Citadel'', ''Inspector'', False),
      (''tfa@cpm.io'', ''Citadel'', ''TwoFactor'', True), (''social@cpm.io'', ''Citadel'', ''Social'', True)]"

definition ensure_rs_user :: "seed_env \<Rightarrow> string \<Rightarrow> int \<Rightarrow> int \<Rightarrow> int \<Rightarrow> string \<times> string \<times> string \<times> bool \<Rightarrow> (db, unit) eff" where
  "ensure_rs_user env password orgId managers inspectors = (\<lambda>(email, firstName, lastName, manager).
     bindE (ensure_member env password email (firstName @ '' '' @ lastName) firstName lastName None orgId) (\<lambda>u.
       upsert_user_role u (if manager then managers else inspectors)))"

definition rs_rows :: "seed_env \<Rightarrow> string \<Rightarrow> (db, int) eff" where
  "rs_rows env password =
     bindE (ensure_app env ''resourceserver01''
       (seed_app [] [] (case h_env (se_host env) ''RS_APP_URL'' of
          None \<Rightarrow> ''https://cheryl-crescentlike-monte.ngrok-free.dev/'' | Some u \<Rightarrow> u) False)) (\<lambda>appId.
     bindE (ensure_org env appId ''Citadel'') (\<lambda>orgId.
     bindE (map_each RS_PERMISSIONS (ensure_permission env appId)) (\<lambda>ids.
     bindE (ensure_role env appId ROLE_PROPERTY_MANAGERS ids) (\<lambda>managers.
     bindE (ensure_role env appId ROLE_INSPECTORS
              (map (\<lambda>n. the (map_of (zip RS_PERMISSIONS ids) n)) inspector_perms)) (\<lambda>inspectors.
     thenE (for_each RS_USERS (ensure_rs_user env password orgId managers inspectors)) (ret appId))))))"

definition enable_stub :: "seed_env \<Rightarrow> int \<Rightarrow> (seed_state, unit) eff" where
  "enable_stub env appId =
     (if truthy (h_env (se_host env) ''E2E_STUB_IDP_URL'')
      then modifyE (\<lambda>(d, table). (d, upsert_provider appId ''stub'' True table)) else ret ())"

definition seedDemoResourceServer :: "seed_env \<Rightarrow> string \<Rightarrow> (seed_state, unit) eff" where
  "seedDemoResourceServer env password = bindE (on_db (rs_rows env password)) (enable_stub env)"

definition MT_PERMISSIONS :: "string list" where
  "MT_PERMISSIONS = [''contracts.read'', ''contracts.create'']"

text \<open>Address, names, whether in the first organisation, and whether its user administrator.\<close>

definition MT_USERS :: "(string \<times> string \<times> string \<times> bool \<times> bool) list" where
  "MT_USERS =
     [(''acme-admin@app01.io'', ''Acme'', ''Admin'', True, True), (''acme-alice@app01.io'', ''Acme'', ''Alice'', True, False),
      (''acme-bob@app01.io'', ''Acme'', ''Bob'', True, False), (''globex-admin@app01.io'', ''Globex'', ''Admin'', False, True),
      (''globex-gina@app01.io'', ''Globex'', ''Gina'', False, False), (''globex-greg@app01.io'', ''Globex'', ''Greg'', False, False)]"

definition ensure_mt_user ::
    "seed_env \<Rightarrow> string \<Rightarrow> int \<Rightarrow> int \<Rightarrow> int \<Rightarrow> string \<times> string \<times> string \<times> bool \<times> bool \<Rightarrow> (db, unit) eff" where
  "ensure_mt_user env password acme globex usersPerm = (\<lambda>(email, firstName, lastName, inAcme, systemPerm).
     bindE (ensure_member env password email (firstName @ '' '' @ lastName) firstName lastName None
              (if inAcme then acme else globex)) (\<lambda>u.
       if systemPerm then upsert_user_permission u usersPerm else ret ()))"

definition seedDemoMultitenant :: "seed_env \<Rightarrow> string \<Rightarrow> (db, unit) eff" where
  "seedDemoMultitenant env password =
     bindE (ensure_app env ''app01'' (seed_app [] [] ''http://localhost:4000'' False)) (\<lambda>appId.
     bindE (ensure_org env appId ''Acme'') (\<lambda>acme.
     bindE (ensure_org env appId ''Globex'') (\<lambda>globex.
     thenE (for_each MT_PERMISSIONS (\<lambda>n. discard (ensure_permission env appId n)))
     (bindE (findE (\<lambda>d. map_option perm_id (perm_by_name d ''org.users.manage''))
               (JsError ''seedDemoMultitenant requires org.users.manage to exist'')) (\<lambda>usersPerm.
      for_each MT_USERS (ensure_mt_user env password acme globex usersPerm))))))"

text \<open>The confidential client of the end-to-end tests; its secret is written on every run.\<close>

definition with_secret :: "seed_env \<Rightarrow> string \<Rightarrow> sa_app \<Rightarrow> sa_app" where
  "with_secret env secret a =
     a\<lparr>app_clientSecretHash := Some (se_hash env secret), app_clientSecretUpdatedAt := Some (se_now env)\<rparr>"

definition ensure_e2e_app :: "seed_env \<Rightarrow> string \<Rightarrow> (db, int) eff" where
  "ensure_e2e_app env secret =
     bindE (readE (\<lambda>d. app_by_name d ''E2E OIDC Client'')) (\<lambda>found. case found of
       Some a \<Rightarrow> bindE (update_app (app_id a) (with_secret env secret)) (\<lambda>b. ret (app_id b))
     | None \<Rightarrow> new_seed_app env ''E2E OIDC Client'' (with_secret env secret (seed_app [] [] ''http://localhost:3002'' False)))"

definition seedE2eOidcClient :: "seed_env \<Rightarrow> string \<Rightarrow> (db, unit) eff" where
  "seedE2eOidcClient env password =
     bindE (liftR (\<lambda>_. resolveSeedClientSecret (se_host env))) (\<lambda>secret.
     bindE (ensure_e2e_app env secret) (\<lambda>appId.
     thenE (upsert_redirect_uri appId ''http://localhost:3002/callback'' ''login'')
     (thenE (upsert_redirect_uri appId ''http://localhost:3002/bye'' ''post_logout'')
     (bindE (ensure_org env appId ''E2E OIDC Org'') (\<lambda>orgId.
      discard (ensure_member env password ''oidc-e2e@sa.io'' ''E2E OIDC User'' ''E2E'' ''OIDC'' None orgId))))))"

text \<open>\<open>main\<close>, with the password that the modules resolve when they are loaded.\<close>

definition seed_flag :: "seed_env \<Rightarrow> string \<Rightarrow> bool" where
  "seed_flag env k \<longleftrightarrow> h_env (se_host env) k = Some ''1''"

definition seed_main :: "seed_env \<Rightarrow> (seed_state, unit) eff" where
  "seed_main env =
     bindE (liftR (\<lambda>_. resolveSeedPassword (se_host env))) (\<lambda>password.
     thenE (on_db (seed_platform env password))
     (thenE (if seed_flag env ''SEED_DEMO'' then seedDemoResourceServer env password else ret ())
     (thenE (if seed_flag env ''SEED_DEMO_MULTITENANT'' then on_db (seedDemoMultitenant env password) else ret ())
       (if seed_flag env ''SEED_E2E_OIDC'' then on_db (seedE2eOidcClient env password) else ret ()))))"

section \<open>What is found again\<close>

text \<open>
  What is expected of the libraries: signing up adds the account to the tables and removes nothing, and a
  sqid, a word of the configured alphabet of letters and digits, has no dash.
\<close>

definition sign_up_adds :: "better_auth \<Rightarrow> bool" where
  "sign_up_adds ba \<longleftrightarrow>
     (\<forall>e p n d i t. db_ok d \<longrightarrow> user_by_email d e = None \<longrightarrow> ba_signUpEmail ba e p n d = (Inr i, t) \<longrightarrow>
        db_ok t \<and> appended d t \<and> saPermissions t = saPermissions d \<and> map_option usr_id (user_by_email t e) = Some i)"

definition sqids_plain :: "host \<Rightarrow> bool" where
  "sqids_plain h \<longleftrightarrow> (\<forall>i. CHR ''-'' \<notin> set (h_sqid_encode h i))"

lemma sqid_no_placeholder: "sqids_plain (se_host env) \<Longrightarrow> \<not> starts_with ''pending-'' (sqid env i)"
  using in_set_takeD[of "CHR ''-''" "length ''pending-''" "sqid env i"]
  by (auto simp: sqids_plain_def starts_with_def sqid_def)

lemma grows_lookups:
  assumes "grows d t"
  shows "app_by_name d n = Some a \<Longrightarrow> \<exists>b. app_by_name t n = Some b \<and> app_kept a b"
    "app_by_id d i = Some a \<Longrightarrow> \<exists>b. app_by_id t i = Some b \<and> app_kept a b"
    "find app_isPlatform (saApps d) = Some a \<Longrightarrow> \<exists>b. find app_isPlatform (saApps t) = Some b \<and> app_kept a b"
    "org_by_name d i n = Some g \<Longrightarrow> \<exists>e. org_by_name t i n = Some e \<and> org_id e = org_id g"
    "find org_isPlatform (saOrgs d) = Some g \<Longrightarrow> \<exists>e. find org_isPlatform (saOrgs t) = Some e \<and> org_id e = org_id g"
    "perm_by_name d n = Some p \<Longrightarrow> \<exists>q. perm_by_name t n = Some q \<and> perm_kept p q"
    "role_by_name d i n = Some r \<Longrightarrow> \<exists>s. role_by_name t i n = Some s \<and> role_id s = role_id r"
    "user_by_email d n = Some u \<Longrightarrow> \<exists>v. user_by_email t n = Some v \<and> usr_id v = usr_id u"
    "sau_by_betterAuthUserId d n = Some x \<Longrightarrow> \<exists>y. sau_by_betterAuthUserId t n = Some y \<and> sau_id y = sau_id x"
  using assms unfolding grows_def app_by_name_def app_by_id_def org_by_name_def perm_by_name_def role_by_name_def
    user_by_email_def sau_by_betterAuthUserId_def same_def[symmetric]
  by - (elim conjE, rule found_againD, (erule bspec, rule searches), assumption)+

section \<open>Creating a row\<close>

lemma advances_renames [advances_intros]:
  "advances db_ok quiet (update_app i (\<lambda>a. a\<lparr>app_publicId := pid\<rparr>))"
  "advances db_ok quiet (update_org i (\<lambda>g. g\<lparr>org_publicId := pid\<rparr>))"
  "advances db_ok quiet (update_role i (\<lambda>r. r\<lparr>role_publicId := pid\<rparr>))"
  "advances db_ok quiet (update_user b (\<lambda>u. u\<lparr>usr_emailVerified := True\<rparr>))"
  by (auto intro!: advances_update_app advances_update_org advances_update_role advances_update_user simp: app_kept_def)

lemma advances_rename_permission:
  assumes "\<not> starts_with ''pending-'' pid"
  shows "advances db_ok quiet (update_permission i (\<lambda>p. p\<lparr>perm_publicId := pid\<rparr>))"
proof (rule advancesI)
  show "keeps db_ok (update_permission i (\<lambda>p. p\<lparr>perm_publicId := pid\<rparr>))" by (rule keeps_update_permission) simp
  fix s a t assume ok: "db_ok s" and run: "update_permission i (\<lambda>p. p\<lparr>perm_publicId := pid\<rparr>) s = (Inr a, t)"
  then obtain x where "perm_by_id s i = Some x" by (auto simp: update_permission_def split: option.splits)
  from update_permission_quiet[OF ok run this] assms show "quiet s t"
    by (simp add: perm_kept_def has_placeholder_def right_system_flag_def)
qed

lemma updates_keep_number:
  "update_app i (\<lambda>a. a\<lparr>app_publicId := pid\<rparr>) s = (Inr r, t) \<Longrightarrow> app_id r = i"
  "update_org i (\<lambda>a. a\<lparr>org_publicId := pid\<rparr>) s = (Inr e, t) \<Longrightarrow> org_id e = i"
  "update_permission i (\<lambda>a. a\<lparr>perm_publicId := pid\<rparr>) s = (Inr p, t) \<Longrightarrow> perm_id p = i"
  "update_role i (\<lambda>a. a\<lparr>role_publicId := pid\<rparr>) s = (Inr l, t) \<Longrightarrow> role_id l = i"
  "rename_sa_user i pid s = (Inr u, t) \<Longrightarrow> sau_id u = i"
  by (auto simp: update_app_def update_org_def update_permission_def update_role_def rename_sa_user_def Let_def
      split: option.splits if_splits dest: lookup_sound)

lemma advances_createWithPublicId:
  assumes "\<And>i j. advances db_ok quiet (update i (sqid env j))"
  shows "advances db_ok quiet create \<Longrightarrow> advances db_ok quiet (createWithPublicId env create key update)"
    "advances db_ok grows create \<Longrightarrow> advances db_ok grows (createWithPublicId env create key update)"
  unfolding createWithPublicId_def using assms
  by (intro quiet.advances_transaction quiet.advances_bind quiet.advances_idle growth.advances_transaction
      growth.advances_bind growth.advances_idle; auto intro: advances_weaken quiet_grows)+

text \<open>The row just made is the one the lookup now finds, under the number returned.\<close>

lemma createWithPublicId_finds:
  assumes run: "createWithPublicId env create key update s = (Inr i, t)" and ok: "db_ok s" and create: "advances db_ok R create"
    and made: "\<And>x s'. create s = (Inr x, s') \<Longrightarrow> \<exists>r. look s' = Some r \<and> key r = key x"
    and update: "\<And>i j. advances db_ok quiet (update i (sqid env j))" "\<And>i p a b r. update i p a = (Inr r, b) \<Longrightarrow> key r = i"
    and again: "\<And>a b r. quiet a b \<Longrightarrow> look a = Some r \<Longrightarrow> \<exists>r'. look b = Some r' \<and> key r' = key r"
  shows "\<exists>r. look t = Some r \<and> key r = i"
proof -
  from run obtain x s' r where steps: "create s = (Inr x, s')" "update (key x) (sqid env (key x)) s' = (Inr r, t)" "i = key r"
    by (auto simp: createWithPublicId_def eff_simps)
  have "quiet s' t" using create update(1) ok steps(1,2) unfolding advances_def by blast
  moreover obtain q where "look s' = Some q" "key q = key x" using made[OF steps(1)] by blast
  ultimately show ?thesis using again update(2)[OF steps(2)] steps(3) by metis
qed

lemma advances_new_rows [advances_intros]:
  "advances db_ok quiet (new_seed_app env n row)" "advances db_ok quiet (new_seed_org env k n plat)"
  "advances db_ok quiet (new_seed_role env k n)" "advances db_ok quiet (new_seed_user env b g f l un)"
  by (simp_all add: new_seed_app_def new_seed_org_def new_seed_role_def new_seed_user_def
      advances_createWithPublicId advances_intros)

lemma advances_new_permission:
  assumes "sqids_plain (se_host env)"
  shows "advances db_ok grows (new_seed_permission env k n sys)"
    "\<not> starts_with ''platform.'' n \<Longrightarrow> advances db_ok quiet (new_seed_permission env k n sys)"
  by (simp_all add: new_seed_permission_def advances_createWithPublicId advances_rename_permission
      sqid_no_placeholder[OF assms] advances_create_permission)

lemma untaken_snoc: "\<not> taken key xs r \<Longrightarrow> (\<And>x. sel x \<longleftrightarrow> key x = key r) \<Longrightarrow> find sel (xs @ [r]) = Some r"
  by (auto simp: taken_def find_snoc find_None_all split: option.splits dest!: find_Some_iff) (metis image_eqI)

lemma created_rows_found:
  "create_app a s = (Inr x, t) \<Longrightarrow> app_by_name t (app_name a) = Some x"
  "create_org g s = (Inr y, t) \<Longrightarrow> org_by_name t (org_appId g) (org_name g) = Some y"
  "create_role l s = (Inr z, t) \<Longrightarrow> role_by_name t (role_appId l) (role_name l) = Some z"
  "create_permission p s = (Inr q, t) \<Longrightarrow> perm_by_name t (perm_name p) = Some q"
  "create_sa_user u s = (Inr v, t) \<Longrightarrow> sau_by_betterAuthUserId t (sau_betterAuthUserId u) = Some v"
  by (auto simp: create_app_def create_org_def create_role_def create_permission_def create_sa_user_def Let_def
      app_by_name_def org_by_name_def role_by_name_def perm_by_name_def sau_by_betterAuthUserId_def
      split: if_splits intro!: untaken_snoc)

lemma created_platform_found:
  "create_app a s = (Inr x, t) \<Longrightarrow> app_isPlatform a \<Longrightarrow> find app_isPlatform (saApps s) = None \<Longrightarrow>
     find app_isPlatform (saApps t) = Some x"
  "create_org g s = (Inr y, t) \<Longrightarrow> org_isPlatform g \<Longrightarrow> find org_isPlatform (saOrgs s) = None \<Longrightarrow>
     find org_isPlatform (saOrgs t) = Some y"
  by (auto simp: create_app_def create_org_def Let_def find_snoc split: if_splits)

text \<open>The app and the organisation of the platform are looked for in another way.\<close>

lemma new_app_found:
  assumes "db_ok s" "new_seed_app env n row s = (Inr i, t)"
  shows "\<exists>r. app_by_name t n = Some r \<and> app_id r = i"
    "app_isPlatform row \<Longrightarrow> find app_isPlatform (saApps s) = None \<Longrightarrow>
       \<exists>r. find app_isPlatform (saApps t) = Some r \<and> app_id r = i"
proof -
  note found = createWithPublicId_finds[OF assms(2)[unfolded new_seed_app_def] assms(1) advances_create(8) _
      advances_renames(1) updates_keep_number(1)]
  show "\<exists>r. app_by_name t n = Some r \<and> app_id r = i"
    by (rule found) (auto dest: created_rows_found(1) grows_lookups(1)[OF quiet_grows] simp: app_kept_def)
  show "\<exists>r. find app_isPlatform (saApps t) = Some r \<and> app_id r = i"
    if "app_isPlatform row" "find app_isPlatform (saApps s) = None"
    by (rule found) (use that in \<open>auto dest: created_platform_found(1) grows_lookups(3)[OF quiet_grows] simp: app_kept_def\<close>)
qed

lemma new_org_found:
  assumes "db_ok s" "new_seed_org env k n plat s = (Inr i, t)"
  shows "\<exists>r. org_by_name t k n = Some r \<and> org_id r = i"
    "plat \<Longrightarrow> find org_isPlatform (saOrgs s) = None \<Longrightarrow> \<exists>r. find org_isPlatform (saOrgs t) = Some r \<and> org_id r = i"
proof -
  note found = createWithPublicId_finds[OF assms(2)[unfolded new_seed_org_def] assms(1) advances_create(7) _
      advances_renames(2) updates_keep_number(2)]
  show "\<exists>r. org_by_name t k n = Some r \<and> org_id r = i"
    by (rule found) (auto dest: created_rows_found(2) grows_lookups(4)[OF quiet_grows])
  show "\<exists>r. find org_isPlatform (saOrgs t) = Some r \<and> org_id r = i" if plat "find org_isPlatform (saOrgs s) = None"
    by (rule found) (use that in \<open>auto dest: created_platform_found(2) grows_lookups(5)[OF quiet_grows]\<close>)
qed

lemma new_role_found:
  assumes "db_ok s" "new_seed_role env k n s = (Inr i, t)"
  shows "\<exists>r. role_by_name t k n = Some r \<and> role_id r = i"
  by (rule createWithPublicId_finds[OF assms(2)[unfolded new_seed_role_def] assms(1) advances_create(5) _
      advances_renames(3) updates_keep_number(4)])
    (auto dest: created_rows_found(3) grows_lookups(7)[OF quiet_grows])

lemma new_permission_found:
  assumes "db_ok s" "sqids_plain (se_host env)" "new_seed_permission env k n sys s = (Inr i, t)"
  shows "\<exists>r. perm_by_name t n = Some r \<and> perm_id r = i"
  by (rule createWithPublicId_finds[OF assms(3)[unfolded new_seed_permission_def] assms(1) advances_create_permission(1) _
      advances_rename_permission[OF sqid_no_placeholder[OF assms(2)]] updates_keep_number(3)])
    (auto dest: created_rows_found(4) grows_lookups(6)[OF quiet_grows] simp: perm_kept_def)

lemma new_user_found:
  assumes "db_ok s" "new_seed_user env b g f l un s = (Inr i, t)"
  shows "\<exists>r. sau_by_betterAuthUserId t b = Some r \<and> sau_id r = i"
  by (rule createWithPublicId_finds[OF assms(2)[unfolded new_seed_user_def] assms(1) advances_create(2) _
      advances_rename_sa_user updates_keep_number(5)])
    (auto dest: created_rows_found(5) grows_lookups(9)[OF quiet_grows] simp: seed_sa_user_def)

section \<open>Steps that settle\<close>

text \<open>The usual step adds rows and tolerates that others do; a run with another environment takes its place.\<close>

abbreviation sound :: "(db, 'a) eff \<Rightarrow> (db, 'a) eff \<Rightarrow> bool" where
  "sound \<equiv> settles db_ok quiet grows"

lemma grows_after_quiet: "quiet s t \<Longrightarrow> grows t u \<Longrightarrow> grows s u"
  using growth.trans quiet_grows by blast

lemmas sound_bind = quiet.settles_seq[where S = grows, OF _ _ grows_after_quiet]
  and sound_then = quiet.settles_then[where S = grows, OF _ _ grows_after_quiet]
  and sound_for_each = quiet.settles_for_each[where S = grows, OF _ grows_after_quiet]
  and sound_map_each = quiet.settles_list[where S = grows, OF _ grows_after_quiet]
  and sound_ret = quiet.settles_ret[where S = grows]

lemma sound_discard: "sound m m' \<Longrightarrow> sound (discard m) (discard m')"
  unfolding discard_def by (rule sound_bind, assumption, rule sound_ret)

lemma sound_ensure:
  assumes "advances db_ok quiet create"
    "\<And>s i t. db_ok s \<Longrightarrow> look s = None \<Longrightarrow> create s = (Inr i, t) \<Longrightarrow> \<exists>r. look t = Some r \<and> key r = i"
    "\<And>t u r. grows t u \<Longrightarrow> look t = Some r \<Longrightarrow> \<exists>r'. look u = Some r' \<and> key r' = key r"
  shows "sound (ensure look key create) (ensure look key create')"
proof (rule settles_done[where there = "\<lambda>i t. \<exists>r. look t = Some r \<and> key r = i"])
  show "advances db_ok quiet (ensure look key create)"
    unfolding advances_def
  proof (intro allI impI)
    fix s i t assume s: "db_ok s" and run: "ensure look key create s = (Inr i, t)"
    show "db_ok t \<and> quiet s t"
    proof (cases "look s")
      case None
      with run have "create s = (Inr i, t)" by (simp add: ensure_def)
      then show ?thesis using assms(1) s unfolding advances_def by blast
    qed (use run s in \<open>auto simp: ensure_def quiet.idle\<close>)
  qed
  show "\<exists>r. look t = Some r \<and> key r = i" if "db_ok s" "ensure look key create s = (Inr i, t)" for s i t
    using that assms(2) by (cases "look s") (auto simp: ensure_def)
  show "\<exists>r. look u = Some r \<and> key r = i" if "\<exists>r. look t = Some r \<and> key r = i" "grows t u" for i t u
    using that assms(3) by blast
  show "ensure look key create' u = (Inr i, u)" if "\<exists>r. look u = Some r \<and> key r = i" for i u
    using that by (auto simp: ensure_def)
qed

lemma sound_ensure_app: "sound (ensure_app env n row) (ensure_app env' n row')"
  unfolding ensure_app_def
  by (rule sound_ensure) (auto intro: advances_intros new_app_found(1) dest: grows_lookups(1) simp: app_kept_def)

lemma sound_ensure_org: "sound (ensure_org env k n) (ensure_org env' k n)"
  unfolding ensure_org_def
  by (rule sound_ensure) (auto intro: advances_intros new_org_found(1) dest: grows_lookups(4))

lemma sound_ensure_permission:
  assumes "sqids_plain (se_host env)" "\<not> starts_with ''platform.'' n"
  shows "sound (ensure_permission env k n) (ensure_permission env' k n)"
  unfolding ensure_permission_def using assms
  by (intro sound_ensure)
    (auto intro: advances_new_permission(2) new_permission_found dest: grows_lookups(6) simp: perm_kept_def)

lemma advances_if_there: "advances db_ok quiet m \<Longrightarrow> advances db_ok quiet (\<lambda>d. if P d then (Inr (), d) else m d)"
  by (auto simp: advances_def quiet.idle)

lemma sound_upserts:
  "sound (upsert_role_permission r p) (upsert_role_permission r p)"
  "sound (upsert_user_role u r) (upsert_user_role u r)"
  "sound (upsert_user_permission u p) (upsert_user_permission u p)"
  "sound (upsert_redirect_uri i uri kind) (upsert_redirect_uri i uri kind)"
proof -
  show "sound (upsert_role_permission r p) (upsert_role_permission r p)"
    by (rule settles_done[where there = "\<lambda>_ t. (r, p) \<in> set (saRolePermissions t)"])
      (auto simp: upsert_role_permission_def grows_def create_role_permissions_def Let_def
        intro!: advances_if_there advances_intros split: if_splits)
  show "sound (upsert_user_role u r) (upsert_user_role u r)"
    by (rule settles_done[where there = "\<lambda>_ t. (u, r) \<in> set (saUserRoles t)"])
      (auto simp: upsert_user_role_def grows_def create_user_roles_def Let_def
        intro!: advances_if_there advances_intros split: if_splits)
  show "sound (upsert_user_permission u p) (upsert_user_permission u p)"
    by (rule settles_done[where there = "\<lambda>_ t. (u, p) \<in> set (saUserPermissions t)"])
      (auto simp: upsert_user_permission_def grows_def create_user_permissions_def Let_def
        intro!: advances_if_there advances_intros split: if_splits)
  show "sound (upsert_redirect_uri i uri kind) (upsert_redirect_uri i uri kind)"
    by (rule settles_done[where there = "\<lambda>_ t. (i, uri, kind) \<in> redirect_keys t"])
      (auto simp: upsert_redirect_uri_def grows_def create_redirect_uris_def redirect_keys_def list_ex_iff image_iff
        intro!: advances_if_there advances_intros split: if_splits)
qed

lemma sound_ensure_role: "sound (ensure_role env k n ids) (ensure_role env' k n ids)"
  unfolding ensure_role_def
  by (intro sound_bind sound_then sound_for_each sound_ret sound_upserts, rule sound_ensure)
    (auto intro: advances_intros new_role_found dest: grows_lookups(7))

lemma sign_up_found:
  assumes "sign_up_adds ba" "db_ok d" "user_by_email d e = None" "ba_signUpEmail ba e p n d = (Inr i, t)"
  shows "db_ok t" "quiet d t" "\<exists>b. user_by_email t e = Some b \<and> usr_id b = i"
  using assms unfolding sign_up_adds_def by (auto intro: quiet_appended)

lemma sound_ensure_account:
  assumes "sign_up_adds (se_auth env)"
  shows "sound (ensure_account env pw email nm) (ensure_account env' pw' email nm)"
proof (rule settles_done[where there = "\<lambda>i t. \<exists>b. user_by_email t email = Some b \<and> usr_id b = i"])
  have made: "db_ok t \<and> quiet s t \<and> (\<exists>b. user_by_email t email = Some b \<and> usr_id b = i)"
    if s: "db_ok s" and run: "ensure_account env pw email nm s = (Inr i, t)" for s i t
  proof (cases "user_by_email s email")
    case None
    with run obtain s' v where up: "ba_signUpEmail (se_auth env) email pw nm s = (Inr i, s')"
      and upd: "update_user i (\<lambda>b. b\<lparr>usr_emailVerified := True\<rparr>) s' = (Inr v, t)"
      by (auto simp: ensure_account_def discard_def eff_simps)
    note s' = sign_up_found[OF assms s None up]
    have t: "db_ok t" "quiet s' t" using advances_renames(4) s'(1) upd unfolding advances_def by blast+
    then show ?thesis using s' quiet.trans grows_lookups(8)[OF quiet_grows] by metis
  qed (use run s in \<open>auto simp: ensure_account_def quiet.idle\<close>)
  then show "advances db_ok quiet (ensure_account env pw email nm)"
    and "\<And>s i t. db_ok s \<Longrightarrow> ensure_account env pw email nm s = (Inr i, t) \<Longrightarrow> \<exists>b. user_by_email t email = Some b \<and> usr_id b = i"
    unfolding advances_def by blast+
  show "\<exists>b. user_by_email u email = Some b \<and> usr_id b = i"
    if "\<exists>b. user_by_email t email = Some b \<and> usr_id b = i" "grows t u" for i t u
    using that grows_lookups(8) by blast
qed (auto simp: ensure_account_def)

lemma sound_ensure_member:
  assumes "sign_up_adds (se_auth env)"
  shows "sound (ensure_member env pw email nm f l un k) (ensure_member env' pw' email nm f l un k)"
  unfolding ensure_member_def
  by (intro sound_bind sound_ensure_account[OF assms], rule sound_ensure)
    (auto intro: advances_intros new_user_found dest: grows_lookups(9))

section \<open>The platform settles\<close>

lemma sound_platform_rows:
  "sound (ensure_platform_app env) (ensure_platform_app env')"
  "sound (ensure_platform_org env k) (ensure_platform_org env' k)"
proof -
  show "sound (ensure_platform_app env) (ensure_platform_app env')"
    unfolding ensure_platform_app_def
    by (rule sound_ensure)
      (auto intro: advances_intros new_app_found(2)[where n = "''SassyAuth''"] dest: grows_lookups(3)
        simp: app_kept_def seed_app_def)
  show "sound (ensure_platform_org env k) (ensure_platform_org env' k)"
    unfolding ensure_platform_org_def
    by (rule sound_ensure)
      (auto intro: advances_intros new_org_found(2)[where n = "''Platform''" and plat = True] dest: grows_lookups(5))
qed

text \<open>A permission in order has the right flag and a public id of its own.\<close>

definition in_order :: "sa_permission \<Rightarrow> bool" where
  "in_order p \<longleftrightarrow> right_system_flag p \<and> \<not> has_placeholder p"

lemma in_order_kept: "perm_kept p q \<Longrightarrow> in_order p \<Longrightarrow> in_order q"
  by (simp add: perm_kept_def in_order_def)

lemma updated_permission_row:
  "update_permission i f s = (Inr r, t) \<Longrightarrow> q \<in> set (saPermissions t) \<Longrightarrow> perm_id q = i \<Longrightarrow> q = r"
  by (auto simp: update_permission_def Let_def set_replace_row split: option.splits if_splits)

lemma perm_by_name_sound: "perm_by_name d n = Some p \<Longrightarrow> p \<in> set (saPermissions d) \<and> perm_name p = n"
  unfolding perm_by_name_def by (blast dest: find_Some_iff)

lemma new_permission_in_order:
  assumes "db_ok s" "sqids_plain (se_host env)" "new_seed_permission env k n (starts_with ''org.'' n) s = (Inr i, t)"
  shows "\<exists>p. perm_by_name t n = Some p \<and> in_order p"
proof -
  let ?row = "\<lparr>perm_id = 0, perm_publicId = pendingId env n, perm_name = n, perm_appId = k, perm_isSystem = starts_with ''org.'' n\<rparr>"
  obtain x s' r where made: "create_permission ?row s = (Inr x, s')"
    and named: "update_permission (perm_id x) (\<lambda>p. p\<lparr>perm_publicId := sqid env (perm_id x)\<rparr>) s' = (Inr r, t)"
    using assms(3) by (auto simp: new_seed_permission_def createWithPublicId_def eff_simps)
  have s': "db_ok s'" using advances_create_permission(1) assms(1) made unfolding advances_def by blast
  have "quiet s' t"
    using advances_rename_permission[OF sqid_no_placeholder[OF assms(2)]] s' named unfolding advances_def by blast
  moreover have x: "perm_by_name s' n = Some x" "right_system_flag x"
    using created_rows_found(4)[OF made] made
    by (auto simp: create_permission_def Let_def right_system_flag_def split: if_splits)
  ultimately obtain q where q: "perm_by_name t n = Some q" "perm_kept x q"
    using grows_lookups(6)[OF quiet_grows] by blast
  then have "q = r"
    using updated_permission_row[OF named] perm_by_name_sound[OF q(1)] by (simp add: perm_kept_def)
  moreover have "\<not> has_placeholder r"
    using named sqid_no_placeholder[OF assms(2)]
    by (auto simp: update_permission_def has_placeholder_def Let_def split: option.splits if_splits)
  ultimately show ?thesis using q x(2) by (auto simp: in_order_def perm_kept_def)
qed

lemma seed_permission_effect:
  assumes plain: "sqids_plain (se_host env)" and s: "db_ok s" and run: "seed_permission env k n s = (Inr (), t)"
  shows "db_ok t" "grows s t" "\<exists>p. perm_by_name t n = Some p \<and> in_order p"
proof -
  have "db_ok t \<and> grows s t \<and> (\<exists>p. perm_by_name t n = Some p \<and> in_order p)"
  proof (cases "perm_by_name s n")
    case None
    with run obtain i where new: "new_seed_permission env k n (starts_with ''org.'' n) s = (Inr i, t)"
      by (auto simp: seed_permission_def Let_def discard_def eff_simps)
    show ?thesis
      using advances_new_permission(1)[OF plain] s new new_permission_in_order[OF s plain new]
      unfolding advances_def by blast
  next
    case (Some p)
    note p = perm_by_name_sound[OF Some]
    show ?thesis
    proof (cases "in_order p")
      case True
      then have "t = s"
        using run Some p by (auto simp: seed_permission_def Let_def in_order_def right_system_flag_def has_placeholder_def)
      then show ?thesis using s Some True by (simp add: growth.idle)
    next
      case False
      let ?f = "\<lambda>q. q\<lparr>perm_isSystem := if perm_isSystem p \<noteq> starts_with ''org.'' n then starts_with ''org.'' n else perm_isSystem q,
                 perm_publicId := if starts_with ''pending-'' (perm_publicId p) then sqid env (perm_id p) else perm_publicId q\<rparr>"
      obtain r where upd: "update_permission (perm_id p) ?f s = (Inr r, t)"
        using run Some p False
        by (auto simp: seed_permission_def Let_def in_order_def right_system_flag_def has_placeholder_def discard_def
            eff_simps split: if_splits)
      have id: "perm_by_id s (perm_id p) = Some p" using lookup_complete(9) p s by (simp add: db_ok_def)
      have fp: "in_order (?f p)" "perm_kept p (?f p)"
        using p sqid_no_placeholder[OF plain]
        by (auto simp: in_order_def right_system_flag_def has_placeholder_def perm_kept_def)
      have "quiet s t" by (rule update_permission_quiet[OF s upd id _ fp(2)]) simp
      moreover from this obtain q where q: "perm_by_name t n = Some q" "perm_kept p q"
        using grows_lookups(6)[OF quiet_grows] Some by blast
      moreover have "r = ?f p" using upd id by (auto simp: update_permission_def Let_def split: if_splits)
      ultimately have "q = ?f p"
        using updated_permission_row[OF upd] perm_by_name_sound[OF q(1)] unfolding perm_kept_def by blast
      then have "in_order q" using fp(1) by simp
      moreover have "db_ok t" using keepsD[OF keeps_update_permission s upd] by simp
      ultimately show ?thesis using q(1) \<open>quiet s t\<close> quiet_grows by blast
    qed
  qed
  then show "db_ok t" "grows s t" "\<exists>p. perm_by_name t n = Some p \<and> in_order p" by blast+
qed

lemma settles_seed_permission:
  assumes "sqids_plain (se_host env)"
  shows "settles db_ok grows grows (seed_permission env k n) (seed_permission env' k n)"
proof (rule settles_done[where there = "\<lambda>_ t. \<exists>p. perm_by_name t n = Some p \<and> in_order p"])
  show "advances db_ok grows (seed_permission env k n)"
    by (auto simp: advances_def intro: seed_permission_effect[OF assms])
  show "\<exists>p. perm_by_name t n = Some p \<and> in_order p" if "db_ok s" "seed_permission env k n s = (Inr a, t)" for s a t
    using seed_permission_effect(3)[OF assms] that by simp
  show "\<exists>p. perm_by_name u n = Some p \<and> in_order p" if "\<exists>p. perm_by_name t n = Some p \<and> in_order p" "grows t u" for t u
    using that grows_lookups(6) in_order_kept by meson
  show "seed_permission env' k n u = (Inr a, u)" if "\<exists>p. perm_by_name u n = Some p \<and> in_order p" for a u
    using that by (auto simp: seed_permission_def Let_def in_order_def right_system_flag_def has_placeholder_def
        dest: perm_by_name_sound)
qed

lemma settles_super_admin_role:
  "settles db_ok quiet quiet (ensurePlatformSuperAdminRole env k) (ensurePlatformSuperAdminRole env' k)"
proof -
  have role: "sound (ensure (\<lambda>d. role_by_name d k SUPER_ADMIN_ROLE_NAME) role_id (new_seed_role env k SUPER_ADMIN_ROLE_NAME))
      (ensure (\<lambda>d. role_by_name d k SUPER_ADMIN_ROLE_NAME) role_id (new_seed_role env' k SUPER_ADMIN_ROLE_NAME))"
    by (rule sound_ensure) (auto intro: advances_intros new_role_found dest: grows_lookups(7))
  have wire: "settles db_ok quiet quiet (thenE (for_each ps (upsert_role_permission r)) (ret r))
      (thenE (for_each ps (upsert_role_permission r)) (ret r))" for ps r
    by (rule settles_weaken[OF sound_then[OF sound_for_each[OF sound_upserts(1)] sound_ret]]) (auto intro: quiet_grows)
  show ?thesis
    unfolding ensurePlatformSuperAdminRole_def
    by (rule quiet.settles_seq[OF settles_weaken[OF role] quiet.settles_seq[OF quiet.settles_read wire]])
      (auto intro: quiet_grows quiet.trans growth.trans simp: quiet_def)
qed

lemma admin_setup_effect:
  assumes "db_ok s" "completeAdminSetup env a b k r s = (Inr (), t)"
  shows "db_ok t" "quiet s t" "\<exists>u. sau_by_betterAuthUserId t b = Some u"
proof -
  obtain v s1 i s2 where steps: "update_user b (\<lambda>u. u\<lparr>usr_emailVerified := True\<rparr>) s = (Inr v, s1)"
    "new_seed_user env b k (pa_firstName a) (pa_lastName a) None s1 = (Inr i, s2)"
    and last: "(case pa_grant a of
        DirectGrant permission \<Rightarrow>
          bindE (findE (\<lambda>d. perm_by_name d permission) (JsError (''Permission not found: '' @ permission)))
            (\<lambda>perm. create_user_permissions i [perm_id perm])
      | RoleGrant _ \<Rightarrow> create_user_roles i [r]) s2 = (Inr (), t)"
    using assms(2) by (auto simp: completeAdminSetup_def discard_def eff_simps)
  have s1: "db_ok s1" "quiet s s1" using advances_renames(4) assms(1) steps(1) unfolding advances_def by blast+
  have s2: "db_ok s2" "quiet s1 s2" using advances_new_rows(4) s1(1) steps(2) unfolding advances_def by blast+
  have t: "db_ok t \<and> quiet s2 t"
  proof (cases "pa_grant a")
    case (DirectGrant p)
    then obtain q where "create_user_permissions i [q] s2 = (Inr (), t)" using last by (auto simp: eff_simps)
    then show ?thesis using advances_create(4) s2(1) unfolding advances_def by blast
  qed (use last s2(1) advances_create(3) in \<open>auto simp: advances_def\<close>)
  then show "db_ok t" "quiet s t" using s1(2) s2(2) quiet.trans by blast+
  show "\<exists>u. sau_by_betterAuthUserId t b = Some u"
    using new_user_found[OF s1(1) steps(2)] grows_lookups(9)[OF quiet_grows] t by blast
qed

lemma sound_platform_admin:
  assumes "sign_up_adds (se_auth env)" "pa_email a' = pa_email a"
  shows "sound (seedPlatformAdmin env pw k r a) (seedPlatformAdmin env' pw' k r a')"
proof (rule settles_done[where there = "\<lambda>_ t. \<exists>b u. user_by_email t (pa_email a) = Some b \<and> sau_by_betterAuthUserId t (usr_id b) = Some u"])
  let ?there = "\<lambda>t. \<exists>b u. user_by_email t (pa_email a) = Some b \<and> sau_by_betterAuthUserId t (usr_id b) = Some u"
  have made: "db_ok t \<and> quiet s t \<and> ?there t"
    if s: "db_ok s" and run: "seedPlatformAdmin env pw k r a s = (Inr (), t)" for s t
  proof (cases "user_by_email s (pa_email a)")
    case None
    with run obtain i s' where up: "ba_signUpEmail (se_auth env) (pa_email a) (case pa_password a of None \<Rightarrow> pw | Some p \<Rightarrow> p)
        (pa_firstName a @ '' '' @ pa_lastName a) s = (Inr i, s')" and rest: "completeAdminSetup env a i k r s' = (Inr (), t)"
      by (auto simp: seedPlatformAdmin_def eff_simps)
    note s' = sign_up_found[OF assms(1) s None up] and t = admin_setup_effect[OF sign_up_found(1)[OF assms(1) s None up] rest]
    show ?thesis using s' t quiet.trans grows_lookups(8)[OF quiet_grows[OF t(2)]] by metis
  next
    case (Some b)
    show ?thesis
    proof (cases "sau_by_betterAuthUserId s (usr_id b)")
      case None
      then have "completeAdminSetup env a (usr_id b) k r s = (Inr (), t)" using run Some by (simp add: seedPlatformAdmin_def)
      from admin_setup_effect[OF s this] show ?thesis using grows_lookups(8)[OF quiet_grows Some] by metis
    qed (use run Some s in \<open>auto simp: seedPlatformAdmin_def quiet.idle\<close>)
  qed
  then show "advances db_ok quiet (seedPlatformAdmin env pw k r a)"
    and "\<And>s i t. db_ok s \<Longrightarrow> seedPlatformAdmin env pw k r a s = (Inr i, t) \<Longrightarrow> ?there t"
    unfolding advances_def by auto
  show "?there u" if "?there t" "grows t u" for t u
    using that grows_lookups(8,9)[OF that(2)] by metis
qed (auto simp: seedPlatformAdmin_def assms(2))

lemma sound_admins:
  assumes "sign_up_adds (se_auth env)" "se_host env' = se_host env"
  shows "sound (for_each (PLATFORM_ADMINS env) (seedPlatformAdmin env pw k r))
     (for_each (PLATFORM_ADMINS env') (seedPlatformAdmin env' pw' k r))"
proof (cases "is_production (se_host env)")
  case True
  then show ?thesis
    using assms by (auto simp: PLATFORM_ADMINS_def PRODUCTION_ADMINS_def simp del: ret_apply
        intro!: sound_then sound_ret sound_platform_admin)
next
  case False
  then show ?thesis
    using assms by (auto simp: PLATFORM_ADMINS_def intro!: sound_for_each sound_platform_admin)
qed

lemma settles_platform:
  assumes "sign_up_adds (se_auth env)" "sqids_plain (se_host env)" "se_host env' = se_host env"
  shows "settles db_ok grows quiet (seed_platform env pw) (seed_platform env' pw)"
proof -
  let ?wire = "\<lambda>e k g. bindE (ensurePlatformSuperAdminRole e k) (\<lambda>r. for_each (PLATFORM_ADMINS e) (seedPlatformAdmin e pw g r))"
  let ?perms = "\<lambda>e k. for_each PLATFORM_PERMISSIONS (seed_permission e k)"
  have wire: "settles db_ok quiet quiet (?wire env k g) (?wire env' k g)" for k g
    by (rule quiet.settles_seq[OF settles_super_admin_role settles_weaken[OF sound_admins[OF assms(1,3)]]])
      (auto intro: quiet_grows quiet.trans)
  have perms: "settles db_ok grows grows (?perms env k) (?perms env' k)" for k
    by (rule growth.settles_for_each[OF settles_seed_permission[OF assms(2)] growth.trans])
  have both: "settles db_ok grows quiet (thenE (?perms env k) (?wire env k g)) (thenE (?perms env' k) (?wire env' k g))" for k g
    unfolding thenE_def by (rule growth.settles_bind[OF perms wire]) (auto intro: quiet_grows growth.trans)
  have org: "settles db_ok grows quiet
      (bindE (ensure_platform_org env k) (\<lambda>g. thenE (?perms env k) (?wire env k g)))
      (bindE (ensure_platform_org env' k) (\<lambda>g. thenE (?perms env' k) (?wire env' k g)))" for k
    by (rule growth.settles_bind[OF sound_platform_rows(2) both]) (auto intro: quiet_grows growth.trans)
  show ?thesis
    unfolding seed_platform_def
    by (rule growth.settles_bind[OF sound_platform_rows(1) org]) (auto intro: quiet_grows growth.trans)
qed

section \<open>The demonstration data settles\<close>

lemma sound_findE:
  assumes "\<And>t u a. grows t u \<Longrightarrow> f t = Some a \<Longrightarrow> f u = Some a"
  shows "sound (findE f e) (findE f e)"
  by (rule settlesI) (auto simp: findE_ok quiet.idle dest: assms)

lemma sound_rs_rows:
  assumes "sign_up_adds (se_auth env)" "sqids_plain (se_host env)"
  shows "sound (rs_rows env pw) (rs_rows env' pw)"
proof -
  have own: "\<not> starts_with ''platform.'' n" if "n \<in> set RS_PERMISSIONS" for n
    using that by (auto simp: RS_PERMISSIONS_def starts_with_def)
  have user: "sound (ensure_rs_user env pw g a b x) (ensure_rs_user env' pw g a b x)" for g a b x
    by (cases x) (auto simp: ensure_rs_user_def intro!: sound_bind sound_ensure_member[OF assms(1)] sound_upserts)
  show ?thesis
    unfolding rs_rows_def
    by (intro sound_bind sound_then sound_ret sound_for_each sound_map_each sound_ensure_app sound_ensure_org
        sound_ensure_permission[OF assms(2)] sound_ensure_role user own)
qed

lemma sound_multitenant:
  assumes "sign_up_adds (se_auth env)" "sqids_plain (se_host env)"
  shows "sound (seedDemoMultitenant env pw) (seedDemoMultitenant env' pw)"
proof -
  have own: "\<not> starts_with ''platform.'' n" if "n \<in> set MT_PERMISSIONS" for n
    using that by (auto simp: MT_PERMISSIONS_def starts_with_def)
  have user: "sound (ensure_mt_user env pw a b q x) (ensure_mt_user env' pw a b q x)" for a b q x
    by (cases x) (auto simp: ensure_mt_user_def simp del: ret_apply
        intro!: sound_bind sound_ensure_member[OF assms(1)] sound_upserts sound_ret)
  have perm: "sound (findE (\<lambda>d. map_option perm_id (perm_by_name d n)) e) (findE (\<lambda>d. map_option perm_id (perm_by_name d n)) e)" for n e
    by (rule sound_findE) (auto dest: grows_lookups(6) simp: perm_kept_def)
  show ?thesis
    unfolding seedDemoMultitenant_def
    by (intro sound_bind sound_then sound_for_each sound_discard sound_ensure_app sound_ensure_org
        sound_ensure_permission[OF assms(2)] perm user own)
qed

text \<open>The state of \<open>main\<close> has the provider table beside the database.\<close>

definition beside :: "(db \<Rightarrow> db \<Rightarrow> bool) \<Rightarrow> seed_state \<Rightarrow> seed_state \<Rightarrow> bool" where
  "beside R x y \<longleftrightarrow> R (fst x) (fst y)"

definition same_table :: "(db \<Rightarrow> db \<Rightarrow> bool) \<Rightarrow> seed_state \<Rightarrow> seed_state \<Rightarrow> bool" where
  "same_table R x y \<longleftrightarrow> R (fst x) (fst y) \<and> snd y = snd x"

interpretation beside: later "beside grows"
  by unfold_locales (auto simp: beside_def growth.idle intro: growth.trans)

interpretation calm: later "beside quiet"
  by unfold_locales (auto simp: beside_def quiet.idle intro: quiet.trans)

interpretation same_table: later "same_table quiet"
  by unfold_locales (auto simp: same_table_def quiet.idle intro: quiet.trans)

lemma settles_on_db:
  "settles I R S m m' \<Longrightarrow> settles (\<lambda>x. I (fst x)) (same_table R) (beside S) (on_db m) (on_db m')"
  by (auto simp: settles_def on_db_def same_table_def beside_def split: prod.splits)

lemma upsert_settled:
  assumes "list_ex (\<lambda>r. pr_appId r = Some a \<and> pr_provider r = n) table"
    "\<And>r. r \<in> set table \<Longrightarrow> pr_appId r = Some a \<Longrightarrow> pr_provider r = n \<Longrightarrow> pr_enabled r = e"
  shows "upsert_provider a n e table = table"
  using assms by (simp add: upsert_provider_def map_idI)

lemma upsert_provider_twice: "upsert_provider a n e (upsert_provider a n e table) = upsert_provider a n e table"
proof -
  define mine where "mine r \<longleftrightarrow> pr_appId r = Some a \<and> pr_provider r = n" for r :: provider_row
  define g where "g r = (if mine r then r\<lparr>pr_enabled := e\<rparr> else r)" for r :: provider_row
  have g: "mine (g r) = mine r" "mine r \<Longrightarrow> pr_enabled (g r) = e" for r
    by (simp_all add: g_def mine_def)
  have new: "upsert_provider a n e table =
     (if list_ex mine table then map g table else table @ [\<lparr>pr_appId = Some a, pr_provider = n, pr_enabled = e\<rparr>])"
    by (simp add: upsert_provider_def mine_def[abs_def] g_def[abs_def])
  show ?thesis
  proof (cases "list_ex mine table")
    case True
    have "list_ex mine (map g table)" using True by (simp add: list_ex_iff g(1))
    moreover have "pr_enabled r = e" if "r \<in> set (map g table)" "mine r" for r
      using that g by auto
    ultimately show ?thesis
      unfolding new using True upsert_settled[of a n "map g table" e] by (simp add: mine_def[abs_def])
  next
    case False
    define x where "x = \<lparr>pr_appId = Some a, pr_provider = n, pr_enabled = e\<rparr>"
    have x: "mine x" "pr_enabled x = e" by (simp_all add: x_def mine_def)
    have "upsert_provider a n e (table @ [x]) = table @ [x]"
      using False x by (intro upsert_settled) (auto simp: list_ex_iff mine_def)
    with False show ?thesis by (simp add: new x_def)
  qed
qed

lemma settles_enable_stub:
  assumes "se_host env' = se_host env"
  shows "settles (\<lambda>x. I (fst x)) (beside (=)) (same_table quiet) (enable_stub env k) (enable_stub env' k)"
proof (cases "truthy (h_env (se_host env) ''E2E_STUB_IDP_URL'')")
  case True
  have "upsert_provider k ''stub'' True (snd u) = snd u" if "snd u = upsert_provider k ''stub'' True table" for u :: seed_state and table
    using that by (simp add: upsert_provider_twice)
  then show ?thesis
    using True assms by (intro settlesI) (auto simp: enable_stub_def beside_def same_table_def prod_eq_iff split: prod.splits)
qed (use assms in \<open>simp add: settles_def enable_stub_def beside_def\<close>)

lemma settles_demo:
  assumes "sign_up_adds (se_auth env)" "sqids_plain (se_host env)" "se_host env' = se_host env"
  shows "settles (\<lambda>x. db_ok (fst x)) (beside quiet) (same_table quiet)
    (seedDemoResourceServer env pw) (seedDemoResourceServer env' pw)"
  unfolding seedDemoResourceServer_def
  by (rule calm.settles_bind[OF settles_on_db[OF sound_rs_rows[OF assms(1,2)]] settles_enable_stub[OF assms(3)]])
    (auto simp: beside_def same_table_def quiet.idle quiet_grows)

lemma settles_main:
  assumes "sign_up_adds (se_auth env)" "sqids_plain (se_host env)" "se_host env' = se_host env"
    "\<not> seed_flag env ''SEED_E2E_OIDC''"
  shows "settles (\<lambda>x. db_ok (fst x)) (beside grows) (same_table quiet) (seed_main env) (seed_main env')"
proof -
  have flags: "seed_flag env' k = seed_flag env k" for k by (simp add: seed_flag_def assms(3))
  let ?demo = "\<lambda>e pw. if seed_flag env ''SEED_DEMO'' then seedDemoResourceServer e pw else ret ()"
  let ?mt = "\<lambda>e pw. if seed_flag env ''SEED_DEMO_MULTITENANT'' then on_db (seedDemoMultitenant e pw) else ret ()"
  have table: "settles (\<lambda>x. db_ok (fst x)) (same_table quiet) (same_table quiet) (on_db m) (on_db m')"
    if "sound m m'" for m m' :: "(db, unit) eff"
    by (rule settles_weaken[OF settles_on_db[OF that]]) (auto simp: same_table_def beside_def quiet_grows)
  have tail: "settles (\<lambda>x. db_ok (fst x)) (same_table quiet) (same_table quiet) (thenE (?mt env pw) (ret ())) (thenE (?mt env' pw) (ret ()))" for pw
    by (rule same_table.settles_then[OF _ same_table.settles_ret same_table.trans])
      (simp add: table sound_multitenant[OF assms(1,2)] same_table.settles_ret del: ret_apply)
  have demo: "settles (\<lambda>x. db_ok (fst x)) (beside quiet) (same_table quiet) (?demo env pw) (?demo env' pw)" for pw
    by (simp add: settles_demo[OF assms(1-3)] calm.settles_ret del: ret_apply)
  have demos: "settles (\<lambda>x. db_ok (fst x)) (beside quiet) (same_table quiet)
      (thenE (?demo env pw) (thenE (?mt env pw) (ret ()))) (thenE (?demo env' pw) (thenE (?mt env' pw) (ret ())))" for pw
    unfolding thenE_def[of "?demo env pw"] thenE_def[of "?demo env' pw"]
    by (rule calm.settles_bind[OF demo tail]) (auto simp: beside_def same_table_def quiet.idle intro: quiet.trans)
  have platform: "settles (\<lambda>x. db_ok (fst x)) (same_table grows) (beside quiet) (on_db (seed_platform env pw)) (on_db (seed_platform env' pw))" for pw
    by (rule settles_on_db[OF settles_platform[OF assms(1-3)]])
  have all: "settles (\<lambda>x. db_ok (fst x)) (beside grows) (same_table quiet)
      (thenE (on_db (seed_platform env pw)) (thenE (?demo env pw) (thenE (?mt env pw) (ret ()))))
      (thenE (on_db (seed_platform env' pw)) (thenE (?demo env' pw) (thenE (?mt env' pw) (ret ()))))" for pw
    unfolding thenE_def[of "on_db (seed_platform env pw)"] thenE_def[of "on_db (seed_platform env' pw)"]
    by (rule beside.settles_bind[OF platform demos])
      (auto simp: beside_def same_table_def quiet_grows intro: quiet.trans)
  have password: "settles (\<lambda>x. db_ok (fst x)) (=) (\<lambda>_ _. True)
      (liftR (\<lambda>_. resolveSeedPassword (se_host env))) (liftR (\<lambda>_. resolveSeedPassword (se_host env)))"
    by (rule settles_lift)
  show ?thesis
    unfolding seed_main_def flags if_not_P[OF assms(4)] assms(3)
    by (rule beside.settles_bind[OF password all]) (auto simp: beside.idle)
qed

section \<open>Running the seed again\<close>

text \<open>
  The comment of \<open>seedPlatformAdmin\<close> promises to resume wherever a previous run stopped. A run that died
  between the insert of the user and the grant is not resumed: the user row counts as completion, and the
  administrator stays without a right.
\<close>

lemma interrupted_admin_is_never_granted:
  assumes s: "db_ok s" and b: "user_by_email s (pa_email a) = Some b"
    and died: "new_seed_user env (usr_id b) k (pa_firstName a) (pa_lastName a) None s = (Inr i, t)"
  shows "seedPlatformAdmin env' pw k r a t = (Inr (), t)" "(i, x) \<notin> set (saUserRoles t)" "(i, x) \<notin> set (saUserPermissions t)"
proof -
  have "quiet s t" using advances_new_rows(4) s died unfolding advances_def by blast
  then obtain c where "user_by_email t (pa_email a) = Some c" "usr_id c = usr_id b"
    using grows_lookups(8)[OF quiet_grows b] by blast
  then show "seedPlatformAdmin env' pw k r a t = (Inr (), t)"
    using new_user_found[OF s died] by (auto simp: seedPlatformAdmin_def)
  have same: "saUserRoles t = saUserRoles s \<and> saUserPermissions t = saUserPermissions s \<and> i = nextId s SaUserT"
    using died
    by (auto simp: new_seed_user_def createWithPublicId_def eff_simps create_sa_user_def rename_sa_user_def Let_def
        split: if_splits option.splits dest: lookup_sound(7))
  have "nextId s SaUserT \<notin> sau_id ` set (saUsers s)" using s by (auto simp: db_ok_def seqs_ok_def)
  then show "(i, x) \<notin> set (saUserRoles t)" "(i, x) \<notin> set (saUserPermissions t)"
    using same s by (auto simp: db_ok_def fks_ok_def)
qed


text \<open>A production deployment from an empty database, seeded on two days with two passwords.\<close>

definition seeding_host :: host where
  "seeding_host = example_host\<lparr>h_env := map_of [(''NODE_ENV'', ''production''), (''SEED_ADMIN_PASSWORD'', ''pw''),
     (''SEED_DEMO_MULTITENANT'', ''1''), (''E2E_STUB_IDP_URL'', ''u'')]\<rparr>"

definition adding_auth :: better_auth where
  "adding_auth = (example_auth True)\<lparr>ba_signUpEmail := (\<lambda>e p n. thenE (create_user (example_user_row e e)) (ret e))\<rparr>"

definition seeding_env :: "int \<Rightarrow> seed_env" where
  "seeding_env day = \<lparr>se_host = seeding_host, se_auth = adding_auth, se_uuid = (\<lambda>n. n), se_now = day,
     se_random = (if day = 0 then ''a'' else ''b''), se_hash = (\<lambda>p. p)\<rparr>"

lemma adding_auth_adds: "sign_up_adds adding_auth"
proof -
  have "db_ok t \<and> appended d t \<and> saPermissions t = saPermissions d \<and> map_option usr_id (user_by_email t e) = Some i"
    if d: "db_ok d" "user_by_email d e = None" and run: "ba_signUpEmail adding_auth e p n d = (Inr i, t)" for e p n d i t
  proof -
    from run have new: "create_user (example_user_row e e) d = (Inr (example_user_row e e), t)" and i: "i = e"
      by (auto simp: adding_auth_def eff_simps create_user_def split: if_splits)
    have "t = d\<lparr>users := users d @ [example_user_row e e]\<rparr>" using new by (auto simp: create_user_def split: if_splits)
    then show ?thesis
      using keepsD[OF keeps_create_user d(1) new] d(2) i
      by (simp add: appended_def user_by_email_def find_snoc example_user_row_def)
  qed
  then show ?thesis unfolding sign_up_adds_def by blast
qed

lemma seeding_host_plain: "sqids_plain seeding_host"
  by (auto simp: sqids_plain_def seeding_host_def example_host_def)


end
