(* ===== verification/Provisioning.thy ===== *)
theory Provisioning
  imports Seeding
begin

text \<open>
  The rows of one customer app, \<open>seed/vibecast-migration.ts\<close>: the app with its redirect URIs, organisation,
  permissions, roles and administrator. Unlike the platform seed it leaves to the console what the console
  may have changed since: the URIs of a kind that has one, the defaults that are set.
\<close>

section \<open>Settings\<close>

definition requireEnvOutsideProd :: "host \<Rightarrow> string \<Rightarrow> string \<Rightarrow> err + string" where
  "requireEnvOutsideProd h n devFallback =
     (if truthy (h_env h n) then Inr (the (h_env h n))
      else if is_production h then Inl (JsError (n @ '' must be set when seeding vibecast in production''))
      else Inr devFallback)"

text \<open>\<open>process.env[k] || undefined\<close>\<close>

definition set_or_undefined :: "host \<Rightarrow> string \<Rightarrow> string option" where
  "set_or_undefined h k = (if truthy (h_env h k) then h_env h k else None)"

definition buildActivationEmailOverride :: "host \<Rightarrow> email_branding option" where
  "buildActivationEmailOverride h =
     (let b = \<lparr>fromName = set_or_undefined h ''VIBECAST_ACTIVATION_EMAIL_FROM_NAME'',
               fromAddress = set_or_undefined h ''VIBECAST_ACTIVATION_EMAIL_FROM_ADDRESS'',
               subject = set_or_undefined h ''VIBECAST_ACTIVATION_EMAIL_SUBJECT'',
               message = set_or_undefined h ''VIBECAST_ACTIVATION_EMAIL_MESSAGE''\<rparr> in
      if list_ex (\<lambda>v. v \<noteq> None) [fromName b, fromAddress b, subject b, message b] then Some b else None)"

definition VIBECAST_PERMISSIONS :: "string list" where
  "VIBECAST_PERMISSIONS =
     [''vibecast.admin.costs.read'', ''vibecast.admin.costs.write'', ''vibecast.admin.insights.read'',
      ''vibecast.admin.orgs.read'', ''vibecast.admin.orgs.write'', ''vibecast.app.admin'', ''vibecast.app.settings.read'',
      ''vibecast.app.settings.write'', ''vibecast.billing.read'', ''vibecast.billing.write'', ''vibecast.brands.read'',
      ''vibecast.brands.write'', ''vibecast.connections.delete'', ''vibecast.connections.read'',
      ''vibecast.connections.write'', ''vibecast.content.approve'', ''vibecast.content.delete'',
      ''vibecast.content.read'', ''vibecast.content.write'', ''vibecast.dashboard.read'', ''vibecast.member.delete'',
      ''vibecast.member.read'', ''vibecast.member.write'', ''vibecast.org.admin'', ''vibecast.org.member'',
      ''vibecast.org.settings.read'', ''vibecast.org.settings.write'', ''vibecast.org.viewer'',
      ''vibecast.settings.delete'', ''vibecast.settings.read'', ''vibecast.settings.write'']"

definition ROLE_PERMISSIONS :: "(string \<times> string list) list" where
  "ROLE_PERMISSIONS =
     [(''vibecast.app.admin'',
       [''vibecast.billing.write'', ''vibecast.billing.read'', ''vibecast.app.admin'', ''vibecast.brands.write'',
        ''vibecast.brands.read'', ''vibecast.settings.write'', ''vibecast.settings.delete'',
        ''vibecast.app.settings.write'', ''vibecast.app.settings.read'']),
      (''vibecast.org.admin'',
       [''vibecast.dashboard.read'', ''vibecast.content.approve'', ''vibecast.member.read'', ''vibecast.member.write'',
        ''vibecast.member.delete'', ''vibecast.settings.read'', ''vibecast.settings.write'',
        ''vibecast.org.settings.write'', ''vibecast.org.settings.read'', ''vibecast.connections.read'',
        ''vibecast.connections.write'']),
      (''vibecast.org.member'', [''vibecast.content.read'', ''vibecast.content.write'', ''vibecast.content.approve'']),
      (''vibecast.org.viewer'', [''vibecast.content.read''])]"

definition DEFAULT_ROLE_NAME :: string where
  "DEFAULT_ROLE_NAME = ''vibecast.org.admin''"

definition ADMIN_ROLES :: "string list" where
  "ADMIN_ROLES = [''vibecast.app.admin'', ''vibecast.org.admin'', ''vibecast.org.member'', ''vibecast.org.viewer'']"

section \<open>Steps\<close>

definition new_vibecast_app :: "seed_env \<Rightarrow> (db, int) eff" where
  "new_vibecast_app env =
     bindE (liftR (\<lambda>_. requireEnvOutsideProd (se_host env) ''VIBECAST_APP_URL'' ''https://localhost:3030'')) (\<lambda>url.
       new_seed_app env ''VibeCast'' ((seed_app [] [] url False)
         \<lparr>app_activationWebhookUrl := set_or_undefined (se_host env) ''VIBECAST_ACTIVATION_WEBHOOK_URL'',
          app_activationEmailOverride := buildActivationEmailOverride (se_host env)\<rparr>))"

definition ensure_vibecast_app :: "seed_env \<Rightarrow> (db, int) eff" where
  "ensure_vibecast_app env = ensure (\<lambda>d. app_by_name d ''VibeCast'') app_id (new_vibecast_app env)"

definition ensureRedirectUri :: "seed_env \<Rightarrow> int \<Rightarrow> string \<Rightarrow> string \<Rightarrow> (db, unit) eff" where
  "ensureRedirectUri env appId kind devFallback =
     bindE (readE (\<lambda>d. find (\<lambda>r. ru_appId r = appId \<and> ru_kind r = kind) (saRedirectUris d))) (\<lambda>existing. case existing of
       Some _ \<Rightarrow> ret ()
     | None \<Rightarrow>
         bindE (liftR (\<lambda>_. requireEnvOutsideProd (se_host env)
                  (if kind = ''login'' then ''VIBECAST_LOGIN_REDIRECT_URI'' else ''VIBECAST_LOGOUT_REDIRECT_URI'') devFallback))
           (\<lambda>uri. create_redirect_uris [\<lparr>ru_appId = appId, ru_uri = uri, ru_kind = kind\<rparr>]))"

definition ensurePermissions :: "seed_env \<Rightarrow> int \<Rightarrow> (db, (string \<times> int) list) eff" where
  "ensurePermissions env appId =
     bindE (map_each VIBECAST_PERMISSIONS (ensure_permission env appId)) (\<lambda>ids. ret (zip VIBECAST_PERMISSIONS ids))"

definition ensureRoles :: "seed_env \<Rightarrow> int \<Rightarrow> (string \<times> int) list \<Rightarrow> (db, (string \<times> int) list) eff" where
  "ensureRoles env appId permIdByName =
     map_each ROLE_PERMISSIONS (\<lambda>(roleName, permNames).
       bindE (ensure_role env appId roleName (map (\<lambda>n. the (map_of permIdByName n)) permNames)) (\<lambda>i. ret (roleName, i)))"

definition with_defaults :: "int \<Rightarrow> int \<Rightarrow> sa_app \<Rightarrow> sa_app" where
  "with_defaults orgId roleId a =
     a\<lparr>app_defaultOrgId := (if app_defaultOrgId a = None then Some orgId else app_defaultOrgId a),
       app_defaultRoleId := (if app_defaultRoleId a = None then Some roleId else app_defaultRoleId a)\<rparr>"

definition ensureAppDefaults :: "int \<Rightarrow> int \<Rightarrow> int \<Rightarrow> (db, unit) eff" where
  "ensureAppDefaults appId orgId roleId =
     bindE (findE (\<lambda>d. app_by_id d appId) P2025) (\<lambda>app.
       if app_defaultOrgId app \<noteq> None \<and> app_defaultRoleId app \<noteq> None then ret ()
       else discard (update_app appId (with_defaults orgId roleId)))"

definition ensureAdmin :: "seed_env \<Rightarrow> string \<Rightarrow> int \<Rightarrow> (string \<times> int) list \<Rightarrow> (db, unit) eff" where
  "ensureAdmin env password orgId roleIdByName =
     bindE (ensure_member env password ''admin@getvibecast.com'' ''VibeCast App Admin'' ''VibeCast'' ''App Admin''
              (Some ''vc_admin'') orgId) (\<lambda>u.
       for_each ADMIN_ROLES (\<lambda>n. upsert_user_role u (the (map_of roleIdByName n))))"

definition provision :: "seed_env \<Rightarrow> string \<Rightarrow> (db, unit) eff" where
  "provision env password =
     bindE (ensure_vibecast_app env) (\<lambda>appId.
     thenE (ensureRedirectUri env appId ''login'' ''https://localhost:3030/api/auth/callback'')
     (thenE (ensureRedirectUri env appId ''post_logout'' ''https://localhost:3030/api/auth/signout'')
     (bindE (ensure_org env appId ''VibeCast Default Org'') (\<lambda>orgId.
      bindE (ensurePermissions env appId) (\<lambda>permIdByName.
      bindE (ensureRoles env appId permIdByName) (\<lambda>roleIdByName.
      thenE (ensureAppDefaults appId orgId (the (map_of roleIdByName DEFAULT_ROLE_NAME)))
        (ensureAdmin env password orgId roleIdByName)))))))"

definition vibecast_main :: "seed_env \<Rightarrow> (db, unit) eff" where
  "vibecast_main env = bindE (liftR (\<lambda>_. resolveSeedPassword (se_host env))) (provision env)"

section \<open>Every step settles\<close>

lemma sound_vibecast_app: "sound (ensure_vibecast_app env) (ensure_vibecast_app env')"
  unfolding ensure_vibecast_app_def
proof (rule sound_ensure)
  show "advances db_ok quiet (new_vibecast_app env)"
    unfolding new_vibecast_app_def by (intro quiet.advances_bind quiet.advances_idle advances_new_rows)
  show "\<exists>r. app_by_name t ''VibeCast'' = Some r \<and> app_id r = i" if "db_ok s" "new_vibecast_app env s = (Inr i, t)" for s i t
    using that by (auto simp: new_vibecast_app_def eff_simps intro: new_app_found(1))
qed (auto dest: grows_lookups(1) simp: app_kept_def)

lemma sound_redirect_uri: "sound (ensureRedirectUri env k kind dflt) (ensureRedirectUri env' k kind dflt)"
proof (rule settles_done[where there = "\<lambda>_ t. \<exists>uri. (k, uri, kind) \<in> redirect_keys t"])
  have made: "db_ok t \<and> quiet s t \<and> (\<exists>uri. (k, uri, kind) \<in> redirect_keys t)"
    if s: "db_ok s" and run: "ensureRedirectUri env k kind dflt s = (Inr (), t)" for s t
  proof (cases "find (\<lambda>r. ru_appId r = k \<and> ru_kind r = kind) (saRedirectUris s)")
    case None
    with run obtain uri where new: "create_redirect_uris [\<lparr>ru_appId = k, ru_uri = uri, ru_kind = kind\<rparr>] s = (Inr (), t)"
      by (auto simp: ensureRedirectUri_def eff_simps)
    then have "(k, uri, kind) \<in> redirect_keys t"
      by (auto simp: create_redirect_uris_def redirect_keys_def split: if_splits)
    then show ?thesis using advances_create(9) s new unfolding advances_def by blast
  next
    case (Some r)
    then have "(k, ru_uri r, kind) \<in> redirect_keys s" using find_Some_iff[OF Some] by (auto simp: redirect_keys_def)
    then show ?thesis using run Some s by (auto simp: ensureRedirectUri_def quiet.idle)
  qed
  then show "advances db_ok quiet (ensureRedirectUri env k kind dflt)"
    and "\<And>s a t. db_ok s \<Longrightarrow> ensureRedirectUri env k kind dflt s = (Inr a, t) \<Longrightarrow> \<exists>uri. (k, uri, kind) \<in> redirect_keys t"
    unfolding advances_def by auto
  show "\<exists>uri. (k, uri, kind) \<in> redirect_keys u" if "\<exists>uri. (k, uri, kind) \<in> redirect_keys t" "grows t u" for t u
    using that by (auto simp: grows_def)
  show "ensureRedirectUri env' k kind dflt u = (Inr a, u)" if there: "\<exists>uri. (k, uri, kind) \<in> redirect_keys u" for a u
  proof -
    obtain r where "r \<in> set (saRedirectUris u)" "ru_appId r = k" "ru_kind r = kind" using there by (auto simp: redirect_keys_def)
    then have "find (\<lambda>r. ru_appId r = k \<and> ru_kind r = kind) (saRedirectUris u) \<noteq> None"
      by (auto simp: find_None_all simp del: not_None_eq)
    then obtain q where "find (\<lambda>r. ru_appId r = k \<and> ru_kind r = kind) (saRedirectUris u) = Some q" by blast
    then show ?thesis by (simp add: ensureRedirectUri_def)
  qed
qed

lemma sound_permissions:
  assumes "sqids_plain (se_host env)"
  shows "sound (ensurePermissions env k) (ensurePermissions env' k)"
proof -
  have "\<not> starts_with ''platform.'' n" if "n \<in> set VIBECAST_PERMISSIONS" for n
    using that by (auto simp: VIBECAST_PERMISSIONS_def starts_with_def)
  then show ?thesis
    unfolding ensurePermissions_def
    by (intro sound_bind sound_map_each sound_ret sound_ensure_permission[OF assms])
qed

lemma sound_roles: "sound (ensureRoles env k ps) (ensureRoles env' k ps)"
  unfolding ensureRoles_def
  by (rule sound_map_each) (auto simp del: ret_apply intro!: sound_bind sound_ensure_role sound_ret)

lemma advances_with_defaults: "advances db_ok quiet (update_app i (with_defaults g r))"
  by (rule advances_update_app) (auto simp: with_defaults_def app_kept_def)

lemma defaults_set:
  assumes "ensureAppDefaults k g r s = (Inr (), t)" "db_ok s"
  shows "db_ok t \<and> quiet s t \<and> (\<exists>a. app_by_id t k = Some a \<and> app_defaultOrgId a \<noteq> None \<and> app_defaultRoleId a \<noteq> None)"
proof -
  obtain a where a: "app_by_id s k = Some a" using assms(1) by (auto simp: ensureAppDefaults_def eff_simps)
  show ?thesis
  proof (cases "app_defaultOrgId a \<noteq> None \<and> app_defaultRoleId a \<noteq> None")
    case False
    with assms(1) a obtain x where upd: "update_app k (with_defaults g r) s = (Inr x, t)"
      by (auto simp: ensureAppDefaults_def discard_def eff_simps split: if_splits)
    have t: "db_ok t" "quiet s t" using advances_with_defaults assms(2) upd unfolding advances_def by blast+
    obtain b where b: "app_by_id t k = Some b" using grows_lookups(2)[OF quiet_grows[OF t(2)] a] by blast
    moreover have "b = with_defaults g r a"
      using upd a lookup_sound(3)[OF b]
      by (auto simp: update_app_def Let_def set_replace_row split: if_splits)
    ultimately show ?thesis using t by (simp add: with_defaults_def)
  qed (use assms a in \<open>auto simp: ensureAppDefaults_def eff_simps quiet.idle\<close>)
qed

lemma sound_defaults: "sound (ensureAppDefaults k g r) (ensureAppDefaults k g r)"
proof (rule settles_done[where there = "\<lambda>_ t. \<exists>a. app_by_id t k = Some a \<and> app_defaultOrgId a \<noteq> None \<and> app_defaultRoleId a \<noteq> None"])
  show "advances db_ok quiet (ensureAppDefaults k g r)"
    unfolding advances_def using defaults_set by auto
  show "\<exists>a. app_by_id t k = Some a \<and> app_defaultOrgId a \<noteq> None \<and> app_defaultRoleId a \<noteq> None"
    if "db_ok s" "ensureAppDefaults k g r s = (Inr x, t)" for s x t
    using defaults_set that by simp
  show "\<exists>a. app_by_id u k = Some a \<and> app_defaultOrgId a \<noteq> None \<and> app_defaultRoleId a \<noteq> None"
    if "\<exists>a. app_by_id t k = Some a \<and> app_defaultOrgId a \<noteq> None \<and> app_defaultRoleId a \<noteq> None" "grows t u" for t u
    using that grows_lookups(2)[OF that(2)] unfolding app_kept_def by blast
qed (auto simp: ensureAppDefaults_def eff_simps)

lemma sound_vibecast_admin:
  assumes "sign_up_adds (se_auth env)"
  shows "sound (ensureAdmin env pw g rs) (ensureAdmin env' pw' g rs)"
  unfolding ensureAdmin_def by (intro sound_bind sound_ensure_member[OF assms] sound_for_each sound_upserts)

section \<open>Running the migration again\<close>

text \<open>
  The comment of the file: safe to re-run, every step is find-or-create. A second run changes nothing, whatever
  its random numbers, its clock and the variables of its environment, as long as it finds a password to start with.
\<close>

theorem second_provisioning_changes_nothing:
  assumes ok: "db_ok d" and add: "sign_up_adds (se_auth env)" and plain: "sqids_plain (se_host env)"
    and run: "vibecast_main env d = (Inr (), t)" and pw: "resolveSeedPassword (se_host env') = Inr pw'"
  shows "vibecast_main env' t = (Inr (), t)"
proof -
  obtain pw where first: "provision env pw d = (Inr (), t)" using run by (auto simp: vibecast_main_def eff_simps)
  have "sound (provision env pw) (provision env' pw')"
    unfolding provision_def
    by (intro sound_bind sound_then sound_vibecast_app sound_redirect_uri sound_ensure_org sound_permissions[OF plain]
        sound_roles sound_defaults sound_vibecast_admin[OF add])
  from settlesD[OF this ok first] have "provision env' pw' t = (Inr (), t)" using growth.idle by blast
  then show ?thesis using pw by (simp add: vibecast_main_def)
qed

end
