(* ===== verification/Cleanup.thy ===== *)
theory Cleanup
  imports Rerun Listing
begin

text \<open>
  The removal of what the end-to-end tests left behind, \<open>seed/cleanup-e2e-data.ts\<close>: the rows whose names tell
  them, with everything that hangs on them, in one transaction. A dry run only counts.
\<close>

section \<open>What is selected\<close>

definition KEEP_APP_NAMES :: "string list" where
  "KEEP_APP_NAMES = [''SassyAuth'', ''E2E OIDC Client'']"

definition KEEP_ORG_NAMES :: "string list" where
  "KEEP_ORG_NAMES = [''Platform'', ''E2E OIDC Org'']"

definition KEEP_ROLE_NAMES :: "string list" where
  "KEEP_ROLE_NAMES = [''Platform Super Admin'']"

definition KEEP_EMAIL_DOMAINS :: "string list" where
  "KEEP_EMAIL_DOMAINS = [''@sa.io'']"

definition KEEP_EMAILS :: "string list" where
  "KEEP_EMAILS = [''contact@milissai.com'']"

definition isKeptEmail :: "string \<Rightarrow> bool" where
  "isKeptEmail email \<longleftrightarrow> email \<in> set KEEP_EMAILS \<or> list_ex (\<lambda>d. ends_with d email) KEEP_EMAIL_DOMAINS"

definition test_name :: "string \<Rightarrow> bool" where
  "test_name n \<longleftrightarrow> contains_insensitive ''e2e'' n \<or> contains_insensitive ''lifecycle'' n"

definition target_app :: "sa_app \<Rightarrow> bool" where
  "target_app a \<longleftrightarrow> \<not> app_isPlatform a \<and> app_name a \<notin> set KEEP_APP_NAMES \<and> test_name (app_name a)"

definition app_ids :: "db \<Rightarrow> int list" where
  "app_ids d = map app_id (filter target_app (saApps d))"

definition target_org :: "db \<Rightarrow> sa_org \<Rightarrow> bool" where
  "target_org d g \<longleftrightarrow> org_name g \<notin> set KEEP_ORG_NAMES \<and> (org_appId g \<in> set (app_ids d) \<or> test_name (org_name g))"

definition org_ids :: "db \<Rightarrow> int list" where
  "org_ids d = map org_id (filter (target_org d) (saOrgs d))"

definition target_role :: "db \<Rightarrow> sa_role \<Rightarrow> bool" where
  "target_role d r \<longleftrightarrow> role_name r \<notin> set KEEP_ROLE_NAMES \<and> (role_appId r \<in> set (app_ids d) \<or> test_name (role_name r))"

definition role_ids :: "db \<Rightarrow> int list" where
  "role_ids d = map role_id (filter (target_role d) (saRoles d))"

definition target_permission :: "db \<Rightarrow> sa_permission \<Rightarrow> bool" where
  "target_permission d p \<longleftrightarrow> \<not> perm_isSystem p \<and> (perm_appId p \<in> set (app_ids d) \<or> test_name (perm_name p))"

definition permission_ids :: "db \<Rightarrow> int list" where
  "permission_ids d = map perm_id (filter (target_permission d) (saPermissions d))"

definition email_of :: "db \<Rightarrow> sa_user \<Rightarrow> string" where
  "email_of d u = (case user_by_id d (sau_betterAuthUserId u) of None \<Rightarrow> [] | Some b \<Rightarrow> usr_email b)"

definition candidate_user :: "db \<Rightarrow> sa_user \<Rightarrow> bool" where
  "candidate_user d u \<longleftrightarrow> sau_orgId u \<in> set (org_ids d) \<or> test_name (email_of d u) \<or>
     contains_insensitive ''invite-e2e'' (email_of d u) \<or> contains_insensitive ''svc-target-'' (email_of d u)"

definition target_users :: "db \<Rightarrow> sa_user list" where
  "target_users d = filter (\<lambda>u. \<not> isKeptEmail (email_of d u)) (filter (candidate_user d) (saUsers d))"

section \<open>The deleting statements\<close>

text \<open>
  One \<open>deleteMany\<close> each, by a list of numbers. A row that still refers to a deleted one through a key without
  cascade makes the statement fail.
\<close>

definition clear_defaults :: "int list \<Rightarrow> (db, unit) eff" where
  "clear_defaults ids = modifyE (\<lambda>d. d\<lparr>saApps :=
     map (\<lambda>a. if app_id a \<in> set ids then a\<lparr>app_defaultOrgId := None, app_defaultRoleId := None\<rparr> else a) (saApps d)\<rparr>)"

definition delete_grants :: "int list \<Rightarrow> int list \<Rightarrow> int list \<Rightarrow> int list \<Rightarrow> (db, unit) eff" where
  "delete_grants uids rids pids aids = modifyE (\<lambda>d. d
     \<lparr>saUserRoles := filter (\<lambda>(u, r). \<not> (u \<in> set uids \<or> r \<in> set rids)) (saUserRoles d),
      saUserPermissions := filter (\<lambda>(u, p). \<not> (u \<in> set uids \<or> p \<in> set pids)) (saUserPermissions d),
      saInvitations := filter (\<lambda>i. inv_userId i \<notin> set uids) (saInvitations d),
      saUserConsents := filter (\<lambda>c. \<not> (con_saUserId c \<in> set uids \<or> con_appId c \<in> set aids)) (saUserConsents d),
      saRolePermissions := filter (\<lambda>(r, p). \<not> (r \<in> set rids \<or> p \<in> set pids)) (saRolePermissions d)\<rparr>)"

definition delete_sa_users :: "int list \<Rightarrow> (db, unit) eff" where
  "delete_sa_users ids = modifyE (\<lambda>d. d
     \<lparr>saUsers := filter (\<lambda>u. sau_id u \<notin> set ids) (saUsers d),
      saInvitations := filter (\<lambda>i. inv_userId i \<notin> set ids) (saInvitations d),
      saUserRoles := filter (\<lambda>x. fst x \<notin> set ids) (saUserRoles d),
      saUserPermissions := filter (\<lambda>x. fst x \<notin> set ids) (saUserPermissions d),
      saUserConsents := filter (\<lambda>c. con_saUserId c \<notin> set ids) (saUserConsents d)\<rparr>)"

definition delete_accounts :: "string list \<Rightarrow> (db, unit) eff" where
  "delete_accounts ids = (\<lambda>d.
     if list_ex (\<lambda>u. sau_betterAuthUserId u \<in> set ids) (saUsers d) then (Inl P2003, d)
     else (Inr (), d\<lparr>users := filter (\<lambda>u. usr_id u \<notin> set ids) (users d),
                     sessions := filter (\<lambda>s. ses_userId s \<notin> set ids) (sessions d),
                     accounts := filter (\<lambda>a. acc_userId a \<notin> set ids) (accounts d),
                     twoFactors := filter (\<lambda>t. tf_userId t \<notin> set ids) (twoFactors d)\<rparr>))"

definition delete_roles :: "int list \<Rightarrow> (db, unit) eff" where
  "delete_roles ids = (\<lambda>d.
     if list_ex (\<lambda>r. r \<in> set ids) (some_values (map app_defaultRoleId (saApps d))) then (Inl P2003, d)
     else (Inr (), d\<lparr>saRoles := filter (\<lambda>r. role_id r \<notin> set ids) (saRoles d),
                     saRolePermissions := filter (\<lambda>x. fst x \<notin> set ids) (saRolePermissions d),
                     saUserRoles := filter (\<lambda>x. snd x \<notin> set ids) (saUserRoles d)\<rparr>))"

definition delete_permissions :: "int list \<Rightarrow> (db, unit) eff" where
  "delete_permissions ids = modifyE (\<lambda>d. d
     \<lparr>saPermissions := filter (\<lambda>p. perm_id p \<notin> set ids) (saPermissions d),
      saRolePermissions := filter (\<lambda>x. snd x \<notin> set ids) (saRolePermissions d),
      saUserPermissions := filter (\<lambda>x. snd x \<notin> set ids) (saUserPermissions d)\<rparr>)"

definition delete_orgs :: "int list \<Rightarrow> (db, unit) eff" where
  "delete_orgs ids = (\<lambda>d.
     if list_ex (\<lambda>u. sau_orgId u \<in> set ids) (saUsers d) \<or>
        list_ex (\<lambda>g. g \<in> set ids) (some_values (map app_defaultOrgId (saApps d))) then (Inl P2003, d)
     else (Inr (), d\<lparr>saOrgs := filter (\<lambda>g. org_id g \<notin> set ids) (saOrgs d)\<rparr>))"

definition delete_apps :: "int list \<Rightarrow> (db, unit) eff" where
  "delete_apps ids = (\<lambda>d.
     if list_ex (\<lambda>g. org_appId g \<in> set ids) (saOrgs d) \<or> list_ex (\<lambda>r. role_appId r \<in> set ids) (saRoles d) \<or>
        list_ex (\<lambda>p. perm_appId p \<in> set ids) (saPermissions d) then (Inl P2003, d)
     else (Inr (), d\<lparr>saApps := filter (\<lambda>a. app_id a \<notin> set ids) (saApps d),
                     saRedirectUris := filter (\<lambda>r. ru_appId r \<notin> set ids) (saRedirectUris d),
                     saUserConsents := filter (\<lambda>c. con_appId c \<notin> set ids) (saUserConsents d)\<rparr>))"

section \<open>The run\<close>

definition nothing_selected :: "db \<Rightarrow> bool" where
  "nothing_selected d \<longleftrightarrow> app_ids d = [] \<and> org_ids d = [] \<and> role_ids d = [] \<and> permission_ids d = [] \<and> target_users d = []"

definition delete_selected :: "int list \<Rightarrow> int list \<Rightarrow> int list \<Rightarrow> int list \<Rightarrow> sa_user list \<Rightarrow> (db, unit) eff" where
  "delete_selected aids gids rids pids us =
     (let uids = map sau_id us in
      thenE (clear_defaults aids)
      (thenE (delete_grants uids rids pids aids)
      (thenE (delete_sa_users uids)
      (thenE (delete_accounts (map sau_betterAuthUserId us))
      (thenE (delete_roles rids)
      (thenE (delete_permissions pids)
      (thenE (delete_orgs gids) (delete_apps aids))))))))"

text \<open>\<open>process.exit(1)\<close> before anything else in production; the flag is \<open>--apply\<close>.\<close>

definition cleanup :: "host \<Rightarrow> bool \<Rightarrow> (db, unit) eff" where
  "cleanup h apply =
     (if (case h_env h ''NODE_ENV'' of None \<Rightarrow> ''development'' | Some e \<Rightarrow> e) = ''production''
      then raise (JsError ''Refusing to run cleanup-e2e-data against NODE_ENV=production.'')
      else bindE (readE (\<lambda>d. d)) (\<lambda>d.
        if \<not> apply \<or> nothing_selected d then ret ()
        else transaction (delete_selected (app_ids d) (org_ids d) (role_ids d) (permission_ids d) (target_users d))))"

section \<open>Integrity\<close>

definition cleared :: "int list \<Rightarrow> sa_app \<Rightarrow> sa_app" where
  "cleared ids a = (if app_id a \<in> set ids then a\<lparr>app_defaultOrgId := None, app_defaultRoleId := None\<rparr> else a)"

lemma cleared_columns [simp]:
  "app_id (cleared ids a) = app_id a" "app_publicId (cleared ids a) = app_publicId a" "app_name (cleared ids a) = app_name a"
  by (simp_all add: cleared_def)

lemma fewer_defaults:
  "set (some_values (map app_defaultOrgId (map (cleared ids) as))) \<subseteq> set (some_values (map app_defaultOrgId as))"
  "set (some_values (map app_defaultRoleId (map (cleared ids) as))) \<subseteq> set (some_values (map app_defaultRoleId as))"
  by (induction as) (auto simp: cleared_def split: option.splits if_splits)

lemma keeps_clear_defaults [keeps_intros]: "keeps db_ok (clear_defaults ids)"
proof (rule keeps_db_okI)
  fix d t assume ok: "keys_ok d" "fks_ok d" "seqs_ok d" and run: "snd (clear_defaults ids d) = t"
  have t: "t = d\<lparr>saApps := map (cleared ids) (saApps d)\<rparr>" using run by (simp add: clear_defaults_def cleared_def[abs_def])
  have "keys_ok t" using ok(1) by (simp add: t keys_ok_def o_def)
  moreover have "fks_ok t"
    using ok(2) subset_trans[OF fewer_defaults(1)] subset_trans[OF fewer_defaults(2)]
    by (simp add: t fks_ok_def image_image del: map_map)
  moreover have "seqs_ok t" using ok(3) by (auto simp: t seqs_ok_def)
  ultimately show "keys_ok t \<and> fks_ok t \<and> seqs_ok t" by simp
qed

lemma image_key_outside: "f ` {x \<in> S. f x \<notin> K} = f ` S - K"
  by auto

lemma subset_outside: "A \<subseteq> B \<Longrightarrow> (\<And>x. x \<in> A \<Longrightarrow> x \<notin> K) \<Longrightarrow> A \<subseteq> B - K"
  by blast

lemma diff_outside: "A \<subseteq> B \<Longrightarrow> A - K \<subseteq> B - K"
  by blast

lemma some_outside: "set (some_values (map f (filter P xs))) \<subseteq> set (some_values (map f xs))"
  by (induction xs) (auto split: option.splits)

lemmas outside = image_key_outside image_subset_filter diff_outside diff_subset
  subset_trans[OF some_outside]
lemmas fewer_keys = distinct_map_filter_keys distinct_some_filter distinct_filter

lemma keeps_deletions [keeps_intros]:
  "keeps db_ok (delete_grants us rs ps as)" "keeps db_ok (delete_sa_users us)" "keeps db_ok (delete_permissions ps)"
proof -
  show "keeps db_ok (delete_grants us rs ps as)"
    unfolding delete_grants_def
    by (rule keeps_modifyE) (simp add: db_ok_def keys_ok_def fks_ok_def seqs_ok_def fewer_keys outside)
  show "keeps db_ok (delete_sa_users us)"
    unfolding delete_sa_users_def
    by (rule keeps_modifyE) (simp add: db_ok_def keys_ok_def fks_ok_def seqs_ok_def fewer_keys outside)
  show "keeps db_ok (delete_permissions ps)"
    unfolding delete_permissions_def
    by (rule keeps_modifyE) (simp add: db_ok_def keys_ok_def fks_ok_def seqs_ok_def fewer_keys outside)
qed

lemma keeps_guarded_deletions [keeps_intros]:
  "keeps db_ok (delete_accounts bs)" "keeps db_ok (delete_roles rs)" "keeps db_ok (delete_orgs gs)" "keeps db_ok (delete_apps as)"
proof -
  show "keeps db_ok (delete_accounts bs)"
    by (rule keepsI) (auto simp: delete_accounts_def db_ok_def keys_ok_def fks_ok_def seqs_ok_def fewer_keys outside list_ex_iff
        split: if_splits intro!: subset_outside)
  show "keeps db_ok (delete_roles rs)"
    by (rule keepsI) (auto simp: delete_roles_def db_ok_def keys_ok_def fks_ok_def seqs_ok_def fewer_keys outside list_ex_iff
        split: if_splits intro!: subset_outside)
  show "keeps db_ok (delete_orgs gs)"
    by (rule keepsI) (auto simp: delete_orgs_def db_ok_def keys_ok_def fks_ok_def seqs_ok_def fewer_keys outside list_ex_iff
        split: if_splits intro!: subset_outside)
  show "keeps db_ok (delete_apps as)"
    by (rule keepsI) (auto simp: delete_apps_def db_ok_def keys_ok_def fks_ok_def seqs_ok_def fewer_keys outside list_ex_iff
        split: if_splits intro!: subset_outside)
qed

lemma keeps_cleanup: "keeps db_ok (cleanup h ap)"
  by (auto simp: cleanup_def delete_selected_def Let_def simp del: ret_apply intro!: keeps_intros)

section \<open>What goes and what stays\<close>

text \<open>Under unique numbers, deleting by the numbers of the selected rows deletes the selected rows.\<close>

lemma filter_by_number:
  "distinct (map key rows) \<Longrightarrow> filter (\<lambda>x. key x \<notin> set (map key (filter P rows))) rows = filter (\<lambda>x. \<not> P x) rows"
  by (rule filter_cong) (auto dest: distinct_map_eq)

lemma survivors_uncleared: "filter (\<lambda>a. app_id a \<notin> set ids) (map (cleared ids) as) = filter (\<lambda>a. app_id a \<notin> set ids) as"
  by (induction as) (auto simp: cleared_def)

lemma delete_selected_tables:
  assumes "delete_selected aids gids rids pids us d = (Inr (), t)"
  shows "saApps t = filter (\<lambda>a. app_id a \<notin> set aids) (saApps d)" "saOrgs t = filter (\<lambda>g. org_id g \<notin> set gids) (saOrgs d)"
    "saRoles t = filter (\<lambda>r. role_id r \<notin> set rids) (saRoles d)"
    "saPermissions t = filter (\<lambda>p. perm_id p \<notin> set pids) (saPermissions d)"
    "saUsers t = filter (\<lambda>u. sau_id u \<notin> set (map sau_id us)) (saUsers d)"
    "users t = filter (\<lambda>b. usr_id b \<notin> set (map sau_betterAuthUserId us)) (users d)"
  using assms
  by (auto simp: delete_selected_def Let_def eff_simps clear_defaults_def delete_grants_def delete_sa_users_def
      delete_accounts_def delete_roles_def delete_permissions_def delete_orgs_def delete_apps_def
      survivors_uncleared[unfolded cleared_def[abs_def]] split: if_splits)

lemma target_users_filter: "target_users d = filter (\<lambda>u. candidate_user d u \<and> \<not> isKeptEmail (email_of d u)) (saUsers d)"
  by (simp add: target_users_def conj_commute)

text \<open>
  An applied clean-up that succeeds deletes the selected rows, no other app, organisation, role, permission or
  user, and the accounts of the deleted users; the integrity of the database is kept, so nothing is left
  dangling. In production it never succeeds.
\<close>

theorem cleanup_removes_exactly_the_leftovers:
  assumes ok: "db_ok d" and run: "cleanup h True d = (Inr (), t)"
  shows "db_ok t" "h_env h ''NODE_ENV'' \<noteq> Some ''production''"
    "saApps t = filter (\<lambda>a. \<not> target_app a) (saApps d)" "saOrgs t = filter (\<lambda>g. \<not> target_org d g) (saOrgs d)"
    "saRoles t = filter (\<lambda>r. \<not> target_role d r) (saRoles d)"
    "saPermissions t = filter (\<lambda>p. \<not> target_permission d p) (saPermissions d)"
    "saUsers t = filter (\<lambda>u. \<not> (candidate_user d u \<and> \<not> isKeptEmail (email_of d u))) (saUsers d)"
    "users t = filter (\<lambda>b. usr_id b \<notin> set (map sau_betterAuthUserId (target_users d))) (users d)"
proof -
  show "db_ok t" using keepsD[OF keeps_cleanup ok run] .
  show "h_env h ''NODE_ENV'' \<noteq> Some ''production''" using run by (auto simp: cleanup_def)
  note ids = distinct_ids[OF ok]
  have "(saApps t = filter (\<lambda>a. \<not> target_app a) (saApps d) \<and> saOrgs t = filter (\<lambda>g. \<not> target_org d g) (saOrgs d) \<and>
    saRoles t = filter (\<lambda>r. \<not> target_role d r) (saRoles d)) \<and>
    (saPermissions t = filter (\<lambda>p. \<not> target_permission d p) (saPermissions d) \<and>
    saUsers t = filter (\<lambda>u. \<not> (candidate_user d u \<and> \<not> isKeptEmail (email_of d u))) (saUsers d) \<and>
    users t = filter (\<lambda>b. usr_id b \<notin> set (map sau_betterAuthUserId (target_users d))) (users d))"
  proof (cases "nothing_selected d")
    case True
    then have "t = d" using run by (auto simp: cleanup_def split: if_splits)
    then show ?thesis
      using True unfolding nothing_selected_def app_ids_def org_ids_def role_ids_def permission_ids_def target_users_filter
      by (auto simp: filter_empty_conv intro!: filter_True[symmetric])
  next
    case False
    then have "delete_selected (app_ids d) (org_ids d) (role_ids d) (permission_ids d) (target_users d) d = (Inr (), t)"
      using run by (auto simp: cleanup_def transaction_ok split: if_splits)
    note delete_selected_tables[OF this]
    then show ?thesis
      unfolding app_ids_def org_ids_def role_ids_def permission_ids_def target_users_filter
        filter_by_number[OF ids(1)] filter_by_number[OF ids(2)] filter_by_number[OF ids(3)] filter_by_number[OF ids(5)]
        filter_by_number[OF ids(6)] by blast
  qed
  then show "saApps t = filter (\<lambda>a. \<not> target_app a) (saApps d)" "saOrgs t = filter (\<lambda>g. \<not> target_org d g) (saOrgs d)"
    "saRoles t = filter (\<lambda>r. \<not> target_role d r) (saRoles d)"
    "saPermissions t = filter (\<lambda>p. \<not> target_permission d p) (saPermissions d)"
    "saUsers t = filter (\<lambda>u. \<not> (candidate_user d u \<and> \<not> isKeptEmail (email_of d u))) (saUsers d)"
    "users t = filter (\<lambda>b. usr_id b \<notin> set (map sau_betterAuthUserId (target_users d))) (users d)" by blast+
qed

text \<open>
  An organisation is kept by its name whatever app it belongs to. A left-over app with an organisation named as a
  permanent one therefore blocks the clean-up: the app cannot go before its organisation, and the run fails as a whole.
\<close>

lemma kept_org_blocks_cleanup:
  assumes ok: "db_ok d" and a: "a \<in> set (saApps d)" "target_app a"
    and g: "g \<in> set (saOrgs d)" "org_appId g = app_id a" "org_name g \<in> set KEEP_ORG_NAMES"
  shows "\<exists>e. cleanup h True d = (Inl e, d)"
proof (cases "cleanup h True d")
  case (Pair r t)
  show ?thesis
  proof (cases r)
    case (Inl e)
    then show ?thesis using Pair by (auto simp: cleanup_def transaction_err split: if_splits)
  next
    case (Inr v)
    then have run: "cleanup h True d = (Inr (), t)" using Pair by simp
    note left = cleanup_removes_exactly_the_leftovers[OF ok run]
    have "g \<in> set (saOrgs t)" using g by (simp add: left(4) target_org_def)
    moreover have "org_appId ` set (saOrgs t) \<subseteq> app_id ` set (saApps t)" using left(1) by (simp add: db_ok_def fks_ok_def)
    ultimately have "app_id a \<in> app_id ` set (saApps t)" using g(2) by (metis imageI subsetD)
    then obtain b where "b \<in> set (saApps d)" "\<not> target_app b" "app_id b = app_id a" by (auto simp: left(3))
    then show ?thesis using distinct_map_eq[OF distinct_ids(1)[OF ok]] a by metis
  qed
qed

end
