(* ===== verification/Spec2Isabelle.thy ===== *)
theory Spec2Isabelle
  imports Session_Endpoints Service_Users Token_Grants Authorize User_Access Rate_Limits Server Auth_Hooks
    Admin_Login Input_Policy Outgoing_Text Provisioning Cleanup
begin

text \<open>
  A verification library for SassyAuth: the authorization server of \<open>apps/auth-server\<close> and what the admin
  console of \<open>apps/admin\<close> does between the browser and that server.

  \<^bold>\<open>The program.\<close> The server is an OAuth 2.1 and OpenID Connect provider for many apps. An app has organisations,
  an organisation has users, a user has roles and direct permissions of the app. Browsers sign in through endpoints
  of the better-auth package under \<open>/api/auth\<close>; the hooks of \<open>auth/auth.config.ts\<close> decide whether a session may come
  into being. With a session a browser obtains an authorization code, a client exchanges the code for tokens and
  rotates refresh tokens; administrators manage users, roles, permissions, organisations and apps; newcomers register
  or accept an invitation. The admin console checks the session cookie before it serves a page and forwards the
  cookies the server sets. All of it shares one database, whose constraints are the only arbiter between
  concurrent requests.

  \<^bold>\<open>How it is modelled.\<close> The database is a record of tables (\<open>Schema\<close>), one record type per model of
  \<open>packages/db/schema.prisma\<close>, a table a list of rows, an id an integer and a public id a string. A
  handler is a function of its inputs and the clock into \<open>('s, 'a) eff\<close>, a state transformer whose outcome is an
  exception or a value (\<open>Prelude\<close>); the state survives an exception as committed writes do, and \<open>transaction\<close>
  restores it. Exceptions are values of the datatype \<open>err\<close>, so each early return and each throw of the source is a
  branch. Two requests that overlap are the sequence of their database statements where the code has more than one:
  the check and the commit of a rotation are separate operations, and so are the steps of a redemption. All times are
  milliseconds (token claims: seconds). Everything is total: there is no fuel, since the sources have no unbounded
  loop. The splitters and scanners that do not recurse on a tail have their termination proof beside them (\<open>split_ws\<close>,
  \<open>lex_json\<close>, \<open>renderTemplate\<close>).

  \<^bold>\<open>Foundations.\<close>
  \<^item> \<open>Prelude\<close>: exceptions, effects, their combinators, the collections \<open>eff_simps\<close> (what an effect returns) and
    \<open>keeps_intros\<close> (an invariant survives an effect), lists.
  \<^item> \<open>Js_Text\<close>, \<open>Json\<close>: the string functions of the JavaScript library, percent encoding and query strings; \<open>JSON.parse\<close>
    as a lexer and a pushdown automaton, with its round trip.
  \<^item> \<open>Schema\<close>, \<open>Tables\<close>, \<open>Guarded_Tables\<close>: rows, unique and foreign keys as the invariant \<open>db_ok\<close>, the effect of each
    Prisma call on them; \<open>Guarded_Tables\<close> has the locale \<open>stable_view\<close>.
  \<^item> \<open>Host\<close>, \<open>Example_Data\<close>: what is not in the repository, as the record \<open>host\<close> (sqids, hashes, jsonwebtoken, URL
    parser, environment), \<open>Number\<close>; a small world at which the theorems with hypotheses are instantiated.
  \<^item> \<open>Single_Use\<close>: the locale of a store whose entries are redeemed at most once.

  \<^bold>\<open>Tokens\<close> (\<open>src/token\<close>, \<open>src/service-users\<close>).
  \<^item> \<open>Scopes\<close>, \<open>Client_Auth\<close>: \<open>scopes.ts\<close>, \<open>amr.ts\<close>, \<open>client-auth.ts\<close>, \<open>redirect-uri.ts\<close>, error redirects, discovery,
    trust days. The column \<open>amr\<close> round-trips.
  \<^item> \<open>Oauth_Codes\<close>: \<open>oauth.service.ts\<close> and the sweep of expired codes. A code is exchanged at most once whatever happens
    in between, and in time it returns the grant it was made for.
  \<^item> \<open>Refresh_Tokens\<close>: \<open>refresh-token.service.ts\<close>. At most one live token per family in every reachable state, a reused
    token burns its family, a race between two rotations has one winner, a family ends after ninety days.
  \<^item> \<open>Token_Service\<close>: claims of access, id and service tokens and their verification. Permissions in a token are the
    effective ones; service and user tokens are not interchangeable.
  \<^item> \<open>Authorize\<close>, \<open>Token_Grants\<close>, \<open>Session_Endpoints\<close>: the handlers of \<open>token.controller.ts\<close>. A code is issued exactly to
    those entitled, each grant hands out tokens only on a redeemed credential, no redirect leaves the registered
    addresses, direct login answers all failures alike.
  \<^item> \<open>Service_Users\<close>: machine callers stay within their app.

  \<^bold>\<open>Administration\<close> (\<open>src/users\<close>, \<open>roles\<close>, \<open>permissions\<close>, \<open>orgs\<close>, \<open>apps\<close>, \<open>common/permissions\<close>).
  \<^item> \<open>Authz\<close>: the permission gates and the scope of lists. \<open>Listing\<close>: search and paging.
  \<^item> \<open>Users\<close>, \<open>User_Access\<close>: every operation of the users service, confined to the rows of its target; deactivation ends
    sessions and tokens; roles are set within bounds.
  \<^item> \<open>Roles\<close>, \<open>Permissions\<close>, \<open>Orgs\<close>, \<open>Apps\<close>, \<open>Passwords\<close>: the other services and the password policy. Reserved
    permissions and platform rows stay as they are; an update writes exactly the fields given.

  \<^bold>\<open>Joining and signing in\<close> (\<open>src/invitations\<close>, \<open>activation\<close>, \<open>registration\<close>, \<open>me\<close>, \<open>social\<close>, \<open>auth\<close>).
  \<^item> \<open>Invitations\<close>, \<open>Activation\<close>, \<open>Consent\<close>, \<open>Registration\<close>: acceptance of an invitation, the signed webhook and its
    retries, consent documents, both registration flows with their compensations, the sweep of abandoned sign-ups.
  \<^item> \<open>Rate_Limits\<close>: the two limiters refine one specification that counts each client alone.
  \<^item> \<open>Social\<close>: providers, the Apple client secret, refused callbacks, the audit of federation, the account of a first
    sign-in. \<open>Auth_Hooks\<close>: the hooks of \<open>auth.config.ts\<close> over the database and the asynchronous context of a request
    (record \<open>request_scope\<close>): no session without an active user, reset links obey the policy, consent comes first.
  \<^item> \<open>Server\<close>: every operation as a step relation; constraints, defaults and the platform hold in every reachable state.

  \<^bold>\<open>The admin console and what goes out.\<close>
  \<^item> \<open>Admin_Gateway\<close>: \<open>middleware.ts\<close> with its cache, the check of the page to go on to, \<open>lib/\<close>. An admitted session was
    vouched for less than ten seconds before.
  \<^item> \<open>Set_Cookie\<close>, \<open>Admin_Login\<close>: reading a combined \<open>Set-Cookie\<close> header and forwarding cookies; the server actions
    around signing in and out. An action's state is its cookie store, the cookies it sets and the requests it sends.
  \<^item> \<open>Input_Policy\<close>, \<open>Outgoing_Text\<close>: app addresses and images; mails, logged addresses, error bodies, telemetry relay.

  \<^bold>\<open>Rows a deployment starts with\<close> (\<open>src/seed\<close>).
  \<^item> \<open>Rerun\<close>: what it takes for a program to settle (run again on its own result it returns the same and writes
    nothing), how settled steps compose along the relations \<open>grows\<close> and \<open>quiet\<close>, and which rows every statement of
    the seeds leaves to be found again.
  \<^item> \<open>Seeding\<close>, \<open>Provisioning\<close>: the platform with its administrators, the demonstration data, the rows of one customer
    app; a second run changes nothing. \<open>Cleanup\<close>: the removal of test data deletes exactly the selected rows.

  \<^bold>\<open>Interfaces.\<close> \<open>permission_gate\<close> (\<open>Authz\<close>: a gate admits only a known caller who holds one of the listed permissions, and a
  longer list never shuts one out; interpreted on the three gates), \<open>single_use\<close> (interpreted on codes, refresh tokens and invitations),
  \<open>stable_view\<close> (operations that leave a part of the database alone; interpreted on organisations and on reserved
  permissions), \<open>request_limiter\<close> and its extension \<open>capped_limiter\<close> (interpreted on the registration guard and on
  the limiter of \<open>/api/auth\<close>), \<open>later\<close> (what counts as a later state; interpreted on
  the relations the seeds move along). The properties rest on the facts of these interpretations. \<open>provider_id\<close> is an instance of
  \<open>linorder\<close>, the order of the buttons.

  \<^bold>\<open>Parameters.\<close> The record \<open>host\<close>; what better-auth does in its own endpoints (record \<open>better_auth\<close> in \<open>Registration\<close>, and
  arguments for its sign-up, code, reset and sign-out calls); the country of an address; the outcome of a webhook
  delivery; the signing of the Apple secret; for the console the answers of the authorization server as a function of
  the request, and the parsing of dates. Where a theorem relies on one of them the hypothesis is named (such as
  \<open>jwt_faithful\<close>: a token this server signed verifies to its own payload).

  \<^bold>\<open>Not modelled.\<close>
  \<^item> The React pages and components of the console, the UI package and its styles: presentation.
  \<^item> The one-line wrappers around \<open>apiFetch\<close> in the console, the choice of its language, generated API documentation.
  \<^item> The better-auth, Prisma, Nest, Next and jsonwebtoken packages themselves, and the static options handed to them.
  \<^item> The deployment pipeline, database migrations and build scripts: calls to a hosting provider, outside the server.
  \<^item> Metrics, tracing, log transports and mail transports; the plain-text halves of the mails.
  \<^item> The table of verification values (better-auth's own); \<open>SaSocialProvider\<close> is a list beside the database, so the
    cascade from a deleted app to its settings is not shown. Sequences do not roll back in the database and do here.
  \<^item> Characters above Latin-1, the rounding of \<open>Number\<close> to a double, failures of the database other than
    constraint violations, except in \<open>Social\<close>, where each statement may fail.
\<close>

end
